(* ===== verification/Rust_Prelude.thy ===== *)
theory Rust_Prelude
  imports Main "HOL-Library.Word" "HOL-Library.List_Lexorder" "HOL-Library.Char_ord"
begin

text \<open>
  What every component of the daemon uses of Rust and of its standard library: results, checked and
  saturating machine arithmetic, byte strings with the methods of \<open>str\<close> that the sources call,
  decimal printing and parsing, and UTF-8 validity. A Rust \<open>str\<close> is its list of bytes
  (\<open>string\<close>, a \<open>char\<close> being a byte); the derived order of Rust on \<open>str\<close> is the
  lexicographic byte order, which is the one \<open>List_Lexorder\<close> and \<open>Char_ord\<close> install.
\<close>

section \<open>Results\<close>

type_synonym u8 = "8 word"
type_synonym u16 = "16 word"
type_synonym u32 = "32 word"
type_synonym u64 = "64 word"

text \<open>\<open>Result<T, String>\<close>: the error is the text the source builds.\<close>

type_synonym 'a result = "string + 'a"

abbreviation Ok :: "'a \<Rightarrow> 'a result" where "Ok \<equiv> Inr"
abbreviation Err :: "string \<Rightarrow> 'a result" where "Err \<equiv> Inl"

named_theorems result_simps \<open>equations of the result combinators\<close>
named_theorems result_dests \<open>inversion of a successful result\<close>

text \<open>\<open>and_then\<close> is the \<open>?\<close> operator: the first error is returned.\<close>

definition and_then :: "'a result \<Rightarrow> ('a \<Rightarrow> 'b result) \<Rightarrow> 'b result" where
  "and_then m f = (case m of Inl e \<Rightarrow> Inl e | Inr x \<Rightarrow> f x)"

definition ok_or :: "'a option \<Rightarrow> string \<Rightarrow> 'a result" where
  "ok_or m e = (case m of None \<Rightarrow> Err e | Some x \<Rightarrow> Ok x)"

text \<open>\<open>reject c e\<close> is the statement \<open>if c { return Err(e) }\<close>.\<close>

definition reject :: "bool \<Rightarrow> string \<Rightarrow> unit result" where
  "reject c e = (if c then Err e else Ok ())"

definition is_ok :: "'a result \<Rightarrow> bool" where
  "is_ok r = (case r of Inl _ \<Rightarrow> False | Inr _ \<Rightarrow> True)"

definition is_err :: "'a result \<Rightarrow> bool" where
  "is_err r = (\<not> is_ok r)"

lemma and_then_simps [simp, result_simps]:
  "and_then (Inr x) f = f x"
  "and_then (Inl e) f = Inl e"
  by (simp_all add: and_then_def)

lemma and_then_Inr_iff [result_dests]:
  "and_then m f = Inr y \<longleftrightarrow> (\<exists>x. m = Inr x \<and> f x = Inr y)"
  by (cases m) auto

lemma and_then_OkE:
  assumes "and_then m f = Inr y"
  obtains x where "m = Inr x" "f x = Inr y"
  using assms by (cases m) auto

lemma case_prod_eqE:
  assumes "(case p of (a, b) \<Rightarrow> g a b) = z"
  obtains a b where "p = (a, b)" "g a b = z"
  using assms by (cases p) auto

lemma case_prod_appE:
  assumes "(case p of (a, b) \<Rightarrow> g a b) w = z"
  obtains a b where "p = (a, b)" "g a b w = z"
  using assms by (cases p) auto

lemma canonical_OkE:
  assumes "(if t \<noteq> s then Inl e else Inr q) = Inr r"
  obtains "t = s" "q = r"
  using assms by (cases "t = s") auto

lemma and_then_Inl_iff:
  "and_then m f = Inl e \<longleftrightarrow> m = Inl e \<or> (\<exists>x. m = Inr x \<and> f x = Inl e)"
  by (cases m) auto

lemma ok_or_simps [simp, result_simps]:
  "ok_or (Some x) e = Inr x"
  "ok_or None e = Inl e"
  by (simp_all add: ok_or_def)

lemma ok_or_Inr_iff [simp, result_dests]: "ok_or m e = Inr x \<longleftrightarrow> m = Some x"
  by (cases m) auto

lemma reject_Inr_iff [simp, result_dests]: "reject c e = Inr u \<longleftrightarrow> \<not> c"
  by (simp add: reject_def)

lemma reject_Inl_iff [simp]: "reject c e = Inl x \<longleftrightarrow> c \<and> e = x"
  by (auto simp: reject_def)

lemma reject_simps [simp, result_simps]:
  "reject False e = Inr ()"
  "reject True e = Inl e"
  by (simp_all add: reject_def)

lemma is_ok_simps [simp]: "is_ok (Inr x)" "\<not> is_ok (Inl e)"
  by (simp_all add: is_ok_def)

lemma is_ok_iff: "is_ok r \<longleftrightarrow> (\<exists>x. r = Inr x)"
  by (cases r) auto

lemma is_err_simps [simp]: "is_err (Inl e)" "\<not> is_err (Inr x)"
  by (simp_all add: is_err_def)

lemma is_ok_unit [simp]: "is_ok (r :: unit result) \<longleftrightarrow> r = Inr ()"
  by (cases r) auto

lemma is_ok_and_then_unit: "is_ok (and_then (m :: unit result) f) \<longleftrightarrow> m = Inr () \<and> is_ok (f ())"
  by (cases m) auto

lemma result_unit_cases: "(m :: unit result) = Inr () \<or> (\<exists>e. m = Inl e)"
  by (cases m) auto

section \<open>Machine arithmetic\<close>

definition checked_add :: "'l::len word \<Rightarrow> 'l word \<Rightarrow> 'l word option" where
  "checked_add a b = (if unat a + unat b < 2 ^ LENGTH('l) then Some (a + b) else None)"

definition checked_sub :: "'l::len word \<Rightarrow> 'l word \<Rightarrow> 'l word option" where
  "checked_sub a b = (if b \<le> a then Some (a - b) else None)"

definition checked_mul :: "'l::len word \<Rightarrow> 'l word \<Rightarrow> 'l word option" where
  "checked_mul a b = (if unat a * unat b < 2 ^ LENGTH('l) then Some (a * b) else None)"

definition saturating_sub :: "'l::len word \<Rightarrow> 'l word \<Rightarrow> 'l word" where
  "saturating_sub a b = (if b \<le> a then a - b else 0)"

definition saturating_add :: "'l::len word \<Rightarrow> 'l word \<Rightarrow> 'l word" where
  "saturating_add a b = (if unat a + unat b < 2 ^ LENGTH('l) then a + b else - 1)"

definition saturating_mul :: "'l::len word \<Rightarrow> 'l word \<Rightarrow> 'l word" where
  "saturating_mul a b = (if unat a * unat b < 2 ^ LENGTH('l) then a * b else - 1)"

lemma checked_add_Some_iff:
  "checked_add a b = Some (c :: 'l::len word) \<longleftrightarrow> unat a + unat b = unat c"
proof
  assume "checked_add a b = Some c"
  then show "unat a + unat b = unat c"
    by (auto simp: checked_add_def unat_word_ariths split: if_splits)
next
  assume eq: "unat a + unat b = unat c"
  then have bound: "unat a + unat b < 2 ^ LENGTH('l)"
    by (simp add: unsigned_less)
  moreover from eq bound have "a + b = c"
    by (simp add: word_unat_eq_iff unat_word_ariths)
  ultimately show "checked_add a b = Some c"
    by (simp add: checked_add_def)
qed

lemma checked_add_SomeD: "checked_add a b = Some c \<Longrightarrow> unat c = unat a + unat b"
  by (simp add: checked_add_Some_iff)

lemma unat_sub_le: "b \<le> a \<Longrightarrow> unat (a - b) = unat a - unat (b :: 'l::len word)"
  by (simp add: unat_sub word_le_nat_alt)

lemma checked_sub_Some_iff:
  "checked_sub a b = Some (c :: 'l::len word) \<longleftrightarrow> unat a = unat b + unat c"
proof
  assume "checked_sub a b = Some c"
  then show "unat a = unat b + unat c"
    by (auto simp: checked_sub_def unat_sub_le word_le_nat_alt split: if_splits)
next
  assume eq: "unat a = unat b + unat c"
  then have "b \<le> a"
    by (simp add: word_le_nat_alt)
  moreover from this eq have "a - b = c"
    by (simp add: word_unat_eq_iff unat_sub_le)
  ultimately show "checked_sub a b = Some c"
    by (simp add: checked_sub_def)
qed

lemma unat_saturating_sub: "unat (saturating_sub a b) = unat a - unat (b :: 'l::len word)"
  by (auto simp: saturating_sub_def unat_sub_le word_le_nat_alt)

lemma unat_saturating_mul: "unat (saturating_mul a b) = min (unat a * unat b) (2 ^ LENGTH('l) - 1)"
  for a b :: "'l::len word"
  by (auto simp: saturating_mul_def unat_word_ariths unsigned_minus_1_eq_mask mask_eq_exp_minus_1)

lemma checked_mul_Some_iff: "checked_mul a b = Some c \<longleftrightarrow> unat a * unat b = unat c"
  for a b c :: "'l::len word"
  by (auto simp: checked_mul_def unat_word_ariths word_unat_eq_iff unsigned_less)

lemma unat_min_word: "unat (min a b) = min (unat a) (unat (b :: 'l::len word))"
  by (auto simp: min_def word_le_nat_alt)

lemma unat_max_word: "unat (max a b) = max (unat a) (unat (b :: 'l::len word))"
  by (auto simp: max_def word_le_nat_alt)

lemmas word_to_nat = word_le_nat_alt word_less_nat_alt word_unat_eq_iff
  unat_saturating_sub unat_min_word unat_max_word

section \<open>Bytes and strings\<close>

definition byte :: "char \<Rightarrow> nat" where
  "byte c = of_char c"

definition is_ascii_digit :: "char \<Rightarrow> bool" where
  "is_ascii_digit c = (48 \<le> byte c \<and> byte c \<le> 57)"

definition is_ascii_lowercase :: "char \<Rightarrow> bool" where
  "is_ascii_lowercase c = (97 \<le> byte c \<and> byte c \<le> 122)"

definition is_ascii_uppercase :: "char \<Rightarrow> bool" where
  "is_ascii_uppercase c = (65 \<le> byte c \<and> byte c \<le> 90)"

definition is_ascii_alphanumeric :: "char \<Rightarrow> bool" where
  "is_ascii_alphanumeric c = (is_ascii_digit c \<or> is_ascii_lowercase c \<or> is_ascii_uppercase c)"

definition is_ascii_control :: "char \<Rightarrow> bool" where
  "is_ascii_control c = (byte c < 32 \<or> byte c = 127)"

text \<open>\<open>byte.is_ascii_digit() || (b'a'..=b'f').contains(&byte)\<close>.\<close>

definition is_lower_hex_digit :: "char \<Rightarrow> bool" where
  "is_lower_hex_digit c = (is_ascii_digit c \<or> (97 \<le> byte c \<and> byte c \<le> 102))"

abbreviation LF :: char where "LF \<equiv> CHR 0x0A"
abbreviation TAB :: char where "TAB \<equiv> CHR 0x09"
abbreviation CR :: char where "CR \<equiv> CHR 0x0D"

definition starts_with :: "string \<Rightarrow> string \<Rightarrow> bool" where
  "starts_with s p = (take (length p) s = p)"

definition strip_prefix :: "string \<Rightarrow> string \<Rightarrow> string option" where
  "strip_prefix s p = (if starts_with s p then Some (drop (length p) s) else None)"

definition ends_with_char :: "string \<Rightarrow> char \<Rightarrow> bool" where
  "ends_with_char s c = (s \<noteq> [] \<and> last s = c)"

text \<open>\<open>haystack.contains(needle)\<close>.\<close>

fun contains_str :: "string \<Rightarrow> string \<Rightarrow> bool" where
  "contains_str [] p = (p = [])"
| "contains_str (c # s) p = (starts_with (c # s) p \<or> contains_str s p)"

text \<open>\<open>s.split_once(c)\<close>: the parts before and after the first \<open>c\<close>.\<close>

fun split_once :: "char \<Rightarrow> string \<Rightarrow> (string \<times> string) option" where
  "split_once c [] = None"
| "split_once c (x # s) =
     (if x = c then Some ([], s)
      else map_option (\<lambda>(a, b). (x # a, b)) (split_once c s))"

text \<open>\<open>s.split(c)\<close>: always at least one part.\<close>

fun split_char :: "char \<Rightarrow> string \<Rightarrow> string list" where
  "split_char c [] = [[]]"
| "split_char c (x # s) =
     (if x = c then [] # split_char c s
      else (case split_char c s of [] \<Rightarrow> [[x]] | p # ps \<Rightarrow> (x # p) # ps))"

text \<open>\<open>s.splitn(n, c)\<close>: at most \<open>n\<close> parts, the last one unsplit.\<close>

fun splitn :: "nat \<Rightarrow> char \<Rightarrow> string \<Rightarrow> string list" where
  "splitn 0 c s = []"
| "splitn (Suc 0) c s = [s]"
| "splitn (Suc (Suc n)) c s =
     (case split_once c s of None \<Rightarrow> [s] | Some (a, b) \<Rightarrow> a # splitn (Suc n) c b)"

definition strip_cr :: "string \<Rightarrow> string" where
  "strip_cr l = (if l \<noteq> [] \<and> last l = CR then butlast l else l)"

text \<open>\<open>str::lines\<close>: a line ends at a line feed, with an optional carriage return before it; a
  last line without a line feed counts when it is not empty, and keeps its carriage return.\<close>

function lines :: "string \<Rightarrow> string list" where
  "lines s =
     (case split_once LF s of
        None \<Rightarrow> (if s = [] then [] else [s])
      | Some (a, b) \<Rightarrow> strip_cr a # lines b)"
  by pat_completeness auto

lemma split_once_Some:
  "split_once c s = Some (a, b) \<Longrightarrow> s = a @ c # b \<and> c \<notin> set a"
  by (induction s arbitrary: a) (auto split: if_splits)

termination lines
  by (relation "measure length") (auto dest!: split_once_Some)

declare lines.simps [simp del]

lemma split_once_append [simp]: "c \<notin> set a \<Longrightarrow> split_once c (a @ c # b) = Some (a, b)"
  by (induction a) auto

lemma split_once_None_iff: "split_once c s = None \<longleftrightarrow> c \<notin> set s"
  by (induction s) auto

lemma split_once_absent [simp]: "c \<notin> set s \<Longrightarrow> split_once c s = None"
  by (simp add: split_once_None_iff)

lemma strip_cr_id [simp]: "CR \<notin> set l \<Longrightarrow> strip_cr l = l"
  using last_in_set by (fastforce simp: strip_cr_def)

lemma lines_Nil [simp]: "lines [] = []"
  by (simp add: lines.simps)

lemma lines_line [simp]:
  "LF \<notin> set a \<Longrightarrow> CR \<notin> set a \<Longrightarrow> lines (a @ LF # b) = a # lines b"
  by (subst lines.simps) simp

lemma starts_with_append [simp]: "starts_with (p @ s) p"
  by (simp add: starts_with_def)

lemma strip_prefix_append [simp]: "strip_prefix (p @ s) p = Some s"
  by (simp add: strip_prefix_def)

lemma strip_prefix_Some_iff: "strip_prefix s p = Some t \<longleftrightarrow> s = p @ t"
  by (auto simp: strip_prefix_def starts_with_def) (metis append_take_drop_id)

lemma ends_with_char_snoc [simp]: "ends_with_char (s @ [c]) d \<longleftrightarrow> c = d"
  by (simp add: ends_with_char_def)

lemma ends_with_char_append: "t \<noteq> [] \<Longrightarrow> ends_with_char (s @ t) c \<longleftrightarrow> ends_with_char t c"
  by (simp add: ends_with_char_def)

section \<open>Decimal text\<close>

definition digit_char :: "nat \<Rightarrow> char" where
  "digit_char d = (if d < 10 then ''0123456789'' ! d else CHR ''?'')"

fun nat_string :: "nat \<Rightarrow> string" where
  "nat_string n = (if n < 10 then [digit_char n] else nat_string (n div 10) @ [digit_char (n mod 10)])"

declare nat_string.simps [simp del]

text \<open>\<open>to_string\<close> and \<open>format!("{}")\<close> of an unsigned integer.\<close>

definition word_string :: "'l::len word \<Rightarrow> string" where
  "word_string w = nat_string (unat w)"

text \<open>The value of a digit in a radix of at most 36, as \<open>char::to_digit\<close> gives it.\<close>

definition to_digit :: "nat \<Rightarrow> char \<Rightarrow> nat option" where
  "to_digit radix c =
     (let b = byte c;
          d = (if is_ascii_digit c then Some (b - 48)
               else if is_ascii_lowercase c then Some (b - 87)
               else if is_ascii_uppercase c then Some (b - 55)
               else None)
      in case d of None \<Rightarrow> None | Some v \<Rightarrow> if v < radix then Some v else None)"

fun digits_value :: "nat \<Rightarrow> nat \<Rightarrow> string \<Rightarrow> nat option" where
  "digits_value radix acc [] = Some acc"
| "digits_value radix acc (c # s) =
     (case to_digit radix c of
        None \<Rightarrow> None
      | Some d \<Rightarrow> digits_value radix (radix * acc + d) s)"

text \<open>
  \<open>from_str_radix\<close> of an unsigned type (\<open>parse\<close> is radix 10): one leading plus sign is
  accepted, at least one digit is needed, and a value that does not fit is an error.
\<close>

definition from_str_radix :: "nat \<Rightarrow> string \<Rightarrow> 'l::len word option" where
  "from_str_radix radix s =
     (let body = (case s of [] \<Rightarrow> [] | c # t \<Rightarrow> if c = CHR ''+'' then t else s)
      in if body = [] then None
         else (case digits_value radix 0 body of
                 None \<Rightarrow> None
               | Some n \<Rightarrow> if n < 2 ^ LENGTH('l) then Some (of_nat n) else None))"

lemma byte_less [simp]: "byte c < 256"
  using nat_of_char_less_256 [of c] by (simp add: byte_def)

lemma less_10_cases:
  assumes "(d :: nat) < 10"
  obtains "d = 0" | "d = 1" | "d = 2" | "d = 3" | "d = 4"
    | "d = 5" | "d = 6" | "d = 7" | "d = 8" | "d = 9"
  using assms by fastforce

lemma byte_digit_char [simp]: "d < 10 \<Longrightarrow> byte (digit_char d) = 48 + d"
  by (elim less_10_cases) (simp_all add: byte_def digit_char_def)

lemma is_ascii_digit_digit_char [simp]: "d < 10 \<Longrightarrow> is_ascii_digit (digit_char d)"
  by (simp add: is_ascii_digit_def)

lemma to_digit_digit_char [simp]: "d < 10 \<Longrightarrow> to_digit 10 (digit_char d) = Some d"
  by (simp add: to_digit_def)

lemma nat_string_nonempty [simp]: "nat_string n \<noteq> []"
  by (subst nat_string.simps) simp

lemma nat_string_digits: "c \<in> set (nat_string n) \<Longrightarrow> is_ascii_digit c"
proof (induction n rule: nat_string.induct)
  case (1 n)
  then show ?case
    by (subst (asm) (2) nat_string.simps) (auto split: if_splits)
qed

lemma digits_value_append:
  "digits_value r acc (s @ t) = Option.bind (digits_value r acc s) (\<lambda>a. digits_value r a t)"
  by (induction s arbitrary: acc) (auto split: option.splits)

lemma digits_value_nat_string [simp]: "digits_value 10 0 (nat_string n) = Some n"
proof (induction n rule: nat_string.induct)
  case (1 n)
  show ?case
  proof (cases "n < 10")
    case True
    then show ?thesis by (simp add: nat_string.simps)
  next
    case False
    with 1 show ?thesis
      by (subst nat_string.simps) (simp add: digits_value_append)
  qed
qed

lemma is_ascii_digit_not_plus: "is_ascii_digit c \<Longrightarrow> c \<noteq> CHR ''+''"
  by (auto simp: is_ascii_digit_def byte_def)

lemma from_str_radix_word_string [simp]: "from_str_radix 10 (word_string w) = Some w"
proof -
  obtain c t where ct: "nat_string (unat w) = c # t"
    by (cases "nat_string (unat w)") auto
  then have "c \<noteq> CHR ''+''"
    using nat_string_digits [of c "unat w"] is_ascii_digit_not_plus by auto
  with ct show ?thesis
    using digits_value_nat_string [of "unat w"]
    by (simp add: from_str_radix_def word_string_def unsigned_less)
qed

lemma word_string_nonempty [simp]: "word_string w \<noteq> []"
  by (simp add: word_string_def)

lemma word_string_digits: "c \<in> set (word_string w) \<Longrightarrow> is_ascii_digit c"
  by (auto simp: word_string_def dest: nat_string_digits)

lemma nat_string_leading_zero: "nat_string n = CHR ''0'' # t \<Longrightarrow> t = []"
proof (induction n arbitrary: t rule: nat_string.induct)
  case (1 n)
  show ?case
  proof (cases "n < 10")
    case True
    with 1(2) show ?thesis by (simp add: nat_string.simps)
  next
    case False
    obtain c u where cu: "nat_string (n div 10) = c # u"
      by (cases "nat_string (n div 10)") auto
    from False 1(2) cu have "c = CHR ''0''"
      by (subst (asm) nat_string.simps) simp
    with cu 1(1) [OF False] have "nat_string (n div 10) = [CHR ''0'']"
      by simp
    then have "Some (n div 10) = digits_value 10 0 [CHR ''0'']"
      by (metis digits_value_nat_string)
    then have "n div 10 = 0"
      by (simp add: to_digit_def is_ascii_digit_def byte_def)
    with False show ?thesis by simp
  qed
qed

lemma word_string_leading_zero: "word_string w = CHR ''0'' # t \<Longrightarrow> t = []"
  by (auto simp: word_string_def dest: nat_string_leading_zero)

lemma word_string_inject [simp]: "word_string (v :: 'l::len word) = word_string w \<longleftrightarrow> v = w"
  by (metis from_str_radix_word_string option.inject)

text \<open>
  Execution: \<open>nat\<close> is unary in generated code, so the same functions are given code equations
  over \<open>int\<close> and over the words themselves.
\<close>

function int_string :: "int \<Rightarrow> string" where
  "int_string n =
     (if n < 10 then [digit_char (nat n)] else int_string (n div 10) @ [digit_char (nat (n mod 10))])"
  by pat_completeness auto
termination
  by (relation "measure nat") auto

declare int_string.simps [simp del]

lemma nat_string_int: "nat_string n = int_string (int n)"
proof (induction n rule: nat_string.induct)
  case (1 n)
  show ?case
  proof (cases "n < 10")
    case True
    then show ?thesis by (simp add: nat_string.simps int_string.simps)
  next
    case False
    then show ?thesis
      using 1 by (subst nat_string.simps, subst int_string.simps) (simp add: zdiv_int nat_mod_distrib)
  qed
qed

lemma word_string_code [code]: "word_string w = int_string (uint w)"
  by (simp add: word_string_def nat_string_int)

fun digits_value_int :: "int \<Rightarrow> nat \<Rightarrow> int \<Rightarrow> string \<Rightarrow> int option" where
  "digits_value_int r radix acc [] = Some acc"
| "digits_value_int r radix acc (c # s) =
     (case to_digit radix c of
        None \<Rightarrow> None
      | Some d \<Rightarrow> digits_value_int r radix (r * acc + int d) s)"

lemma digits_value_int_eq:
  "digits_value_int (int radix) radix (int acc) s = map_option int (digits_value radix acc s)"
proof (induction s arbitrary: acc)
  case (Cons c s)
  have "int radix * int acc + int d = int (radix * acc + d)" for d
    by simp
  with Cons show ?case
    by (auto split: option.splits simp del: of_nat_add of_nat_mult)
qed simp

lemma from_str_radix_code [code]:
  "from_str_radix radix s =
     (let body = (case s of [] \<Rightarrow> [] | c # t \<Rightarrow> if c = CHR ''+'' then t else s)
      in if body = [] then None
         else (case digits_value_int (int radix) radix 0 body of
                 None \<Rightarrow> None
               | Some n \<Rightarrow> if n < 2 ^ LENGTH('l) then Some (of_int n :: 'l::len word) else None))"
proof -
  have "(int n < 2 ^ LENGTH('l)) = (n < 2 ^ LENGTH('l))" for n
    by (metis of_nat_less_iff of_nat_numeral of_nat_power)
  then show ?thesis
    using digits_value_int_eq [of radix 0]
    by (simp add: from_str_radix_def Let_def split: option.splits)
qed

lemma mul_code [code]:
  "checked_mul a b = (if uint a * uint b < 2 ^ LENGTH('l) then Some (a * b) else None)"
  "saturating_mul a b = (if uint a * uint b < 2 ^ LENGTH('l) then a * b else - 1)"
  for a b :: "'l::len word"
proof -
  have "uint a * uint b < 2 ^ LENGTH('l) \<longleftrightarrow> unat a * unat b < 2 ^ LENGTH('l)"
    unfolding uint_nat of_nat_mult [symmetric] by (metis of_nat_less_iff of_nat_numeral of_nat_power)
  then show "checked_mul a b = (if uint a * uint b < 2 ^ LENGTH('l) then Some (a * b) else None)"
    "saturating_mul a b = (if uint a * uint b < 2 ^ LENGTH('l) then a * b else - 1)"
    by (simp_all add: checked_mul_def saturating_mul_def)
qed

lemma checked_add_code [code]:
  "checked_add a b = (let s = a + b in if s < a then None else Some (s :: 'l::len word))"
  by (auto simp: checked_add_def Let_def no_olen_add_nat [symmetric] word_le_nat_alt word_less_nat_alt)

lemma saturating_add_code [code]:
  "saturating_add a b = (let s = a + b in if s < a then - 1 else (s :: 'l::len word))"
  by (auto simp: saturating_add_def Let_def no_olen_add_nat [symmetric] word_le_nat_alt word_less_nat_alt)

section \<open>UTF-8\<close>

definition utf8_continuation :: "char \<Rightarrow> bool" where
  "utf8_continuation c = (128 \<le> byte c \<and> byte c \<le> 191)"

text \<open>\<open>std::str::from_utf8\<close>: the byte sequences that are well-formed UTF-8.\<close>

fun utf8_valid :: "string \<Rightarrow> bool" where
  "utf8_valid [] = True"
| "utf8_valid (a # s) =
     (if byte a < 128 then utf8_valid s
      else if 194 \<le> byte a \<and> byte a \<le> 223 then
        (case s of b # t \<Rightarrow> utf8_continuation b \<and> utf8_valid t | _ \<Rightarrow> False)
      else if 224 \<le> byte a \<and> byte a \<le> 239 then
        (case s of b # c # t \<Rightarrow>
           utf8_continuation b \<and> utf8_continuation c
           \<and> (byte a = 224 \<longrightarrow> 160 \<le> byte b) \<and> (byte a = 237 \<longrightarrow> byte b \<le> 159)
           \<and> utf8_valid t
         | _ \<Rightarrow> False)
      else if 240 \<le> byte a \<and> byte a \<le> 244 then
        (case s of b # c # d # t \<Rightarrow>
           utf8_continuation b \<and> utf8_continuation c \<and> utf8_continuation d
           \<and> (byte a = 240 \<longrightarrow> 144 \<le> byte b) \<and> (byte a = 244 \<longrightarrow> byte b \<le> 143)
           \<and> utf8_valid t
         | _ \<Rightarrow> False)
      else False)"

lemma utf8_valid_ascii: "(\<And>c. c \<in> set s \<Longrightarrow> byte c < 128) \<Longrightarrow> utf8_valid s"
  by (induction s) auto

text \<open>The characters of a well-formed string, each as its bytes, and \<open>char::is_whitespace\<close> on them: the
  Unicode property \<open>White_Space\<close>.\<close>

fun utf8_chars :: "string \<Rightarrow> string list" where
  "utf8_chars [] = []"
| "utf8_chars (a # s) =
     (let n = (if byte a < 192 then 0 else if byte a < 224 then 1 else if byte a < 240 then 2 else 3)
      in (a # take n s) # utf8_chars (drop n s))"

definition is_whitespace :: "string \<Rightarrow> bool" where
  "is_whitespace ch =
     (case map byte ch of
        [b] \<Rightarrow> 9 \<le> b \<and> b \<le> 13 \<or> b = 32
      | [b, c] \<Rightarrow> b = 194 \<and> (c = 133 \<or> c = 160)
      | [b, c, d] \<Rightarrow> b = 225 \<and> c = 154 \<and> d = 128
                    \<or> b = 226 \<and> c = 128 \<and> (128 \<le> d \<and> d \<le> 138 \<or> d = 168 \<or> d = 169 \<or> d = 175)
                    \<or> b = 226 \<and> c = 129 \<and> d = 159 \<or> b = 227 \<and> c = 128 \<and> d = 128
      | _ \<Rightarrow> False)"

definition trim_chars :: "string \<Rightarrow> string list" where
  "trim_chars s = rev (dropWhile is_whitespace (rev (dropWhile is_whitespace (utf8_chars s))))"

definition ascii :: "string \<Rightarrow> bool" where
  "ascii s = list_all (\<lambda>c. byte c < 128) s"

lemma ascii_simps [simp]:
  "ascii []"
  "ascii (c # s) \<longleftrightarrow> byte c < 128 \<and> ascii s"
  "ascii (s @ t) \<longleftrightarrow> ascii s \<and> ascii t"
  by (simp_all add: ascii_def)

lemma ascii_concat [simp]: "ascii (concat ss) \<longleftrightarrow> list_all ascii ss"
  by (induction ss) auto

lemma utf8_valid_of_ascii: "ascii s \<Longrightarrow> utf8_valid s"
  by (rule utf8_valid_ascii) (simp add: ascii_def list_all_iff)

lemma ascii_all: "list_all P s \<Longrightarrow> (\<And>c. P c \<Longrightarrow> byte c < 128) \<Longrightarrow> ascii s"
  by (auto simp: ascii_def list_all_iff)

text \<open>Text of printable ASCII bytes.\<close>

definition visible :: "string \<Rightarrow> bool" where
  "visible s = list_all (\<lambda>c. 32 \<le> byte c \<and> byte c < 127) s"

lemma visible_simps [simp]:
  "visible []"
  "visible (c # s) \<longleftrightarrow> 32 \<le> byte c \<and> byte c < 127 \<and> visible s"
  "visible (s @ t) \<longleftrightarrow> visible s \<and> visible t"
  by (auto simp: visible_def)

lemma visible_all: "list_all P s \<Longrightarrow> (\<And>c. P c \<Longrightarrow> 32 \<le> byte c \<and> byte c < 127) \<Longrightarrow> visible s"
  by (auto simp: visible_def list_all_iff)

lemma visible_ascii: "visible s \<Longrightarrow> ascii s"
  by (auto simp: visible_def ascii_def list_all_iff)

lemma visible_no_control: "visible s \<Longrightarrow> byte c < 32 \<Longrightarrow> c \<notin> set s"
  by (auto simp: visible_def list_all_iff)

lemma visible_word_string [simp]: "visible (word_string w)"
  by (rule visible_all [of is_ascii_digit]) (auto simp: list_all_iff is_ascii_digit_def dest: word_string_digits)

lemma is_ascii_alphanumeric_bytes: "is_ascii_alphanumeric c \<Longrightarrow> 32 \<le> byte c \<and> byte c < 127"
  by (auto simp: is_ascii_alphanumeric_def is_ascii_digit_def is_ascii_lowercase_def is_ascii_uppercase_def)

lemma is_lower_hex_digit_bytes: "is_lower_hex_digit c \<Longrightarrow> 32 \<le> byte c \<and> byte c < 127"
  by (auto simp: is_lower_hex_digit_def is_ascii_digit_def)

end
