(* ===== verification/Ip_Address.thy ===== *)
theory Ip_Address
  imports Rust_Prelude
begin

text \<open>
  The part of \<open>std::net\<close> the request records use: IPv4 and IPv6 addresses, their \<open>FromStr\<close>
  parser (the recursive reader with backtracking of the standard library) and their \<open>Display\<close>
  form, with the round trip between the two. An address that is printed is read back as itself.
\<close>

section \<open>Definitions\<close>

type_synonym ipv4 = "u8 \<times> u8 \<times> u8 \<times> u8"
type_synonym ipv6 = "u16 \<times> u16 \<times> u16 \<times> u16 \<times> u16 \<times> u16 \<times> u16 \<times> u16"

datatype ip_addr = V4 ipv4 | V6 ipv6

definition ipv4_octet0 :: "ipv4 \<Rightarrow> u8" where
  "ipv4_octet0 a = fst a"

definition ipv4_is_loopback :: "ipv4 \<Rightarrow> bool" where
  "ipv4_is_loopback a = (fst a = 127)"

definition ipv4_is_link_local :: "ipv4 \<Rightarrow> bool" where
  "ipv4_is_link_local a = (fst a = 169 \<and> fst (snd a) = 254)"

subsection \<open>Display\<close>

definition ipv4_string :: "ipv4 \<Rightarrow> string" where
  "ipv4_string = (\<lambda>(a, b, c, d).
     word_string a @ ''.'' @ word_string b @ ''.'' @ word_string c @ ''.'' @ word_string d)"

definition hex_char :: "nat \<Rightarrow> char" where
  "hex_char d = (if d < 16 then ''0123456789abcdef'' ! d else CHR ''?'')"

fun hex_string :: "nat \<Rightarrow> string" where
  "hex_string n = (if n < 16 then [hex_char n] else hex_string (n div 16) @ [hex_char (n mod 16)])"

declare hex_string.simps [simp del]

text \<open>\<open>fmt_subslice\<close>: groups in hexadecimal, separated by colons.\<close>

fun groups_string :: "u16 list \<Rightarrow> string" where
  "groups_string [] = []"
| "groups_string [g] = hex_string (unat g)"
| "groups_string (g # gs) = hex_string (unat g) @ '':'' @ groups_string gs"

text \<open>The first longest run of zero groups, as (start, length).\<close>

fun zero_run :: "u16 list \<Rightarrow> nat \<Rightarrow> nat \<times> nat \<Rightarrow> nat \<times> nat \<Rightarrow> nat \<times> nat" where
  "zero_run [] i current longest = longest"
| "zero_run (g # gs) i current longest =
     (if g = 0 then
        (let current = (if snd current = 0 then i else fst current, Suc (snd current))
         in zero_run gs (Suc i) current (if snd current > snd longest then current else longest))
      else zero_run gs (Suc i) (0, 0) longest)"

definition ipv6_segments :: "ipv6 \<Rightarrow> u16 list" where
  "ipv6_segments = (\<lambda>(a, b, c, d, e, f, g, h). [a, b, c, d, e, f, g, h])"

definition ipv6_of_segments :: "u16 list \<Rightarrow> ipv6" where
  "ipv6_of_segments s = (s ! 0, s ! 1, s ! 2, s ! 3, s ! 4, s ! 5, s ! 6, s ! 7)"

definition high_octet :: "u16 \<Rightarrow> u8" where
  "high_octet g = of_nat (unat g div 256)"

definition low_octet :: "u16 \<Rightarrow> u8" where
  "low_octet g = of_nat (unat g mod 256)"

definition ipv6_string :: "ipv6 \<Rightarrow> string" where
  "ipv6_string a =
     (let s = ipv6_segments a in
      if take 6 s = [0, 0, 0, 0, 0, 0xffff] then
        ''::ffff:'' @ ipv4_string (high_octet (s ! 6), low_octet (s ! 6), high_octet (s ! 7), low_octet (s ! 7))
      else
        (let (start, len) = zero_run s 0 (0, 0) (0, 0) in
         if len > 1 then groups_string (take start s) @ ''::'' @ groups_string (drop (start + len) s)
         else groups_string s))"

definition ip_string :: "ip_addr \<Rightarrow> string" where
  "ip_string ip = (case ip of V4 a \<Rightarrow> ipv4_string a | V6 a \<Rightarrow> ipv6_string a)"

subsection \<open>FromStr\<close>

text \<open>\<open>read_number\<close>: digits of the radix up to a maximum count, with the value bound of the type.\<close>

definition read_number :: "nat \<Rightarrow> nat \<Rightarrow> bool \<Rightarrow> nat \<Rightarrow> string \<Rightarrow> (nat \<times> string) option" where
  "read_number radix max_digits allow_zero_prefix bound s =
     (let ds = takeWhile (\<lambda>c. to_digit radix c \<noteq> None) s;
          rest = dropWhile (\<lambda>c. to_digit radix c \<noteq> None) s
      in if ds = [] \<or> length ds > max_digits then None
         else if \<not> allow_zero_prefix \<and> hd ds = CHR ''0'' \<and> length ds > 1 then None
         else (case digits_value radix 0 ds of
                 None \<Rightarrow> None
               | Some n \<Rightarrow> if n < bound then Some (n, rest) else None))"

definition read_given_char :: "char \<Rightarrow> string \<Rightarrow> string option" where
  "read_given_char c s = (case s of [] \<Rightarrow> None | x # t \<Rightarrow> if x = c then Some t else None)"

definition read_octet :: "string \<Rightarrow> (u8 \<times> string) option" where
  "read_octet s = map_option (\<lambda>(n, t). (of_nat n, t)) (read_number 10 3 False 256 s)"

definition read_dot_octet :: "string \<Rightarrow> (u8 \<times> string) option" where
  "read_dot_octet s = Option.bind (read_given_char CHR ''.'' s) read_octet"

definition read_ipv4_addr :: "string \<Rightarrow> (ipv4 \<times> string) option" where
  "read_ipv4_addr s =
     Option.bind (read_octet s) (\<lambda>(a, s).
     Option.bind (read_dot_octet s) (\<lambda>(b, s).
     Option.bind (read_dot_octet s) (\<lambda>(c, s).
     Option.bind (read_dot_octet s) (\<lambda>(d, s).
     Some ((a, b, c, d), s)))))"

text \<open>\<open>read_separator\<close>: the separator is needed before every group but the first one.\<close>

definition read_separator :: "nat \<Rightarrow> (string \<Rightarrow> ('a \<times> string) option) \<Rightarrow> string \<Rightarrow> ('a \<times> string) option" where
  "read_separator i inner s =
     (if i = 0 then inner s else Option.bind (read_given_char CHR '':'' s) inner)"

definition join_octets :: "u8 \<Rightarrow> u8 \<Rightarrow> u16" where
  "join_octets h l = of_nat (unat h * 256 + unat l)"

text \<open>\<open>read_groups\<close> from group \<open>i\<close> on: the groups read, whether an IPv4 address ended them, and the
  rest of the text. \<open>n\<close> is the number of slots left.\<close>

fun read_groups :: "nat \<Rightarrow> nat \<Rightarrow> string \<Rightarrow> u16 list \<times> bool \<times> string" where
  "read_groups i 0 s = ([], False, s)"
| "read_groups i (Suc n) s =
     (case (if n > 0 then read_separator i read_ipv4_addr s else None) of
        Some ((a, b, c, d), t) \<Rightarrow> ([join_octets a b, join_octets c d], True, t)
      | None \<Rightarrow>
          (case read_separator i (read_number 16 4 True 65536) s of
             None \<Rightarrow> ([], False, s)
           | Some (g, t) \<Rightarrow>
               (let (gs, v4, u) = read_groups (Suc i) n t in (of_nat g # gs, v4, u))))"

definition read_ipv6_addr :: "string \<Rightarrow> (ipv6 \<times> string) option" where
  "read_ipv6_addr s =
     (let (head, head_ipv4, s) = read_groups 0 8 s in
      if length head = 8 then Some (ipv6_of_segments head, s)
      else if head_ipv4 then None
      else
        Option.bind (read_given_char CHR '':'' s) (\<lambda>s.
        Option.bind (read_given_char CHR '':'' s) (\<lambda>s.
        let (tail, tail_ipv4, s) = read_groups 0 (8 - (length head + 1)) s
        in Some (ipv6_of_segments (head @ replicate (8 - length head - length tail) 0 @ tail), s))))"

text \<open>\<open>parse_with\<close>: the reader must consume the whole text.\<close>

definition parse_with :: "(string \<Rightarrow> ('a \<times> string) option) \<Rightarrow> string \<Rightarrow> 'a option" where
  "parse_with inner s = (case inner s of Some (v, []) \<Rightarrow> Some v | _ \<Rightarrow> None)"

definition parse_ipv4 :: "string \<Rightarrow> ipv4 option" where
  "parse_ipv4 s = (if length s > 15 then None else parse_with read_ipv4_addr s)"

definition read_ip_addr :: "string \<Rightarrow> (ip_addr \<times> string) option" where
  "read_ip_addr s =
     (case read_ipv4_addr s of
        Some (a, t) \<Rightarrow> Some (V4 a, t)
      | None \<Rightarrow> map_option (\<lambda>(a, t). (V6 a, t)) (read_ipv6_addr s))"

definition parse_ip :: "string \<Rightarrow> ip_addr option" where
  "parse_ip s = parse_with read_ip_addr s"

section \<open>Numbers\<close>

lemma to_digit_hex_char [simp]: "d < 16 \<Longrightarrow> to_digit 16 (hex_char d) = Some d"
proof -
  assume "d < 16"
  then have "d \<in> set [0 ..< 16]" by simp
  then have "d \<in> {0, 1, 2, 3, 4, 5, 6, 7, 8, 9, 10, 11, 12, 13, 14, 15}"
    by (auto simp: upt_rec)
  then show ?thesis
    by (elim insertE emptyE)
      (simp_all add: hex_char_def to_digit_def is_ascii_digit_def is_ascii_lowercase_def byte_def)
qed

lemma hex_string_digits: "c \<in> set (hex_string n) \<Longrightarrow> to_digit 16 c \<noteq> None"
proof (induction n rule: hex_string.induct)
  case (1 n)
  then show ?case
    by (subst (asm) (2) hex_string.simps) (auto split: if_splits)
qed

lemma hex_string_nonempty [simp]: "hex_string n \<noteq> []"
  by (subst hex_string.simps) simp

lemma digits_value_hex_string [simp]: "digits_value 16 0 (hex_string n) = Some n"
proof (induction n rule: hex_string.induct)
  case (1 n)
  show ?case
  proof (cases "n < 16")
    case True
    then show ?thesis by (simp add: hex_string.simps)
  next
    case False
    with 1 show ?thesis
      by (subst hex_string.simps) (simp add: digits_value_append)
  qed
qed

lemma length_hex_string: "n < 16 ^ k \<Longrightarrow> 0 < k \<Longrightarrow> length (hex_string n) \<le> k"
proof (induction k arbitrary: n)
  case (Suc k)
  show ?case
  proof (cases "n < 16")
    case False
    then have "0 < k" using Suc.prems by (cases k) auto
    moreover have "n div 16 < 16 ^ k"
      using Suc.prems by (simp add: less_mult_imp_div_less mult.commute)
    ultimately show ?thesis
      using Suc.IH False by (subst hex_string.simps) simp
  qed (simp add: hex_string.simps)
qed simp

lemma length_nat_string: "n < 10 ^ k \<Longrightarrow> 0 < k \<Longrightarrow> length (nat_string n) \<le> k"
proof (induction k arbitrary: n)
  case (Suc k)
  show ?case
  proof (cases "n < 10")
    case False
    then have "0 < k" using Suc.prems by (cases k) auto
    moreover have "n div 10 < 10 ^ k"
      using Suc.prems by (simp add: less_mult_imp_div_less mult.commute)
    ultimately show ?thesis
      using Suc.IH False by (subst nat_string.simps) simp
  qed (simp add: nat_string.simps)
qed simp

definition stops :: "nat \<Rightarrow> string \<Rightarrow> bool" where
  "stops radix s = (case s of [] \<Rightarrow> True | c # _ \<Rightarrow> to_digit radix c = None)"

lemma stops_simps [simp]:
  "stops r []" "stops r (c # s) \<longleftrightarrow> to_digit r c = None"
  by (simp_all add: stops_def)

lemma to_digit_separators [simp]:
  "to_digit r CHR ''.'' = None" "to_digit r CHR '':'' = None"
  by (simp_all add: to_digit_def is_ascii_digit_def is_ascii_lowercase_def is_ascii_uppercase_def byte_def)

lemma takeWhile_stops:
  assumes "\<And>c. c \<in> set ds \<Longrightarrow> P c" and "rest = [] \<or> \<not> P (hd rest)"
  shows "takeWhile P (ds @ rest) = ds \<and> dropWhile P (ds @ rest) = rest"
  using assms by (cases rest) auto

lemma read_number_append:
  assumes digits: "\<And>c. c \<in> set ds \<Longrightarrow> to_digit r c \<noteq> None" and "stops r rest"
    and "ds \<noteq> []" "length ds \<le> k" "digits_value r 0 ds = Some n" "n < bound"
    and prefix: "allow \<or> hd ds \<noteq> CHR ''0'' \<or> length ds \<le> 1"
  shows "read_number r k allow bound (ds @ rest) = Some (n, rest)"
proof -
  have "takeWhile (\<lambda>c. to_digit r c \<noteq> None) (ds @ rest) = ds"
    "dropWhile (\<lambda>c. to_digit r c \<noteq> None) (ds @ rest) = rest"
    using takeWhile_stops [of ds "\<lambda>c. to_digit r c \<noteq> None" rest] digits assms(2)
    by (auto simp: stops_def split: list.splits)
  then show ?thesis
    using assms(3-) unfolding read_number_def by auto
qed

lemma to_digit_is_digit: "is_ascii_digit c \<Longrightarrow> \<exists>d. to_digit 10 c = Some d"
  by (auto simp: to_digit_def is_ascii_digit_def Let_def)

lemma word_string_prefix:
  "hd (word_string w) \<noteq> CHR ''0'' \<or> length (word_string w) \<le> 1"
  using word_string_leading_zero [of w] by (cases "word_string w") auto

lemma unat_u8_less: "unat (w :: u8) < 256"
  using unsigned_less [of w] by simp

lemma length_u8_string: "length (word_string (w :: u8)) \<le> 3"
  using unat_u8_less [of w] by (simp add: word_string_def length_nat_string)

lemma length_u64_string: "length (word_string (w :: u64)) \<le> 20"
proof -
  have "unat w < 2 ^ LENGTH(64)"
    by (rule unsigned_less)
  then have "unat w < 10 ^ 20"
    by simp
  then show ?thesis unfolding word_string_def by (rule length_nat_string) simp
qed

lemma length_u32_string: "length (word_string (w :: u32)) \<le> 10"
proof -
  have "unat w < 2 ^ LENGTH(32)"
    by (rule unsigned_less)
  then have "unat w < 10 ^ 10"
    by simp
  then show ?thesis unfolding word_string_def by (rule length_nat_string) simp
qed

lemma read_octet_append [simp]:
  "stops 10 rest \<Longrightarrow> read_octet (word_string w @ rest) = Some (w, rest)"
proof -
  assume "stops 10 rest"
  with length_u8_string [of w] unat_u8_less [of w] have "read_number 10 3 False 256 (word_string w @ rest) = Some (unat w, rest)"
    using word_string_prefix [of w]
    by (intro read_number_append)
      (auto simp: word_string_def dest!: nat_string_digits intro: to_digit_is_digit)
  then show ?thesis by (simp add: read_octet_def)
qed

lemma read_dot_octet_append [simp]:
  "stops 10 rest \<Longrightarrow> read_dot_octet (CHR ''.'' # word_string w @ rest) = Some (w, rest)"
  by (simp add: read_dot_octet_def read_given_char_def)

lemma read_ipv4_append:
  "stops 10 rest \<Longrightarrow> read_ipv4_addr (ipv4_string a @ rest) = Some (a, rest)"
  by (cases a) (simp add: read_ipv4_addr_def ipv4_string_def)

lemma length_ipv4_string: "length (ipv4_string a) \<le> 15"
proof -
  obtain b c d e where a: "a = (b, c, d, e)" by (cases a)
  show ?thesis
    using length_u8_string [of b] length_u8_string [of c] length_u8_string [of d] length_u8_string [of e]
    by (simp add: a ipv4_string_def)
qed

lemma parse_ipv4_string [simp]: "parse_ipv4 (ipv4_string a) = Some a"
  using read_ipv4_append [of "[]" a] length_ipv4_string [of a]
  by (simp add: parse_ipv4_def parse_with_def)

section \<open>IPv6\<close>

definition colon_groups :: "u16 list \<Rightarrow> string" where
  "colon_groups gs = concat (map (\<lambda>g. CHR '':'' # hex_string (unat g)) gs)"

lemma colon_groups_simps [simp]:
  "colon_groups [] = []"
  "colon_groups (g # gs) = CHR '':'' # hex_string (unat g) @ colon_groups gs"
  by (simp_all add: colon_groups_def)

lemma groups_string_Cons: "groups_string (g # gs) = hex_string (unat g) @ colon_groups gs"
  by (induction gs arbitrary: g) simp_all

lemma no_dot_hex_string [simp]: "CHR ''.'' \<notin> set (hex_string n)"
  using hex_string_digits [of "CHR ''.''" n] by auto

lemma no_dot_colon_groups [simp]: "CHR ''.'' \<notin> set (colon_groups gs)"
  by (induction gs) auto

lemma no_dot_groups_string [simp]: "CHR ''.'' \<notin> set (groups_string gs)"
  by (cases gs) (simp_all add: groups_string_Cons)

lemma stops_colon_groups [simp]: "stops r (colon_groups gs @ rest) \<longleftrightarrow> gs \<noteq> [] \<or> stops r rest"
  by (cases gs) auto

lemma read_number_rest: "read_number r k z b s = Some (n, t) \<Longrightarrow> set t \<subseteq> set s"
  by (auto simp: read_number_def Let_def dest: set_dropWhileD split: if_splits option.splits)

lemma read_number_none:
  "read_number r k z b [] = None" "to_digit r c = None \<Longrightarrow> read_number r k z b (c # s) = None"
  by (simp_all add: read_number_def)

lemma read_ipv4_no_dot: "CHR ''.'' \<notin> set s \<Longrightarrow> read_ipv4_addr s = None"
proof (cases "read_octet s")
  case (Some p)
  assume "CHR ''.'' \<notin> set s"
  obtain a t where p: "p = (a, t)" by (cases p)
  have "set t \<subseteq> set s"
    using Some p read_number_rest by (fastforce simp: read_octet_def)
  then have "read_dot_octet t = None"
    using \<open>CHR ''.'' \<notin> set s\<close>
    by (cases t) (auto simp: read_dot_octet_def read_given_char_def)
  with Some p show ?thesis by (simp add: read_ipv4_addr_def)
qed (simp add: read_ipv4_addr_def)

lemma read_group_append:
  "stops 16 rest \<Longrightarrow>
   read_number 16 4 True 65536 (hex_string (unat (g :: u16)) @ rest) = Some (unat g, rest)"
  using unsigned_less [of g]
  by (intro read_number_append) (simp_all add: length_hex_string hex_string_digits)

lemma read_separator_ipv4_no_dot: "CHR ''.'' \<notin> set s \<Longrightarrow> read_separator i read_ipv4_addr s = None"
  by (cases s) (auto simp: read_separator_def read_given_char_def read_ipv4_no_dot)

lemma read_groups_colon:
  assumes "CHR ''.'' \<notin> set rest" "stops 16 rest" "length gs \<le> n" "0 < i"
  shows "read_groups i n (colon_groups gs @ rest) =
    (let (hs, v, u) = read_groups (i + length gs) (n - length gs) rest in (gs @ hs, v, u))"
  using assms(3,4)
proof (induction gs arbitrary: i n)
  case (Cons g gs)
  then obtain m where n: "n = Suc m" by (cases n) auto
  have v4: "read_separator i read_ipv4_addr (colon_groups (g # gs) @ rest) = None"
    using assms(1) by (intro read_separator_ipv4_no_dot) simp
  have "read_separator i (read_number 16 4 True 65536) (colon_groups (g # gs) @ rest)
      = Some (unat g, colon_groups gs @ rest)"
    using Cons.prems assms(2) by (simp add: read_separator_def read_given_char_def read_group_append)
  with v4 Cons n show ?case
    by (auto simp: Let_def split: prod.splits simp del: colon_groups_simps(2))
qed (simp add: Let_def split: prod.splits)

lemma read_groups_first:
  assumes "CHR ''.'' \<notin> set rest" "stops 16 rest" "length gs \<le> n" "gs \<noteq> []"
  shows "read_groups 0 n (groups_string gs @ rest) =
    (let (hs, v, u) = read_groups (length gs) (n - length gs) rest in (gs @ hs, v, u))"
proof -
  obtain g gs' where gs: "gs = g # gs'" using assms(4) by (cases gs) auto
  obtain m where n: "n = Suc m" using assms(3) gs by (cases n) auto
  have v4: "read_separator 0 read_ipv4_addr (groups_string gs @ rest) = None"
    using assms(1) by (intro read_separator_ipv4_no_dot) simp
  have "read_separator 0 (read_number 16 4 True 65536) (groups_string gs @ rest)
      = Some (unat g, colon_groups gs' @ rest)"
    using assms(2) by (simp add: gs groups_string_Cons read_separator_def read_group_append)
  with v4 n show ?thesis
    using assms(3) read_groups_colon [OF assms(1,2), of gs' m 1]
    by (auto simp: gs Let_def split: prod.splits)
qed

text \<open>Reading stops at the end of the text and before a double colon.\<close>

lemma read_groups_nil [simp]: "read_groups i n [] = ([], False, [])"
  by (cases n)
    (simp_all add: read_separator_def read_given_char_def read_ipv4_no_dot read_number_none)

lemma read_groups_double_colon:
  "read_groups i n (CHR '':'' # CHR '':'' # s) = ([], False, CHR '':'' # CHR '':'' # s)"
proof (cases n)
  case (Suc m)
  have "read_octet (CHR '':'' # s) = None" for s
    by (simp add: read_octet_def read_number_none)
  then have "read_separator i read_ipv4_addr (CHR '':'' # CHR '':'' # s) = None"
    by (simp add: read_separator_def read_given_char_def read_ipv4_addr_def)
  moreover have "read_separator i (read_number 16 4 True 65536) (CHR '':'' # CHR '':'' # s) = None"
    by (simp add: read_separator_def read_given_char_def read_number_none)
  ultimately show ?thesis by (simp add: Suc)
qed simp

lemma read_groups_all:
  "length gs \<le> n \<Longrightarrow> read_groups 0 n (groups_string gs) = (gs, False, [])"
  using read_groups_first [of "[]" gs n] by (cases "gs = []") simp_all

lemma read_groups_head:
  assumes "length gs \<le> n" "CHR ''.'' \<notin> set s"
  shows "read_groups 0 n (groups_string gs @ CHR '':'' # CHR '':'' # s) = (gs, False, CHR '':'' # CHR '':'' # s)"
  using read_groups_first [of "CHR '':'' # CHR '':'' # s" gs n] assms
  by (cases "gs = []") (simp_all add: read_groups_double_colon)

definition zeros_at :: "u16 list \<Rightarrow> nat \<times> nat \<Rightarrow> bool" where
  "zeros_at xs r = (fst r + snd r \<le> length xs \<and> (\<forall>j. fst r \<le> j \<and> j < fst r + snd r \<longrightarrow> xs ! j = 0))"

lemma zeros_at_snoc: "zeros_at xs r \<Longrightarrow> zeros_at (xs @ ys) r"
  by (auto simp: zeros_at_def nth_append)

lemma zero_run_zeros:
  assumes "i = length pre" "zeros_at pre longest"
    and "snd cur \<noteq> 0 \<Longrightarrow> zeros_at pre cur \<and> fst cur + snd cur = i"
  shows "zeros_at (pre @ gs) (zero_run gs i cur longest)"
  using assms
proof (induction gs arbitrary: pre i cur longest)
  case (Cons g gs)
  show ?case
  proof (cases "g = 0")
    case True
    define cur' where "cur' = (if snd cur = 0 then i else fst cur, Suc (snd cur))"
    have cur': "zeros_at (pre @ [g]) cur' \<and> fst cur' + snd cur' = Suc i"
      using Cons.prems True
      by (cases "snd cur = 0") (auto simp: cur'_def zeros_at_def nth_append less_Suc_eq_le)
    have longest': "zeros_at (pre @ [g]) (if snd cur' > snd longest then cur' else longest)"
      using cur' Cons.prems(2) by (simp add: zeros_at_snoc)
    show ?thesis
      using Cons.IH [of "Suc i" "pre @ [g]" "if snd cur' > snd longest then cur' else longest" cur']
        cur' longest' Cons.prems(1)
      unfolding zero_run.simps Let_def cur'_def [symmetric] if_P [OF True]
      by simp
  next
    case False
    then show ?thesis
      using Cons.IH [of "Suc i" "pre @ [g]" longest "(0, 0)"] Cons.prems
      by (simp add: zeros_at_snoc)
  qed
qed simp

lemma zero_run_split:
  assumes "zero_run xs 0 (0, 0) (0, 0) = (start, len)"
  shows "start + len \<le> length xs" "xs = take start xs @ replicate len 0 @ drop (start + len) xs"
proof -
  have "zeros_at xs (start, len)"
    using zero_run_zeros [of 0 "[]" "(0, 0)" "(0, 0)" xs] assms by (simp add: zeros_at_def)
  then have le: "start + len \<le> length xs" and zero: "\<And>j. start \<le> j \<Longrightarrow> j < start + len \<Longrightarrow> xs ! j = 0"
    by (auto simp: zeros_at_def)
  have "take len (drop start xs) = replicate len 0"
    using le zero by (intro nth_equalityI) auto
  moreover have "xs = take start xs @ take len (drop start xs) @ drop (start + len) xs"
    by (metis append_take_drop_id drop_drop add.commute)
  ultimately show "start + len \<le> length xs" "xs = take start xs @ replicate len 0 @ drop (start + len) xs"
    using le by simp_all
qed

lemma length_ipv6_segments [simp]: "length (ipv6_segments a) = 8"
  by (simp add: ipv6_segments_def split: prod.split)

lemma ipv6_of_segments_inverse [simp]: "ipv6_of_segments (ipv6_segments a) = a"
  by (simp add: ipv6_of_segments_def ipv6_segments_def split: prod.split)

lemma join_octets_split [simp]: "join_octets (high_octet g) (low_octet g) = g"
proof -
  have "unat g < 65536"
    using unsigned_less [of g] by simp
  then have "unat (high_octet g) = unat g div 256" "unat (low_octet g) = unat g mod 256"
    by (simp_all add: high_octet_def low_octet_def unat_of_nat)
  then show ?thesis by (simp add: join_octets_def)
qed

lemma read_ipv6_mapped:
  assumes "take 6 (ipv6_segments a) = [0, 0, 0, 0, 0, 0xffff]"
  shows "read_ipv6_addr (ipv6_string a) = Some (a, [])"
proof -
  obtain g h where a: "a = (0, 0, 0, 0, 0, 0xffff, g, h)"
    using assms by (auto simp: ipv6_segments_def split: prod.splits)
  define v4 where "v4 = (high_octet g, low_octet g, high_octet h, low_octet h)"
  have shape: "ipv6_string a = CHR '':'' # CHR '':'' # ''ffff'' @ CHR '':'' # ipv4_string v4"
    using assms by (simp add: ipv6_string_def a ipv6_segments_def v4_def)
  have read4: "read_ipv4_addr (ipv4_string v4) = Some (v4, [])"
    using read_ipv4_append [of "[]" v4] by simp
  have "read_number 16 4 True 65536 (''ffff'' @ CHR '':'' # t) = Some (65535, CHR '':'' # t)" for t
    by (rule read_number_append)
      (auto simp: to_digit_def is_ascii_digit_def is_ascii_lowercase_def is_ascii_uppercase_def byte_def)
  moreover have "read_octet (''ffff'' @ t) = None" for t
    by (simp add: read_octet_def read_number_none to_digit_def is_ascii_digit_def
        is_ascii_lowercase_def byte_def)
  ultimately have first: "read_separator 0 read_ipv4_addr (''ffff'' @ CHR '':'' # t) = None"
    "read_separator 0 (read_number 16 4 True 65536) (''ffff'' @ CHR '':'' # t) = Some (65535, CHR '':'' # t)" for t
    by (simp_all add: read_separator_def read_ipv4_addr_def)
  have second: "read_separator (Suc 0) read_ipv4_addr (CHR '':'' # ipv4_string v4) = Some (v4, [])"
    using read4 by (simp add: read_separator_def read_given_char_def)
  have "read_groups (Suc 0) (Suc 5) (CHR '':'' # ipv4_string v4) = ([g, h], True, [])"
    unfolding read_groups.simps(2) second by (simp add: v4_def)
  then have "read_groups 0 (Suc (Suc 5)) (''ffff'' @ CHR '':'' # ipv4_string v4) = ([0xffff, g, h], True, [])"
    unfolding read_groups.simps(2) [of 0] first by simp
  then have tail: "read_groups 0 7 (''ffff'' @ CHR '':'' # ipv4_string v4) = ([0xffff, g, h], True, [])"
    by simp
  have "replicate 5 (0 :: u16) = [0, 0, 0, 0, 0]"
    by (simp add: numeral_eq_Suc)
  then show ?thesis
    unfolding read_ipv6_addr_def shape read_groups_double_colon
    using tail by (simp add: read_given_char_def a ipv6_of_segments_def)
qed

lemma read_ipv6_string: "read_ipv6_addr (ipv6_string a) = Some (a, [])"
proof (cases "take 6 (ipv6_segments a) = [0, 0, 0, 0, 0, 0xffff]")
  case False
  define s where "s = ipv6_segments a"
  obtain start len where run: "zero_run s 0 (0, 0) (0, 0) = (start, len)"
    by (cases "zero_run s 0 (0, 0) (0, 0)")
  have len_s: "length s = 8" and a: "ipv6_of_segments s = a"
    by (simp_all add: s_def)
  show ?thesis
  proof (cases "len > 1")
    case True
    define hd_s tl_s where "hd_s = take start s" and "tl_s = drop (start + len) s"
    have split: "start + len \<le> 8" "s = hd_s @ replicate len 0 @ tl_s"
      using zero_run_split [OF run] len_s by (simp_all add: hd_s_def tl_s_def)
    have lens: "length hd_s = start" "length tl_s = 8 - start - len"
      using split len_s by (simp_all add: hd_s_def tl_s_def)
    have "read_groups 0 8 (ipv6_string a) = (hd_s, False, CHR '':'' # CHR '':'' # groups_string tl_s)"
      using False True run lens split(1)
      by (simp add: ipv6_string_def s_def [symmetric] hd_s_def [symmetric] tl_s_def [symmetric] read_groups_head)
    moreover have "read_groups 0 (8 - (length hd_s + 1)) (groups_string tl_s) = (tl_s, False, [])"
      using lens True by (intro read_groups_all) simp
    ultimately show ?thesis
      using lens split True a by (simp add: read_ipv6_addr_def read_given_char_def)
  next
    case False2: False
    then show ?thesis
      using False run len_s a read_groups_all [of s 8]
      by (simp add: ipv6_string_def s_def [symmetric] read_ipv6_addr_def)
  qed
qed (rule read_ipv6_mapped)

lemma read_ipv4_of_ipv6: "read_ipv4_addr (ipv6_string a) = None"
proof (cases "take 6 (ipv6_segments a) = [0, 0, 0, 0, 0, 0xffff]")
  case True
  have "read_octet (CHR '':'' # s) = None" for s
    by (simp add: read_octet_def read_number_none)
  with True show ?thesis
    by (simp add: ipv6_string_def Let_def read_ipv4_addr_def)
next
  case False
  then show ?thesis
    by (intro read_ipv4_no_dot) (simp add: ipv6_string_def Let_def split: prod.split)
qed

text \<open>The address that is printed is the address that is read.\<close>

lemma parse_ip_string [simp]: "parse_ip (ip_string ip) = Some ip"
proof (cases ip)
  case (V4 a)
  then show ?thesis
    using read_ipv4_append [of "[]" a] by (simp add: parse_ip_def parse_with_def read_ip_addr_def ip_string_def)
next
  case (V6 a)
  then show ?thesis
    by (simp add: parse_ip_def parse_with_def read_ip_addr_def ip_string_def read_ipv6_string read_ipv4_of_ipv6)
qed

lemma visible_hex_string [simp]: "visible (hex_string n)"
proof (rule visible_all)
  show "list_all (\<lambda>c. to_digit 16 c \<noteq> None) (hex_string n)"
    using hex_string_digits by (auto simp: list_all_iff)
  show "to_digit 16 c \<noteq> None \<Longrightarrow> 32 \<le> byte c \<and> byte c < 127" for c
    by (auto simp: to_digit_def Let_def is_ascii_digit_def is_ascii_lowercase_def is_ascii_uppercase_def
        split: if_splits)
qed

lemma byte_separators [simp]: "byte CHR '':'' = 58" "byte CHR ''.'' = 46"
  by (simp_all add: byte_def)

lemma visible_ipv4_string [simp]: "visible (ipv4_string a)"
  by (cases a) (simp add: ipv4_string_def)

lemma visible_groups_string [simp]: "visible (groups_string gs)"
  by (induction gs rule: groups_string.induct) auto

lemma visible_ip_string [simp]: "visible (ip_string ip)"
proof -
  have "visible (ipv6_string a)" for a
    by (simp add: ipv6_string_def Let_def split: prod.split) (simp add: byte_def)
  then show ?thesis by (cases ip) (simp_all add: ip_string_def)
qed

lemma ip_string_nonempty [simp]: "ip_string ip \<noteq> []"
proof
  assume "ip_string ip = []"
  then have "parse_ip [] = Some ip" by (metis parse_ip_string)
  then show False
    by (simp add: parse_ip_def parse_with_def read_ip_addr_def read_ipv4_addr_def read_octet_def
        read_number_none read_ipv6_addr_def read_given_char_def)
qed

end
