(* ===== verification/Capture_Policy.thy ===== *)
theory Capture_Policy
  imports Ip_Address
begin

text \<open>
  \<open>operations/autotune_capture_policy.rs\<close> with the reflector list of \<open>reflector_defaults.rs\<close>: the
  immutable measurement policies of a bootstrap job, their validation, their canonical bytes and the
  digest that a request carries. The SHA-256 of the \<open>ring\<close> crate is the argument \<open>sha256\<close>, from the
  bytes to the digest bytes.
\<close>

section \<open>Definitions\<close>

definition MAX_CAPTURE_POLICY_BYTES :: nat where
  "MAX_CAPTURE_POLICY_BYTES = 16 * 1024"

definition MAX_REFLECTORS :: nat where
  "MAX_REFLECTORS = 64"

definition standard_reflectors :: "string list" where
  "standard_reflectors =
    [''1.1.1.1'', ''1.0.0.1'', ''8.8.8.8'', ''8.8.4.4'', ''9.9.9.9'', ''9.9.9.10'', ''9.9.9.11'',
     ''94.140.14.15'', ''94.140.14.140'', ''94.140.14.141'', ''94.140.15.15'', ''94.140.15.16'',
     ''64.6.65.6'', ''156.154.70.1'', ''156.154.70.2'', ''156.154.70.3'', ''156.154.70.4'',
     ''156.154.70.5'', ''156.154.71.1'', ''156.154.71.2'', ''156.154.71.3'', ''156.154.71.4'',
     ''156.154.71.5'', ''208.67.220.2'', ''208.67.220.123'', ''208.67.220.220'', ''208.67.222.2'',
     ''208.67.222.123'', ''185.228.168.9'', ''185.228.168.10'']"

datatype capture_policy_id = StandardV1 | StandardV2

definition capture_policy_id_as_str :: "capture_policy_id \<Rightarrow> string" where
  "capture_policy_id_as_str i = (case i of StandardV1 \<Rightarrow> ''standard_v1'' | StandardV2 \<Rightarrow> ''standard_v2'')"

definition capture_policy_id_parse :: "string \<Rightarrow> capture_policy_id option" where
  "capture_policy_id_parse value =
     (if value = ''standard_v1'' then Some StandardV1
      else if value = ''standard_v2'' then Some StandardV2
      else None)"

record capture_policy =
  cp_id :: capture_policy_id
  cp_pinger_method :: string
  cp_active_pingers :: u8
  cp_reflectors :: "string list"
  cp_reflector_ping_interval_ms :: u32
  cp_reflector_response_deadline_ms :: u32
  cp_pinger_timeout_ms :: u32
  cp_transport_backend :: string
  cp_transport_endpoint :: string
  cp_transport_baseline_learning_interval_ms :: u32
  cp_transport_loaded_interval_ms :: u32
  cp_transport_timeout_ms :: u32
  cp_transport_load_hold_ms :: u32
  cp_transport_min_loaded_coverage_percent :: u8
  cp_rate_sample_interval_ms :: u32
  cp_maximum_counter_delta_span_ms :: u32
  cp_load_threshold_kbps :: u64
  cp_reverse_ack_ratio_ppm :: u32
  cp_cpu_sample_interval_ms :: u32

definition expected_delta_span :: "capture_policy_id \<Rightarrow> u32" where
  "expected_delta_span i = (case i of StandardV1 \<Rightarrow> 600 | StandardV2 \<Rightarrow> 1500)"

definition reflector_valid :: "string \<Rightarrow> bool" where
  "reflector_valid r \<longleftrightarrow> \<not> (r = [] \<or> length r > 255 \<or> starts_with r ''-''
     \<or> \<not> list_all (\<lambda>b. is_ascii_alphanumeric b \<or> b \<in> set '':.-'') r)"

definition capture_policy_validate :: "capture_policy \<Rightarrow> unit result" where
  "capture_policy_validate p =
     and_then (reject (cp_pinger_method p \<noteq> ''fping'' \<or> cp_active_pingers p = 0
         \<or> unat (cp_active_pingers p) > length (cp_reflectors p)
         \<or> cp_reflectors p = [] \<or> length (cp_reflectors p) > MAX_REFLECTORS)
       ''native Auto-Tune capture ICMP policy is invalid'') (\<lambda>_.
     and_then (reject (\<not> list_all reflector_valid (cp_reflectors p))
       ''native Auto-Tune capture reflector is invalid'') (\<lambda>_.
     reject (cp_reflector_ping_interval_ms p = 0
         \<or> cp_reflector_response_deadline_ms p < cp_reflector_ping_interval_ms p
         \<or> cp_pinger_timeout_ms p < cp_reflector_response_deadline_ms p
         \<or> cp_transport_backend p \<noteq> ''websocket''
         \<or> \<not> starts_with (cp_transport_endpoint p) ''wss://''
         \<or> length (cp_transport_endpoint p) > 512
         \<or> list_ex is_ascii_control (cp_transport_endpoint p)
         \<or> cp_transport_baseline_learning_interval_ms p = 0
         \<or> cp_transport_loaded_interval_ms p = 0
         \<or> cp_transport_timeout_ms p = 0
         \<or> cp_transport_load_hold_ms p = 0
         \<or> \<not> (50 \<le> cp_transport_min_loaded_coverage_percent p
              \<and> cp_transport_min_loaded_coverage_percent p \<le> 100)
         \<or> \<not> (100 \<le> cp_rate_sample_interval_ms p \<and> cp_rate_sample_interval_ms p \<le> 5000)
         \<or> cp_maximum_counter_delta_span_ms p \<noteq> expected_delta_span (cp_id p)
         \<or> cp_maximum_counter_delta_span_ms p < cp_rate_sample_interval_ms p
         \<or> cp_maximum_counter_delta_span_ms p > cp_transport_load_hold_ms p div 2
         \<or> cp_load_threshold_kbps p = 0
         \<or> cp_reverse_ack_ratio_ppm p > 250000
         \<or> cp_cpu_sample_interval_ms p = 0)
       ''native Auto-Tune capture timing policy is invalid''))"

definition quoted :: "string \<Rightarrow> string" where
  "quoted s = [CHR 0x22] @ s @ [CHR 0x22]"

definition json_key :: "string \<Rightarrow> string" where
  "json_key s = quoted s @ '':''"

fun join_str :: "string \<Rightarrow> string list \<Rightarrow> string" where
  "join_str sep [] = []"
| "join_str sep [s] = s"
| "join_str sep (s # t # ss) = s @ sep @ join_str sep (t # ss)"

definition capture_policy_canonical_text :: "capture_policy \<Rightarrow> string" where
  "capture_policy_canonical_text p =
     ''{'' @ json_key ''autotune_capture_policy_schema_version''
     @ (case cp_id p of StandardV1 \<Rightarrow> ''1'' | StandardV2 \<Rightarrow> ''2'') @ '',''
     @ json_key ''policy_id'' @ quoted (capture_policy_id_as_str (cp_id p)) @ '',''
     @ json_key ''icmp'' @ ''{'' @ json_key ''method'' @ quoted (cp_pinger_method p) @ '',''
     @ json_key ''active_count'' @ word_string (cp_active_pingers p) @ '',''
     @ json_key ''reflectors'' @ ''['' @ join_str '','' (map quoted (cp_reflectors p)) @ ''],''
     @ json_key ''interval_ms'' @ word_string (cp_reflector_ping_interval_ms p) @ '',''
     @ json_key ''response_deadline_ms'' @ word_string (cp_reflector_response_deadline_ms p) @ '',''
     @ json_key ''probe_timeout_ms'' @ word_string (cp_pinger_timeout_ms p) @ ''},''
     @ json_key ''transport'' @ ''{'' @ json_key ''backend'' @ quoted (cp_transport_backend p) @ '',''
     @ json_key ''endpoint'' @ quoted (cp_transport_endpoint p) @ '',''
     @ json_key ''baseline_learning_interval_ms''
     @ word_string (cp_transport_baseline_learning_interval_ms p) @ '',''
     @ json_key ''loaded_interval_ms'' @ word_string (cp_transport_loaded_interval_ms p) @ '',''
     @ json_key ''timeout_ms'' @ word_string (cp_transport_timeout_ms p) @ '',''
     @ json_key ''load_hold_ms'' @ word_string (cp_transport_load_hold_ms p) @ '',''
     @ json_key ''minimum_loaded_coverage_percent''
     @ word_string (cp_transport_min_loaded_coverage_percent p) @ ''},''
     @ json_key ''load'' @ ''{'' @ json_key ''rate_sample_interval_ms''
     @ word_string (cp_rate_sample_interval_ms p) @ '',''
     @ (case cp_id p of
          StandardV1 \<Rightarrow> []
        | StandardV2 \<Rightarrow> json_key ''maximum_counter_delta_span_ms''
            @ word_string (cp_maximum_counter_delta_span_ms p) @ '','')
     @ json_key ''active_threshold_kbps'' @ word_string (cp_load_threshold_kbps p) @ '',''
     @ json_key ''reverse_ack_ratio_ppm'' @ word_string (cp_reverse_ack_ratio_ppm p) @ ''},''
     @ json_key ''cpu'' @ ''{'' @ json_key ''sample_interval_ms''
     @ word_string (cp_cpu_sample_interval_ms p) @ ''}}}'' @ [LF]"

definition capture_policy_canonical_bytes :: "capture_policy \<Rightarrow> string result" where
  "capture_policy_canonical_bytes p =
     and_then (capture_policy_validate p) (\<lambda>_.
     let output = capture_policy_canonical_text p in
     and_then (reject (length output > MAX_CAPTURE_POLICY_BYTES)
       ''native Auto-Tune capture policy exceeds its byte bound'') (\<lambda>_.
     Ok output))"

definition byte_hex :: "char \<Rightarrow> string" where
  "byte_hex c = [hex_char (byte c div 16), hex_char (byte c mod 16)]"

definition hex_digest :: "(string \<Rightarrow> string) \<Rightarrow> string \<Rightarrow> string" where
  "hex_digest sha256 bytes = concat (map byte_hex (sha256 bytes))"

definition capture_policy_canonical_sha256 ::
  "(string \<Rightarrow> string) \<Rightarrow> capture_policy \<Rightarrow> string result" where
  "capture_policy_canonical_sha256 sha256 p =
     and_then (capture_policy_canonical_bytes p) (\<lambda>bytes. Ok (hex_digest sha256 bytes))"

definition standard_policy :: "capture_policy_id \<Rightarrow> capture_policy" where
  "standard_policy i =
     \<lparr>cp_id = i, cp_pinger_method = ''fping'', cp_active_pingers = 6,
      cp_reflectors = standard_reflectors, cp_reflector_ping_interval_ms = 300,
      cp_reflector_response_deadline_ms = 1000, cp_pinger_timeout_ms = 10000,
      cp_transport_backend = ''websocket'',
      cp_transport_endpoint = ''wss://ping-bufferbloat.libreqos.com/ws'',
      cp_transport_baseline_learning_interval_ms = 1000, cp_transport_loaded_interval_ms = 1000,
      cp_transport_timeout_ms = 5000, cp_transport_load_hold_ms = 3000,
      cp_transport_min_loaded_coverage_percent = 70, cp_rate_sample_interval_ms = 200,
      cp_maximum_counter_delta_span_ms = (case i of StandardV1 \<Rightarrow> 600 | StandardV2 \<Rightarrow> 1500),
      cp_load_threshold_kbps = 2000, cp_reverse_ack_ratio_ppm = 80000,
      cp_cpu_sample_interval_ms = 2000\<rparr>"

definition capture_policy_id_expand :: "capture_policy_id \<Rightarrow> capture_policy result" where
  "capture_policy_id_expand i =
     (let value = standard_policy i in
      and_then (capture_policy_validate value) (\<lambda>_.
      and_then (capture_policy_canonical_bytes value) (\<lambda>_.
      Ok value)))"

definition capture_policy_id_canonical_sha256 ::
  "(string \<Rightarrow> string) \<Rightarrow> capture_policy_id \<Rightarrow> string result" where
  "capture_policy_id_canonical_sha256 sha256 i =
     and_then (capture_policy_id_expand i) (\<lambda>p. capture_policy_canonical_sha256 sha256 p)"

section \<open>The standard policies\<close>

lemma capture_policy_id_parse_as_str [simp]:
  "capture_policy_id_parse (capture_policy_id_as_str i) = Some i"
  by (cases i) (simp_all add: capture_policy_id_parse_def capture_policy_id_as_str_def)

lemma standard_numbers:
  "word_string (6 :: u8) = ''6''" "word_string (300 :: u32) = ''300''" "word_string (1000 :: u32) = ''1000''"
  "word_string (10000 :: u32) = ''10000''" "word_string (5000 :: u32) = ''5000''"
  "word_string (3000 :: u32) = ''3000''" "word_string (70 :: u8) = ''70''" "word_string (200 :: u32) = ''200''"
  "word_string (600 :: u32) = ''600''" "word_string (1500 :: u32) = ''1500''" "word_string (2000 :: u64) = ''2000''"
  "word_string (80000 :: u32) = ''80000''" "word_string (2000 :: u32) = ''2000''"
  by code_simp+

lemmas standard_text = capture_policy_canonical_text_def standard_policy_def standard_numbers
  standard_reflectors_def json_key_def quoted_def capture_policy_id_as_str_def

lemma standard_policy_valid [simp]: "capture_policy_validate (standard_policy i) = Ok ()"
  by (cases i)
    (simp_all add: capture_policy_validate_def standard_policy_def standard_reflectors_def reflector_valid_def
      expected_delta_span_def MAX_REFLECTORS_def starts_with_def is_ascii_alphanumeric_def is_ascii_digit_def
      is_ascii_lowercase_def is_ascii_control_def byte_def)

lemma standard_policy_lengths:
  "length (capture_policy_canonical_text (standard_policy StandardV1)) = 984"
  "length (capture_policy_canonical_text (standard_policy StandardV2)) = 1021"
  by (simp_all add: standard_text)

lemma standard_policy_bytes [simp]:
  "capture_policy_canonical_bytes (standard_policy i) = Ok (capture_policy_canonical_text (standard_policy i))"
  using standard_policy_lengths
  by (cases i) (simp_all add: capture_policy_canonical_bytes_def Let_def MAX_CAPTURE_POLICY_BYTES_def)

lemma expand_standard [simp]: "capture_policy_id_expand i = Ok (standard_policy i)"
  by (simp add: capture_policy_id_expand_def Let_def)

lemma id_canonical_sha256:
  "capture_policy_id_canonical_sha256 sha256 i =
     Ok (hex_digest sha256 (capture_policy_canonical_text (standard_policy i)))"
  by (simp add: capture_policy_id_canonical_sha256_def capture_policy_canonical_sha256_def)

lemma lower_hex_hex_char: "d < 16 \<Longrightarrow> is_lower_hex_digit (hex_char d)"
proof -
  assume "d < 16"
  then have "d \<in> set [0 ..< 16]" by simp
  then have "d \<in> {0, 1, 2, 3, 4, 5, 6, 7, 8, 9, 10, 11, 12, 13, 14, 15}"
    by (auto simp: upt_rec)
  then show ?thesis
    by (elim insertE emptyE) (simp_all add: hex_char_def is_lower_hex_digit_def is_ascii_digit_def byte_def)
qed

lemma length_hex_digest [simp]: "length (hex_digest sha256 b) = 2 * length (sha256 b)"
  by (simp add: hex_digest_def byte_hex_def length_concat comp_def sum_list_triv)

lemma lower_hex_hex_digest: "list_all is_lower_hex_digit (hex_digest sha256 b)"
proof -
  have "byte c div 16 < 16" for c
    using byte_less [of c] by (simp add: less_mult_imp_div_less)
  then show ?thesis
    by (auto simp: hex_digest_def byte_hex_def list_all_iff lower_hex_hex_char)
qed

section \<open>Properties\<close>

text \<open>Both versioned capture policies are usable and distinguishable. Each identifier is parsed
  back from its text, expands without an error to its fixed values, which pass the validation, and has
  a canonical text within the byte bound; the two canonical texts differ, and with a digest function of
  32 bytes the digest that a request must carry is 64 lowercase hexadecimal digits.\<close>

theorem capture_policies_well_defined:
  assumes "\<And>bytes. length (sha256 bytes) = 32"
  shows "capture_policy_id_parse (capture_policy_id_as_str i) = Some i
    \<and> (\<exists>p text digest. capture_policy_id_expand i = Ok p \<and> cp_id p = i
         \<and> capture_policy_validate p = Ok () \<and> capture_policy_canonical_bytes p = Ok text
         \<and> length text \<le> MAX_CAPTURE_POLICY_BYTES
         \<and> capture_policy_id_canonical_sha256 sha256 i = Ok digest
         \<and> length digest = 64 \<and> list_all is_lower_hex_digit digest)
    \<and> capture_policy_canonical_bytes (standard_policy StandardV1)
       \<noteq> capture_policy_canonical_bytes (standard_policy StandardV2)"
proof -
  have "length (capture_policy_canonical_text (standard_policy i)) \<le> MAX_CAPTURE_POLICY_BYTES"
    using standard_policy_lengths by (cases i) (simp_all add: MAX_CAPTURE_POLICY_BYTES_def)
  moreover have "capture_policy_canonical_text (standard_policy StandardV1)
      \<noteq> capture_policy_canonical_text (standard_policy StandardV2)"
    by (rule notI, drule arg_cong [of _ _ length]) (simp add: standard_policy_lengths)
  moreover have "cp_id (standard_policy i) = i"
    by (simp add: standard_policy_def)
  ultimately show ?thesis
    using assms by (simp add: id_canonical_sha256 lower_hex_hex_digest)
qed

theorem capture_policies_well_defined_witness:
  "\<exists>digest. capture_policy_id_canonical_sha256 (\<lambda>_. replicate 32 CHR ''x'') StandardV2 = Ok digest
     \<and> length digest = 64"
  using capture_policies_well_defined [of "\<lambda>_. replicate 32 CHR ''x''" StandardV2] by auto

text \<open>The canonical text of a policy reads as JSON but is not: it closes one brace more than it
  opens, and the frozen digests of the two policies are digests of that text.\<close>

theorem canonical_text_unbalanced:
  "length (filter (\<lambda>c. c = CHR 0x7D) (capture_policy_canonical_text (standard_policy i)))
   = Suc (length (filter (\<lambda>c. c = CHR 0x7B) (capture_policy_canonical_text (standard_policy i))))"
proof -
  have reflectors: "filter (\<lambda>c. c = CHR 0x7D) (join_str '','' (map quoted standard_reflectors)) = []"
    "filter (\<lambda>c. c = CHR 0x7B) (join_str '','' (map quoted standard_reflectors)) = []"
    by code_simp+
  show ?thesis
    unfolding capture_policy_canonical_text_def json_key_def quoted_def capture_policy_id_as_str_def
      filter_append length_append
    by (cases i) (simp_all add: standard_policy_def standard_numbers reflectors [unfolded quoted_def, simplified])
qed

end
