(* ===== verification/Operation_Terms.thy ===== *)
theory Operation_Terms
  imports Capture_Policy
begin

text \<open>
  The enumerations of the operation protocol (\<open>operations/protocol.rs\<close>) and of the access context
  (\<open>autotune.rs\<close>), each with the text it is written as and the texts it is read from. The locale
  \<open>text_enum\<close> is the contract between the two; every enumeration interprets it.
\<close>

section \<open>Definitions\<close>

datatype operation_kind = FullAutotune | AutomaticRating | GuidedRating | Speedtest

definition operation_kind_as_str :: "operation_kind \<Rightarrow> string" where
  "operation_kind_as_str x =
     (case x of
        FullAutotune \<Rightarrow> ''full_autotune''
      | AutomaticRating \<Rightarrow> ''automatic_rating''
      | GuidedRating \<Rightarrow> ''guided_rating''
      | Speedtest \<Rightarrow> ''speedtest'')"

definition operation_kind_parse :: "string \<Rightarrow> operation_kind option" where
  "operation_kind_parse value =
     (if value = ''full_autotune'' then Some FullAutotune
      else if value = ''automatic_rating'' then Some AutomaticRating
      else if value = ''guided_rating'' then Some GuidedRating
      else if value = ''speedtest'' then Some Speedtest
      else None)"

datatype operation_origin = Luci | Scheduler | Recovery | Internal

definition operation_origin_as_str :: "operation_origin \<Rightarrow> string" where
  "operation_origin_as_str x =
     (case x of
        Luci \<Rightarrow> ''luci''
      | Scheduler \<Rightarrow> ''scheduler''
      | Recovery \<Rightarrow> ''recovery''
      | Internal \<Rightarrow> ''internal'')"

definition operation_origin_parse :: "string \<Rightarrow> operation_origin option" where
  "operation_origin_parse value =
     (if value = ''luci'' then Some Luci
      else if value = ''scheduler'' then Some Scheduler
      else if value = ''recovery'' then Some Recovery
      else if value = ''internal'' then Some Internal
      else None)"

datatype operation_target_state = ExistingManaged | AbsentBootstrap

definition operation_target_state_as_str :: "operation_target_state \<Rightarrow> string" where
  "operation_target_state_as_str x =
     (case x of
        ExistingManaged \<Rightarrow> ''existing_managed''
      | AbsentBootstrap \<Rightarrow> ''absent_bootstrap'')"

definition operation_target_state_parse :: "string \<Rightarrow> operation_target_state option" where
  "operation_target_state_parse value =
     (if value = ''existing_managed'' then Some ExistingManaged
      else if value = ''absent_bootstrap'' then Some AbsentBootstrap
      else None)"

datatype operation_route_mode = Main | Mwan3 | Explicit

definition operation_route_mode_as_str :: "operation_route_mode \<Rightarrow> string" where
  "operation_route_mode_as_str x =
     (case x of
        Main \<Rightarrow> ''main''
      | Mwan3 \<Rightarrow> ''mwan3''
      | Explicit \<Rightarrow> ''explicit'')"

definition operation_route_mode_parse :: "string \<Rightarrow> operation_route_mode option" where
  "operation_route_mode_parse value =
     (if value = ''main'' then Some Main
      else if value = ''mwan3'' then Some Mwan3
      else if value = ''explicit'' then Some Explicit
      else None)"

datatype calibration_strategy = ShapedOnly | FullRaw | ReuseTrusted

definition calibration_strategy_as_str :: "calibration_strategy \<Rightarrow> string" where
  "calibration_strategy_as_str x =
     (case x of
        ShapedOnly \<Rightarrow> ''shaped_only''
      | FullRaw \<Rightarrow> ''full_raw''
      | ReuseTrusted \<Rightarrow> ''reuse_trusted'')"

definition calibration_strategy_parse :: "string \<Rightarrow> calibration_strategy option" where
  "calibration_strategy_parse value =
     (if value = ''shaped_only'' then Some ShapedOnly
      else if value = ''full_raw'' then Some FullRaw
      else if value = ''reuse_trusted'' then Some ReuseTrusted
      else None)"

datatype speedtest_direction = Download | Upload | Both

definition speedtest_direction_as_str :: "speedtest_direction \<Rightarrow> string" where
  "speedtest_direction_as_str x =
     (case x of
        Download \<Rightarrow> ''download''
      | Upload \<Rightarrow> ''upload''
      | Both \<Rightarrow> ''both'')"

definition speedtest_direction_parse :: "string \<Rightarrow> speedtest_direction option" where
  "speedtest_direction_parse value =
     (if value = ''download'' then Some Download
      else if value = ''upload'' then Some Upload
      else if value = ''both'' then Some Both
      else None)"

datatype speedtest_topology = Current | Unshaped

definition speedtest_topology_as_str :: "speedtest_topology \<Rightarrow> string" where
  "speedtest_topology_as_str x =
     (case x of
        Current \<Rightarrow> ''current''
      | Unshaped \<Rightarrow> ''unshaped'')"

definition speedtest_topology_parse :: "string \<Rightarrow> speedtest_topology option" where
  "speedtest_topology_parse value =
     (if value = ''current'' then Some Current
      else if value = ''unshaped'' then Some Unshaped
      else None)"

datatype operation_state =
    Queued | Starting | Running | Cancelling | Recovering
  | ReviewReady | Completed | Failed | Cancelled

definition operation_state_as_str :: "operation_state \<Rightarrow> string" where
  "operation_state_as_str x =
     (case x of
        Queued \<Rightarrow> ''queued''
      | Starting \<Rightarrow> ''starting''
      | Running \<Rightarrow> ''running''
      | Cancelling \<Rightarrow> ''cancelling''
      | Recovering \<Rightarrow> ''recovering''
      | ReviewReady \<Rightarrow> ''review_ready''
      | Completed \<Rightarrow> ''completed''
      | Failed \<Rightarrow> ''failed''
      | Cancelled \<Rightarrow> ''cancelled'')"

definition operation_state_parse :: "string \<Rightarrow> operation_state option" where
  "operation_state_parse value =
     (if value = ''queued'' then Some Queued
      else if value = ''starting'' then Some Starting
      else if value = ''running'' then Some Running
      else if value = ''cancelling'' then Some Cancelling
      else if value = ''recovering'' then Some Recovering
      else if value = ''review_ready'' then Some ReviewReady
      else if value = ''completed'' then Some Completed
      else if value = ''failed'' then Some Failed
      else if value = ''cancelled'' then Some Cancelled
      else None)"

datatype control_command = Ping | Summary | Start | Status | Result | Cancel

definition control_command_as_str :: "control_command \<Rightarrow> string" where
  "control_command_as_str x =
     (case x of
        Ping \<Rightarrow> ''ping''
      | Summary \<Rightarrow> ''summary''
      | Start \<Rightarrow> ''start''
      | Status \<Rightarrow> ''status''
      | Result \<Rightarrow> ''result''
      | Cancel \<Rightarrow> ''cancel'')"

definition control_command_parse :: "string \<Rightarrow> control_command option" where
  "control_command_parse value =
     (if value = ''ping'' then Some Ping
      else if value = ''summary'' then Some Summary
      else if value = ''start'' then Some Start
      else if value = ''status'' then Some Status
      else if value = ''result'' then Some Result
      else if value = ''cancel'' then Some Cancel
      else None)"

datatype access_medium =
    Cellular | LeoSatellite | GeoSatellite
  | FixedWireless | SharedWired | Unknown

definition access_medium_as_str :: "access_medium \<Rightarrow> string" where
  "access_medium_as_str x =
     (case x of
        Cellular \<Rightarrow> ''cellular''
      | LeoSatellite \<Rightarrow> ''leo_satellite''
      | GeoSatellite \<Rightarrow> ''geo_satellite''
      | FixedWireless \<Rightarrow> ''fixed_wireless''
      | SharedWired \<Rightarrow> ''shared_wired''
      | Unknown \<Rightarrow> ''unknown'')"

definition access_medium_parse :: "string \<Rightarrow> access_medium option" where
  "access_medium_parse value =
     (if value \<in> set [''cellular'', ''4g'', ''5g''] then Some Cellular
      else if value \<in> set [''leo_satellite'', ''leo-satellite'', ''leo''] then Some LeoSatellite
      else if value \<in> set [''geo_satellite'', ''geo-satellite'', ''geo'', ''high_latency_satellite''] then Some GeoSatellite
      else if value \<in> set [''fixed_wireless'', ''fixed-wireless'', ''wisp'', ''wifi_bridge''] then Some FixedWireless
      else if value \<in> set [''shared_wired'', ''shared-wired'', ''shared''] then Some SharedWired
      else if value = ''unknown'' then Some Unknown
      else None)"

datatype access_evidence_source =
    UserSelected | NetworkProtocol | DeviceType
  | InterfaceName | AutoInconclusive | LegacyDefault

definition access_evidence_source_as_str :: "access_evidence_source \<Rightarrow> string" where
  "access_evidence_source_as_str x =
     (case x of
        UserSelected \<Rightarrow> ''user_selected''
      | NetworkProtocol \<Rightarrow> ''network_protocol''
      | DeviceType \<Rightarrow> ''device_type''
      | InterfaceName \<Rightarrow> ''interface_name''
      | AutoInconclusive \<Rightarrow> ''auto_inconclusive''
      | LegacyDefault \<Rightarrow> ''legacy_default'')"

definition access_evidence_source_parse :: "string \<Rightarrow> access_evidence_source option" where
  "access_evidence_source_parse value =
     (if value = ''user_selected'' then Some UserSelected
      else if value = ''network_protocol'' then Some NetworkProtocol
      else if value = ''device_type'' then Some DeviceType
      else if value = ''interface_name'' then Some InterfaceName
      else if value = ''auto_inconclusive'' then Some AutoInconclusive
      else if value = ''legacy_default'' then Some LegacyDefault
      else None)"

datatype capacity_learning_policy = VerifiedOnly | PassiveBounded | ScheduledActive | FixedCap

definition capacity_learning_policy_as_str :: "capacity_learning_policy \<Rightarrow> string" where
  "capacity_learning_policy_as_str x =
     (case x of
        VerifiedOnly \<Rightarrow> ''verified_only''
      | PassiveBounded \<Rightarrow> ''passive_bounded''
      | ScheduledActive \<Rightarrow> ''scheduled_active''
      | FixedCap \<Rightarrow> ''fixed_cap'')"

definition capacity_learning_policy_parse :: "string \<Rightarrow> capacity_learning_policy option" where
  "capacity_learning_policy_parse value =
     (if value \<in> set [''verified_only'', ''verified-only''] then Some VerifiedOnly
      else if value \<in> set [''passive_bounded'', ''passive-bounded'', ''passive''] then Some PassiveBounded
      else if value \<in> set [''scheduled_active'', ''scheduled-active'', ''periodic_active''] then Some ScheduledActive
      else if value \<in> set [''fixed_cap'', ''fixed-cap'', ''fixed''] then Some FixedCap
      else None)"

datatype autotune_profile = Gaming | GamingExtreme | BestOverall | VariableLink | Fair

definition autotune_profile_as_str :: "autotune_profile \<Rightarrow> string" where
  "autotune_profile_as_str x =
     (case x of
        Gaming \<Rightarrow> ''gaming''
      | GamingExtreme \<Rightarrow> ''gaming_extreme''
      | BestOverall \<Rightarrow> ''best_overall''
      | VariableLink \<Rightarrow> ''variable_link''
      | Fair \<Rightarrow> ''fair'')"

definition autotune_profile_parse :: "string \<Rightarrow> autotune_profile option" where
  "autotune_profile_parse value =
     (if value = ''gaming'' then Some Gaming
      else if value \<in> set [''gaming_extreme'', ''gaming-extreme'', ''extreme_gaming''] then Some GamingExtreme
      else if value \<in> set [''best_overall'', ''best-overall'', ''balanced''] then Some BestOverall
      else if value \<in> set [''variable_link'', ''variable-link'', ''variable''] then Some VariableLink
      else if value = ''fair'' then Some Fair
      else None)"

section \<open>The contract of an enumeration's text\<close>

text \<open>A token is not empty and made of visible ASCII bytes, so that it survives a record field.\<close>

definition token :: "string \<Rightarrow> bool" where
  "token s = (s \<noteq> [] \<and> list_all (\<lambda>c. 33 \<le> byte c \<and> byte c < 127) s)"

definition optional_text :: "('a \<Rightarrow> string) \<Rightarrow> 'a option \<Rightarrow> string" where
  "optional_text as_str v = (case v of None \<Rightarrow> [] | Some x \<Rightarrow> as_str x)"

definition parse_optional_enum :: "string \<Rightarrow> (string \<Rightarrow> 'a option) \<Rightarrow> string \<Rightarrow> 'a option result" where
  "parse_optional_enum value parse name =
     (if value = [] then Ok None
      else and_then (ok_or (parse value) (''unsupported '' @ name)) (\<lambda>x. Ok (Some x)))"

lemma optional_text_simps [simp]:
  "optional_text f None = []" "optional_text f (Some x) = f x"
  by (simp_all add: optional_text_def)

locale text_enum =
  fixes as_str :: "'a \<Rightarrow> string" and parse :: "string \<Rightarrow> 'a option"
  assumes parse_as_str: "parse (as_str x) = Some x"
    and as_str_token: "token (as_str x)"
    and as_str_short: "length (as_str x) \<le> 24"
begin

lemma as_str_nonempty: "as_str x \<noteq> []"
  using as_str_token [of x] by (simp add: token_def)

lemma as_str_inj: "as_str x = as_str y \<Longrightarrow> x = y"
  by (metis option.inject parse_as_str)

lemma parse_optional_text: "parse_optional_enum (optional_text as_str v) parse name = Ok v"
  by (cases v) (simp_all add: parse_optional_enum_def as_str_nonempty parse_as_str)

lemma optional_text_short: "length (optional_text as_str v) \<le> 24"
  by (cases v) (simp_all add: as_str_short)

lemma optional_text_token: "optional_text as_str v = [] \<or> token (optional_text as_str v)"
  by (cases v) (simp_all add: as_str_token)

end

interpretation operation_kind_text: text_enum operation_kind_as_str operation_kind_parse
proof unfold_locales
  show "operation_kind_parse (operation_kind_as_str x) = Some x" for x
    by (cases x) (simp_all add: operation_kind_parse_def operation_kind_as_str_def)
  show "token (operation_kind_as_str x)" for x
    by (cases x) (simp_all add: operation_kind_as_str_def token_def byte_def)
  show "length (operation_kind_as_str x) \<le> 24" for x
    by (cases x) (simp_all add: operation_kind_as_str_def)
qed

interpretation operation_origin_text: text_enum operation_origin_as_str operation_origin_parse
proof unfold_locales
  show "operation_origin_parse (operation_origin_as_str x) = Some x" for x
    by (cases x) (simp_all add: operation_origin_parse_def operation_origin_as_str_def)
  show "token (operation_origin_as_str x)" for x
    by (cases x) (simp_all add: operation_origin_as_str_def token_def byte_def)
  show "length (operation_origin_as_str x) \<le> 24" for x
    by (cases x) (simp_all add: operation_origin_as_str_def)
qed

interpretation operation_target_state_text: text_enum operation_target_state_as_str operation_target_state_parse
proof unfold_locales
  show "operation_target_state_parse (operation_target_state_as_str x) = Some x" for x
    by (cases x) (simp_all add: operation_target_state_parse_def operation_target_state_as_str_def)
  show "token (operation_target_state_as_str x)" for x
    by (cases x) (simp_all add: operation_target_state_as_str_def token_def byte_def)
  show "length (operation_target_state_as_str x) \<le> 24" for x
    by (cases x) (simp_all add: operation_target_state_as_str_def)
qed

interpretation operation_route_mode_text: text_enum operation_route_mode_as_str operation_route_mode_parse
proof unfold_locales
  show "operation_route_mode_parse (operation_route_mode_as_str x) = Some x" for x
    by (cases x) (simp_all add: operation_route_mode_parse_def operation_route_mode_as_str_def)
  show "token (operation_route_mode_as_str x)" for x
    by (cases x) (simp_all add: operation_route_mode_as_str_def token_def byte_def)
  show "length (operation_route_mode_as_str x) \<le> 24" for x
    by (cases x) (simp_all add: operation_route_mode_as_str_def)
qed

interpretation calibration_strategy_text: text_enum calibration_strategy_as_str calibration_strategy_parse
proof unfold_locales
  show "calibration_strategy_parse (calibration_strategy_as_str x) = Some x" for x
    by (cases x) (simp_all add: calibration_strategy_parse_def calibration_strategy_as_str_def)
  show "token (calibration_strategy_as_str x)" for x
    by (cases x) (simp_all add: calibration_strategy_as_str_def token_def byte_def)
  show "length (calibration_strategy_as_str x) \<le> 24" for x
    by (cases x) (simp_all add: calibration_strategy_as_str_def)
qed

interpretation speedtest_direction_text: text_enum speedtest_direction_as_str speedtest_direction_parse
proof unfold_locales
  show "speedtest_direction_parse (speedtest_direction_as_str x) = Some x" for x
    by (cases x) (simp_all add: speedtest_direction_parse_def speedtest_direction_as_str_def)
  show "token (speedtest_direction_as_str x)" for x
    by (cases x) (simp_all add: speedtest_direction_as_str_def token_def byte_def)
  show "length (speedtest_direction_as_str x) \<le> 24" for x
    by (cases x) (simp_all add: speedtest_direction_as_str_def)
qed

interpretation speedtest_topology_text: text_enum speedtest_topology_as_str speedtest_topology_parse
proof unfold_locales
  show "speedtest_topology_parse (speedtest_topology_as_str x) = Some x" for x
    by (cases x) (simp_all add: speedtest_topology_parse_def speedtest_topology_as_str_def)
  show "token (speedtest_topology_as_str x)" for x
    by (cases x) (simp_all add: speedtest_topology_as_str_def token_def byte_def)
  show "length (speedtest_topology_as_str x) \<le> 24" for x
    by (cases x) (simp_all add: speedtest_topology_as_str_def)
qed

interpretation operation_state_text: text_enum operation_state_as_str operation_state_parse
proof unfold_locales
  show "operation_state_parse (operation_state_as_str x) = Some x" for x
    by (cases x) (simp_all add: operation_state_parse_def operation_state_as_str_def)
  show "token (operation_state_as_str x)" for x
    by (cases x) (simp_all add: operation_state_as_str_def token_def byte_def)
  show "length (operation_state_as_str x) \<le> 24" for x
    by (cases x) (simp_all add: operation_state_as_str_def)
qed

interpretation control_command_text: text_enum control_command_as_str control_command_parse
proof unfold_locales
  show "control_command_parse (control_command_as_str x) = Some x" for x
    by (cases x) (simp_all add: control_command_parse_def control_command_as_str_def)
  show "token (control_command_as_str x)" for x
    by (cases x) (simp_all add: control_command_as_str_def token_def byte_def)
  show "length (control_command_as_str x) \<le> 24" for x
    by (cases x) (simp_all add: control_command_as_str_def)
qed

interpretation access_medium_text: text_enum access_medium_as_str access_medium_parse
proof unfold_locales
  show "access_medium_parse (access_medium_as_str x) = Some x" for x
    by (cases x) (simp_all add: access_medium_parse_def access_medium_as_str_def)
  show "token (access_medium_as_str x)" for x
    by (cases x) (simp_all add: access_medium_as_str_def token_def byte_def)
  show "length (access_medium_as_str x) \<le> 24" for x
    by (cases x) (simp_all add: access_medium_as_str_def)
qed

interpretation access_evidence_source_text: text_enum access_evidence_source_as_str access_evidence_source_parse
proof unfold_locales
  show "access_evidence_source_parse (access_evidence_source_as_str x) = Some x" for x
    by (cases x) (simp_all add: access_evidence_source_parse_def access_evidence_source_as_str_def)
  show "token (access_evidence_source_as_str x)" for x
    by (cases x) (simp_all add: access_evidence_source_as_str_def token_def byte_def)
  show "length (access_evidence_source_as_str x) \<le> 24" for x
    by (cases x) (simp_all add: access_evidence_source_as_str_def)
qed

interpretation capacity_learning_policy_text: text_enum capacity_learning_policy_as_str capacity_learning_policy_parse
proof unfold_locales
  show "capacity_learning_policy_parse (capacity_learning_policy_as_str x) = Some x" for x
    by (cases x) (simp_all add: capacity_learning_policy_parse_def capacity_learning_policy_as_str_def)
  show "token (capacity_learning_policy_as_str x)" for x
    by (cases x) (simp_all add: capacity_learning_policy_as_str_def token_def byte_def)
  show "length (capacity_learning_policy_as_str x) \<le> 24" for x
    by (cases x) (simp_all add: capacity_learning_policy_as_str_def)
qed

interpretation autotune_profile_text: text_enum autotune_profile_as_str autotune_profile_parse
proof unfold_locales
  show "autotune_profile_parse (autotune_profile_as_str x) = Some x" for x
    by (cases x) (simp_all add: autotune_profile_parse_def autotune_profile_as_str_def)
  show "token (autotune_profile_as_str x)" for x
    by (cases x) (simp_all add: autotune_profile_as_str_def token_def byte_def)
  show "length (autotune_profile_as_str x) \<le> 24" for x
    by (cases x) (simp_all add: autotune_profile_as_str_def)
qed

end
