(* ===== verification/Codec.thy ===== *)
theory Codec
  imports Rust_Prelude
begin

text \<open>
  The contract between the encoder and the decoder of a stored or transmitted record. Every record of
  the development interprets it on its own definitions.
\<close>

section \<open>The contract of a record codec\<close>

text \<open>
  The interface between a component that stores a record and the component that reads it: a value
  that passes its validation encodes, decoding an encoding gives the value back, and nothing but the
  encoding of a valid value decodes.
\<close>

locale codec =
  fixes encode :: "'a \<Rightarrow> string result"
    and decode :: "string \<Rightarrow> 'a result"
    and storable :: "'a \<Rightarrow> bool"
  assumes encodes: "storable x \<Longrightarrow> \<exists>s. encode x = Ok s"
    and round_trip: "storable x \<Longrightarrow> encode x = Ok s \<Longrightarrow> decode s = Ok x"
    and canonical: "decode s = Ok x \<Longrightarrow> storable x \<and> encode x = Ok s"
begin

lemma decode_iff: "decode s = Ok x \<longleftrightarrow> storable x \<and> encode x = Ok s"
  using round_trip canonical by blast

lemma encode_inj:
  assumes "storable x" "storable y" "encode x = Ok s" "encode y = Ok s"
  shows "x = y"
proof -
  have "decode s = Ok x" "decode s = Ok y"
    using assms round_trip by blast+
  then show ?thesis by simp
qed

lemma decode_functional: "decode s = Ok x \<Longrightarrow> decode t = Ok x \<Longrightarrow> s = t"
  using canonical [of s x] canonical [of t x] by simp

lemma decode_total_on_storable: "storable x \<Longrightarrow> \<exists>s. encode x = Ok s \<and> decode s = Ok x"
  using encodes round_trip by blast

end

end
