(* ===== verification/Operation_Wire.thy ===== *)
theory Operation_Wire
  imports Operation_Terms Codec
begin

text \<open>
  The text layer of \<open>operations/protocol.rs\<close>: percent encoding of field values, the record writer
  with its size bound, the strict line reader, the scalar parsers and the control request with its
  codec.
\<close>

section \<open>Definitions\<close>

definition MAX_OPERATION_RECORD_BYTES :: nat where
  "MAX_OPERATION_RECORD_BYTES = 8 * 1024"

definition CONTROL_HEADER :: string where
  "CONTROL_HEADER = ''cake-autorate-operation'' @ [TAB] @ ''2'' @ [TAB] @ ''control''"

definition record_bound_error :: string where
  "record_bound_error = ''operation record exceeds 8192 bytes''"

subsection \<open>Percent encoding\<close>

definition unreserved :: "char \<Rightarrow> bool" where
  "unreserved c = (is_ascii_alphanumeric c \<or> c \<in> set ''-._~'')"

definition upper_hex_char :: "nat \<Rightarrow> char" where
  "upper_hex_char d = (if d < 16 then ''0123456789ABCDEF'' ! d else CHR ''?'')"

definition percent_encode_byte :: "char \<Rightarrow> string" where
  "percent_encode_byte c =
     (if unreserved c then [c]
      else [CHR ''%'', upper_hex_char (byte c div 16), upper_hex_char (byte c mod 16)])"

definition percent_encode :: "string \<Rightarrow> string" where
  "percent_encode value = concat (map percent_encode_byte value)"

definition hex_value :: "char \<Rightarrow> nat result" where
  "hex_value c =
     (if is_ascii_digit c then Ok (byte c - 48)
      else if 65 \<le> byte c \<and> byte c \<le> 70 then Ok (byte c - 65 + 10)
      else Err ''operation percent escapes must use uppercase hexadecimal'')"

text \<open>The loop over the bytes; the index advances by three over an escape.\<close>

fun percent_decode_bytes :: "string \<Rightarrow> string result" where
  "percent_decode_bytes [] = Ok []"
| "percent_decode_bytes (c # s) =
     (if c = CHR ''%'' then
        (case s of
           h # l # t \<Rightarrow>
             and_then (hex_value h) (\<lambda>high.
             and_then (hex_value l) (\<lambda>low.
             and_then (percent_decode_bytes t) (\<lambda>out.
             Ok (char_of (high * 16 + low) # out))))
         | _ \<Rightarrow> Err ''truncated percent escape in operation field'')
      else if unreserved c then
        and_then (percent_decode_bytes s) (\<lambda>out. Ok (c # out))
      else Err ''operation field contains a non-canonical raw byte'')"

definition percent_decode :: "string \<Rightarrow> string result" where
  "percent_decode value =
     and_then (percent_decode_bytes value) (\<lambda>decoded.
     and_then (reject (\<not> utf8_valid decoded) ''operation field is not valid UTF-8'') (\<lambda>_.
     and_then (reject (CHR 0x00 \<in> set decoded \<or> CR \<in> set decoded)
       ''operation field contains a forbidden control byte'') (\<lambda>_.
     Ok decoded)))"

subsection \<open>Records\<close>

definition wire_line :: "string \<times> string \<Rightarrow> string" where
  "wire_line f = fst f @ ''='' @ percent_encode (snd f)"

definition wire_text :: "string \<Rightarrow> (string \<times> string) list \<Rightarrow> string" where
  "wire_text header fs = header @ [LF] @ concat (map (\<lambda>f. wire_line f @ [LF]) fs) @ [LF]"

definition encode_record :: "string \<Rightarrow> (string \<times> string) list \<Rightarrow> string result" where
  "encode_record header fs =
     (let out = wire_text header fs in
      and_then (reject (length out > MAX_OPERATION_RECORD_BYTES) record_bound_error) (\<lambda>_. Ok out))"

type_synonym record_reader = "string list"

definition record_reader_new :: "string \<Rightarrow> string \<Rightarrow> record_reader result" where
  "record_reader_new input header =
     and_then (reject (length input > MAX_OPERATION_RECORD_BYTES) record_bound_error) (\<lambda>_.
     and_then (reject (CR \<in> set input \<or> \<not> (2 \<le> length input \<and> drop (length input - 2) input = [LF, LF]))
       ''operation record must use LF and end with one empty line'') (\<lambda>_.
     case lines input of
       l # ls \<Rightarrow> if l = header then Ok ls else Err ''unsupported operation record header or version''
     | [] \<Rightarrow> Err ''unsupported operation record header or version''))"

definition record_reader_field :: "record_reader \<Rightarrow> string \<Rightarrow> (string \<times> record_reader) result" where
  "record_reader_field reader expected =
     (case reader of
        [] \<Rightarrow> Err (''missing operation field '' @ expected)
      | line # rest \<Rightarrow>
          (case split_once CHR ''='' line of
             None \<Rightarrow> Err (''malformed operation field '' @ expected)
           | Some (key, value) \<Rightarrow>
               if key \<noteq> expected
               then Err (''expected operation field '' @ expected @ '', received '' @ key)
               else and_then (percent_decode value) (\<lambda>v. Ok (v, rest))))"

definition record_reader_finish :: "record_reader \<Rightarrow> unit result" where
  "record_reader_finish reader =
     reject (reader \<noteq> [[]]) ''operation record has trailing or unknown fields''"

subsection \<open>Scalars\<close>

definition wire_require_lower_hex :: "string \<Rightarrow> string \<Rightarrow> nat \<Rightarrow> unit result" where
  "wire_require_lower_hex name value len =
     reject (length value \<noteq> len \<or> \<not> list_all is_lower_hex_digit value)
       (name @ '' must contain exactly '' @ nat_string len @ '' lowercase hexadecimal characters'')"

definition require_safe_identifier :: "string \<Rightarrow> string \<Rightarrow> nat \<Rightarrow> nat \<Rightarrow> string \<Rightarrow> unit result" where
  "require_safe_identifier name value minimum maximum punctuation =
     reject (\<not> (minimum \<le> length value \<and> length value \<le> maximum)
             \<or> \<not> list_all (\<lambda>b. is_ascii_alphanumeric b \<or> b \<in> set punctuation) value)
       (name @ '' contains unsupported characters or length'')"

definition bool_text :: "bool \<Rightarrow> string" where
  "bool_text value = (if value then ''1'' else ''0'')"

definition parse_bool :: "string \<Rightarrow> bool result" where
  "parse_bool value =
     (if value = ''0'' then Ok False
      else if value = ''1'' then Ok True
      else Err ''operation boolean must be exactly 0 or 1'')"

definition wire_parse_u64 :: "string \<Rightarrow> string \<Rightarrow> u64 result" where
  "wire_parse_u64 name value = ok_or (from_str_radix 10 value) (''invalid '' @ name)"

definition optional_string :: "string \<Rightarrow> string option" where
  "optional_string value = (if value = [] then None else Some value)"

text \<open>\<open>optional_parsed\<close> at the type of its call: the parser of that type is the argument.\<close>

definition optional_parsed :: "(string \<Rightarrow> 'a option) \<Rightarrow> string \<Rightarrow> string \<Rightarrow> 'a option result" where
  "optional_parsed parse name value =
     (if value = [] then Ok None
      else and_then (ok_or (parse value) (''invalid '' @ name)) (\<lambda>x. Ok (Some x)))"

subsection \<open>Control requests\<close>

definition requires_job :: "control_command \<Rightarrow> bool" where
  "requires_job c = (c \<in> set [Start, Status, Result, Cancel])"

record control_request =
  ctl_request_id :: string
  ctl_command :: control_command
  ctl_job_id :: "string option"
  ctl_job_token :: "string option"

definition control_validate :: "control_request \<Rightarrow> unit result" where
  "control_validate c =
     and_then (wire_require_lower_hex ''request_id'' (ctl_request_id c) 32) (\<lambda>_.
     if requires_job (ctl_command c) then
       and_then (ok_or (ctl_job_id c) ''job command requires job_id'') (\<lambda>job_id.
       and_then (wire_require_lower_hex ''job_id'' job_id 32) (\<lambda>_.
       and_then (ok_or (ctl_job_token c) ''job command requires job_token'') (\<lambda>job_token.
       wire_require_lower_hex ''job_token'' job_token 64)))
     else reject (ctl_job_id c \<noteq> None \<or> ctl_job_token c \<noteq> None)
            ''daemon-level command must not carry job identity'')"

definition control_fields :: "control_request \<Rightarrow> (string \<times> string) list" where
  "control_fields c =
     [(''request_id'', ctl_request_id c),
      (''command'', control_command_as_str (ctl_command c)),
      (''job_id'', optional_text id (ctl_job_id c)),
      (''job_token'', optional_text id (ctl_job_token c))]"

definition control_encode :: "control_request \<Rightarrow> string result" where
  "control_encode c =
     and_then (control_validate c) (\<lambda>_. encode_record CONTROL_HEADER (control_fields c))"

definition control_decode :: "string \<Rightarrow> control_request result" where
  "control_decode input =
     and_then (record_reader_new input CONTROL_HEADER) (\<lambda>reader.
     and_then (record_reader_field reader ''request_id'') (\<lambda>(request_id, reader).
     and_then (record_reader_field reader ''command'') (\<lambda>(text, reader).
     and_then (ok_or (control_command_parse text) ''unsupported calibration control command'') (\<lambda>command.
     and_then (record_reader_field reader ''job_id'') (\<lambda>(job_id, reader).
     and_then (record_reader_field reader ''job_token'') (\<lambda>(job_token, reader).
     and_then (record_reader_finish reader) (\<lambda>_.
     let request = \<lparr>ctl_request_id = request_id, ctl_command = command,
           ctl_job_id = optional_string job_id, ctl_job_token = optional_string job_token\<rparr>
     in and_then (control_validate request) (\<lambda>_.
        and_then (control_encode request) (\<lambda>text.
        if text \<noteq> input then Err ''control request is not canonically encoded''
        else Ok request)))))))))"

section \<open>Percent encoding is inverted\<close>

definition value_safe :: "string \<Rightarrow> bool" where
  "value_safe v = (utf8_valid v \<and> CHR 0x00 \<notin> set v \<and> CR \<notin> set v)"

lemma less_16_cases:
  assumes "(d :: nat) < 16"
  obtains "d < 10" | "d = 10" | "d = 11" | "d = 12" | "d = 13" | "d = 14" | "d = 15"
  using assms by fastforce

lemma upper_hex_char_digit: "d < 10 \<Longrightarrow> upper_hex_char d = digit_char d"
  by (elim less_10_cases) (simp_all add: upper_hex_char_def digit_char_def)

lemma hex_value_upper [simp]: "d < 16 \<Longrightarrow> hex_value (upper_hex_char d) = Ok d"
proof (elim less_16_cases)
  assume "d < 10"
  then show ?thesis by (simp add: upper_hex_char_digit hex_value_def)
qed (simp_all add: upper_hex_char_def hex_value_def is_ascii_digit_def byte_def)

lemma percent_decode_bytes_encode [simp]: "percent_decode_bytes (percent_encode v) = Ok v"
proof (induction v)
  case (Cons c v)
  have digits: "byte c div 16 < 16" "byte c mod 16 < 16"
    using byte_less [of c] by (auto simp: less_mult_imp_div_less)
  have "char_of (byte c div 16 * 16 + byte c mod 16) = c"
    by (simp add: byte_def)
  moreover have "unreserved c \<Longrightarrow> c \<noteq> CHR ''%''"
    by (auto simp: unreserved_def is_ascii_alphanumeric_def is_ascii_digit_def is_ascii_lowercase_def
        is_ascii_uppercase_def byte_def)
  ultimately show ?case
    using Cons digits by (auto simp: percent_encode_def percent_encode_byte_def)
qed (simp add: percent_encode_def)

lemma percent_decode_encode: "value_safe v \<Longrightarrow> percent_decode (percent_encode v) = Ok v"
  by (simp add: percent_decode_def value_safe_def)

section \<open>Reading back a record\<close>

lemma value_safe_visible: "visible v \<Longrightarrow> value_safe v"
  using visible_no_control [of v "CHR 0x00"] visible_no_control [of v CR]
  by (simp add: value_safe_def utf8_valid_of_ascii visible_ascii byte_def)

lemma value_safe_Nil [simp]: "value_safe []"
  by (simp add: value_safe_visible)

lemma visible_token: "token v \<Longrightarrow> visible v"
  by (auto simp: token_def visible_def list_all_iff)

lemma value_safe_token: "v = [] \<or> token v \<Longrightarrow> value_safe v"
  using visible_token by (auto intro: value_safe_visible)

lemma visible_lower_hex: "wire_require_lower_hex n v k = Ok () \<Longrightarrow> visible v"
  by (rule visible_all [of is_lower_hex_digit])
    (simp_all add: wire_require_lower_hex_def is_lower_hex_digit_bytes)

lemma visible_safe_identifier:
  "require_safe_identifier n v a b p = Ok () \<Longrightarrow> visible p \<Longrightarrow> visible v"
  by (rule visible_all [of "\<lambda>c. is_ascii_alphanumeric c \<or> c \<in> set p"])
    (auto simp: require_safe_identifier_def visible_def list_all_iff dest: is_ascii_alphanumeric_bytes)

lemma byte_upper_hex_char: "d < 16 \<Longrightarrow> 32 \<le> byte (upper_hex_char d) \<and> byte (upper_hex_char d) < 127"
proof (elim less_16_cases)
  assume "d < 10"
  then show ?thesis by (simp add: upper_hex_char_digit)
qed (simp_all add: upper_hex_char_def byte_def)

lemma byte_unreserved: "unreserved c \<Longrightarrow> 32 \<le> byte c \<and> byte c < 127"
proof -
  have "c \<in> set ''-._~'' \<Longrightarrow> 32 \<le> byte c \<and> byte c < 127"
    by (auto simp: byte_def)
  then show "unreserved c \<Longrightarrow> 32 \<le> byte c \<and> byte c < 127"
    by (auto simp: unreserved_def dest: is_ascii_alphanumeric_bytes)
qed

lemma visible_percent_encode: "visible (percent_encode v)"
proof -
  have "byte c div 16 < 16" for c
    using byte_less [of c] by (simp add: less_mult_imp_div_less)
  moreover have "byte CHR ''%'' = 37"
    by (simp add: byte_def)
  ultimately show ?thesis
    by (induction v) (auto simp: percent_encode_def percent_encode_byte_def byte_upper_hex_char byte_unreserved)
qed

lemma percent_encode_unreserved: "list_all unreserved v \<Longrightarrow> percent_encode v = v"
  by (induction v) (simp_all add: percent_encode_def percent_encode_byte_def)

lemma length_percent_encode: "length (percent_encode v) \<le> 3 * length v"
  by (induction v) (simp_all add: percent_encode_def percent_encode_byte_def)

lemma unreserved_lower_hex: "is_lower_hex_digit c \<Longrightarrow> unreserved c"
  by (auto simp: unreserved_def is_lower_hex_digit_def is_ascii_alphanumeric_def is_ascii_lowercase_def)

definition key_safe :: "string \<Rightarrow> bool" where
  "key_safe k = (visible k \<and> CHR ''='' \<notin> set k)"

lemma wire_line_safe:
  assumes "key_safe (fst f)"
  shows "LF \<notin> set (wire_line f)" "CR \<notin> set (wire_line f)"
proof -
  have "visible (wire_line f)"
    using assms visible_percent_encode by (simp add: wire_line_def key_safe_def byte_def)
  then show "LF \<notin> set (wire_line f)" "CR \<notin> set (wire_line f)"
    using visible_no_control [of "wire_line f"] by (simp_all add: byte_def)
qed

lemma lines_wire_fields:
  assumes "list_all key_safe (map fst fs)"
  shows "lines (concat (map (\<lambda>f. wire_line f @ [LF]) fs) @ [LF]) = map wire_line fs @ [[]]"
  using assms
proof (induction fs)
  case Nil
  then show ?case using lines_line [of "[]" "[]"] by simp
next
  case (Cons f fs)
  then show ?case
    using lines_line [of "wire_line f"] wire_line_safe [of f] by simp
qed

definition header_line :: "string \<Rightarrow> bool" where
  "header_line h = (LF \<notin> set h \<and> CR \<notin> set h)"

lemma lines_wire_text:
  assumes "header_line h" "list_all key_safe (map fst fs)"
  shows "lines (wire_text h fs) = h # map wire_line fs @ [[]]"
  using assms lines_line [of h] lines_wire_fields by (simp add: wire_text_def header_line_def)

lemma wire_text_end: "\<exists>t. wire_text h fs = t @ [LF, LF]"
  by (cases fs rule: rev_cases) (simp_all add: wire_text_def)

lemma record_reader_new_text:
  assumes "header_line h" "list_all key_safe (map fst fs)" "length (wire_text h fs) \<le> MAX_OPERATION_RECORD_BYTES"
  shows "record_reader_new (wire_text h fs) h = Ok (map wire_line fs @ [[]])"
proof -
  have "CR \<notin> set (wire_text h fs)"
    using assms(1,2) wire_line_safe by (auto simp: wire_text_def header_line_def list_all_iff)
  then show ?thesis
    using assms lines_wire_text [OF assms(1,2)] wire_text_end [of h fs]
    by (auto simp: record_reader_new_def)
qed

lemma record_reader_field_line [simp]:
  "key_safe k \<Longrightarrow> value_safe v \<Longrightarrow> record_reader_field (wire_line (k, v) # r) k = Ok (v, r)"
  by (simp add: record_reader_field_def wire_line_def key_safe_def percent_decode_encode)

lemma record_reader_finish_end [simp]: "record_reader_finish [[]] = Ok ()"
  by (simp add: record_reader_finish_def)

lemma encode_record_Ok_iff:
  "encode_record h fs = Ok s \<longleftrightarrow> s = wire_text h fs \<and> length s \<le> MAX_OPERATION_RECORD_BYTES"
  by (auto simp: encode_record_def Let_def and_then_Inr_iff)

lemma parse_bool_text [simp]: "parse_bool (bool_text b) = Ok b"
  by (simp add: parse_bool_def bool_text_def)

lemma wire_parse_u64_word_string [simp]: "wire_parse_u64 n (word_string w) = Ok w"
  by (simp add: wire_parse_u64_def)

lemma optional_string_text [simp]: "v \<noteq> Some [] \<Longrightarrow> optional_string (optional_text id v) = v"
  by (cases v) (auto simp: optional_string_def)

lemma optional_parsed_text:
  assumes "\<And>x. parse (as_str x) = Some x" "\<And>x. as_str x \<noteq> []"
  shows "optional_parsed parse n (optional_text as_str v) = Ok v"
  using assms by (cases v) (simp_all add: optional_parsed_def)

lemma optional_parsed_word [simp]: "optional_parsed (from_str_radix 10) n (optional_text word_string v) = Ok v"
  by (rule optional_parsed_text) simp_all

section \<open>The control request codec\<close>

lemma header_line_control [simp]: "header_line CONTROL_HEADER"
  by (simp add: header_line_def CONTROL_HEADER_def)

lemma control_keys_safe [simp]:
  "key_safe ''request_id''" "key_safe ''command''" "key_safe ''job_id''" "key_safe ''job_token''"
  by (simp_all add: key_safe_def byte_def)

lemma control_validate_Ok_iff:
  "control_validate c = Ok () \<longleftrightarrow>
     wire_require_lower_hex ''request_id'' (ctl_request_id c) 32 = Ok ()
     \<and> (if requires_job (ctl_command c) then
          (\<exists>j t. ctl_job_id c = Some j \<and> wire_require_lower_hex ''job_id'' j 32 = Ok ()
             \<and> ctl_job_token c = Some t \<and> wire_require_lower_hex ''job_token'' t 64 = Ok ())
        else ctl_job_id c = None \<and> ctl_job_token c = None)"
  by (auto simp: control_validate_def and_then_Inr_iff)

lemma lower_hex_wire:
  assumes "wire_require_lower_hex n v k = Ok ()"
  shows "visible v" "length v = k" "percent_encode v = v" "0 < k \<longrightarrow> v \<noteq> []"
proof -
  have "list_all is_lower_hex_digit v" "length v = k"
    using assms by (auto simp: wire_require_lower_hex_def)
  then show "visible v" "length v = k" "percent_encode v = v" "0 < k \<longrightarrow> v \<noteq> []"
    using visible_lower_hex [OF assms] unreserved_lower_hex
    by (auto intro!: percent_encode_unreserved simp: list_all_iff)
qed

lemma length_command: "length (percent_encode (control_command_as_str c)) \<le> 21"
  using length_percent_encode [of "control_command_as_str c"]
  by (cases c) (simp_all add: control_command_as_str_def)

lemma control_request_size:
  assumes "control_validate c = Ok ()"
  shows "length (wire_text CONTROL_HEADER (control_fields c)) \<le> MAX_OPERATION_RECORD_BYTES"
proof -
  have id: "length (percent_encode (ctl_request_id c)) = 32"
    using assms lower_hex_wire by (auto simp: control_validate_Ok_iff)
  have opt: "length (percent_encode (optional_text id (ctl_job_id c))) \<le> 32"
      "length (percent_encode (optional_text id (ctl_job_token c))) \<le> 64"
    using assms lower_hex_wire
    by (auto simp: control_validate_Ok_iff percent_encode_def split: if_splits)
  show ?thesis
    using id opt length_command [of "ctl_command c"]
    by (simp add: wire_text_def control_fields_def wire_line_def CONTROL_HEADER_def MAX_OPERATION_RECORD_BYTES_def)
qed

lemma control_encode_Ok_iff:
  "control_encode c = Ok s \<longleftrightarrow> control_validate c = Ok () \<and> s = wire_text CONTROL_HEADER (control_fields c)"
  using control_request_size by (auto simp: control_encode_def and_then_Inr_iff encode_record_Ok_iff)

lemma control_decode_text:
  assumes "control_validate c = Ok ()"
  shows "control_decode (wire_text CONTROL_HEADER (control_fields c)) = Ok c"
proof -
  define s where "s = wire_text CONTROL_HEADER (control_fields c)"
  have new: "record_reader_new s CONTROL_HEADER = Ok (map wire_line (control_fields c) @ [[]])"
    unfolding s_def using control_request_size [OF assms]
    by (intro record_reader_new_text) (simp_all add: control_fields_def)
  have safe: "value_safe (ctl_request_id c)" "value_safe (control_command_as_str (ctl_command c))"
      "value_safe (optional_text id (ctl_job_id c))" "value_safe (optional_text id (ctl_job_token c))"
    using assms lower_hex_wire control_command_text.as_str_token value_safe_token value_safe_visible
    by (auto simp: control_validate_Ok_iff split: if_splits)
  have opt: "optional_string (optional_text id (ctl_job_id c)) = ctl_job_id c"
      "optional_string (optional_text id (ctl_job_token c)) = ctl_job_token c"
    using assms
    by (auto simp: control_validate_Ok_iff wire_require_lower_hex_def optional_string_def split: if_splits)
  have encoded: "control_encode c = Ok s"
    using assms by (simp add: control_encode_Ok_iff s_def)
  have eta: "\<lparr>ctl_request_id = ctl_request_id c, ctl_command = ctl_command c,
      ctl_job_id = ctl_job_id c, ctl_job_token = ctl_job_token c\<rparr> = c"
    by simp
  show ?thesis
    unfolding s_def [symmetric] control_decode_def new
    by (simp add: control_fields_def safe opt control_command_text.parse_as_str Let_def eta assms encoded)
qed

lemma control_decode_Ok:
  "control_decode s = Ok c \<Longrightarrow> control_validate c = Ok () \<and> control_encode c = Ok s"
  by (auto simp: control_decode_def and_then_Inr_iff Let_def split: prod.splits if_splits)

interpretation control_codec: codec control_encode control_decode "\<lambda>c. control_validate c = Ok ()"
proof unfold_locales
  show "control_validate x = Ok () \<Longrightarrow> \<exists>s. control_encode x = Ok s" for x
    by (simp add: control_encode_Ok_iff)
  show "control_validate x = Ok () \<Longrightarrow> control_encode x = Ok s \<Longrightarrow> control_decode s = Ok x" for x s
    by (simp add: control_encode_Ok_iff control_decode_text)
  show "control_decode s = Ok x \<Longrightarrow> control_validate x = Ok () \<and> control_encode x = Ok s" for s x
    by (rule control_decode_Ok)
qed

end
