(* ===== verification/Route_Identity.thy ===== *)
theory Route_Identity
  imports Operation_Wire
begin

unbundle bit_operations_syntax

text \<open>
  The route a job is bound to: \<open>OperationRouteIdentity\<close> of \<open>operations/protocol.rs\<close> and its
  validation, the DNS and explicit-route checks of \<open>routing.rs\<close> it calls, and the conversion of
  \<open>autotune_request.rs\<close> that rebuilds the explicit-route authority from the texts of a route.
\<close>

section \<open>Definitions\<close>

definition explicit_dns_server :: "string \<Rightarrow> string \<Rightarrow> ipv4 option result" where
  "explicit_dns_server mode value =
     (if value = [] then Ok None
      else
        and_then (reject (mode \<noteq> ''explicit'') ''route_dns_ipv4 requires explicit routing'') (\<lambda>_.
        and_then (ok_or (parse_ipv4 value) ''route_dns_ipv4 must be an IPv4 address'') (\<lambda>ip.
        and_then (reject (ipv4_octet0 ip = 0 \<or> ipv4_octet0 ip \<ge> 224 \<or> ipv4_is_loopback ip \<or> ipv4_is_link_local ip)
          ''route_dns_ipv4 requires a non-loopback unicast server'') (\<lambda>_.
        Ok (Some ip)))))"

definition is_ascii_hexdigit :: "char \<Rightarrow> bool" where
  "is_ascii_hexdigit c = (is_lower_hex_digit c \<or> (65 \<le> byte c \<and> byte c \<le> 70))"

definition parse_route_u32 :: "string \<Rightarrow> u32 option" where
  "parse_route_u32 value =
     (case (case strip_prefix value ''0x'' of Some h \<Rightarrow> Some h | None \<Rightarrow> strip_prefix value ''0X'') of
        Some hex \<Rightarrow>
          if hex = [] \<or> \<not> list_all is_ascii_hexdigit hex then None
          else from_str_radix 16 hex
      | None \<Rightarrow>
          if value \<noteq> [] \<and> list_all is_ascii_digit value then from_str_radix 10 value
          else None)"

record explicit_route_authority =
  era_source :: ipv4
  era_table :: u32
  era_mark :: u32
  era_mask :: u32

definition unicast_source :: "ipv4 \<Rightarrow> bool" where
  "unicast_source a \<longleftrightarrow> ipv4_octet0 a \<noteq> 0 \<and> \<not> ipv4_is_loopback a \<and> ipv4_octet0 a < 224"

definition authority_from_fields ::
  "string \<Rightarrow> string \<times> string \<times> string \<times> string \<Rightarrow> explicit_route_authority option result" where
  "authority_from_fields mode = (\<lambda>(source, table, mark, mask).
     if mode \<noteq> ''explicit'' then
       (if source = [] \<and> table = [] \<and> mark = [] \<and> mask = [] then Ok None
        else Err ''explicit route authority fields require route_mode=explicit'')
     else
       and_then (ok_or (parse_ipv4 source) ''route_source_ipv4 must be an IPv4 address'') (\<lambda>source.
       and_then (reject (ipv4_octet0 source = 0 \<or> ipv4_is_loopback source \<or> ipv4_octet0 source \<ge> 224)
         ''route_source_ipv4 must be a unicast source'') (\<lambda>_.
       and_then (reject (table = [] \<or> \<not> list_all is_ascii_digit table)
         ''route_table must be a nonzero numeric table'') (\<lambda>_.
       and_then (ok_or (case from_str_radix 10 table of
                          None \<Rightarrow> None
                        | Some v \<Rightarrow> if v \<noteq> 0 then Some v else None)
         ''route_table must be a nonzero numeric table'') (\<lambda>table.
       and_then (ok_or (parse_route_u32 mark) ''route_fwmark must be a u32 decimal or hex value'') (\<lambda>mark.
       and_then (ok_or (parse_route_u32 mask) ''route_fwmark_mask must be a u32 decimal or hex value'') (\<lambda>mask.
       and_then (reject (mark = 0 \<or> mask = 0 \<or> mark AND NOT mask \<noteq> 0)
         ''explicit route mark must be nonzero and contained in its nonzero mask'') (\<lambda>_.
       Ok (Some \<lparr>era_source = source, era_table = table, era_mark = mark, era_mask = mask\<rparr>)))))))))"

record operation_route_identity =
  rt_dns_server :: "ipv4 option"
  rt_device_ifindex :: "u32 option"
  rt_mode :: operation_route_mode
  rt_mwan3_member :: "string option"
  rt_l3_device :: string
  rt_source_ip :: "ip_addr option"
  rt_fwmark :: "u32 option"
  rt_routing_table :: "u32 option"
  rt_fwmark_mask :: "u32 option"

definition source_valid :: "ip_addr option \<Rightarrow> bool" where
  "source_valid ip = (case ip of Some (V4 a) \<Rightarrow> unicast_source a | _ \<Rightarrow> False)"

definition route_dns_validate :: "operation_route_identity \<Rightarrow> unit result" where
  "route_dns_validate r =
     (case rt_dns_server r of
        None \<Rightarrow> Ok ()
      | Some server \<Rightarrow>
          and_then (explicit_dns_server (operation_route_mode_as_str (rt_mode r)) (ipv4_string server))
            (\<lambda>_. Ok ()))"

definition route_mask_validate :: "operation_route_identity \<Rightarrow> unit result" where
  "route_mask_validate r =
     (case rt_fwmark_mask r of
        None \<Rightarrow> Ok ()
      | Some msk \<Rightarrow>
          reject (rt_mode r = Main \<or> msk = 0
                  \<or> (case rt_fwmark r of None \<Rightarrow> True | Some mark \<Rightarrow> mark = 0 \<or> mark AND NOT msk \<noteq> 0))
            ''route mask requires a nonzero contained policy mark'')"

definition route_mode_validate :: "operation_route_identity \<Rightarrow> unit result" where
  "route_mode_validate r =
     (case (rt_mode r, rt_mwan3_member r) of
        (Explicit, None) \<Rightarrow>
          reject (\<not> source_valid (rt_source_ip r) \<or> rt_device_ifindex r = None \<or> rt_fwmark_mask r = None
                  \<or> \<not> (case rt_routing_table r of None \<Rightarrow> False | Some table \<Rightarrow> table \<noteq> 0))
            ''explicit route requires source, link, table and masked mark authority''
      | (Explicit, Some _) \<Rightarrow> Err ''explicit route must not carry an mwan3 member''
      | (Main, None) \<Rightarrow> Ok ()
      | (Mwan3, Some member) \<Rightarrow> require_safe_identifier ''mwan3_member'' member 1 64 ''_-''
      | (Main, Some _) \<Rightarrow> Err ''main route must not carry an mwan3 member''
      | (Mwan3, None) \<Rightarrow> Err ''mwan3 route requires a member'')"

definition route_validate :: "operation_route_identity \<Rightarrow> unit result" where
  "route_validate r =
     and_then (route_dns_validate r) (\<lambda>_.
     and_then (require_safe_identifier ''l3_device'' (rt_l3_device r) 1 64 ''._:@-'') (\<lambda>_.
     and_then (reject (case rt_device_ifindex r of
                         None \<Rightarrow> False
                       | Some index \<Rightarrow> index = 0 \<or> rt_fwmark_mask r = None)
       ''route link witness requires a positive index and policy mask'') (\<lambda>_.
     and_then (route_mask_validate r) (\<lambda>_.
     route_mode_validate r))))"

definition explicit_operation_authority ::
  "operation_route_identity \<Rightarrow> explicit_route_authority result" where
  "explicit_operation_authority r =
     and_then (route_validate r) (\<lambda>_.
     and_then (reject (rt_mode r \<noteq> Explicit) ''explicit route authority requires explicit mode'') (\<lambda>_.
     and_then (ok_or (rt_source_ip r) ''explicit route source missing'') (\<lambda>source.
     and_then (ok_or (rt_routing_table r) ''explicit route table missing'') (\<lambda>table.
     and_then (ok_or (rt_fwmark r) ''explicit route mark missing'') (\<lambda>mark.
     and_then (ok_or (rt_fwmark_mask r) ''explicit route mask missing'') (\<lambda>mask.
     and_then (authority_from_fields ''explicit''
         (ip_string source, word_string table, word_string mark, word_string mask)) (\<lambda>authority.
     ok_or authority ''explicit route authority missing'')))))))"

section \<open>What a valid route is\<close>

lemma route_dns_validate_Ok_iff:
  "route_dns_validate r = Ok () \<longleftrightarrow>
     (\<forall>a. rt_dns_server r = Some a \<longrightarrow> rt_mode r = Explicit \<and> ipv4_octet0 a \<noteq> 0 \<and> ipv4_octet0 a < 224
        \<and> \<not> ipv4_is_loopback a \<and> \<not> ipv4_is_link_local a)"
proof -
  have "ipv4_string a \<noteq> []" for a
    by (cases a) (simp add: ipv4_string_def)
  moreover have "operation_route_mode_as_str (rt_mode r) = ''explicit'' \<longleftrightarrow> rt_mode r = Explicit"
    by (cases "rt_mode r") (simp_all add: operation_route_mode_as_str_def)
  ultimately show ?thesis
    by (auto simp: route_dns_validate_def explicit_dns_server_def and_then_Inr_iff not_le split: option.splits)
qed

lemma route_mask_validate_Ok_iff:
  "route_mask_validate r = Ok () \<longleftrightarrow>
     (\<forall>mask. rt_fwmark_mask r = Some mask \<longrightarrow> rt_mode r \<noteq> Main \<and> mask \<noteq> 0
        \<and> (\<exists>mark. rt_fwmark r = Some mark \<and> mark \<noteq> 0 \<and> mark AND NOT mask = 0))"
  by (auto simp: route_mask_validate_def split: option.splits)

lemma route_mode_validate_Ok_iff:
  "route_mode_validate r = Ok () \<longleftrightarrow>
     (case rt_mode r of
        Main \<Rightarrow> rt_mwan3_member r = None
      | Mwan3 \<Rightarrow> (\<exists>m. rt_mwan3_member r = Some m \<and> require_safe_identifier ''mwan3_member'' m 1 64 ''_-'' = Ok ())
      | Explicit \<Rightarrow> rt_mwan3_member r = None \<and> source_valid (rt_source_ip r) \<and> rt_device_ifindex r \<noteq> None
          \<and> rt_fwmark_mask r \<noteq> None \<and> (\<exists>t. rt_routing_table r = Some t \<and> t \<noteq> 0))"
  by (auto simp: route_mode_validate_def split: operation_route_mode.splits option.splits)

lemma route_validate_Ok_iff:
  "route_validate r = Ok () \<longleftrightarrow>
     route_dns_validate r = Ok () \<and> require_safe_identifier ''l3_device'' (rt_l3_device r) 1 64 ''._:@-'' = Ok ()
     \<and> (\<forall>i. rt_device_ifindex r = Some i \<longrightarrow> i \<noteq> 0 \<and> rt_fwmark_mask r \<noteq> None)
     \<and> route_mask_validate r = Ok () \<and> route_mode_validate r = Ok ()"
  by (auto simp: route_validate_def and_then_Inr_iff split: option.splits)

lemma explicit_routeD:
  assumes "route_validate r = Ok ()" "rt_mode r = Explicit"
  obtains source table mark mask where "rt_source_ip r = Some (V4 source)" "unicast_source source"
    "rt_routing_table r = Some table" "table \<noteq> 0" "rt_fwmark r = Some mark" "mark \<noteq> 0"
    "rt_fwmark_mask r = Some mask" "mask \<noteq> 0" "mark AND NOT mask = 0"
  using assms
  by (auto simp: route_validate_Ok_iff route_mode_validate_Ok_iff route_mask_validate_Ok_iff source_valid_def
      split: option.splits ip_addr.splits)

lemma digits_not_prefixed: "strip_prefix (word_string w) (c # CHR ''x'' # []) = None"
    "strip_prefix (word_string w) (c # CHR ''X'' # []) = None"
proof -
  have "is_ascii_digit CHR ''x'' = False" "is_ascii_digit CHR ''X'' = False"
    by (simp_all add: is_ascii_digit_def byte_def)
  moreover have "CHR ''x'' \<in> set (word_string w)" if "starts_with (word_string w) [c, CHR ''x'']"
    using that by (metis in_set_takeD list.set_intros(1,2) starts_with_def)
  moreover have "CHR ''X'' \<in> set (word_string w)" if "starts_with (word_string w) [c, CHR ''X'']"
    using that by (metis in_set_takeD list.set_intros(1,2) starts_with_def)
  ultimately show "strip_prefix (word_string w) (c # CHR ''x'' # []) = None"
    "strip_prefix (word_string w) (c # CHR ''X'' # []) = None"
    using word_string_digits [of _ w] by (auto simp: strip_prefix_def)
qed

lemma word_string_all_digits: "list_all is_ascii_digit (word_string w)"
  by (auto simp: list_all_iff dest: word_string_digits)

lemma parse_route_u32_word_string [simp]: "parse_route_u32 (word_string w) = Some w"
  by (simp add: parse_route_u32_def digits_not_prefixed word_string_all_digits)

lemma explicit_operation_authority_Ok_iff:
  "explicit_operation_authority r = Ok a \<longleftrightarrow>
     route_validate r = Ok () \<and> rt_mode r = Explicit
     \<and> rt_source_ip r = Some (V4 (era_source a)) \<and> rt_routing_table r = Some (era_table a)
     \<and> rt_fwmark r = Some (era_mark a) \<and> rt_fwmark_mask r = Some (era_mask a)"
proof (cases "route_validate r = Ok () \<and> rt_mode r = Explicit")
  case True
  then obtain source table mark mask where parts: "rt_source_ip r = Some (V4 source)" "unicast_source source"
    "rt_routing_table r = Some table" "table \<noteq> 0" "rt_fwmark r = Some mark" "mark \<noteq> 0"
    "rt_fwmark_mask r = Some mask" "mask \<noteq> 0" "mark AND NOT mask = 0"
    by (auto elim: explicit_routeD)
  moreover from parts have "\<not> 224 \<le> ipv4_octet0 source"
    by (simp add: unicast_source_def not_le)
  ultimately have "explicit_operation_authority r =
      Ok \<lparr>era_source = source, era_table = table, era_mark = mark, era_mask = mask\<rparr>"
    using True
    by (simp add: explicit_operation_authority_def authority_from_fields_def ip_string_def
        word_string_all_digits unicast_source_def)
  then show ?thesis
    using True parts by (cases a) auto
next
  case False
  then show ?thesis
    by (auto simp: explicit_operation_authority_def and_then_Inr_iff)
qed

section \<open>Properties\<close>

text \<open>The explicit-route authority is the validated route itself. Rebuilding it from the printed
  source, table, mark and mask succeeds exactly for a valid route in explicit mode, loses nothing, and
  the authority that comes out has a unicast IPv4 source, a non-zero table and a non-zero mark that is
  contained in its mask.\<close>

theorem explicit_authority_exact:
  "explicit_operation_authority r = Ok a \<longleftrightarrow>
     route_validate r = Ok () \<and> rt_mode r = Explicit
     \<and> rt_source_ip r = Some (V4 (era_source a)) \<and> unicast_source (era_source a)
     \<and> rt_routing_table r = Some (era_table a) \<and> era_table a \<noteq> 0
     \<and> rt_fwmark r = Some (era_mark a) \<and> rt_fwmark_mask r = Some (era_mask a)
     \<and> era_mark a \<noteq> 0 \<and> era_mark a AND NOT (era_mask a) = 0"
proof -
  have "route_validate r = Ok () \<Longrightarrow> rt_mode r = Explicit \<Longrightarrow> rt_source_ip r = Some (V4 (era_source a))
    \<Longrightarrow> rt_routing_table r = Some (era_table a) \<Longrightarrow> rt_fwmark r = Some (era_mark a)
    \<Longrightarrow> rt_fwmark_mask r = Some (era_mask a)
    \<Longrightarrow> unicast_source (era_source a) \<and> era_table a \<noteq> 0 \<and> era_mark a \<noteq> 0 \<and> era_mark a AND NOT (era_mask a) = 0"
    by (erule (1) explicit_routeD) simp
  then show ?thesis
    unfolding explicit_operation_authority_Ok_iff by blast
qed

end
