(* ===== verification/Operation_Request.thy ===== *)
theory Operation_Request
  imports Route_Identity
begin

text \<open>
  \<open>OperationRequest\<close> of \<open>operations/protocol.rs\<close>: the request of a calibration job, its structural
  validation and its admission policy, and the versioned wire record with its 38 schemas. The digest
  function of the capture policy is the argument \<open>sha256\<close>.
\<close>

section \<open>Traffic policy and planning rates\<close>

definition MAX_TRAFFIC_BUDGET_BYTES :: u64 where
  "MAX_TRAFFIC_BUDGET_BYTES = 1099511627776"

definition MAX_RATE_KBPS :: u64 where
  "MAX_RATE_KBPS = 100000000"

datatype traffic_policy = Capped u64 | Unlimited

definition traffic_limit_bytes :: "traffic_policy \<Rightarrow> u64 option" where
  "traffic_limit_bytes p = (case p of Capped max_bytes \<Rightarrow> Some max_bytes | Unlimited \<Rightarrow> None)"

definition traffic_validate :: "traffic_policy \<Rightarrow> unit result" where
  "traffic_validate p =
     reject (case traffic_limit_bytes p of None \<Rightarrow> False | Some limit \<Rightarrow> limit > MAX_TRAFFIC_BUDGET_BYTES)
       ''traffic budget must not exceed 1099511627776 bytes''"

definition traffic_is_empty :: "traffic_policy \<Rightarrow> bool" where
  "traffic_is_empty p = (p = Capped 0)"

definition traffic_allows :: "traffic_policy \<Rightarrow> u64 \<Rightarrow> bool" where
  "traffic_allows p required_bytes =
     (case p of Capped max_bytes \<Rightarrow> max_bytes \<ge> required_bytes | Unlimited \<Rightarrow> True)"

definition traffic_exceeded :: "traffic_policy \<Rightarrow> u64 \<Rightarrow> bool" where
  "traffic_exceeded p consumed_bytes =
     (case p of Capped max_bytes \<Rightarrow> consumed_bytes > max_bytes | Unlimited \<Rightarrow> False)"

definition traffic_permits :: "traffic_policy \<Rightarrow> traffic_policy \<Rightarrow> bool" where
  "traffic_permits p narrowed =
     (case traffic_limit_bytes narrowed of
        Some limit \<Rightarrow> traffic_allows p limit
      | None \<Rightarrow> p = Unlimited)"

definition traffic_checked_sub :: "traffic_policy \<Rightarrow> u64 \<Rightarrow> traffic_policy option" where
  "traffic_checked_sub p bytes =
     (case p of
        Capped max_bytes \<Rightarrow> map_option Capped (checked_sub max_bytes bytes)
      | Unlimited \<Rightarrow> Some Unlimited)"

definition traffic_json_limit :: "traffic_policy \<Rightarrow> string" where
  "traffic_json_limit p = (case traffic_limit_bytes p of None \<Rightarrow> ''null'' | Some value \<Rightarrow> word_string value)"

record autotune_traffic_plan =
  plan_download_kbps :: u64
  plan_upload_kbps :: u64

definition plan_validate :: "autotune_traffic_plan \<Rightarrow> unit result" where
  "plan_validate p =
     reject (\<not> (1 \<le> plan_download_kbps p \<and> plan_download_kbps p \<le> 100000000)
             \<or> \<not> (1 \<le> plan_upload_kbps p \<and> plan_upload_kbps p \<le> 100000000))
       ''Auto-Tune planning rates must be in 1..=100000000 kbps''"

section \<open>The request\<close>

definition MAX_SERVER_FAILURE_RETRIES :: u8 where
  "MAX_SERVER_FAILURE_RETRIES = 10"

definition DEFAULT_SERVER_FAILURE_RETRIES :: u8 where
  "DEFAULT_SERVER_FAILURE_RETRIES = 2"

definition validate_uci_section :: "string \<Rightarrow> unit result" where
  "validate_uci_section section =
     reject (section = [] \<or> length section > 64
             \<or> \<not> list_all (\<lambda>b. is_ascii_alphanumeric b \<or> b = CHR ''_'') section)
       ''managed SQM section name is invalid''"

record operation_identity =
  id_job_id :: string
  id_job_token :: string
  id_instance :: string
  id_operation :: operation_kind
  id_target_interface :: string
  id_route_fingerprint :: string
  id_config_fingerprint :: string
  id_sqm_fingerprint :: string

definition identity_validate :: "operation_identity \<Rightarrow> unit result" where
  "identity_validate i =
     and_then (wire_require_lower_hex ''job_id'' (id_job_id i) 32) (\<lambda>_.
     and_then (wire_require_lower_hex ''job_token'' (id_job_token i) 64) (\<lambda>_.
     and_then (require_safe_identifier ''instance'' (id_instance i) 1 64 ''_-'') (\<lambda>_.
     and_then (require_safe_identifier ''target_interface'' (id_target_interface i) 1 64 ''._:@-'') (\<lambda>_.
     and_then (wire_require_lower_hex ''route_fingerprint'' (id_route_fingerprint i) 64) (\<lambda>_.
     and_then (wire_require_lower_hex ''config_fingerprint'' (id_config_fingerprint i) 64) (\<lambda>_.
     wire_require_lower_hex ''sqm_fingerprint'' (id_sqm_fingerprint i) 64))))))"

record operation_request =
  rq_identity :: operation_identity
  rq_created_unix_ms :: u64
  rq_deadline_unix_ms :: u64
  rq_origin :: operation_origin
  rq_backend :: string
  rq_speedtest_direction :: "speedtest_direction option"
  rq_speedtest_server_id :: "u64 option"
  rq_speedtest_topology :: "speedtest_topology option"
  rq_route :: operation_route_identity
  rq_target_state :: operation_target_state
  rq_capture_policy :: "capture_policy_id option"
  rq_managed_sqm_section :: "string option"
  rq_profile :: "autotune_profile option"
  rq_strategy :: "calibration_strategy option"
  rq_access_medium :: "access_medium option"
  rq_access_source :: "access_evidence_source option"
  rq_access_confidence_percent :: u8
  rq_capacity_learning_policy :: "capacity_learning_policy option"
  rq_service_dl_cap_kbps :: "u64 option"
  rq_service_ul_cap_kbps :: "u64 option"
  rq_allow_sqm_disable :: bool
  rq_allow_active_traffic :: bool
  rq_scheduled_auto_apply_requested :: bool
  rq_traffic_budget :: traffic_policy
  rq_traffic_policy_explicit :: bool
  rq_traffic_plan :: "autotune_traffic_plan option"
  rq_server_failure_retries :: "u8 option"

abbreviation rq_operation :: "operation_request \<Rightarrow> operation_kind" where
  "rq_operation r \<equiv> id_operation (rq_identity r)"

subsection \<open>Structural validation\<close>

definition request_validate_retries :: "operation_request \<Rightarrow> unit result" where
  "request_validate_retries r =
     (case rq_server_failure_retries r of
        None \<Rightarrow> Ok ()
      | Some retries \<Rightarrow>
          and_then (reject (retries > MAX_SERVER_FAILURE_RETRIES)
            ''server failure retries must be between 0 and 10'') (\<lambda>_.
          reject (rq_operation r \<noteq> FullAutotune) ''only Full Auto-Tune may carry server failure retries''))"

definition request_validate_plan :: "operation_request \<Rightarrow> unit result" where
  "request_validate_plan r =
     (case rq_traffic_plan r of
        None \<Rightarrow> Ok ()
      | Some plan \<Rightarrow>
          and_then (plan_validate plan) (\<lambda>_.
          reject (\<not> rq_traffic_policy_explicit r \<or> rq_operation r \<noteq> FullAutotune \<or> rq_origin r = Scheduler)
            ''planning rates require an explicit non-scheduled Full Auto-Tune request''))"

definition request_validate_target :: "operation_request \<Rightarrow> unit result" where
  "request_validate_target r =
     (if rq_target_state r = AbsentBootstrap then
        and_then (reject (rq_operation r \<noteq> FullAutotune \<and> rq_operation r \<noteq> Speedtest)
          ''absent bootstrap target state is valid only for Full Auto-Tune or Speedtest'') (\<lambda>_.
        and_then (reject (rq_origin r \<noteq> Luci)
          ''absent bootstrap target state requires a LuCI operation origin'') (\<lambda>_.
        and_then (reject (rq_scheduled_auto_apply_requested r)
          ''absent bootstrap target state cannot request scheduled Auto-Apply'') (\<lambda>_.
        and_then (ok_or (rq_managed_sqm_section r)
          ''absent bootstrap target state requires a planned managed SQM section'') (\<lambda>planned.
        and_then (validate_uci_section planned) (\<lambda>_.
        and_then (ok_or (rq_capture_policy r)
          ''absent bootstrap target state requires an explicit capture policy'') (\<lambda>policy.
        and_then (capture_policy_id_expand policy) (\<lambda>_. Ok ())))))))
      else reject (rq_capture_policy r \<noteq> None)
             ''only an absent bootstrap target may carry capture policy authority'')"

definition reject_autotune_context :: "operation_request \<Rightarrow> unit result" where
  "reject_autotune_context r =
     reject (rq_access_medium r \<noteq> None \<or> rq_access_source r \<noteq> None \<or> rq_access_confidence_percent r \<noteq> 0
             \<or> rq_capacity_learning_policy r \<noteq> None \<or> rq_service_dl_cap_kbps r \<noteq> None
             \<or> rq_service_ul_cap_kbps r \<noteq> None)
       ''only Full Auto-Tune may carry access context''"

definition reject_speedtest_stop_authority_or_autotune_context :: "operation_request \<Rightarrow> unit result" where
  "reject_speedtest_stop_authority_or_autotune_context r =
     (if \<not> (rq_service_dl_cap_kbps r \<noteq> None \<or> rq_service_ul_cap_kbps r \<noteq> None)
      then reject_autotune_context r
      else
        and_then (reject (rq_operation r \<noteq> Speedtest \<or> \<not> rq_traffic_policy_explicit r
                          \<or> rq_traffic_budget r = Unlimited)
          ''only an explicit capped Speedtest may carry stopping rate authority'') (\<lambda>_.
        reject (rq_access_medium r \<noteq> None \<or> rq_access_source r \<noteq> None
                \<or> rq_access_confidence_percent r \<noteq> 0 \<or> rq_capacity_learning_policy r \<noteq> None)
          ''only Full Auto-Tune may carry access context''))"

definition request_validate_full_autotune :: "operation_request \<Rightarrow> unit result" where
  "request_validate_full_autotune r =
     and_then (reject (rq_speedtest_direction r \<noteq> None \<or> rq_speedtest_topology r \<noteq> None)
       ''Full Auto-Tune selects its test directions internally'') (\<lambda>_.
     and_then (reject (rq_speedtest_server_id r = Some 0)
       ''Full Auto-Tune speed-test server ID must be positive'') (\<lambda>_.
     and_then (reject (rq_profile r = None \<or> rq_strategy r = None)
       ''Full Auto-Tune requires a profile and strategy'') (\<lambda>_.
     and_then (reject (traffic_is_empty (rq_traffic_budget r))
       ''Full Auto-Tune requires a non-zero traffic budget'') (\<lambda>_.
     and_then (reject (rq_access_medium r = None \<or> rq_access_source r = None \<or> rq_capacity_learning_policy r = None)
       ''Full Auto-Tune requires an explicit access context'') (\<lambda>_.
     and_then (reject (rq_access_confidence_percent r > 100)
       ''access confidence must be between 0 and 100'') (\<lambda>_.
     and_then (ok_or (rq_managed_sqm_section r)
       ''Full Auto-Tune requires the attested managed SQM section'') (\<lambda>section.
     require_safe_identifier ''managed_sqm_section'' section 1 64 ''_-'')))))))"

definition source_is_v4 :: "operation_request \<Rightarrow> bool" where
  "source_is_v4 r = (case rt_source_ip (rq_route r) of Some (V4 _) \<Rightarrow> True | _ \<Rightarrow> False)"

definition request_validate_generated :: "operation_request \<Rightarrow> unit result" where
  "request_validate_generated r =
     and_then (reject (rq_profile r \<noteq> None \<or> rq_strategy r \<noteq> None)
       ''only Full Auto-Tune may carry a profile or calibration strategy'') (\<lambda>_.
     and_then (reject (rq_allow_sqm_disable r) ''only Full Auto-Tune may allow SQM disable'') (\<lambda>_.
     and_then (reject (traffic_is_empty (rq_traffic_budget r))
       ''generated-traffic operation requires a non-zero budget'') (\<lambda>_.
     and_then (reject_speedtest_stop_authority_or_autotune_context r) (\<lambda>_.
     and_then (reject (rq_operation r = AutomaticRating \<and> rq_managed_sqm_section r \<noteq> None)
       ''Rating must not carry a managed SQM section'') (\<lambda>_.
     and_then (reject (rq_operation r = Speedtest \<and> rq_target_state r = ExistingManaged
                       \<and> rq_managed_sqm_section r \<noteq> None)
       ''existing-instance Speedtest must not carry a planned SQM section'') (\<lambda>_.
     and_then (reject (\<not> source_is_v4 r)
       ''generated-traffic operation requires an explicit IPv4 source'') (\<lambda>_.
     if rq_operation r = Speedtest then
       and_then (reject (rq_speedtest_direction r = None) ''Speedtest requires an explicit direction'') (\<lambda>_.
       and_then (reject (rq_speedtest_topology r = None) ''Speedtest requires an explicit topology'') (\<lambda>_.
       reject (rq_speedtest_server_id r = Some 0) ''Speedtest server ID must be positive''))
     else
       reject (rq_speedtest_direction r \<noteq> None \<or> rq_speedtest_server_id r \<noteq> None
               \<or> rq_speedtest_topology r \<noteq> None)
         ''only Speedtest may carry speed-test direction or server ID'')))))))"

definition request_validate_guided :: "operation_request \<Rightarrow> unit result" where
  "request_validate_guided r =
     and_then (reject (rq_profile r \<noteq> None \<or> rq_strategy r \<noteq> None)
       ''only Full Auto-Tune may carry a profile or calibration strategy'') (\<lambda>_.
     and_then (reject (rq_allow_sqm_disable r) ''only Full Auto-Tune may allow SQM disable'') (\<lambda>_.
     and_then (reject_autotune_context r) (\<lambda>_.
     and_then (reject (rq_managed_sqm_section r \<noteq> None)
       ''Rating must not carry a managed SQM section'') (\<lambda>_.
     reject (rq_speedtest_direction r \<noteq> None \<or> rq_speedtest_server_id r \<noteq> None
             \<or> rq_speedtest_topology r \<noteq> None)
       ''only Speedtest may carry speed-test direction or server ID''))))"

definition request_validate_operation :: "operation_request \<Rightarrow> unit result" where
  "request_validate_operation r =
     (case rq_operation r of
        FullAutotune \<Rightarrow> request_validate_full_autotune r
      | AutomaticRating \<Rightarrow> request_validate_generated r
      | Speedtest \<Rightarrow> request_validate_generated r
      | GuidedRating \<Rightarrow> request_validate_guided r)"

definition service_cap_validate :: "string \<Rightarrow> u64 option \<Rightarrow> unit result" where
  "service_cap_validate name value =
     reject (case value of None \<Rightarrow> False | Some v \<Rightarrow> \<not> (100 \<le> v \<and> v \<le> MAX_RATE_KBPS))
       (name @ '' must be between 100 and 100000000 kbit/s'')"

definition request_validate :: "operation_request \<Rightarrow> unit result" where
  "request_validate r =
     and_then (request_validate_retries r) (\<lambda>_.
     and_then (identity_validate (rq_identity r)) (\<lambda>_.
     and_then (route_validate (rq_route r)) (\<lambda>_.
     and_then (require_safe_identifier ''backend'' (rq_backend r) 1 32 ''_-'') (\<lambda>_.
     and_then (reject (rq_created_unix_ms r = 0) ''created_unix_ms must be non-zero'') (\<lambda>_.
     and_then (reject (rq_deadline_unix_ms r < rq_created_unix_ms r)
       ''deadline_unix_ms must not precede creation'') (\<lambda>_.
     and_then (traffic_validate (rq_traffic_budget r)) (\<lambda>_.
     and_then (request_validate_plan r) (\<lambda>_.
     and_then (reject (rq_traffic_budget r = Unlimited \<and> (\<not> rq_traffic_policy_explicit r \<or> rq_origin r = Scheduler))
       ''unlimited traffic requires explicit non-scheduled request policy'') (\<lambda>_.
     and_then (reject (rq_scheduled_auto_apply_requested r
                       \<and> (rq_origin r \<noteq> Scheduler \<or> rq_operation r \<noteq> FullAutotune))
       ''scheduled Auto-Apply authority requires a scheduler Full Auto-Tune request'') (\<lambda>_.
     and_then (request_validate_target r) (\<lambda>_.
     and_then (request_validate_operation r) (\<lambda>_.
     and_then (service_cap_validate ''download service cap'' (rq_service_dl_cap_kbps r)) (\<lambda>_.
     service_cap_validate ''upload service cap'' (rq_service_ul_cap_kbps r))))))))))))))"

subsection \<open>Admission\<close>

definition validate_capacity_learning_service_caps ::
  "capacity_learning_policy option \<Rightarrow> u64 option \<Rightarrow> u64 option \<Rightarrow> unit result" where
  "validate_capacity_learning_service_caps policy dl ul =
     reject (policy = Some FixedCap \<and> (dl = None \<or> ul = None))
       ''fixed-cap capacity learning requires download and upload service hard caps''"

definition request_admission_route :: "bool \<Rightarrow> operation_request \<Rightarrow> unit result" where
  "request_admission_route calibration r =
     (if rt_device_ifindex (rq_route r) \<noteq> None then
        and_then (reject (\<not> calibration \<or> rt_mode (rq_route r) \<noteq> Explicit)
          ''link-qualified route execution is not available in this build'') (\<lambda>_.
        and_then (explicit_operation_authority (rq_route r)) (\<lambda>_.
        reject (rt_dns_server (rq_route r) = None)
          ''explicit route operation requires an explicit IPv4 DNS server''))
      else Ok ())"

definition request_admission_bootstrap :: "operation_request \<Rightarrow> unit result" where
  "request_admission_bootstrap r =
     and_then (reject (rq_backend r \<noteq> ''speedtest-go'')
       ''absent bootstrap operation requires the native speedtest-go backend'') (\<lambda>_.
     and_then (reject (\<not> source_is_v4 r)
       ''absent bootstrap operation requires an explicit IPv4 route source'') (\<lambda>_.
     case rq_operation r of
       FullAutotune \<Rightarrow>
         and_then (reject (rq_strategy r \<noteq> Some FullRaw \<or> \<not> rq_allow_sqm_disable r)
           ''absent bootstrap Full Auto-Tune requires Full Raw controls and directional SQM bypass authority'') (\<lambda>_.
         reject (rq_service_dl_cap_kbps r = None \<or> rq_service_ul_cap_kbps r = None)
           ''absent bootstrap Full Auto-Tune requires explicit download and upload service caps as search authority'')
     | Speedtest \<Rightarrow>
         reject (rq_speedtest_topology r \<noteq> Some Unshaped \<or> rq_allow_sqm_disable r \<or> rq_allow_active_traffic r)
           ''absent bootstrap Speedtest requires a read-only unshaped policy''
     | _ \<Rightarrow> Err ''absent bootstrap operation kind is unsupported for admission''))"

text \<open>\<open>calibration\<close> is the build feature of that name.\<close>

definition validate_admission_policy :: "bool \<Rightarrow> operation_request \<Rightarrow> unit result" where
  "validate_admission_policy calibration r =
     and_then (request_admission_route calibration r) (\<lambda>_.
     and_then (request_validate r) (\<lambda>_.
     and_then (validate_capacity_learning_service_caps (rq_capacity_learning_policy r)
         (rq_service_dl_cap_kbps r) (rq_service_ul_cap_kbps r)) (\<lambda>_.
     if rq_target_state r \<noteq> AbsentBootstrap then Ok () else request_admission_bootstrap r)))"

definition effective_server_failure_retries :: "operation_request \<Rightarrow> u8" where
  "effective_server_failure_retries r =
     (case rq_server_failure_retries r of None \<Rightarrow> DEFAULT_SERVER_FAILURE_RETRIES | Some n \<Rightarrow> n)"

end
