(* ===== verification/Request_Codec.thy ===== *)
theory Request_Codec
  imports Operation_Request
begin

text \<open>
  The wire record of an operation request: schema selection, the field list of a schema, encoding and
  decoding (\<open>encode\<close>, \<open>encode_for_schema\<close>, \<open>decode\<close> of \<open>OperationRequest\<close>). The encoder and the decoder
  are split along the groups of fields the source writes and reads one after the other. Schema numbers
  are below 42, so the additions on them stay in range.
\<close>

section \<open>Definitions\<close>

definition RETRY_SCHEMA_OFFSET :: nat where
  "RETRY_SCHEMA_OFFSET = 19"

definition retry_request_header :: "nat \<Rightarrow> string" where
  "retry_request_header schema = ''cake-autorate-operation'' @ [TAB] @ nat_string schema @ [TAB] @ ''request''"

text \<open>The nineteen header constants are this text for the schemas 4 to 22.\<close>

definition legacy_request_header :: "nat \<Rightarrow> string result" where
  "legacy_request_header schema =
     (if 4 \<le> schema \<and> schema \<le> 22 then Ok (retry_request_header schema)
      else Err ''unsupported operation request schema'')"

definition encode_legacy_schema :: "operation_request \<Rightarrow> nat" where
  "encode_legacy_schema r =
     (if rt_fwmark_mask (rq_route r) \<noteq> None then
        (let schema = (case (rq_target_state r, rq_traffic_plan r \<noteq> None) of
             (ExistingManaged, False) \<Rightarrow> 11
           | (AbsentBootstrap, False) \<Rightarrow> 12
           | (ExistingManaged, True) \<Rightarrow> 13
           | (AbsentBootstrap, True) \<Rightarrow> 14)
         in if rt_dns_server (rq_route r) \<noteq> None then schema + 8
            else if rt_device_ifindex (rq_route r) \<noteq> None then schema + 4
            else schema)
      else if rq_traffic_plan r \<noteq> None then
        (if rq_target_state r = AbsentBootstrap then 10 else 9)
      else if rq_target_state r = AbsentBootstrap then
        (if rq_traffic_policy_explicit r then 8 else 6)
      else if rq_traffic_policy_explicit r then 7
      else 5)"

definition base_schema :: "nat \<Rightarrow> nat" where
  "base_schema schema =
     (if schema \<ge> 19 then schema - 12
      else if schema \<ge> 15 then schema - 8
      else if schema \<ge> 11 then schema - 4
      else schema)"

definition bootstrap_schema :: "nat \<Rightarrow> bool" where
  "bootstrap_schema schema = (base_schema schema \<in> set [6, 8, 10])"

subsection \<open>The fields of a request\<close>

definition request_head_fields :: "operation_request \<Rightarrow> (string \<times> string) list" where
  "request_head_fields r =
     [(''job_id'', id_job_id (rq_identity r)),
      (''job_token'', id_job_token (rq_identity r)),
      (''created_unix_ms'', word_string (rq_created_unix_ms r)),
      (''deadline_unix_ms'', word_string (rq_deadline_unix_ms r)),
      (''instance'', id_instance (rq_identity r)),
      (''operation'', operation_kind_as_str (rq_operation r)),
      (''origin'', operation_origin_as_str (rq_origin r)),
      (''backend'', rq_backend r),
      (''speedtest_direction'', optional_text speedtest_direction_as_str (rq_speedtest_direction r)),
      (''speedtest_server_id'', optional_text word_string (rq_speedtest_server_id r)),
      (''speedtest_topology'', optional_text speedtest_topology_as_str (rq_speedtest_topology r)),
      (''target_interface'', id_target_interface (rq_identity r))]"

definition request_state_fields :: "nat \<Rightarrow> operation_request \<Rightarrow> (string \<times> string) list" where
  "request_state_fields schema r =
     (if schema \<ge> 5 then [(''target_state'', operation_target_state_as_str (rq_target_state r))] else [])"

definition request_capture_fields ::
  "(string \<Rightarrow> string) \<Rightarrow> nat \<Rightarrow> operation_request \<Rightarrow> (string \<times> string) list result" where
  "request_capture_fields sha256 schema r =
     (if bootstrap_schema schema then
        and_then (ok_or (rq_capture_policy r)
          ''operation request schema v6 requires capture policy authority'') (\<lambda>capture_policy.
        and_then (capture_policy_id_canonical_sha256 sha256 capture_policy) (\<lambda>digest.
        Ok [(''capture_policy'', capture_policy_id_as_str capture_policy),
            (''capture_policy_sha256'', digest)]))
      else Ok [])"

definition request_route_fields :: "operation_request \<Rightarrow> (string \<times> string) list" where
  "request_route_fields r =
     [(''managed_sqm_section'', optional_text id (rq_managed_sqm_section r)),
      (''route_mode'', operation_route_mode_as_str (rt_mode (rq_route r))),
      (''mwan3_member'', optional_text id (rt_mwan3_member (rq_route r))),
      (''l3_device'', rt_l3_device (rq_route r)),
      (''source_ip'', optional_text ip_string (rt_source_ip (rq_route r))),
      (''fwmark'', optional_text word_string (rt_fwmark (rq_route r))),
      (''routing_table'', optional_text word_string (rt_routing_table (rq_route r))),
      (''route_fingerprint'', id_route_fingerprint (rq_identity r)),
      (''config_fingerprint'', id_config_fingerprint (rq_identity r)),
      (''sqm_fingerprint'', id_sqm_fingerprint (rq_identity r))]"

definition request_context_fields :: "operation_request \<Rightarrow> (string \<times> string) list" where
  "request_context_fields r =
     [(''profile'', optional_text autotune_profile_as_str (rq_profile r)),
      (''strategy'', optional_text calibration_strategy_as_str (rq_strategy r)),
      (''access_medium'', optional_text access_medium_as_str (rq_access_medium r)),
      (''access_source'', optional_text access_evidence_source_as_str (rq_access_source r)),
      (''access_confidence_percent'', word_string (rq_access_confidence_percent r)),
      (''capacity_learning_policy'',
        optional_text capacity_learning_policy_as_str (rq_capacity_learning_policy r)),
      (''service_dl_cap_kbps'', optional_text word_string (rq_service_dl_cap_kbps r)),
      (''service_ul_cap_kbps'', optional_text word_string (rq_service_ul_cap_kbps r)),
      (''allow_sqm_disable'', bool_text (rq_allow_sqm_disable r)),
      (''allow_active_traffic'', bool_text (rq_allow_active_traffic r)),
      (''scheduled_auto_apply_requested'', bool_text (rq_scheduled_auto_apply_requested r))]"

definition request_budget_fields :: "nat \<Rightarrow> operation_request \<Rightarrow> (string \<times> string) list" where
  "request_budget_fields schema r =
     (if schema \<ge> 7 then
        [(''traffic_policy'', case rq_traffic_budget r of Capped _ \<Rightarrow> ''capped'' | Unlimited \<Rightarrow> ''unlimited'')]
      else [])
     @ [(''traffic_budget_bytes'', optional_text word_string (traffic_limit_bytes (rq_traffic_budget r)))]
     @ (case rq_traffic_plan r of
          None \<Rightarrow> []
        | Some plan \<Rightarrow>
            [(''planning_dl_kbps'', word_string (plan_download_kbps plan)),
             (''planning_ul_kbps'', word_string (plan_upload_kbps plan))])"

definition request_tail_fields :: "operation_request \<Rightarrow> (string \<times> string) list" where
  "request_tail_fields r =
     (case rt_fwmark_mask (rq_route r) of
        None \<Rightarrow> []
      | Some msk \<Rightarrow>
          [(''fwmark_mask'', word_string msk),
           (''traffic_policy_explicit'', bool_text (rq_traffic_policy_explicit r))])
     @ (case rt_device_ifindex (rq_route r) of
          None \<Rightarrow> []
        | Some index \<Rightarrow> [(''device_ifindex'', word_string index)])
     @ (case rt_dns_server (rq_route r) of
          None \<Rightarrow> []
        | Some server \<Rightarrow> [(''route_dns_ipv4'', ipv4_string server)])"

definition request_retry_fields :: "operation_request \<Rightarrow> (string \<times> string) list" where
  "request_retry_fields r =
     (case rq_server_failure_retries r of
        None \<Rightarrow> []
      | Some retries \<Rightarrow> [(''server_failure_retries'', word_string retries)])"

definition request_fields ::
  "nat \<Rightarrow> (string \<times> string) list \<Rightarrow> operation_request \<Rightarrow> (string \<times> string) list" where
  "request_fields schema capture r =
     request_head_fields r @ request_state_fields schema r @ capture @ request_route_fields r
     @ request_context_fields r @ request_budget_fields schema r @ request_tail_fields r"

subsection \<open>Encoding\<close>

text \<open>The checks of \<open>encode_for_schema\<close> before it builds the fields; the result is the legacy schema.\<close>

definition check_schema :: "nat \<Rightarrow> operation_request \<Rightarrow> nat result" where
  "check_schema full_schema r =
     and_then (reject (\<not> (4 \<le> full_schema \<and> full_schema \<le> 22)
                       \<and> \<not> (4 + RETRY_SCHEMA_OFFSET \<le> full_schema \<and> full_schema \<le> 22 + RETRY_SCHEMA_OFFSET))
       ''unsupported operation request schema'') (\<lambda>_.
     let retry_schema = full_schema > 22 in
     and_then (reject (retry_schema \<noteq> (rq_server_failure_retries r \<noteq> None))
       ''request server retry encoding downgrade or mismatch'') (\<lambda>_.
     let schema = (if retry_schema then full_schema - RETRY_SCHEMA_OFFSET else full_schema) in
     and_then (reject ((schema \<ge> 15) \<noteq> (rt_device_ifindex (rq_route r) \<noteq> None))
       ''request route link encoding downgrade or mismatch'') (\<lambda>_.
     and_then (reject ((schema \<ge> 19) \<noteq> (rt_dns_server (rq_route r) \<noteq> None))
       ''request route DNS encoding downgrade or mismatch'') (\<lambda>_.
     and_then (reject ((schema \<ge> 11) \<noteq> (rt_fwmark_mask (rq_route r) \<noteq> None))
       ''request route mask encoding downgrade or mismatch'') (\<lambda>_.
     and_then (request_validate r) (\<lambda>_.
     and_then (reject ((base_schema schema \<ge> 9) \<noteq> (rq_traffic_plan r \<noteq> None))
       ''request planning encoding downgrade or mismatch'') (\<lambda>_.
     and_then (reject (schema < 11 \<and> (schema \<ge> 7) \<noteq> rq_traffic_policy_explicit r)
       ''request traffic policy encoding downgrade or mismatch'') (\<lambda>_.
     and_then (reject (\<not> bootstrap_schema schema \<and> rq_target_state r \<noteq> ExistingManaged)
       ''managed operation request schema cannot represent absent bootstrap authority'') (\<lambda>_.
     and_then (reject (\<not> bootstrap_schema schema \<and> rq_capture_policy r \<noteq> None)
       ''managed operation request schema cannot represent capture policy authority'') (\<lambda>_.
     and_then (reject (bootstrap_schema schema \<and> rq_target_state r \<noteq> AbsentBootstrap)
       ''operation request schema v6 is reserved for absent bootstrap authority'') (\<lambda>_.
     Ok schema)))))))))))"

definition encode_for_schema :: "(string \<Rightarrow> string) \<Rightarrow> nat \<Rightarrow> operation_request \<Rightarrow> string result" where
  "encode_for_schema sha256 full_schema r =
     and_then (check_schema full_schema r) (\<lambda>schema.
     and_then (request_capture_fields sha256 schema r) (\<lambda>capture.
     encode_record (retry_request_header full_schema)
       (request_fields schema capture r @ request_retry_fields r)))"

definition request_encode :: "(string \<Rightarrow> string) \<Rightarrow> operation_request \<Rightarrow> string result" where
  "request_encode sha256 r =
     (let legacy = encode_legacy_schema r in
      encode_for_schema sha256
        (if rq_server_failure_retries r \<noteq> None then legacy + RETRY_SCHEMA_OFFSET else legacy) r)"

subsection \<open>Decoding\<close>

definition read_head :: "record_reader \<Rightarrow>
  ((string \<times> string \<times> u64 \<times> u64 \<times> string \<times> operation_kind \<times> operation_origin \<times> string
    \<times> speedtest_direction option \<times> u64 option \<times> speedtest_topology option \<times> string)
   \<times> record_reader) result" where
  "read_head reader =
     and_then (record_reader_field reader ''job_id'') (\<lambda>(job_id, reader).
     and_then (record_reader_field reader ''job_token'') (\<lambda>(job_token, reader).
     and_then (record_reader_field reader ''created_unix_ms'') (\<lambda>(v, reader).
     and_then (wire_parse_u64 ''created_unix_ms'' v) (\<lambda>created_unix_ms.
     and_then (record_reader_field reader ''deadline_unix_ms'') (\<lambda>(v, reader).
     and_then (wire_parse_u64 ''deadline_unix_ms'' v) (\<lambda>deadline_unix_ms.
     and_then (record_reader_field reader ''instance'') (\<lambda>(instance_name, reader).
     and_then (record_reader_field reader ''operation'') (\<lambda>(v, reader).
     and_then (ok_or (operation_kind_parse v) ''unsupported operation'') (\<lambda>operation.
     and_then (record_reader_field reader ''origin'') (\<lambda>(v, reader).
     and_then (ok_or (operation_origin_parse v) ''unsupported operation origin'') (\<lambda>origin.
     and_then (record_reader_field reader ''backend'') (\<lambda>(backend, reader).
     and_then (record_reader_field reader ''speedtest_direction'') (\<lambda>(v, reader).
     and_then (parse_optional_enum v speedtest_direction_parse ''speed-test direction'') (\<lambda>direction.
     and_then (record_reader_field reader ''speedtest_server_id'') (\<lambda>(v, reader).
     and_then (optional_parsed (from_str_radix 10) ''speedtest_server_id'' v) (\<lambda>server_id.
     and_then (record_reader_field reader ''speedtest_topology'') (\<lambda>(v, reader).
     and_then (parse_optional_enum v speedtest_topology_parse ''speed-test topology'') (\<lambda>topology.
     and_then (record_reader_field reader ''target_interface'') (\<lambda>(target_interface, reader).
     Ok ((job_id, job_token, created_unix_ms, deadline_unix_ms, instance_name, operation, origin, backend,
          direction, server_id, topology, target_interface), reader))))))))))))))))))))"

definition read_state :: "nat \<Rightarrow> record_reader \<Rightarrow> (operation_target_state \<times> record_reader) result" where
  "read_state schema reader =
     (if schema \<ge> 5 then
        and_then (record_reader_field reader ''target_state'') (\<lambda>(v, reader).
        and_then (ok_or (operation_target_state_parse v) ''unsupported operation target state'') (\<lambda>state.
        Ok (state, reader)))
      else Ok (ExistingManaged, reader))"

definition read_capture ::
  "(string \<Rightarrow> string) \<Rightarrow> nat \<Rightarrow> record_reader \<Rightarrow> (capture_policy_id option \<times> record_reader) result" where
  "read_capture sha256 schema reader =
     (if bootstrap_schema schema then
        and_then (record_reader_field reader ''capture_policy'') (\<lambda>(v, reader).
        and_then (ok_or (capture_policy_id_parse v) ''unsupported Auto-Tune capture policy'') (\<lambda>policy.
        and_then (record_reader_field reader ''capture_policy_sha256'') (\<lambda>(digest, reader).
        and_then (capture_policy_id_canonical_sha256 sha256 policy) (\<lambda>expected.
        if digest \<noteq> expected then Err ''Auto-Tune capture policy digest mismatch''
        else Ok (Some policy, reader)))))
      else Ok (None, reader))"

definition read_route :: "record_reader \<Rightarrow>
  ((string option \<times> operation_route_mode \<times> string option \<times> string \<times> ip_addr option \<times> u32 option
    \<times> u32 option \<times> string \<times> string \<times> string) \<times> record_reader) result" where
  "read_route reader =
     and_then (record_reader_field reader ''managed_sqm_section'') (\<lambda>(section, reader).
     and_then (record_reader_field reader ''route_mode'') (\<lambda>(v, reader).
     and_then (ok_or (operation_route_mode_parse v) ''unsupported route mode'') (\<lambda>mode.
     and_then (record_reader_field reader ''mwan3_member'') (\<lambda>(member_name, reader).
     and_then (record_reader_field reader ''l3_device'') (\<lambda>(l3_device, reader).
     and_then (record_reader_field reader ''source_ip'') (\<lambda>(v, reader).
     and_then (optional_parsed parse_ip ''source_ip'' v) (\<lambda>source_ip.
     and_then (record_reader_field reader ''fwmark'') (\<lambda>(v, reader).
     and_then (optional_parsed (from_str_radix 10) ''fwmark'' v) (\<lambda>fwmark.
     and_then (record_reader_field reader ''routing_table'') (\<lambda>(v, reader).
     and_then (optional_parsed (from_str_radix 10) ''routing_table'' v) (\<lambda>routing_table.
     and_then (record_reader_field reader ''route_fingerprint'') (\<lambda>(route_fingerprint, reader).
     and_then (record_reader_field reader ''config_fingerprint'') (\<lambda>(config_fingerprint, reader).
     and_then (record_reader_field reader ''sqm_fingerprint'') (\<lambda>(sqm_fingerprint, reader).
     Ok ((optional_string section, mode, optional_string member_name, l3_device, source_ip, fwmark,
          routing_table, route_fingerprint, config_fingerprint, sqm_fingerprint), reader)))))))))))))))"

text \<open>The two \<open>if text.is_empty()\<close> readers of profile and strategy.\<close>

definition read_optional_named :: "string \<Rightarrow> (string \<Rightarrow> 'a option) \<Rightarrow> string \<Rightarrow> 'a option result" where
  "read_optional_named v parse error =
     (if v = [] then Ok None else and_then (ok_or (parse v) error) (\<lambda>x. Ok (Some x)))"

definition read_context :: "record_reader \<Rightarrow>
  ((autotune_profile option \<times> calibration_strategy option \<times> access_medium option
    \<times> access_evidence_source option \<times> u8 \<times> capacity_learning_policy option \<times> u64 option \<times> u64 option
    \<times> bool \<times> bool \<times> bool) \<times> record_reader) result" where
  "read_context reader =
     and_then (record_reader_field reader ''profile'') (\<lambda>(v, reader).
     and_then (read_optional_named v autotune_profile_parse ''unsupported Auto-Tune profile'') (\<lambda>profile.
     and_then (record_reader_field reader ''strategy'') (\<lambda>(v, reader).
     and_then (read_optional_named v calibration_strategy_parse ''unsupported calibration strategy'') (\<lambda>strategy.
     and_then (record_reader_field reader ''access_medium'') (\<lambda>(v, reader).
     and_then (parse_optional_enum v access_medium_parse ''access medium'') (\<lambda>medium.
     and_then (record_reader_field reader ''access_source'') (\<lambda>(v, reader).
     and_then (parse_optional_enum v access_evidence_source_parse ''access source'') (\<lambda>source.
     and_then (record_reader_field reader ''access_confidence_percent'') (\<lambda>(v, reader).
     and_then (ok_or (from_str_radix 10 v) ''invalid access confidence'') (\<lambda>confidence.
     and_then (record_reader_field reader ''capacity_learning_policy'') (\<lambda>(v, reader).
     and_then (parse_optional_enum v capacity_learning_policy_parse ''capacity learning policy'') (\<lambda>learning.
     and_then (record_reader_field reader ''service_dl_cap_kbps'') (\<lambda>(v, reader).
     and_then (optional_parsed (from_str_radix 10) ''service_dl_cap_kbps'' v) (\<lambda>dl_cap.
     and_then (record_reader_field reader ''service_ul_cap_kbps'') (\<lambda>(v, reader).
     and_then (optional_parsed (from_str_radix 10) ''service_ul_cap_kbps'' v) (\<lambda>ul_cap.
     and_then (record_reader_field reader ''allow_sqm_disable'') (\<lambda>(v, reader).
     and_then (parse_bool v) (\<lambda>allow_sqm_disable.
     and_then (record_reader_field reader ''allow_active_traffic'') (\<lambda>(v, reader).
     and_then (parse_bool v) (\<lambda>allow_active_traffic.
     and_then (record_reader_field reader ''scheduled_auto_apply_requested'') (\<lambda>(v, reader).
     and_then (parse_bool v) (\<lambda>scheduled.
     Ok ((profile, strategy, medium, source, confidence, learning, dl_cap, ul_cap, allow_sqm_disable,
          allow_active_traffic, scheduled), reader)))))))))))))))))))))))"

definition read_budget :: "nat \<Rightarrow> record_reader \<Rightarrow>
  ((traffic_policy \<times> autotune_traffic_plan option) \<times> record_reader) result" where
  "read_budget schema reader =
     and_then (if schema \<ge> 7 then record_reader_field reader ''traffic_policy''
               else Ok (''capped'', reader)) (\<lambda>(policy, reader).
     and_then (record_reader_field reader ''traffic_budget_bytes'') (\<lambda>(budget_value, reader).
     and_then (if policy = ''capped'' then
                 and_then (wire_parse_u64 ''traffic_budget_bytes'' budget_value) (\<lambda>n. Ok (Capped n))
               else if policy = ''unlimited'' \<and> budget_value = [] then Ok Unlimited
               else Err ''invalid explicit traffic policy or conflicting byte limit'') (\<lambda>budget.
     if base_schema schema \<ge> 9 then
       and_then (record_reader_field reader ''planning_dl_kbps'') (\<lambda>(v, reader).
       and_then (wire_parse_u64 ''planning_dl_kbps'' v) (\<lambda>dl.
       and_then (record_reader_field reader ''planning_ul_kbps'') (\<lambda>(v, reader).
       and_then (wire_parse_u64 ''planning_ul_kbps'' v) (\<lambda>ul.
       Ok ((budget, Some \<lparr>plan_download_kbps = dl, plan_upload_kbps = ul\<rparr>), reader)))))
     else Ok ((budget, None), reader))))"

definition read_tail :: "nat \<Rightarrow> record_reader \<Rightarrow>
  ((u32 option \<times> bool \<times> u32 option \<times> ipv4 option) \<times> record_reader) result" where
  "read_tail schema reader =
     and_then (if schema \<ge> 11 then
                 and_then (record_reader_field reader ''fwmark_mask'') (\<lambda>(v, reader).
                 and_then (ok_or (from_str_radix 10 v) ''invalid route mark mask'') (\<lambda>msk.
                 Ok (Some msk, reader)))
               else Ok (None, reader)) (\<lambda>(fwmark_mask, reader).
     and_then (if schema \<ge> 11 then
                 and_then (record_reader_field reader ''traffic_policy_explicit'') (\<lambda>(v, reader).
                 and_then (parse_bool v) (\<lambda>e. Ok (e, reader)))
               else Ok (schema \<ge> 7, reader)) (\<lambda>(explicit_policy, reader).
     and_then (if schema \<ge> 15 then
                 and_then (record_reader_field reader ''device_ifindex'') (\<lambda>(v, reader).
                 and_then (ok_or (from_str_radix 10 v) ''invalid route link index'') (\<lambda>index.
                 Ok (Some index, reader)))
               else Ok (None, reader)) (\<lambda>(device_ifindex, reader).
     and_then (if schema \<ge> 19 then
                 and_then (record_reader_field reader ''route_dns_ipv4'') (\<lambda>(v, reader).
                 and_then (ok_or (parse_ipv4 v) ''invalid route DNS server'') (\<lambda>server.
                 Ok (Some server, reader)))
               else Ok (None, reader)) (\<lambda>(dns_server, reader).
     Ok ((fwmark_mask, explicit_policy, device_ifindex, dns_server), reader)))))"

definition first_line :: "string \<Rightarrow> string option" where
  "first_line input = (case lines input of [] \<Rightarrow> None | l # _ \<Rightarrow> Some l)"

definition decode_legacy :: "(string \<Rightarrow> string) \<Rightarrow> string \<Rightarrow> operation_request result" where
  "decode_legacy sha256 input =
     and_then (ok_or (find (\<lambda>schema. first_line input = Some (retry_request_header schema)) [4 ..< 23])
       ''operation record header mismatch'') (\<lambda>schema.
     and_then (record_reader_new input (retry_request_header schema)) (\<lambda>reader.
     and_then (read_head reader) (\<lambda>((job_id, job_token, created, deadline, instance_name, operation, origin, backend,
         direction, server_id, topology, target_interface), reader).
     and_then (read_state schema reader) (\<lambda>(target_state, reader).
     and_then (read_capture sha256 schema reader) (\<lambda>(capture, reader).
     and_then (read_route reader) (\<lambda>((section, mode, member_name, l3_device, source_ip, fwmark, routing_table,
         route_fp, config_fp, sqm_fp), reader).
     and_then (read_context reader) (\<lambda>((profile, strategy, medium, source, confidence, learning, dl_cap, ul_cap,
         allow_sqm_disable, allow_active_traffic, scheduled), reader).
     and_then (read_budget schema reader) (\<lambda>((budget, plan), reader).
     and_then (read_tail schema reader) (\<lambda>((fwmark_mask, explicit_policy, device_ifindex, dns_server), reader).
     and_then (record_reader_finish reader) (\<lambda>_.
     let request =
       \<lparr>rq_identity = \<lparr>id_job_id = job_id, id_job_token = job_token, id_instance = instance_name,
          id_operation = operation, id_target_interface = target_interface,
          id_route_fingerprint = route_fp, id_config_fingerprint = config_fp, id_sqm_fingerprint = sqm_fp\<rparr>,
        rq_created_unix_ms = created, rq_deadline_unix_ms = deadline, rq_origin = origin,
        rq_backend = backend, rq_speedtest_direction = direction, rq_speedtest_server_id = server_id,
        rq_speedtest_topology = topology,
        rq_route = \<lparr>rt_dns_server = dns_server, rt_device_ifindex = device_ifindex, rt_mode = mode,
          rt_mwan3_member = member_name, rt_l3_device = l3_device, rt_source_ip = source_ip,
          rt_fwmark = fwmark, rt_routing_table = routing_table, rt_fwmark_mask = fwmark_mask\<rparr>,
        rq_target_state = target_state, rq_capture_policy = capture, rq_managed_sqm_section = section,
        rq_profile = profile, rq_strategy = strategy, rq_access_medium = medium, rq_access_source = source,
        rq_access_confidence_percent = confidence, rq_capacity_learning_policy = learning,
        rq_service_dl_cap_kbps = dl_cap, rq_service_ul_cap_kbps = ul_cap,
        rq_allow_sqm_disable = allow_sqm_disable, rq_allow_active_traffic = allow_active_traffic,
        rq_scheduled_auto_apply_requested = scheduled, rq_traffic_budget = budget,
        rq_traffic_policy_explicit = explicit_policy, rq_traffic_plan = plan,
        rq_server_failure_retries = None\<rparr>
     in and_then (request_validate request) (\<lambda>_.
        and_then (encode_for_schema sha256 schema request) (\<lambda>text.
        if text \<noteq> input then Err ''operation request is not canonically encoded''
        else Ok request))))))))))))"

text \<open>The last index of a non-empty line, as \<open>rposition\<close> gives it.\<close>

fun last_nonempty :: "string list \<Rightarrow> nat option" where
  "last_nonempty [] = None"
| "last_nonempty (l # ls) =
     (case last_nonempty ls of
        Some i \<Rightarrow> Some (Suc i)
      | None \<Rightarrow> if l \<noteq> [] then Some 0 else None)"

definition parse_retries :: "string \<Rightarrow> u8 result" where
  "parse_retries line =
     and_then (ok_or (strip_prefix line ''server_failure_retries='')
       ''operation request server retries field missing'') (\<lambda>retries.
     and_then (reject (retries = [] \<or> length retries > 2 \<or> \<not> list_all is_ascii_digit retries)
       ''invalid server failure retries'') (\<lambda>_.
     ok_or (from_str_radix 10 retries) ''invalid server failure retries''))"

definition decode_retry :: "(string \<Rightarrow> string) \<Rightarrow> nat \<Rightarrow> string \<Rightarrow> operation_request result" where
  "decode_retry sha256 full_schema input =
     (let legacy = full_schema - RETRY_SCHEMA_OFFSET;
          rest = tl (lines input)
      in
      and_then (ok_or (last_nonempty rest) ''operation request is empty'') (\<lambda>i.
      and_then (parse_retries (rest ! i)) (\<lambda>retries.
      and_then (legacy_request_header legacy) (\<lambda>legacy_header.
      let legacy_text = legacy_header @ concat (map (\<lambda>line. LF # line) (take i rest @ drop (Suc i) rest))
            @ (if ends_with_char input LF then [LF] else [])
      in
      and_then (decode_legacy sha256 legacy_text) (\<lambda>request.
      let request = request\<lparr>rq_server_failure_retries := Some retries\<rparr>
      in
      and_then (request_validate request) (\<lambda>_.
      and_then (encode_for_schema sha256 full_schema request) (\<lambda>text.
      if text \<noteq> input then Err ''operation request is not canonical'' else Ok request)))))))"

text \<open>The decoder calls itself on the legacy text, whose header is a legacy one, so that the second
  call never takes the retry branch.\<close>

definition request_decode :: "(string \<Rightarrow> string) \<Rightarrow> string \<Rightarrow> operation_request result" where
  "request_decode sha256 input =
     (case find (\<lambda>schema. first_line input = Some (retry_request_header schema))
             [4 + RETRY_SCHEMA_OFFSET ..< 23 + RETRY_SCHEMA_OFFSET] of
        Some full_schema \<Rightarrow> decode_retry sha256 full_schema input
      | None \<Rightarrow> decode_legacy sha256 input)"

section \<open>The values of a valid request can be written\<close>

lemma request_validate_Ok_iff:
  "request_validate r = Ok () \<longleftrightarrow>
     request_validate_retries r = Ok () \<and> identity_validate (rq_identity r) = Ok ()
     \<and> route_validate (rq_route r) = Ok () \<and> require_safe_identifier ''backend'' (rq_backend r) 1 32 ''_-'' = Ok ()
     \<and> rq_created_unix_ms r \<noteq> 0 \<and> rq_created_unix_ms r \<le> rq_deadline_unix_ms r
     \<and> traffic_validate (rq_traffic_budget r) = Ok () \<and> request_validate_plan r = Ok ()
     \<and> (rq_traffic_budget r = Unlimited \<longrightarrow> rq_traffic_policy_explicit r \<and> rq_origin r \<noteq> Scheduler)
     \<and> (rq_scheduled_auto_apply_requested r \<longrightarrow> rq_origin r = Scheduler \<and> rq_operation r = FullAutotune)
     \<and> request_validate_target r = Ok () \<and> request_validate_operation r = Ok ()
     \<and> service_cap_validate ''download service cap'' (rq_service_dl_cap_kbps r) = Ok ()
     \<and> service_cap_validate ''upload service cap'' (rq_service_ul_cap_kbps r) = Ok ()"
  unfolding request_validate_def and_then_Inr_iff reject_Inr_iff by (auto simp: not_less)

lemma identity_validate_Ok_iff:
  "identity_validate i = Ok () \<longleftrightarrow>
     wire_require_lower_hex ''job_id'' (id_job_id i) 32 = Ok ()
     \<and> wire_require_lower_hex ''job_token'' (id_job_token i) 64 = Ok ()
     \<and> require_safe_identifier ''instance'' (id_instance i) 1 64 ''_-'' = Ok ()
     \<and> require_safe_identifier ''target_interface'' (id_target_interface i) 1 64 ''._:@-'' = Ok ()
     \<and> wire_require_lower_hex ''route_fingerprint'' (id_route_fingerprint i) 64 = Ok ()
     \<and> wire_require_lower_hex ''config_fingerprint'' (id_config_fingerprint i) 64 = Ok ()
     \<and> wire_require_lower_hex ''sqm_fingerprint'' (id_sqm_fingerprint i) 64 = Ok ()"
  by (auto simp: identity_validate_def and_then_Inr_iff)

lemma visible_punctuation [simp]: "visible ''_-''" "visible ''._:@-''"
  by (simp_all add: byte_def)

lemma safe_identifier_visible:
  "require_safe_identifier n v 1 k ''_-'' = Ok () \<Longrightarrow> visible v \<and> v \<noteq> []"
  "require_safe_identifier n v 1 k ''._:@-'' = Ok () \<Longrightarrow> visible v \<and> v \<noteq> []"
  using visible_safe_identifier [OF _ visible_punctuation(1), of n v 1 k]
    visible_safe_identifier [OF _ visible_punctuation(2), of n v 1 k]
  by (auto simp: require_safe_identifier_def simp del: set_simps)

lemma uci_section_visible: "validate_uci_section v = Ok () \<Longrightarrow> visible v \<and> v \<noteq> []"
proof -
  assume "validate_uci_section v = Ok ()"
  then have "list_all (\<lambda>b. is_ascii_alphanumeric b \<or> b = CHR ''_'') v" "v \<noteq> []"
    by (simp_all add: validate_uci_section_def)
  moreover have "byte CHR ''_'' = 95"
    by (simp add: byte_def)
  ultimately show ?thesis
    by (auto intro!: visible_all [of "\<lambda>b. is_ascii_alphanumeric b \<or> b = CHR ''_''"]
        dest: is_ascii_alphanumeric_bytes)
qed

lemma managed_section_visible:
  assumes "request_validate r = Ok ()" "rq_managed_sqm_section r = Some v"
  shows "visible v \<and> v \<noteq> []"
proof (cases "rq_operation r")
  case FullAutotune
  then have "require_safe_identifier ''managed_sqm_section'' v 1 64 ''_-'' = Ok ()"
    using assms by (auto simp: request_validate_Ok_iff request_validate_operation_def
        request_validate_full_autotune_def and_then_Inr_iff)
  then show ?thesis by (rule safe_identifier_visible)
next
  case Speedtest
  then have "rq_target_state r = AbsentBootstrap"
    using assms by (cases "rq_target_state r") (auto simp: request_validate_Ok_iff request_validate_operation_def
        request_validate_generated_def and_then_Inr_iff)
  then have "validate_uci_section v = Ok ()"
    using assms by (auto simp: request_validate_Ok_iff request_validate_target_def and_then_Inr_iff)
  then show ?thesis by (rule uci_section_visible)
qed (use assms in \<open>auto simp: request_validate_Ok_iff request_validate_operation_def
      request_validate_generated_def request_validate_guided_def and_then_Inr_iff\<close>)

lemma mwan3_member_visible:
  assumes "route_validate r = Ok ()" "rt_mwan3_member r = Some v"
  shows "visible v \<and> v \<noteq> []"
proof -
  have "require_safe_identifier ''mwan3_member'' v 1 64 ''_-'' = Ok ()"
    using assms by (auto simp: route_validate_Ok_iff route_mode_validate_Ok_iff
        split: operation_route_mode.splits)
  then show ?thesis by (rule safe_identifier_visible)
qed

definition request_writable :: "operation_request \<Rightarrow> bool" where
  "request_writable r \<longleftrightarrow>
     list_all visible [id_job_id (rq_identity r), id_job_token (rq_identity r), id_instance (rq_identity r),
       id_target_interface (rq_identity r), id_route_fingerprint (rq_identity r),
       id_config_fingerprint (rq_identity r), id_sqm_fingerprint (rq_identity r), rq_backend r,
       rt_l3_device (rq_route r), optional_text id (rt_mwan3_member (rq_route r)),
       optional_text id (rq_managed_sqm_section r)]
     \<and> rt_mwan3_member (rq_route r) \<noteq> Some [] \<and> rq_managed_sqm_section r \<noteq> Some []"

lemma request_validate_writable:
  assumes "request_validate r = Ok ()"
  shows "request_writable r"
proof -
  have "identity_validate (rq_identity r) = Ok ()" "route_validate (rq_route r) = Ok ()"
    "require_safe_identifier ''backend'' (rq_backend r) 1 32 ''_-'' = Ok ()"
    using assms by (simp_all add: request_validate_Ok_iff)
  moreover have "visible (optional_text id (rt_mwan3_member (rq_route r)))"
      "rt_mwan3_member (rq_route r) \<noteq> Some []"
    using mwan3_member_visible [OF \<open>route_validate (rq_route r) = Ok ()\<close>]
    by (auto simp: optional_text_def split: option.splits)
  moreover have "visible (optional_text id (rq_managed_sqm_section r))" "rq_managed_sqm_section r \<noteq> Some []"
    using managed_section_visible [OF assms] by (auto simp: optional_text_def split: option.splits)
  ultimately show ?thesis
    using safe_identifier_visible visible_lower_hex
    by (auto simp: request_writable_def identity_validate_Ok_iff route_validate_Ok_iff)
qed

section \<open>Reading back each group of fields\<close>

lemma request_keys [simp]:
  "key_safe ''created_unix_ms''" "key_safe ''deadline_unix_ms''" "key_safe ''instance''"
  "key_safe ''operation''" "key_safe ''origin''" "key_safe ''backend''" "key_safe ''speedtest_direction''"
  "key_safe ''speedtest_server_id''" "key_safe ''speedtest_topology''" "key_safe ''target_interface''"
  "key_safe ''target_state''" "key_safe ''capture_policy''" "key_safe ''capture_policy_sha256''"
  "key_safe ''managed_sqm_section''" "key_safe ''route_mode''" "key_safe ''mwan3_member''"
  "key_safe ''l3_device''" "key_safe ''source_ip''" "key_safe ''fwmark''" "key_safe ''routing_table''"
  "key_safe ''route_fingerprint''" "key_safe ''config_fingerprint''" "key_safe ''sqm_fingerprint''"
  "key_safe ''profile''" "key_safe ''strategy''" "key_safe ''access_medium''" "key_safe ''access_source''"
  "key_safe ''access_confidence_percent''" "key_safe ''capacity_learning_policy''"
  "key_safe ''service_dl_cap_kbps''" "key_safe ''service_ul_cap_kbps''" "key_safe ''allow_sqm_disable''"
  "key_safe ''allow_active_traffic''" "key_safe ''scheduled_auto_apply_requested''"
  "key_safe ''traffic_policy''" "key_safe ''traffic_budget_bytes''" "key_safe ''planning_dl_kbps''"
  "key_safe ''planning_ul_kbps''" "key_safe ''fwmark_mask''" "key_safe ''traffic_policy_explicit''"
  "key_safe ''device_ifindex''" "key_safe ''route_dns_ipv4''" "key_safe ''server_failure_retries''"
  by (simp_all add: key_safe_def byte_def)

lemma value_safe_text [simp]:
  "value_safe (word_string w)" "value_safe (ipv4_string a)" "value_safe (bool_text b)"
  "value_safe (optional_text word_string v)" "value_safe (optional_text ip_string ip)"
  by (auto intro!: value_safe_visible simp: bool_text_def optional_text_def byte_def split: option.splits)

lemmas enum_token =
  operation_kind_text.as_str_token operation_origin_text.as_str_token operation_route_mode_text.as_str_token
  operation_target_state_text.as_str_token

lemmas enum_optional_token =
  speedtest_direction_text.optional_text_token speedtest_topology_text.optional_text_token
  autotune_profile_text.optional_text_token calibration_strategy_text.optional_text_token
  access_medium_text.optional_text_token access_evidence_source_text.optional_text_token
  capacity_learning_policy_text.optional_text_token

lemmas value_safe_enum [simp] =
  enum_token [THEN disjI2, THEN value_safe_token] enum_optional_token [THEN value_safe_token]

lemmas parse_enum [simp] =
  operation_kind_text.parse_as_str operation_origin_text.parse_as_str operation_route_mode_text.parse_as_str
  operation_target_state_text.parse_as_str speedtest_direction_text.parse_optional_text
  speedtest_topology_text.parse_optional_text access_medium_text.parse_optional_text
  access_evidence_source_text.parse_optional_text capacity_learning_policy_text.parse_optional_text

lemma read_optional_named_text:
  assumes "\<And>x. parse (as_str x) = Some x" "\<And>x. as_str x \<noteq> []"
  shows "read_optional_named (optional_text as_str v) parse e = Ok v"
  using assms by (cases v) (simp_all add: read_optional_named_def)

lemmas read_named [simp] =
  read_optional_named_text [OF autotune_profile_text.parse_as_str autotune_profile_text.as_str_nonempty]
  read_optional_named_text [OF calibration_strategy_text.parse_as_str calibration_strategy_text.as_str_nonempty]

lemma optional_parsed_ip [simp]: "optional_parsed parse_ip n (optional_text ip_string v) = Ok v"
  by (rule optional_parsed_text) simp_all

lemma read_head_fields:
  assumes "request_writable r"
  shows "read_head (map wire_line (request_head_fields r) @ rest) =
    Ok ((id_job_id (rq_identity r), id_job_token (rq_identity r), rq_created_unix_ms r, rq_deadline_unix_ms r,
      id_instance (rq_identity r), rq_operation r, rq_origin r, rq_backend r, rq_speedtest_direction r,
      rq_speedtest_server_id r, rq_speedtest_topology r, id_target_interface (rq_identity r)), rest)"
  using assms unfolding request_writable_def
  by (simp add: read_head_def request_head_fields_def value_safe_visible)

lemma read_state_fields:
  assumes "schema < 5 \<longrightarrow> rq_target_state r = ExistingManaged"
  shows "read_state schema (map wire_line (request_state_fields schema r) @ rest) = Ok (rq_target_state r, rest)"
  using assms by (simp add: read_state_def request_state_fields_def)

lemma value_safe_digest [simp]: "value_safe (hex_digest sha256 b)"
  using lower_hex_hex_digest by (intro value_safe_visible visible_all [of is_lower_hex_digit])
    (simp_all add: is_lower_hex_digit_bytes)

lemma value_safe_policy [simp]: "value_safe (capture_policy_id_as_str i)"
  by (cases i) (simp_all add: capture_policy_id_as_str_def value_safe_visible byte_def)

lemma request_capture_fields_Ok_iff:
  "request_capture_fields sha256 schema r = Ok capture \<longleftrightarrow>
     (if bootstrap_schema schema then
        (\<exists>i. rq_capture_policy r = Some i \<and> capture =
           [(''capture_policy'', capture_policy_id_as_str i),
            (''capture_policy_sha256'', hex_digest sha256 (capture_policy_canonical_text (standard_policy i)))])
      else capture = [])"
  by (auto simp: request_capture_fields_def and_then_Inr_iff id_canonical_sha256)

lemma read_capture_fields:
  assumes "request_capture_fields sha256 schema r = Ok capture"
    and "\<not> bootstrap_schema schema \<longrightarrow> rq_capture_policy r = None"
  shows "read_capture sha256 schema (map wire_line capture @ rest) = Ok (rq_capture_policy r, rest)"
  using assms
  by (auto simp: request_capture_fields_Ok_iff read_capture_def id_canonical_sha256 split: if_splits)

lemma read_route_fields:
  assumes "request_writable r"
  shows "read_route (map wire_line (request_route_fields r) @ rest) =
    Ok ((rq_managed_sqm_section r, rt_mode (rq_route r), rt_mwan3_member (rq_route r), rt_l3_device (rq_route r),
      rt_source_ip (rq_route r), rt_fwmark (rq_route r), rt_routing_table (rq_route r),
      id_route_fingerprint (rq_identity r), id_config_fingerprint (rq_identity r),
      id_sqm_fingerprint (rq_identity r)), rest)"
  using assms unfolding request_writable_def
  by (simp add: read_route_def request_route_fields_def value_safe_visible)

lemma read_context_fields:
  "read_context (map wire_line (request_context_fields r) @ rest) =
    Ok ((rq_profile r, rq_strategy r, rq_access_medium r, rq_access_source r, rq_access_confidence_percent r,
      rq_capacity_learning_policy r, rq_service_dl_cap_kbps r, rq_service_ul_cap_kbps r, rq_allow_sqm_disable r,
      rq_allow_active_traffic r, rq_scheduled_auto_apply_requested r), rest)"
  by (simp add: read_context_def request_context_fields_def)

lemma value_safe_policy_words [simp]: "value_safe ''capped''" "value_safe ''unlimited''"
  by (simp_all add: value_safe_visible byte_def)

lemma read_budget_fields:
  assumes "(base_schema schema \<ge> 9) = (rq_traffic_plan r \<noteq> None)"
    and "rq_traffic_budget r = Unlimited \<longrightarrow> schema \<ge> 7"
  shows "read_budget schema (map wire_line (request_budget_fields schema r) @ rest) =
    Ok ((rq_traffic_budget r, rq_traffic_plan r), rest)"
  using assms
  by (cases "rq_traffic_budget r"; cases "rq_traffic_plan r")
    (auto simp: read_budget_def request_budget_fields_def traffic_limit_bytes_def)

lemma read_tail_fields:
  assumes "(schema \<ge> 11) = (rt_fwmark_mask (rq_route r) \<noteq> None)"
    and "(schema \<ge> 15) = (rt_device_ifindex (rq_route r) \<noteq> None)"
    and "(schema \<ge> 19) = (rt_dns_server (rq_route r) \<noteq> None)"
    and "schema < 11 \<longrightarrow> rq_traffic_policy_explicit r = (schema \<ge> 7)"
  shows "read_tail schema (map wire_line (request_tail_fields r) @ rest) =
    Ok ((rt_fwmark_mask (rq_route r), rq_traffic_policy_explicit r, rt_device_ifindex (rq_route r),
      rt_dns_server (rq_route r)), rest)"
  using assms
  by (cases "rt_fwmark_mask (rq_route r)"; cases "rt_device_ifindex (rq_route r)"; cases "rt_dns_server (rq_route r)")
    (auto simp: read_tail_def request_tail_fields_def)

section \<open>Schemas\<close>

lemma check_schema_Ok_iff:
  "check_schema full r = Ok schema \<longleftrightarrow>
     (4 \<le> full \<and> full \<le> 22 \<and> rq_server_failure_retries r = None \<and> schema = full
      \<or> 23 \<le> full \<and> full \<le> 41 \<and> rq_server_failure_retries r \<noteq> None \<and> schema = full - 19)
     \<and> (schema \<ge> 15) = (rt_device_ifindex (rq_route r) \<noteq> None)
     \<and> (schema \<ge> 19) = (rt_dns_server (rq_route r) \<noteq> None)
     \<and> (schema \<ge> 11) = (rt_fwmark_mask (rq_route r) \<noteq> None)
     \<and> request_validate r = Ok ()
     \<and> (base_schema schema \<ge> 9) = (rq_traffic_plan r \<noteq> None)
     \<and> (schema < 11 \<longrightarrow> (schema \<ge> 7) = rq_traffic_policy_explicit r)
     \<and> bootstrap_schema schema = (rq_target_state r = AbsentBootstrap)
     \<and> (\<not> bootstrap_schema schema \<longrightarrow> rq_capture_policy r = None)"
proof -
  define rest where "rest = (\<lambda>k. (k \<ge> 15) = (rt_device_ifindex (rq_route r) \<noteq> None)
     \<and> (k \<ge> 19) = (rt_dns_server (rq_route r) \<noteq> None) \<and> (k \<ge> 11) = (rt_fwmark_mask (rq_route r) \<noteq> None)
     \<and> request_validate r = Ok () \<and> (base_schema k \<ge> 9) = (rq_traffic_plan r \<noteq> None)
     \<and> (k < 11 \<longrightarrow> (k \<ge> 7) = rq_traffic_policy_explicit r)
     \<and> bootstrap_schema k = (rq_target_state r = AbsentBootstrap)
     \<and> (\<not> bootstrap_schema k \<longrightarrow> rq_capture_policy r = None))"
  define k where "k = (if 22 < full then full - 19 else full)"
  have state: "rq_target_state r \<noteq> ExistingManaged \<longleftrightarrow> rq_target_state r = AbsentBootstrap"
    by (cases "rq_target_state r") simp_all
  have checked: "check_schema full r = Ok schema \<longleftrightarrow>
      \<not> (\<not> (4 \<le> full \<and> full \<le> 22) \<and> \<not> (23 \<le> full \<and> full \<le> 41))
      \<and> (22 < full) = (rq_server_failure_retries r \<noteq> None) \<and> rest k \<and> k = schema"
    unfolding check_schema_def Let_def and_then_Inr_iff reject_Inr_iff RETRY_SCHEMA_OFFSET_def state
      k_def [symmetric] rest_def by (cases "bootstrap_schema k") simp_all
  have "check_schema full r = Ok schema \<longleftrightarrow>
     (4 \<le> full \<and> full \<le> 22 \<and> rq_server_failure_retries r = None \<and> schema = full
      \<or> 23 \<le> full \<and> full \<le> 41 \<and> rq_server_failure_retries r \<noteq> None \<and> schema = full - 19)
     \<and> rest schema"
  proof (cases "22 < full")
    case True
    then show ?thesis unfolding checked by (auto simp: k_def)
  next
    case False
    then show ?thesis unfolding checked by (auto simp: k_def)
  qed
  then show ?thesis unfolding rest_def .
qed

lemma encode_for_schema_Ok_iff:
  "encode_for_schema sha256 full r = Ok s \<longleftrightarrow>
     (\<exists>schema capture. check_schema full r = Ok schema \<and> request_capture_fields sha256 schema r = Ok capture
        \<and> s = wire_text (retry_request_header full) (request_fields schema capture r @ request_retry_fields r)
        \<and> length s \<le> MAX_OPERATION_RECORD_BYTES)"
  by (auto simp: encode_for_schema_def and_then_Inr_iff encode_record_Ok_iff)

lemma header_line_request [simp]: "header_line (retry_request_header n)"
proof -
  have "c \<in> set (nat_string n) \<Longrightarrow> c \<noteq> LF \<and> c \<noteq> CR" for c
    by (auto dest!: nat_string_digits simp: is_ascii_digit_def byte_def)
  then show ?thesis
    by (auto simp: header_line_def retry_request_header_def)
qed

lemma nat_string_inject: "nat_string m = nat_string n \<longleftrightarrow> m = n"
  by (metis digits_value_nat_string option.inject)

lemma retry_request_header_inject [simp]: "retry_request_header m = retry_request_header n \<longleftrightarrow> m = n"
  by (auto simp: retry_request_header_def nat_string_inject)

lemma request_keys_safe:
  assumes "request_capture_fields sha256 schema r = Ok capture"
  shows "list_all key_safe (map fst (request_fields schema capture r @ request_retry_fields r))"
proof -
  have "list_all key_safe (map fst capture)"
    using assms by (auto simp: request_capture_fields_Ok_iff split: if_splits)
  then show ?thesis
    by (simp add: request_fields_def request_head_fields_def request_state_fields_def request_route_fields_def
        request_context_fields_def request_budget_fields_def request_tail_fields_def request_retry_fields_def
        split: option.split)
qed

lemma first_line_text:
  "list_all key_safe (map fst fs) \<Longrightarrow> header_line h \<Longrightarrow> first_line (wire_text h fs) = Some h"
  by (simp add: first_line_def lines_wire_text)

lemma find_header:
  assumes "a \<le> k" "k < b"
  shows "find (\<lambda>schema. Some (retry_request_header k) = Some (retry_request_header schema)) [a ..< b] = Some k"
proof -
  have "find (\<lambda>schema. k = schema) (xs @ k # ys) = Some k" if "k \<notin> set xs" for xs ys
    using that by (induction xs) auto
  moreover have "[a ..< b] = [a ..< k] @ k # [Suc k ..< b]"
    using assms by (metis le_Suc_ex less_or_eq_imp_le upt_add_eq_append upt_conv_Cons)
  ultimately show ?thesis
    by simp
qed

lemma find_header_None:
  "k \<notin> set [a ..< b] \<Longrightarrow>
   find (\<lambda>schema. Some (retry_request_header k) = Some (retry_request_header schema)) [a ..< b] = None"
  by (auto simp: find_None_iff)

lemma identity_eta:
  "\<lparr>id_job_id = id_job_id i, id_job_token = id_job_token i, id_instance = id_instance i,
     id_operation = id_operation i, id_target_interface = id_target_interface i,
     id_route_fingerprint = id_route_fingerprint i, id_config_fingerprint = id_config_fingerprint i,
     id_sqm_fingerprint = id_sqm_fingerprint i\<rparr> = i"
  by simp

lemma route_eta:
  "\<lparr>rt_dns_server = rt_dns_server t, rt_device_ifindex = rt_device_ifindex t,
     rt_mode = rt_mode t, rt_mwan3_member = rt_mwan3_member t, rt_l3_device = rt_l3_device t,
     rt_source_ip = rt_source_ip t, rt_fwmark = rt_fwmark t, rt_routing_table = rt_routing_table t,
     rt_fwmark_mask = rt_fwmark_mask t\<rparr> = t"
  by simp

lemma request_eta:
  "\<lparr>rq_identity = rq_identity r, rq_created_unix_ms = rq_created_unix_ms r,
     rq_deadline_unix_ms = rq_deadline_unix_ms r, rq_origin = rq_origin r, rq_backend = rq_backend r,
     rq_speedtest_direction = rq_speedtest_direction r,
     rq_speedtest_server_id = rq_speedtest_server_id r,
     rq_speedtest_topology = rq_speedtest_topology r, rq_route = rq_route r,
     rq_target_state = rq_target_state r, rq_capture_policy = rq_capture_policy r,
     rq_managed_sqm_section = rq_managed_sqm_section r, rq_profile = rq_profile r,
     rq_strategy = rq_strategy r, rq_access_medium = rq_access_medium r,
     rq_access_source = rq_access_source r,
     rq_access_confidence_percent = rq_access_confidence_percent r,
     rq_capacity_learning_policy = rq_capacity_learning_policy r,
     rq_service_dl_cap_kbps = rq_service_dl_cap_kbps r,
     rq_service_ul_cap_kbps = rq_service_ul_cap_kbps r, rq_allow_sqm_disable = rq_allow_sqm_disable r,
     rq_allow_active_traffic = rq_allow_active_traffic r,
     rq_scheduled_auto_apply_requested = rq_scheduled_auto_apply_requested r,
     rq_traffic_budget = rq_traffic_budget r,
     rq_traffic_policy_explicit = rq_traffic_policy_explicit r, rq_traffic_plan = rq_traffic_plan r,
     rq_server_failure_retries = rq_server_failure_retries r\<rparr> = r"
  by simp

lemma decode_legacy_text:
  assumes check: "check_schema schema r = Ok schema" and low: "schema \<le> 22"
    and capture: "request_capture_fields sha256 schema r = Ok capture"
    and fits: "length (wire_text (retry_request_header schema) (request_fields schema capture r))
      \<le> MAX_OPERATION_RECORD_BYTES"
  shows "decode_legacy sha256 (wire_text (retry_request_header schema) (request_fields schema capture r)) = Ok r"
proof -
  define s where "s = wire_text (retry_request_header schema) (request_fields schema capture r)"
  have valid: "request_validate r = Ok ()" and no_retry: "rq_server_failure_retries r = None"
    and range: "4 \<le> schema"
    and link: "(schema \<ge> 15) = (rt_device_ifindex (rq_route r) \<noteq> None)"
    and dns: "(schema \<ge> 19) = (rt_dns_server (rq_route r) \<noteq> None)"
    and msk: "(schema \<ge> 11) = (rt_fwmark_mask (rq_route r) \<noteq> None)"
    and plan: "(base_schema schema \<ge> 9) = (rq_traffic_plan r \<noteq> None)"
    and policy: "schema < 11 \<longrightarrow> rq_traffic_policy_explicit r = (schema \<ge> 7)"
    and boot: "bootstrap_schema schema = (rq_target_state r = AbsentBootstrap)"
    and capt: "\<not> bootstrap_schema schema \<longrightarrow> rq_capture_policy r = None"
    using check low by (auto simp: check_schema_Ok_iff)
  note writable = request_validate_writable [OF valid]
  have keys: "list_all key_safe (map fst (request_fields schema capture r))"
    using request_keys_safe [OF capture] by simp
  have found: "find (\<lambda>k. first_line s = Some (retry_request_header k)) [4 ..< 23] = Some schema"
    unfolding s_def first_line_text [OF keys header_line_request] using range low by (intro find_header) simp_all
  have "record_reader_new s (retry_request_header schema) = Ok (map wire_line (request_fields schema capture r) @ [[]])"
    unfolding s_def by (intro record_reader_new_text keys fits) simp
  then have new: "record_reader_new s (retry_request_header schema) =
      Ok (map wire_line (request_head_fields r) @ map wire_line (request_state_fields schema r)
        @ map wire_line capture @ map wire_line (request_route_fields r)
        @ map wire_line (request_context_fields r) @ map wire_line (request_budget_fields schema r)
        @ map wire_line (request_tail_fields r) @ [[]])"
    by (simp add: request_fields_def)
  have state: "schema < 5 \<longrightarrow> rq_target_state r = ExistingManaged"
    using boot by (cases "rq_target_state r") (auto simp: bootstrap_schema_def base_schema_def)
  have budget: "rq_traffic_budget r = Unlimited \<longrightarrow> schema \<ge> 7"
    using valid policy by (cases "schema < 11") (auto simp: request_validate_Ok_iff)
  have encoded: "encode_for_schema sha256 schema r = Ok s"
    using check capture fits no_retry
    by (auto simp: encode_for_schema_Ok_iff s_def request_retry_fields_def)
  note tail = read_tail_fields [OF msk link dns policy, of "[[]]"]
  show ?thesis
    unfolding s_def [symmetric] decode_legacy_def found new ok_or_simps and_then_simps
      read_head_fields [OF writable] prod.case read_state_fields [OF state]
      read_capture_fields [OF capture capt] read_route_fields [OF writable] read_context_fields
      read_budget_fields [OF plan budget] tail record_reader_finish_end Let_def identity_eta route_eta
      request_eta [of r, unfolded no_retry] valid encoded
    by simp
qed

section \<open>The retry schemas\<close>

lemma request_fields_retries [simp]:
  "request_fields schema capture (r\<lparr>rq_server_failure_retries := n\<rparr>) = request_fields schema capture r"
  "request_capture_fields sha256 schema (r\<lparr>rq_server_failure_retries := n\<rparr>) = request_capture_fields sha256 schema r"
  by (simp_all add: request_fields_def request_head_fields_def request_state_fields_def request_route_fields_def
      request_context_fields_def request_budget_fields_def request_tail_fields_def request_capture_fields_def
      split: option.split)

lemma source_is_v4_retries [simp]:
  "source_is_v4 (r\<lparr>rq_server_failure_retries := n\<rparr>) = source_is_v4 r"
  by (simp add: source_is_v4_def)

lemma request_validate_parts_retries [simp]:
  "request_validate_plan (r\<lparr>rq_server_failure_retries := n\<rparr>) = request_validate_plan r"
  "request_validate_target (r\<lparr>rq_server_failure_retries := n\<rparr>) = request_validate_target r"
  "request_validate_operation (r\<lparr>rq_server_failure_retries := n\<rparr>) = request_validate_operation r"
  by (simp_all add: request_validate_plan_def request_validate_target_def request_validate_operation_def
      request_validate_full_autotune_def request_validate_generated_def request_validate_guided_def
      reject_speedtest_stop_authority_or_autotune_context_def reject_autotune_context_def
      split: option.split operation_kind.split)

lemma request_validate_drop_retries:
  "request_validate r = Ok () \<Longrightarrow> request_validate (r\<lparr>rq_server_failure_retries := None\<rparr>) = Ok ()"
  by (simp add: request_validate_Ok_iff request_validate_retries_def)

lemma last_nonempty_snoc: "l \<noteq> [] \<Longrightarrow> last_nonempty (ls @ [l, []]) = Some (length ls)"
  by (induction ls) simp_all

lemma concat_lines_shift:
  "concat (map (\<lambda>line. LF # line) (ls @ [[]])) @ [LF] = LF # concat (map (\<lambda>l. l @ [LF]) ls) @ [LF]"
  by (induction ls) simp_all

lemma parse_retries_line:
  assumes "n \<le> MAX_SERVER_FAILURE_RETRIES"
  shows "parse_retries (wire_line (''server_failure_retries'', word_string n)) = Ok n"
proof -
  have "list_all unreserved (word_string n)"
    by (auto simp: list_all_iff unreserved_def is_ascii_alphanumeric_def dest: word_string_digits)
  then have line: "wire_line (''server_failure_retries'', word_string n) = ''server_failure_retries='' @ word_string n"
    by (simp add: wire_line_def percent_encode_unreserved)
  have "unat n < 10 ^ 2"
    using assms by (simp add: MAX_SERVER_FAILURE_RETRIES_def word_le_nat_alt)
  then have "length (word_string n) \<le> 2"
    unfolding word_string_def by (rule length_nat_string) simp
  then show ?thesis
    unfolding parse_retries_def line strip_prefix_append by (simp add: word_string_all_digits)
qed

lemma check_schema_drop_retries:
  assumes "check_schema full r = Ok schema" "23 \<le> full"
  shows "check_schema schema (r\<lparr>rq_server_failure_retries := None\<rparr>) = Ok schema"
    "full = schema + 19" "4 \<le> schema" "schema \<le> 22"
proof -
  have "schema = full - 19" "full \<le> 41"
    using assms by (auto simp: check_schema_Ok_iff)
  then show range: "full = schema + 19" "4 \<le> schema" "schema \<le> 22"
    using assms(2) by simp_all
  show "check_schema schema (r\<lparr>rq_server_failure_retries := None\<rparr>) = Ok schema"
    using assms(1) request_validate_drop_retries [of r] range(2,3)
    by (simp add: check_schema_Ok_iff [of full] check_schema_Ok_iff [of schema])
qed

lemma length_request_header: "n < 100 \<Longrightarrow> length (retry_request_header n) \<le> 34"
  using length_nat_string [of n 2] by (simp add: retry_request_header_def)

lemma decode_retry_text:
  assumes check: "check_schema full r = Ok schema" and high: "23 \<le> full"
    and capture: "request_capture_fields sha256 schema r = Ok capture"
    and s: "s = wire_text (retry_request_header full) (request_fields schema capture r @ request_retry_fields r)"
    and fits: "length s \<le> MAX_OPERATION_RECORD_BYTES"
  shows "decode_retry sha256 full s = Ok r"
proof -
  define r0 F where "r0 = r\<lparr>rq_server_failure_retries := None\<rparr>" and "F = request_fields schema capture r"
  obtain n where n: "rq_server_failure_retries r = Some n"
    using check high by (auto simp: check_schema_Ok_iff)
  have valid: "request_validate r = Ok ()"
    using check by (simp add: check_schema_Ok_iff)
  define wl where "wl = wire_line (''server_failure_retries'', word_string n)"
  note schema = check_schema_drop_retries [OF check high]
  have keys: "list_all key_safe (map fst (F @ [(''server_failure_retries'', word_string n)]))"
    using request_keys_safe [OF capture] n by (simp add: F_def request_retry_fields_def)
  have text_s: "s = wire_text (retry_request_header full) (F @ [(''server_failure_retries'', word_string n)])"
    using s n by (simp add: F_def request_retry_fields_def)
  have rest: "tl (lines s) = map wire_line F @ [wl, []]"
    using lines_wire_text [OF header_line_request keys] by (simp add: text_s wl_def)
  have "wl \<noteq> []"
    by (simp add: wl_def wire_line_def)
  then have last_line: "last_nonempty (tl (lines s)) = Some (length F)"
    using last_nonempty_snoc [of wl "map wire_line F"] by (simp add: rest)
  have "n \<le> MAX_SERVER_FAILURE_RETRIES"
    using valid n by (auto simp: request_validate_Ok_iff request_validate_retries_def and_then_Inr_iff)
  then have retries: "parse_retries (tl (lines s) ! length F) = Ok n"
    unfolding rest by (simp add: nth_append wl_def parse_retries_line)
  have header: "legacy_request_header (full - RETRY_SCHEMA_OFFSET) = Ok (retry_request_header schema)"
    using schema by (simp add: legacy_request_header_def RETRY_SCHEMA_OFFSET_def)
  have legacy: "retry_request_header schema
      @ concat (map (\<lambda>line. LF # line) (take (length F) (tl (lines s)) @ drop (Suc (length F)) (tl (lines s))))
      @ (if ends_with_char s LF then [LF] else []) = wire_text (retry_request_header schema) F"
  proof -
    have "ends_with_char s LF"
      by (simp add: text_s wire_text_def ends_with_char_def)
    then show ?thesis
      unfolding rest using concat_lines_shift [of "map wire_line F"] by (simp add: wire_text_def comp_def)
  qed
  have "length (retry_request_header schema) \<le> 34"
    using schema by (intro length_request_header) simp
  then have small: "length (wire_text (retry_request_header schema) F) \<le> MAX_OPERATION_RECORD_BYTES"
    using fits by (simp add: text_s wire_text_def wire_line_def retry_request_header_def)
  have "decode_legacy sha256 (wire_text (retry_request_header schema) F) = Ok r0"
    using decode_legacy_text [of schema r0 sha256 capture] schema small capture high
    by (simp add: r0_def F_def)
  moreover have "r0\<lparr>rq_server_failure_retries := Some n\<rparr> = r"
    using n by (simp add: r0_def)
  moreover have "encode_for_schema sha256 full r = Ok s"
    using check capture s fits by (auto simp: encode_for_schema_Ok_iff)
  ultimately show ?thesis
    unfolding decode_retry_def Let_def last_line ok_or_simps and_then_simps retries header legacy
    by (simp add: valid)
qed

lemma request_decode_encode:
  assumes "encode_for_schema sha256 full r = Ok s"
  shows "request_decode sha256 s = Ok r"
proof -
  obtain schema capture where check: "check_schema full r = Ok schema"
    and capture: "request_capture_fields sha256 schema r = Ok capture"
    and s: "s = wire_text (retry_request_header full) (request_fields schema capture r @ request_retry_fields r)"
    and fits: "length s \<le> MAX_OPERATION_RECORD_BYTES"
    using assms by (auto simp: encode_for_schema_Ok_iff)
  have first: "first_line s = Some (retry_request_header full)"
    unfolding s by (rule first_line_text [OF request_keys_safe [OF capture] header_line_request])
  show ?thesis
  proof (cases "23 \<le> full")
    case True
    then have "find (\<lambda>k. first_line s = Some (retry_request_header k))
        [4 + RETRY_SCHEMA_OFFSET ..< 23 + RETRY_SCHEMA_OFFSET] = Some full"
      unfolding first using check by (intro find_header) (auto simp: RETRY_SCHEMA_OFFSET_def check_schema_Ok_iff)
    then show ?thesis
      using decode_retry_text [OF check True capture s fits] by (simp add: request_decode_def)
  next
    case False
    then have "schema = full" "full \<le> 22" "rq_server_failure_retries r = None"
      using check by (auto simp: check_schema_Ok_iff)
    moreover have "find (\<lambda>k. first_line s = Some (retry_request_header k))
        [4 + RETRY_SCHEMA_OFFSET ..< 23 + RETRY_SCHEMA_OFFSET] = None"
      unfolding first using False by (intro find_header_None) (simp add: RETRY_SCHEMA_OFFSET_def)
    ultimately show ?thesis
      using decode_legacy_text [of full r sha256 capture] check capture s fits
      by (simp add: request_decode_def request_retry_fields_def)
  qed
qed

section \<open>A valid request always fits its record\<close>

definition wire_size :: "(string \<times> string) list \<Rightarrow> nat" where
  "wire_size fs = sum_list (map (\<lambda>f. length (fst f) + 3 * length (snd f) + 2) fs)"

lemma wire_size_simps [simp]:
  "wire_size [] = 0"
  "wire_size ((k, v) # fs) = length k + 3 * length v + 2 + wire_size fs"
  "wire_size (fs @ gs) = wire_size fs + wire_size gs"
  by (simp_all add: wire_size_def)

lemma length_wire_text: "length (wire_text h fs) \<le> length h + 2 + wire_size fs"
proof -
  have "length (concat (map (\<lambda>f. wire_line f @ [LF]) fs)) \<le> wire_size fs"
  proof (induction fs)
    case (Cons f fs)
    then show ?case
      using length_percent_encode [of "snd f"] by (cases f) (simp add: wire_line_def)
  qed simp
  then show ?thesis by (simp add: wire_text_def)
qed

lemma length_optional_u64: "length (optional_text word_string (v :: u64 option)) \<le> 20"
  using length_u64_string by (cases v) simp_all

lemma length_optional_u32: "length (optional_text word_string (v :: u32 option)) \<le> 10"
  using length_u32_string by (cases v) simp_all

lemma length_ip_string: "length (ip_string ip) \<le> 50"
proof -
  have group: "length (hex_string (unat g)) \<le> 4" for g :: u16
    using unsigned_less [of g] by (intro length_hex_string) simp_all
  have groups: "length (groups_string gs) \<le> 5 * length gs" for gs
  proof (induction gs rule: groups_string.induct)
    case (2 g)
    then show ?case using group [of g] by simp
  next
    case (3 g h gs)
    then show ?case using group [of g] by simp
  qed simp
  have "length (ipv6_string a) \<le> 50" for a
  proof (cases "take 6 (ipv6_segments a) = [0, 0, 0, 0, 0, 0xffff]")
    case True
    then show ?thesis
      by (simp add: ipv6_string_def Let_def order_trans [OF length_ipv4_string])
  next
    case False
    obtain start len where run: "zero_run (ipv6_segments a) 0 (0, 0) (0, 0) = (start, len)"
      by (cases "zero_run (ipv6_segments a) 0 (0, 0) (0, 0)")
    have "length (take start (ipv6_segments a)) + length (drop (start + len) (ipv6_segments a)) \<le> 8"
      by simp
    then show ?thesis
      using False run groups [of "take start (ipv6_segments a)"] groups [of "drop (start + len) (ipv6_segments a)"]
        groups [of "ipv6_segments a"]
      by (simp add: ipv6_string_def Let_def)
  qed
  then show ?thesis
    by (cases ip) (simp_all add: ip_string_def order_trans [OF length_ipv4_string])
qed

definition request_bounded :: "operation_request \<Rightarrow> bool" where
  "request_bounded r \<longleftrightarrow>
     list_all (\<lambda>v. length v \<le> 64) [id_job_id (rq_identity r), id_job_token (rq_identity r),
       id_instance (rq_identity r), id_target_interface (rq_identity r), id_route_fingerprint (rq_identity r),
       id_config_fingerprint (rq_identity r), id_sqm_fingerprint (rq_identity r), rq_backend r,
       rt_l3_device (rq_route r), optional_text id (rt_mwan3_member (rq_route r)),
       optional_text id (rq_managed_sqm_section r)]"

lemma length_lower_hex: "wire_require_lower_hex n v k = Ok () \<Longrightarrow> length v = k"
  by (simp add: wire_require_lower_hex_def)

lemma length_safe_identifier: "require_safe_identifier n v a k p = Ok () \<Longrightarrow> length v \<le> k"
  by (simp add: require_safe_identifier_def)

lemma managed_section_short:
  assumes "request_validate r = Ok ()"
  shows "length (optional_text id (rq_managed_sqm_section r)) \<le> 64"
proof (cases "rq_managed_sqm_section r")
  case (Some v)
  show ?thesis
  proof (cases "rq_operation r")
    case FullAutotune
    then show ?thesis
      using assms Some by (auto simp: request_validate_Ok_iff request_validate_operation_def
          request_validate_full_autotune_def and_then_Inr_iff dest: length_safe_identifier)
  next
    case Speedtest
    then have "rq_target_state r = AbsentBootstrap"
      using assms Some by (cases "rq_target_state r") (auto simp: request_validate_Ok_iff
          request_validate_operation_def request_validate_generated_def and_then_Inr_iff)
    then show ?thesis
      using assms Some by (auto simp: request_validate_Ok_iff request_validate_target_def and_then_Inr_iff
          validate_uci_section_def)
  qed (use assms Some in \<open>auto simp: request_validate_Ok_iff request_validate_operation_def
      request_validate_generated_def request_validate_guided_def and_then_Inr_iff\<close>)
qed simp

lemma mwan3_member_short:
  assumes "route_validate r = Ok ()"
  shows "length (optional_text id (rt_mwan3_member r)) \<le> 64"
  using assms
  by (cases "rt_mwan3_member r") (auto simp: route_validate_Ok_iff route_mode_validate_Ok_iff
      dest: length_safe_identifier split: operation_route_mode.splits)

lemma request_validate_bounded:
  assumes "request_validate r = Ok ()"
  shows "request_bounded r"
  using assms managed_section_short [OF assms] mwan3_member_short [of "rq_route r"]
  by (auto simp: request_bounded_def request_validate_Ok_iff identity_validate_Ok_iff route_validate_Ok_iff
      dest!: length_lower_hex length_safe_identifier)

lemma length_bool_text: "length (bool_text b) = 1"
  by (simp add: bool_text_def)

lemma head_size:
  assumes "request_bounded r"
  shows "wire_size (request_head_fields r) \<le> 1700"
  using assms length_u64_string [of "rq_created_unix_ms r"] length_u64_string [of "rq_deadline_unix_ms r"]
    length_optional_u64 [of "rq_speedtest_server_id r"]
    operation_kind_text.as_str_short [of "rq_operation r"] operation_origin_text.as_str_short [of "rq_origin r"]
    speedtest_direction_text.optional_text_short [of "rq_speedtest_direction r"]
    speedtest_topology_text.optional_text_short [of "rq_speedtest_topology r"]
  by (simp add: request_head_fields_def request_bounded_def)

lemma state_size: "wire_size (request_state_fields schema r) \<le> 100"
  using operation_target_state_text.as_str_short [of "rq_target_state r"]
  by (simp add: request_state_fields_def)

lemma capture_size:
  assumes "request_capture_fields sha256 schema r = Ok capture" "\<And>bytes. length (sha256 bytes) = 32"
  shows "wire_size capture \<le> 300"
proof -
  have "length (capture_policy_id_as_str i) = 11" for i
    by (cases i) (simp_all add: capture_policy_id_as_str_def)
  then show ?thesis
    using assms by (auto simp: request_capture_fields_Ok_iff split: if_splits)
qed

lemma route_size:
  assumes "request_bounded r"
  shows "wire_size (request_route_fields r) \<le> 1800"
proof -
  have "length (optional_text ip_string (rt_source_ip (rq_route r))) \<le> 50"
    using length_ip_string by (cases "rt_source_ip (rq_route r)") simp_all
  then show ?thesis
    using assms operation_route_mode_text.as_str_short [of "rt_mode (rq_route r)"]
      length_optional_u32 [of "rt_fwmark (rq_route r)"] length_optional_u32 [of "rt_routing_table (rq_route r)"]
    by (simp add: request_route_fields_def request_bounded_def)
qed

lemma context_size: "wire_size (request_context_fields r) \<le> 1000"
  using autotune_profile_text.optional_text_short [of "rq_profile r"]
    calibration_strategy_text.optional_text_short [of "rq_strategy r"]
    access_medium_text.optional_text_short [of "rq_access_medium r"]
    access_evidence_source_text.optional_text_short [of "rq_access_source r"]
    capacity_learning_policy_text.optional_text_short [of "rq_capacity_learning_policy r"]
    length_u8_string [of "rq_access_confidence_percent r"]
    length_optional_u64 [of "rq_service_dl_cap_kbps r"] length_optional_u64 [of "rq_service_ul_cap_kbps r"]
  by (simp add: request_context_fields_def length_bool_text)

lemma budget_size: "wire_size (request_budget_fields schema r) \<le> 500"
proof (cases "rq_traffic_plan r")
  case None
  then show ?thesis
    using length_optional_u64 [of "traffic_limit_bytes (rq_traffic_budget r)"]
    by (auto simp: request_budget_fields_def split: traffic_policy.split)
next
  case (Some plan)
  then show ?thesis
    using length_optional_u64 [of "traffic_limit_bytes (rq_traffic_budget r)"]
      length_u64_string [of "plan_download_kbps plan"] length_u64_string [of "plan_upload_kbps plan"]
    by (auto simp: request_budget_fields_def split: traffic_policy.split)
qed

lemma tail_size: "wire_size (request_tail_fields r) \<le> 300"
proof -
  have u32: "3 * length (word_string (w :: u32)) \<le> 30" for w
    using length_u32_string [of w] by simp
  have v4: "3 * length (ipv4_string a) \<le> 45" for a
    using length_ipv4_string [of a] by simp
  have a: "wire_size (case m of None \<Rightarrow> []
      | Some msk \<Rightarrow> [(''fwmark_mask'', word_string (msk :: u32)), (''traffic_policy_explicit'', bool_text e)]) \<le> 80" for m e
    using u32 [of "the m"] by (cases m) (simp_all add: length_bool_text)
  have b: "wire_size (case i of None \<Rightarrow> [] | Some index \<Rightarrow> [(''device_ifindex'', word_string (index :: u32))]) \<le> 60" for i
    using u32 [of "the i"] by (cases i) simp_all
  have c: "wire_size (case d of None \<Rightarrow> [] | Some server \<Rightarrow> [(''route_dns_ipv4'', ipv4_string server)]) \<le> 80" for d
    using v4 [of "the d"] by (cases d) simp_all
  show ?thesis
    unfolding request_tail_fields_def wire_size_simps(3)
    using a [where m = "rt_fwmark_mask (rq_route r)" and e = "rq_traffic_policy_explicit r"]
      b [of "rt_device_ifindex (rq_route r)"] c [of "rt_dns_server (rq_route r)"]
    by linarith
qed

lemma retry_size: "wire_size (request_retry_fields r) \<le> 60"
proof (cases "rq_server_failure_retries r")
  case (Some n)
  then show ?thesis using length_u8_string [of n] by (simp add: request_retry_fields_def)
qed (simp add: request_retry_fields_def)

lemma request_size:
  assumes "request_validate r = Ok ()" "request_capture_fields sha256 schema r = Ok capture"
    and "\<And>bytes. length (sha256 bytes) = 32" "full < 100"
  shows "length (wire_text (retry_request_header full) (request_fields schema capture r @ request_retry_fields r))
    \<le> MAX_OPERATION_RECORD_BYTES"
proof -
  note bounded = request_validate_bounded [OF assms(1)]
  have "wire_size (request_fields schema capture r @ request_retry_fields r) \<le> 5760"
    using head_size [OF bounded] state_size [of schema r] capture_size [OF assms(2,3)] route_size [OF bounded]
      context_size [of r] budget_size [of schema r] tail_size [of r] retry_size [of r]
    by (simp add: request_fields_def)
  then show ?thesis
    using length_wire_text [of "retry_request_header full" "request_fields schema capture r @ request_retry_fields r"]
      length_request_header [OF assms(4)]
    by (simp add: MAX_OPERATION_RECORD_BYTES_def)
qed

section \<open>The schema that is chosen\<close>

lemma route_schema_facts:
  assumes "route_validate t = Ok ()"
  shows "rt_device_ifindex t \<noteq> None \<Longrightarrow> rt_fwmark_mask t \<noteq> None"
    and "rt_dns_server t \<noteq> None \<Longrightarrow> rt_device_ifindex t \<noteq> None"
  using assms
  by (auto simp: route_validate_Ok_iff route_dns_validate_Ok_iff route_mode_validate_Ok_iff)

lemma capture_policy_present:
  assumes "request_validate r = Ok ()"
  shows "rq_capture_policy r \<noteq> None \<longleftrightarrow> rq_target_state r = AbsentBootstrap"
  using assms
  by (auto simp: request_validate_Ok_iff request_validate_target_def and_then_Inr_iff split: if_splits)

lemma plan_explicit:
  "request_validate r = Ok () \<Longrightarrow> rq_traffic_plan r \<noteq> None \<Longrightarrow> rq_traffic_policy_explicit r"
  by (auto simp: request_validate_Ok_iff request_validate_plan_def and_then_Inr_iff)

lemma target_not_absent: "rq_target_state r \<noteq> AbsentBootstrap \<longleftrightarrow> rq_target_state r = ExistingManaged"
  by (cases "rq_target_state r") simp_all

lemma check_chosen_schema:
  assumes "request_validate r = Ok ()"
  shows "check_schema (if rq_server_failure_retries r \<noteq> None then encode_legacy_schema r + RETRY_SCHEMA_OFFSET
           else encode_legacy_schema r) r = Ok (encode_legacy_schema r)"
proof -
  have route: "route_validate (rq_route r) = Ok ()"
    using assms by (simp add: request_validate_Ok_iff)
  note facts = route_schema_facts [OF route] capture_policy_present [OF assms] plan_explicit [OF assms]
  define L where "L = encode_legacy_schema r"
  have range: "5 \<le> L" "L \<le> 22"
    by (auto simp: L_def encode_legacy_schema_def Let_def split: operation_target_state.splits bool.splits)
  have "(L \<ge> 15) = (rt_device_ifindex (rq_route r) \<noteq> None) \<and> (L \<ge> 19) = (rt_dns_server (rq_route r) \<noteq> None)
     \<and> (L \<ge> 11) = (rt_fwmark_mask (rq_route r) \<noteq> None)
     \<and> (base_schema L \<ge> 9) = (rq_traffic_plan r \<noteq> None)
     \<and> (L < 11 \<longrightarrow> (L \<ge> 7) = rq_traffic_policy_explicit r)
     \<and> bootstrap_schema L = (rq_target_state r = AbsentBootstrap)"
    using facts
    by (cases "rt_fwmark_mask (rq_route r)"; cases "rt_dns_server (rq_route r)"; cases "rt_device_ifindex (rq_route r)";
        cases "rq_traffic_plan r"; cases "rq_target_state r"; cases "rq_traffic_policy_explicit r")
      (simp_all add: L_def encode_legacy_schema_def base_schema_def bootstrap_schema_def)
  moreover have "\<not> bootstrap_schema L \<longrightarrow> rq_capture_policy r = None"
    using calculation facts(3) by blast
  ultimately show ?thesis
    unfolding L_def [symmetric] check_schema_Ok_iff RETRY_SCHEMA_OFFSET_def using range assms by simp
qed

lemma encode_for_schema_total:
  assumes "check_schema full r = Ok schema" "\<And>bytes. length (sha256 bytes) = 32"
  shows "\<exists>s. encode_for_schema sha256 full r = Ok s"
proof -
  note facts = iffD1 [OF check_schema_Ok_iff assms(1)]
  have valid: "request_validate r = Ok ()" and boot: "bootstrap_schema schema = (rq_target_state r = AbsentBootstrap)"
    using facts by blast+
  have small: "full < 100"
    using facts by linarith
  have "\<exists>capture. request_capture_fields sha256 schema r = Ok capture"
    using boot capture_policy_present [OF valid]
    by (cases "bootstrap_schema schema") (simp_all add: request_capture_fields_Ok_iff)
  then obtain capture where capture: "request_capture_fields sha256 schema r = Ok capture"
    by blast
  have "encode_for_schema sha256 full r =
      Ok (wire_text (retry_request_header full) (request_fields schema capture r @ request_retry_fields r))"
    using assms(1) capture request_size [OF valid capture assms(2) small]
    by (simp add: encode_for_schema_def encode_record_Ok_iff)
  then show ?thesis by blast
qed

lemma decode_legacy_Ok: "decode_legacy sha256 s = Ok r \<Longrightarrow> \<exists>k. encode_for_schema sha256 k r = Ok s"
  unfolding decode_legacy_def Let_def
  by (elim and_then_OkE case_prod_eqE case_prod_appE canonical_OkE) (hypsubst, rule exI, assumption)

lemma decode_retry_Ok: "decode_retry sha256 k s = Ok r \<Longrightarrow> encode_for_schema sha256 k r = Ok s"
  unfolding decode_retry_def Let_def
  by (elim and_then_OkE) (simp split: if_splits)

lemma request_decode_Ok: "request_decode sha256 s = Ok r \<Longrightarrow> \<exists>k. encode_for_schema sha256 k r = Ok s"
  by (auto simp: request_decode_def intro: decode_legacy_Ok dest: decode_retry_Ok split: option.splits)

lemma request_encode_total:
  assumes "request_validate r = Ok ()" "\<And>bytes. length (sha256 bytes) = 32"
  shows "\<exists>s. request_encode sha256 r = Ok s"
  unfolding request_encode_def Let_def by (rule encode_for_schema_total [OF check_chosen_schema [OF assms(1)] assms(2)])

text \<open>Data for the witnesses: a manual speed test on an existing instance.\<close>

definition sample_hex :: "nat \<Rightarrow> string" where
  "sample_hex n = replicate n CHR ''a''"

definition sample_request :: operation_request where
  "sample_request =
     \<lparr>rq_identity = \<lparr>id_job_id = sample_hex 32, id_job_token = sample_hex 64, id_instance = ''wan'',
        id_operation = Speedtest, id_target_interface = ''pppoe-wan'', id_route_fingerprint = sample_hex 64,
        id_config_fingerprint = sample_hex 64, id_sqm_fingerprint = sample_hex 64\<rparr>,
      rq_created_unix_ms = 1, rq_deadline_unix_ms = 60001, rq_origin = Luci, rq_backend = ''speedtest-go'',
      rq_speedtest_direction = Some Both, rq_speedtest_server_id = None, rq_speedtest_topology = Some Current,
      rq_route = \<lparr>rt_dns_server = None, rt_device_ifindex = None, rt_mode = Main, rt_mwan3_member = None,
        rt_l3_device = ''pppoe-wan'', rt_source_ip = Some (V4 (192, 0, 2, 1)), rt_fwmark = None,
        rt_routing_table = None, rt_fwmark_mask = None\<rparr>,
      rq_target_state = ExistingManaged, rq_capture_policy = None, rq_managed_sqm_section = None,
      rq_profile = None, rq_strategy = None, rq_access_medium = None, rq_access_source = None,
      rq_access_confidence_percent = 0, rq_capacity_learning_policy = None, rq_service_dl_cap_kbps = None,
      rq_service_ul_cap_kbps = None, rq_allow_sqm_disable = False, rq_allow_active_traffic = False,
      rq_scheduled_auto_apply_requested = False, rq_traffic_budget = Capped 1000000,
      rq_traffic_policy_explicit = False, rq_traffic_plan = None, rq_server_failure_retries = None\<rparr>"

lemma sample_request_valid: "request_validate sample_request = Ok ()"
  by code_simp

section \<open>Properties\<close>

text \<open>C31: the operation request record is an exact codec over its 38 schemas: a text decodes to a request
  if and only if one of the schemas encodes that request to that text. So a text carries one request at
  most, a record written by any schema is read back unchanged, percent escapes, IPv6 sources and the
  retry suffix included, and no text outside the image of the encoder is accepted.\<close>

theorem request_codec_exact:
  "request_decode sha256 s = Ok r \<longleftrightarrow> (\<exists>schema. encode_for_schema sha256 schema r = Ok s)"
  using request_decode_Ok request_decode_encode by blast

text \<open>Every valid request can be stored and replayed. With a 32-byte digest function, the schema that
  \<open>encode\<close> selects passes all downgrade checks, the record stays within its byte bound whatever the
  values are, and decoding it returns the request.\<close>

theorem request_encode_always_replays:
  assumes "\<And>bytes. length (sha256 bytes) = 32" and "request_validate r = Ok ()"
  shows "\<exists>s. request_encode sha256 r = Ok s \<and> length s \<le> MAX_OPERATION_RECORD_BYTES
    \<and> request_decode sha256 s = Ok r"
proof -
  obtain s where "request_encode sha256 r = Ok s"
    using request_encode_total [of r sha256] assms by blast
  then obtain k where "encode_for_schema sha256 k r = Ok s" "request_encode sha256 r = Ok s"
    by (auto simp: request_encode_def Let_def)
  moreover from this have "length s \<le> MAX_OPERATION_RECORD_BYTES"
    by (auto simp: encode_for_schema_Ok_iff)
  ultimately show ?thesis
    using request_decode_encode by blast
qed

theorem request_encode_always_replays_witness:
  "\<exists>s. request_encode (\<lambda>_. replicate 32 CHR ''x'') sample_request = Ok s
    \<and> request_decode (\<lambda>_. replicate 32 CHR ''x'') s = Ok sample_request"
  using request_encode_always_replays [of "\<lambda>_. replicate 32 CHR ''x''", OF _ sample_request_valid]
  by auto

text \<open>C32: what admission grants. A request that passes \<open>validate_admission_policy\<close> is structurally valid;
  the scheduler never obtains unlimited traffic, and Auto-Apply authority belongs to a scheduled Full
  Auto-Tune only; only a Full Auto-Tune may disable SQM; a job that generates traffic has a non-zero
  budget and is bound to an IPv4 source; a link-qualified route is a complete explicit route with its
  own DNS server; and a job on an absent target comes from LuCI, uses the native backend, names its
  capture policy and planned section, and is either a Full Auto-Tune with raw controls and both service
  caps or a read-only unshaped speed test.\<close>

theorem admission_grants_authority:
  assumes "validate_admission_policy calibration r = Ok ()"
  shows "request_validate r = Ok ()
    \<and> (rq_origin r = Scheduler \<longrightarrow> rq_traffic_budget r \<noteq> Unlimited)
    \<and> (rq_scheduled_auto_apply_requested r \<longrightarrow> rq_origin r = Scheduler \<and> rq_operation r = FullAutotune)
    \<and> (rq_allow_sqm_disable r \<longrightarrow> rq_operation r = FullAutotune)
    \<and> (rq_operation r = AutomaticRating \<or> rq_operation r = Speedtest
         \<longrightarrow> source_is_v4 r \<and> rq_traffic_budget r \<noteq> Capped 0)
    \<and> (rt_device_ifindex (rq_route r) \<noteq> None
         \<longrightarrow> calibration \<and> rt_dns_server (rq_route r) \<noteq> None
             \<and> (\<exists>a. explicit_operation_authority (rq_route r) = Ok a))
    \<and> (rq_target_state r = AbsentBootstrap
         \<longrightarrow> rq_origin r = Luci \<and> rq_backend r = ''speedtest-go'' \<and> source_is_v4 r
             \<and> rq_capture_policy r \<noteq> None \<and> rq_managed_sqm_section r \<noteq> None
             \<and> (rq_operation r = FullAutotune \<and> rq_strategy r = Some FullRaw \<and> rq_allow_sqm_disable r
                  \<and> rq_service_dl_cap_kbps r \<noteq> None \<and> rq_service_ul_cap_kbps r \<noteq> None
                \<or> rq_operation r = Speedtest \<and> rq_speedtest_topology r = Some Unshaped
                  \<and> \<not> rq_allow_sqm_disable r \<and> \<not> rq_allow_active_traffic r))"
proof -
  have valid: "request_validate r = Ok ()" and route: "request_admission_route calibration r = Ok ()"
    and boot: "rq_target_state r = AbsentBootstrap \<Longrightarrow> request_admission_bootstrap r = Ok ()"
    using assms by (auto simp: validate_admission_policy_def and_then_Inr_iff)
  have operation: "request_validate_operation r = Ok ()" and target: "request_validate_target r = Ok ()"
    using valid by (simp_all add: request_validate_Ok_iff)
  have "rq_origin r = Scheduler \<longrightarrow> rq_traffic_budget r \<noteq> Unlimited"
    "rq_scheduled_auto_apply_requested r \<longrightarrow> rq_origin r = Scheduler \<and> rq_operation r = FullAutotune"
    using valid by (auto simp: request_validate_Ok_iff)
  moreover have "rq_allow_sqm_disable r \<longrightarrow> rq_operation r = FullAutotune"
    using operation by (auto simp: request_validate_operation_def request_validate_generated_def
        request_validate_guided_def and_then_Inr_iff split: operation_kind.splits)
  moreover have "rq_operation r = AutomaticRating \<or> rq_operation r = Speedtest
         \<longrightarrow> source_is_v4 r \<and> rq_traffic_budget r \<noteq> Capped 0"
    using operation by (auto simp: request_validate_operation_def request_validate_generated_def
        traffic_is_empty_def and_then_Inr_iff)
  moreover have "rt_device_ifindex (rq_route r) \<noteq> None
         \<longrightarrow> calibration \<and> rt_dns_server (rq_route r) \<noteq> None
             \<and> (\<exists>a. explicit_operation_authority (rq_route r) = Ok a)"
    using route by (auto simp: request_admission_route_def and_then_Inr_iff)
  moreover have "rq_origin r = Luci \<and> rq_capture_policy r \<noteq> None \<and> rq_managed_sqm_section r \<noteq> None"
    if "rq_target_state r = AbsentBootstrap"
    using target that by (auto simp: request_validate_target_def and_then_Inr_iff)
  moreover have "rq_backend r = ''speedtest-go'' \<and> source_is_v4 r
             \<and> (rq_operation r = FullAutotune \<and> rq_strategy r = Some FullRaw \<and> rq_allow_sqm_disable r
                  \<and> rq_service_dl_cap_kbps r \<noteq> None \<and> rq_service_ul_cap_kbps r \<noteq> None
                \<or> rq_operation r = Speedtest \<and> rq_speedtest_topology r = Some Unshaped
                  \<and> \<not> rq_allow_sqm_disable r \<and> \<not> rq_allow_active_traffic r)"
    if "rq_target_state r = AbsentBootstrap"
    using boot [OF that]
    by (auto simp: request_admission_bootstrap_def and_then_Inr_iff split: operation_kind.splits)
  ultimately show ?thesis
    using valid by blast
qed

theorem admission_grants_authority_witness:
  "validate_admission_policy True sample_request = Ok () \<and> source_is_v4 sample_request
   \<and> rq_traffic_budget sample_request \<noteq> Capped 0"
proof -
  have admitted: "validate_admission_policy True sample_request = Ok ()"
    unfolding validate_admission_policy_def sample_request_valid
    by (simp add: request_admission_route_def validate_capacity_learning_service_caps_def sample_request_def)
  have "rq_operation sample_request = Speedtest"
    by (simp add: sample_request_def)
  with admission_grants_authority [OF admitted] admitted show ?thesis by blast
qed

end
