(* ===== verification/Control_Message.thy ===== *)
theory Control_Message
  imports Request_Codec
begin

text \<open>
  \<open>ControlMessage\<close> of \<open>operations/protocol.rs\<close>: the message of the control socket, a control record
  followed for a start command by the operation request it starts.
\<close>

section \<open>Definitions\<close>

definition MAX_CONTROL_MESSAGE_BYTES :: nat where
  "MAX_CONTROL_MESSAGE_BYTES = MAX_OPERATION_RECORD_BYTES * 2"

record control_message =
  msg_control :: control_request
  msg_operation :: "operation_request option"

definition message_validate :: "control_message \<Rightarrow> unit result" where
  "message_validate m =
     and_then (control_validate (msg_control m)) (\<lambda>_.
     case msg_operation m of
       Some operation \<Rightarrow>
         if ctl_command (msg_control m) = Start then
           and_then (request_validate operation) (\<lambda>_.
           reject (ctl_job_id (msg_control m) \<noteq> Some (id_job_id (rq_identity operation))
                   \<or> ctl_job_token (msg_control m) \<noteq> Some (id_job_token (rq_identity operation)))
             ''start control identity does not match its operation request'')
         else Err ''only start control may carry an operation request''
     | None \<Rightarrow>
         reject (ctl_command (msg_control m) = Start) ''start control requires an operation request'')"

definition encode_operation :: "(string \<Rightarrow> string) \<Rightarrow> operation_request \<Rightarrow> string result" where
  "encode_operation sha256 r =
     (if rq_traffic_policy_explicit r \<or> rt_fwmark_mask (rq_route r) \<noteq> None then request_encode sha256 r
      else case rq_target_state r of
             ExistingManaged \<Rightarrow>
               encode_for_schema sha256
                 (if rq_server_failure_retries r \<noteq> None then 4 + RETRY_SCHEMA_OFFSET else 4) r
           | AbsentBootstrap \<Rightarrow> request_encode sha256 r)"

definition message_encode :: "(string \<Rightarrow> string) \<Rightarrow> control_message \<Rightarrow> string result" where
  "message_encode sha256 m =
     and_then (message_validate m) (\<lambda>_.
     and_then (control_encode (msg_control m)) (\<lambda>control.
     and_then (case msg_operation m of
                 None \<Rightarrow> Ok []
               | Some operation \<Rightarrow> encode_operation sha256 operation) (\<lambda>operation.
     let encoded = control @ operation in
     and_then (reject (length encoded > MAX_CONTROL_MESSAGE_BYTES)
       ''calibration control message exceeds its bound'') (\<lambda>_.
     Ok encoded))))"

text \<open>The position after the \<open>count\<close>-th line feed; \<open>index\<close> and \<open>seen\<close> are the loop's counters.\<close>

fun nth_newline_end :: "string \<Rightarrow> nat \<Rightarrow> nat \<Rightarrow> nat \<Rightarrow> nat option" where
  "nth_newline_end [] count index seen = None"
| "nth_newline_end (c # s) count index seen =
     (if c = LF then
        (if Suc seen = count then Some (Suc index) else nth_newline_end s count (Suc index) (Suc seen))
      else nth_newline_end s count (Suc index) seen)"

definition expected_wire_schema :: "operation_request \<Rightarrow> nat" where
  "expected_wire_schema r =
     (case (rq_traffic_policy_explicit r, rq_target_state r) of
        (False, ExistingManaged) \<Rightarrow> 4
      | (False, AbsentBootstrap) \<Rightarrow> 6
      | (True, ExistingManaged) \<Rightarrow> if rq_traffic_plan r \<noteq> None then 9 else 7
      | (True, AbsentBootstrap) \<Rightarrow> if rq_traffic_plan r \<noteq> None then 10 else 8)"

definition wire_matches_target :: "(string \<Rightarrow> string) \<Rightarrow> operation_request \<Rightarrow> string \<Rightarrow> bool result" where
  "wire_matches_target sha256 r header =
     (if rt_fwmark_mask (rq_route r) \<noteq> None then
        and_then (request_encode sha256 r) (\<lambda>text. Ok (first_line text = Some header))
      else if rq_server_failure_retries r \<noteq> None then
        Ok (header = retry_request_header (expected_wire_schema r + RETRY_SCHEMA_OFFSET))
      else and_then (legacy_request_header (expected_wire_schema r)) (\<lambda>h. Ok (header = h)))"

definition message_decode :: "(string \<Rightarrow> string) \<Rightarrow> string \<Rightarrow> control_message result" where
  "message_decode sha256 input =
     and_then (reject (length input > MAX_CONTROL_MESSAGE_BYTES \<or> \<not> ends_with_char input LF)
       ''calibration control message is not bounded and terminated'') (\<lambda>_.
     and_then (ok_or (nth_newline_end input 6 0 0) ''calibration control message is truncated'') (\<lambda>control_end.
     let control_record = take control_end input;
         operation_record = drop control_end input
     in
     and_then (control_decode control_record) (\<lambda>control.
     and_then (if operation_record = [] then Ok None
               else and_then (request_decode sha256 operation_record) (\<lambda>r. Ok (Some r))) (\<lambda>operation.
     let message = \<lparr>msg_control = control, msg_operation = operation\<rparr>
     in
     and_then (message_validate message) (\<lambda>_.
     and_then (case operation of
                 None \<Rightarrow> Ok True
               | Some r \<Rightarrow>
                   wire_matches_target sha256 r
                     (case first_line operation_record of None \<Rightarrow> [] | Some l \<Rightarrow> l)) (\<lambda>matches.
     if \<not> matches
     then Err ''calibration control operation schema does not match its target lifecycle''
     else Ok message))))))"

section \<open>The encoded operation\<close>

definition wire_schema :: "operation_request \<Rightarrow> nat" where
  "wire_schema r =
     (if rt_fwmark_mask (rq_route r) \<noteq> None then encode_legacy_schema r else expected_wire_schema r)
     + (if rq_server_failure_retries r \<noteq> None then RETRY_SCHEMA_OFFSET else 0)"

lemma request_encode_schema:
  "request_encode sha256 r = encode_for_schema sha256
     (encode_legacy_schema r + (if rq_server_failure_retries r \<noteq> None then RETRY_SCHEMA_OFFSET else 0)) r"
  by (simp add: request_encode_def Let_def)

lemma encode_operation_schema:
  assumes "request_validate r = Ok ()"
  shows "encode_operation sha256 r = encode_for_schema sha256 (wire_schema r) r"
proof (cases "rt_fwmark_mask (rq_route r) = None")
  case True
  then show ?thesis
    using plan_explicit [OF assms]
    by (cases "rq_target_state r"; cases "rq_traffic_policy_explicit r"; cases "rq_traffic_plan r")
      (simp_all add: encode_operation_def request_encode_schema wire_schema_def expected_wire_schema_def
        encode_legacy_schema_def)
next
  case False
  then show ?thesis
    by (simp add: encode_operation_def request_encode_schema wire_schema_def)
qed

lemma check_public_schema:
  assumes "request_validate r = Ok ()" "rt_fwmark_mask (rq_route r) = None" "\<not> rq_traffic_policy_explicit r"
    "rq_target_state r = ExistingManaged"
  shows "check_schema (4 + (if rq_server_failure_retries r \<noteq> None then RETRY_SCHEMA_OFFSET else 0)) r = Ok 4"
proof -
  have "route_validate (rq_route r) = Ok ()"
    using assms(1) by (simp add: request_validate_Ok_iff)
  then have "rt_device_ifindex (rq_route r) = None" "rt_dns_server (rq_route r) = None"
    using route_schema_facts [of "rq_route r"] assms(2) by blast+
  moreover have "rq_capture_policy r = None" "rq_traffic_plan r = None"
    using capture_policy_present [OF assms(1)] plan_explicit [OF assms(1)] assms(3,4)
    by (cases "rq_traffic_plan r"; simp)+
  ultimately show ?thesis
    using assms
    by (auto simp: check_schema_Ok_iff RETRY_SCHEMA_OFFSET_def base_schema_def bootstrap_schema_def)
qed

lemma check_wire_schema:
  assumes "request_validate r = Ok ()"
  shows "\<exists>schema. check_schema (wire_schema r) r = Ok schema"
proof (cases "rt_fwmark_mask (rq_route r) = None \<and> \<not> rq_traffic_policy_explicit r \<and> rq_target_state r = ExistingManaged")
  case True
  then show ?thesis
    using check_public_schema [OF assms] by (auto simp: wire_schema_def expected_wire_schema_def)
next
  case False
  have "wire_schema r = encode_legacy_schema r + (if rq_server_failure_retries r \<noteq> None then RETRY_SCHEMA_OFFSET else 0)"
    using False plan_explicit [OF assms]
    by (cases "rq_target_state r"; cases "rq_traffic_policy_explicit r"; cases "rq_traffic_plan r")
      (auto simp: wire_schema_def expected_wire_schema_def encode_legacy_schema_def)
  then show ?thesis
    using check_chosen_schema [OF assms] by auto
qed

section \<open>Splitting a message\<close>

lemma nth_newline_end_line:
  "LF \<notin> set a \<Longrightarrow>
   nth_newline_end (a @ LF # s) count i seen =
     (if Suc seen = count then Some (i + length a + 1)
      else nth_newline_end s count (i + length a + 1) (Suc seen))"
  by (induction a arbitrary: i) auto

lemma nth_newline_end_bound:
  "nth_newline_end s count i seen = Some n \<Longrightarrow> i < n \<and> n \<le> i + length s"
  by (induction s count i seen rule: nth_newline_end.induct) (auto split: if_splits)

lemma control_newlines:
  "nth_newline_end (wire_text CONTROL_HEADER (control_fields c) @ rest) 6 0 0
   = Some (length (wire_text CONTROL_HEADER (control_fields c)))"
proof -
  have header: "LF \<notin> set CONTROL_HEADER"
    by (simp add: CONTROL_HEADER_def)
  have fields: "LF \<notin> set (wire_line (''request_id'', v))" "LF \<notin> set (wire_line (''command'', v))"
      "LF \<notin> set (wire_line (''job_id'', v))" "LF \<notin> set (wire_line (''job_token'', v))" for v
    by (rule wire_line_safe; simp)+
  have empty: "nth_newline_end (LF # s) count i seen =
      (if Suc seen = count then Some (Suc i) else nth_newline_end s count (Suc i) (Suc seen))" for s count i seen
    by simp
  show ?thesis
    unfolding wire_text_def control_fields_def list.map concat.simps append_assoc append_Cons append_Nil
    by (simp add: nth_newline_end_line header fields empty del: nth_newline_end.simps)
qed

lemma first_line_encoded:
  assumes "encode_for_schema sha256 k r = Ok t"
  shows "first_line t = Some (retry_request_header k)" "t \<noteq> []" "ends_with_char t LF"
    "length t \<le> MAX_OPERATION_RECORD_BYTES" "request_validate r = Ok ()" "k \<le> 41"
proof -
  obtain schema capture where check: "check_schema k r = Ok schema"
    and capture: "request_capture_fields sha256 schema r = Ok capture"
    and t: "t = wire_text (retry_request_header k) (request_fields schema capture r @ request_retry_fields r)"
    and fits: "length t \<le> MAX_OPERATION_RECORD_BYTES"
    using assms unfolding encode_for_schema_Ok_iff by blast
  show "first_line t = Some (retry_request_header k)"
    unfolding t by (rule first_line_text [OF request_keys_safe [OF capture] header_line_request])
  show "t \<noteq> []" "ends_with_char t LF"
    by (simp_all add: t wire_text_def ends_with_char_def)
  show "length t \<le> MAX_OPERATION_RECORD_BYTES"
    by (rule fits)
  note facts = iffD1 [OF check_schema_Ok_iff check]
  show "request_validate r = Ok ()"
    using facts by blast
  show "k \<le> 41"
    using facts by linarith
qed

lemma wire_matches_encoded:
  assumes "encode_for_schema sha256 k r = Ok t"
  shows "wire_matches_target sha256 r (retry_request_header k) = Ok True \<longleftrightarrow> k = wire_schema r"
proof (cases "rt_fwmark_mask (rq_route r) = None")
  case True
  have "4 \<le> expected_wire_schema r \<and> expected_wire_schema r \<le> 22"
    by (cases "rq_target_state r"; cases "rq_traffic_policy_explicit r") (simp_all add: expected_wire_schema_def)
  then show ?thesis
    using True by (simp add: wire_matches_target_def wire_schema_def legacy_request_header_def)
next
  case False
  have valid: "request_validate r = Ok ()"
    using first_line_encoded [OF assms] by blast
  show ?thesis
  proof (cases "request_encode sha256 r")
    case (Inr u)
    then have "first_line u = Some (retry_request_header (encode_legacy_schema r
        + (if rq_server_failure_retries r \<noteq> None then RETRY_SCHEMA_OFFSET else 0)))"
      using first_line_encoded(1) unfolding request_encode_schema by blast
    with Inr False show ?thesis
      by (auto simp: wire_matches_target_def wire_schema_def)
  next
    case (Inl e)
    have "encode_for_schema sha256 (wire_schema r) r = Inl e"
      using Inl False by (simp add: request_encode_schema wire_schema_def)
    then show ?thesis
      using assms Inl False by (auto simp: wire_matches_target_def)
  qed
qed

section \<open>The message codec\<close>

lemma message_validate_control:
  assumes "message_validate m = Ok ()"
  shows "control_validate (msg_control m) = Ok ()"
    and "msg_operation m = Some r \<Longrightarrow> request_validate r = Ok ()"
  using assms by (auto simp: message_validate_def and_then_Inr_iff split: option.splits if_splits)

lemma message_encode_Ok_iff:
  "message_encode sha256 m = Ok s \<longleftrightarrow>
     message_validate m = Ok () \<and> length s \<le> MAX_CONTROL_MESSAGE_BYTES
     \<and> (\<exists>operation. s = wire_text CONTROL_HEADER (control_fields (msg_control m)) @ operation
          \<and> (case msg_operation m of
               None \<Rightarrow> operation = []
             | Some r \<Rightarrow> encode_for_schema sha256 (wire_schema r) r = Ok operation))"
proof (cases "message_validate m = Ok ()")
  case True
  note valid = message_validate_control [OF True]
  have "control_encode (msg_control m) = Ok (wire_text CONTROL_HEADER (control_fields (msg_control m)))"
    using valid(1) by (simp add: control_encode_Ok_iff)
  then show ?thesis
    using True valid(2) encode_operation_schema
    by (auto simp: message_encode_def and_then_Inr_iff Let_def not_less split: option.splits)
next
  case False
  then show ?thesis by (auto simp: message_encode_def and_then_Inr_iff)
qed

lemma message_decode_encode:
  assumes "message_encode sha256 m = Ok s"
  shows "message_decode sha256 s = Ok m"
proof -
  define C where "C = wire_text CONTROL_HEADER (control_fields (msg_control m))"
  obtain t where valid: "message_validate m = Ok ()" and small: "length s \<le> MAX_CONTROL_MESSAGE_BYTES"
    and s: "s = C @ t"
    and t: "case msg_operation m of None \<Rightarrow> t = [] | Some r \<Rightarrow> encode_for_schema sha256 (wire_schema r) r = Ok t"
    using assms unfolding message_encode_Ok_iff C_def by blast
  have control: "control_decode C = Ok (msg_control m)"
    unfolding C_def by (rule control_decode_text [OF message_validate_control(1) [OF valid]])
  have split: "nth_newline_end s 6 0 0 = Some (length C)"
    unfolding s C_def by (rule control_newlines)
  have endC: "ends_with_char C LF"
    by (simp add: C_def wire_text_def ends_with_char_def)
  show ?thesis
  proof (cases "msg_operation m")
    case None
    then have "t = []" using t by simp
    moreover have "\<lparr>msg_control = msg_control m, msg_operation = None\<rparr> = m"
      using None by simp
    ultimately show ?thesis
      using small split control endC valid by (simp add: message_decode_def s Let_def)
  next
    case (Some r)
    then have encoded: "encode_for_schema sha256 (wire_schema r) r = Ok t"
      using t by simp
    note first = first_line_encoded [OF encoded]
    have "wire_matches_target sha256 r (retry_request_header (wire_schema r)) = Ok True"
      using wire_matches_encoded [OF encoded] by simp
    moreover have "\<lparr>msg_control = msg_control m, msg_operation = Some r\<rparr> = m"
      using Some by simp
    moreover have "ends_with_char s LF"
      using first(2,3) by (simp add: s ends_with_char_append)
    ultimately show ?thesis
      using small split control valid first(1,2) request_decode_encode [OF encoded]
      by (simp add: message_decode_def s Let_def)
  qed
qed

lemma message_decode_Ok:
  assumes "message_decode sha256 s = Ok m"
  shows "message_encode sha256 m = Ok s"
proof -
  obtain n control operation matches where small: "length s \<le> MAX_CONTROL_MESSAGE_BYTES"
    and n: "nth_newline_end s 6 0 0 = Some n" and control: "control_decode (take n s) = Ok control"
    and operation: "(if drop n s = [] then Ok None
               else and_then (request_decode sha256 (drop n s)) (\<lambda>r. Ok (Some r))) = Ok operation"
    and m: "m = \<lparr>msg_control = control, msg_operation = operation\<rparr>"
    and valid: "message_validate m = Ok ()"
    and wire: "(case operation of
                 None \<Rightarrow> Ok True
               | Some r \<Rightarrow>
                   wire_matches_target sha256 r
                     (case first_line (drop n s) of None \<Rightarrow> [] | Some l \<Rightarrow> l)) = Ok True"
    using assms unfolding message_decode_def Let_def
    by (elim and_then_OkE) (auto simp: not_less split: if_splits)
  have ctext: "take n s = wire_text CONTROL_HEADER (control_fields control)"
    using control_decode_Ok [OF control] by (simp add: control_encode_Ok_iff)
  have "case operation of
               None \<Rightarrow> drop n s = []
             | Some r \<Rightarrow> encode_for_schema sha256 (wire_schema r) r = Ok (drop n s)"
  proof (cases operation)
    case None
    then show ?thesis using operation by (auto simp: and_then_Inr_iff split: if_splits)
  next
    case (Some r)
    then have "request_decode sha256 (drop n s) = Ok r"
      using operation by (auto simp: and_then_Inr_iff split: if_splits)
    then obtain k where k: "encode_for_schema sha256 k r = Ok (drop n s)"
      using request_decode_Ok by blast
    then have "k = wire_schema r"
      using wire Some wire_matches_encoded [OF k] first_line_encoded(1) [OF k] by simp
    with k Some show ?thesis by simp
  qed
  moreover have "s = wire_text CONTROL_HEADER (control_fields (msg_control m)) @ drop n s"
    unfolding m using ctext append_take_drop_id [of n s] by simp
  ultimately show ?thesis
    unfolding message_encode_Ok_iff using valid small m by (intro conjI exI [of _ "drop n s"]) simp_all
qed

lemma message_encode_total:
  assumes "\<And>bytes. length (sha256 bytes) = 32" "message_validate m = Ok ()"
  shows "\<exists>s. message_encode sha256 m = Ok s"
proof -
  note valid = message_validate_control [OF assms(2)]
  have C: "length (wire_text CONTROL_HEADER (control_fields (msg_control m))) \<le> MAX_OPERATION_RECORD_BYTES"
    by (rule control_request_size [OF valid(1)])
  show ?thesis
  proof (cases "msg_operation m")
    case None
    then show ?thesis
      using assms(2) C by (simp add: message_encode_Ok_iff MAX_CONTROL_MESSAGE_BYTES_def)
  next
    case (Some r)
    obtain schema where "check_schema (wire_schema r) r = Ok schema"
      using check_wire_schema [OF valid(2) [OF Some]] by blast
    then obtain t where t: "encode_for_schema sha256 (wire_schema r) r = Ok t"
      using encode_for_schema_total assms(1) by blast
    then have "length t \<le> MAX_OPERATION_RECORD_BYTES"
      using first_line_encoded(4) by blast
    then show ?thesis
      using assms(2) C t Some by (auto simp: message_encode_Ok_iff MAX_CONTROL_MESSAGE_BYTES_def)
  qed
qed

interpretation message_codec: codec "message_encode sha256" "message_decode sha256"
  "\<lambda>m. \<exists>s. message_encode sha256 m = Ok s" for sha256
  by unfold_locales (auto intro: message_decode_encode message_decode_Ok)

definition sample_start :: control_message where
  "sample_start =
     \<lparr>msg_control = \<lparr>ctl_request_id = sample_hex 32, ctl_command = Start, ctl_job_id = Some (sample_hex 32),
        ctl_job_token = Some (sample_hex 64)\<rparr>,
      msg_operation = Some sample_request\<rparr>"

lemma sample_start_valid: "message_validate sample_start = Ok ()"
proof -
  have "control_validate (msg_control sample_start) = Ok ()"
    by code_simp
  then show ?thesis
    using sample_request_valid
    by (simp add: message_validate_def sample_start_def) (simp add: sample_request_def)
qed

section \<open>Properties\<close>

text \<open>C33: control messages are exchanged without loss or ambiguity. Every message that validates can be
  encoded within the bound of the socket, the receiver decodes exactly that message, and a text that the
  receiver accepts is the encoding of the message it decodes to: the operation record has to be in the
  one schema its target lifecycle prescribes, and for a start command the job identity of the control
  record and of the request agree.\<close>

theorem control_message_exchange:
  assumes "\<And>bytes. length (sha256 bytes) = 32"
  shows "(message_validate m = Ok () \<longrightarrow> (\<exists>s. message_encode sha256 m = Ok s \<and> message_decode sha256 s = Ok m))
    \<and> (message_decode sha256 s = Ok m \<longrightarrow> message_validate m = Ok () \<and> message_encode sha256 m = Ok s)"
proof (intro conjI impI)
  assume "message_validate m = Ok ()"
  then show "\<exists>s. message_encode sha256 m = Ok s \<and> message_decode sha256 s = Ok m"
    using message_encode_total [of sha256 m] assms message_codec.round_trip by blast
next
  assume "message_decode sha256 s = Ok m"
  then show encoded: "message_encode sha256 m = Ok s"
    using message_codec.canonical by blast
  then show "message_validate m = Ok ()"
    by (simp add: message_encode_Ok_iff)
qed

theorem control_message_exchange_witness:
  "message_validate sample_start = Ok ()
   \<and> (\<exists>s. message_encode (\<lambda>_. replicate 32 CHR ''x'') sample_start = Ok s
        \<and> message_decode (\<lambda>_. replicate 32 CHR ''x'') s = Ok sample_start)"
  using control_message_exchange [of "\<lambda>_. replicate 32 CHR ''x''" sample_start] sample_start_valid by auto

end
