(* ===== verification/Machine.thy ===== *)
theory Machine
  imports Rust_Prelude
begin

text \<open>
  Step relations with an invariant, shared by the stateful components. A component gives its start
  states, its step relation and its invariant, discharges the two laws of \<open>invariant_machine\<close> for
  its own definitions, and gets the lift to every reachable state. \<open>sequenced_machine\<close> adds a
  sequence number that every change increases, as the journalled records of the daemon have.
\<close>

definition reachable_from :: "('s \<Rightarrow> bool) \<Rightarrow> ('s \<Rightarrow> 's \<Rightarrow> bool) \<Rightarrow> 's \<Rightarrow> bool" where
  "reachable_from start step s = (\<exists>s0. start s0 \<and> rtranclp step s0 s)"

lemma reachable_from_start: "start s \<Longrightarrow> reachable_from start step s"
  by (auto simp: reachable_from_def)

lemma reachable_from_step:
  "reachable_from start step s \<Longrightarrow> step s t \<Longrightarrow> reachable_from start step t"
  unfolding reachable_from_def by (meson rtranclp.rtrancl_into_rtrancl)

lemma reachable_from_steps:
  "reachable_from start step s \<Longrightarrow> rtranclp step s t \<Longrightarrow> reachable_from start step t"
  unfolding reachable_from_def by (meson rtranclp_trans)

locale invariant_machine =
  fixes start :: "'s \<Rightarrow> bool" and step :: "'s \<Rightarrow> 's \<Rightarrow> bool" and inv :: "'s \<Rightarrow> bool"
  assumes start_inv: "start s \<Longrightarrow> inv s"
    and step_inv: "inv s \<Longrightarrow> step s t \<Longrightarrow> inv t"
begin

lemma steps_inv:
  assumes "rtranclp step s t" and "inv s"
  shows "inv t"
  using assms by (induction rule: rtranclp_induct) (auto intro: step_inv)

lemma reachable_inv: "reachable_from start step s \<Longrightarrow> inv s"
  by (auto simp: reachable_from_def intro: steps_inv start_inv)

end

locale sequenced_machine = invariant_machine +
  fixes seq :: "'a \<Rightarrow> nat"
  assumes step_seq: "inv s \<Longrightarrow> step s t \<Longrightarrow> t = s \<or> seq s < seq t"
begin

lemma steps_seq:
  assumes "rtranclp step s t" and "inv s"
  shows "t = s \<or> seq s < seq t"
  using assms
proof (induction rule: rtranclp_induct)
  case (step t u)
  then have "inv t" by (auto intro: steps_inv)
  with step show ?case by (auto dest: step_seq)
qed simp

lemma same_seq_same_state:
  assumes "rtranclp step s t" and "inv s" and "seq t = seq s"
  shows "t = s"
  using steps_seq [OF assms(1,2)] assms(3) by auto

end

end
