(* ===== verification/Operation_State.thy ===== *)
theory Operation_State
  imports Operation_Terms Machine
begin

text \<open>
  The job states of \<open>operations/state.rs\<close>: which transitions the coordinator may publish, which
  states are terminal, and what follows for the life of a job.
\<close>

section \<open>Definitions\<close>

text \<open>The derived \<open>Debug\<close> text of a state.\<close>

definition operation_state_debug :: "operation_state \<Rightarrow> string" where
  "operation_state_debug s =
     (case s of Queued \<Rightarrow> ''Queued'' | Starting \<Rightarrow> ''Starting'' | Running \<Rightarrow> ''Running''
      | Cancelling \<Rightarrow> ''Cancelling'' | Recovering \<Rightarrow> ''Recovering'' | ReviewReady \<Rightarrow> ''ReviewReady''
      | Completed \<Rightarrow> ''Completed'' | Failed \<Rightarrow> ''Failed'' | Cancelled \<Rightarrow> ''Cancelled'')"

definition allowed_targets :: "operation_state \<Rightarrow> operation_state list" where
  "allowed_targets s =
     (case s of
        Queued \<Rightarrow> [Starting, Cancelling, Failed, Cancelled]
      | Starting \<Rightarrow> [Running, Cancelling, Recovering, Failed, Cancelled]
      | Running \<Rightarrow> [Cancelling, Recovering, ReviewReady, Completed, Failed, Cancelled]
      | Cancelling \<Rightarrow> [Recovering, Failed, Cancelled]
      | Recovering \<Rightarrow> [ReviewReady, Completed, Failed, Cancelled]
      | ReviewReady \<Rightarrow> [] | Completed \<Rightarrow> [] | Failed \<Rightarrow> [] | Cancelled \<Rightarrow> [])"

definition validate_transition :: "operation_state \<Rightarrow> operation_state \<Rightarrow> unit result" where
  "validate_transition from_state to_state =
     (if to_state \<in> set (allowed_targets from_state) then Ok ()
      else Err (''invalid calibration job transition: '' @ operation_state_debug from_state
                @ '' -> '' @ operation_state_debug to_state))"

definition terminal :: "operation_state \<Rightarrow> bool" where
  "terminal s = (s \<in> set [ReviewReady, Completed, Failed, Cancelled])"

section \<open>Runs\<close>

inductive job_step :: "operation_state \<Rightarrow> operation_state \<Rightarrow> bool" where
  "validate_transition s t = Ok () \<Longrightarrow> job_step s t"

inductive_simps job_step_simps: "job_step s t"

definition job_rank :: "operation_state \<Rightarrow> nat" where
  "job_rank s =
     (case s of Queued \<Rightarrow> 0 | Starting \<Rightarrow> 1 | Running \<Rightarrow> 2 | Cancelling \<Rightarrow> 3 | Recovering \<Rightarrow> 4 | _ \<Rightarrow> 5)"

lemma validate_transition_Ok_iff: "validate_transition s t = Ok () \<longleftrightarrow> t \<in> set (allowed_targets s)"
  by (simp add: validate_transition_def)

lemma job_step_rank: "job_step s t \<Longrightarrow> job_rank s < job_rank t"
  by (cases s; cases t) (simp_all add: job_step_simps validate_transition_Ok_iff allowed_targets_def job_rank_def)

lemma job_rank_bound: "job_rank s \<le> 5"
  by (cases s) (simp_all add: job_rank_def)

lemma job_steps_rank: "(job_step ^^ n) s t \<Longrightarrow> job_rank s + n \<le> job_rank t"
proof (induction n arbitrary: t)
  case (Suc n)
  then obtain u where "(job_step ^^ n) s u" "job_step u t"
    by auto
  with Suc.IH job_step_rank [of u t] show ?case by fastforce
qed simp

lemma terminal_iff_stuck: "terminal s \<longleftrightarrow> (\<forall>t. \<not> job_step s t)"
proof -
  have "terminal s \<longleftrightarrow> allowed_targets s = []"
    by (cases s) (simp_all add: terminal_def allowed_targets_def)
  then show ?thesis
    by (auto simp: job_step_simps validate_transition_Ok_iff)
qed

section \<open>Properties\<close>

text \<open>C38: the life of a job. Exactly the terminal states allow no transition, so a terminal job never
  becomes live again; a run of transitions from any state has at most five steps, so a job cannot be
  kept alive by transitions; every live state can fail and be cancelled; and every state that may own
  runtime resources can go to recovery unless it is there already.\<close>

theorem operation_lifecycle:
  "(terminal s \<longleftrightarrow> (\<forall>t. \<not> job_step s t))
   \<and> ((job_step ^^ n) s t \<longrightarrow> n \<le> 5 \<and> (terminal s \<longrightarrow> n = 0 \<and> t = s))
   \<and> (\<not> terminal s \<longrightarrow> job_step s Failed \<and> job_step s Cancelled)
   \<and> (s \<in> {Starting, Running, Cancelling} \<longrightarrow> job_step s Recovering)"
proof (intro conjI impI)
  show "terminal s \<longleftrightarrow> (\<forall>t. \<not> job_step s t)"
    by (rule terminal_iff_stuck)
  assume run: "(job_step ^^ n) s t"
  show "n \<le> 5"
    using job_steps_rank [OF run] job_rank_bound [of t] by linarith
  assume "terminal s"
  then show "n = 0"
    using run terminal_iff_stuck [of s] by (cases n) (auto simp: relpowp_Suc_left elim: relpowp_E2)
  with run show "t = s"
    by simp
next
  assume "\<not> terminal s"
  then show "job_step s Failed" "job_step s Cancelled"
    by (cases s; simp add: job_step_simps validate_transition_Ok_iff allowed_targets_def terminal_def)+
next
  assume "s \<in> {Starting, Running, Cancelling}"
  then show "job_step s Recovering"
    by (auto simp: job_step_simps validate_transition_Ok_iff allowed_targets_def)
qed

theorem operation_lifecycle_witness:
  "(job_step ^^ 4) Queued Completed \<and> \<not> terminal Running \<and> job_step Running Failed \<and> (4 :: nat) \<le> 5"
proof -
  have steps: "job_step Queued Starting" "job_step Starting Running" "job_step Running Recovering"
      "job_step Recovering Completed"
    by (simp_all add: job_step_simps validate_transition_Ok_iff allowed_targets_def)
  have "(job_step ^^ 4) Queued Completed"
    using steps by (auto simp: numeral_eq_Suc relcompp.simps)
  moreover have "\<not> terminal Running"
    by (simp add: terminal_def)
  ultimately show ?thesis
    using operation_lifecycle [of Queued 4 Completed] operation_lifecycle [of Running 0 Running] by blast
qed

end
