(* ===== verification/Sqm_Recovery_Gate.thy ===== *)
theory Sqm_Recovery_Gate
  imports Machine
begin

text \<open>
  The admission gate of \<open>operations/sqm_recovery.rs\<close>: a failed repair blocks the exact observed
  topology generation until the topology or its health changes.
\<close>

section \<open>Definitions\<close>

datatype sqm_observed_topology_state = Healthy | Settling string | Unsafe string

record sqm_topology_generation =
  tg_target_present :: bool
  tg_target_ifindex :: "u64 option"
  tg_upload_ifindex :: "u64 option"
  tg_download_ifindex :: "u64 option"
  tg_download_counter_present :: bool
  tg_upload_counter_present :: bool
  tg_download_qdisc_signature :: u64
  tg_upload_qdisc_signature :: u64
  tg_ingress_signature :: "u64 option"
  tg_topology :: sqm_observed_topology_state

datatype sqm_recovery_admission = Recover | WaitForStateChange

record sqm_recovery_gate =
  gate_failed_generation :: "sqm_topology_generation option"

definition gate_default :: sqm_recovery_gate where
  "gate_default = \<lparr>gate_failed_generation = None\<rparr>"

definition gate_admission :: "sqm_recovery_gate \<Rightarrow> sqm_topology_generation \<Rightarrow> sqm_recovery_admission" where
  "gate_admission g generation =
     (if gate_failed_generation g = Some generation then WaitForStateChange else Recover)"

definition gate_record_failed :: "sqm_topology_generation \<Rightarrow> sqm_recovery_gate \<Rightarrow> sqm_recovery_gate" where
  "gate_record_failed generation g = g\<lparr>gate_failed_generation := Some generation\<rparr>"

definition gate_observe_healthy :: "sqm_recovery_gate \<Rightarrow> sqm_recovery_gate" where
  "gate_observe_healthy g = g\<lparr>gate_failed_generation := None\<rparr>"

definition gate_observe_target_missing :: "sqm_recovery_gate \<Rightarrow> sqm_recovery_gate" where
  "gate_observe_target_missing g = g\<lparr>gate_failed_generation := None\<rparr>"

section \<open>The gate over a history\<close>

datatype gate_event = RepairFailed sqm_topology_generation | SawHealthy | SawTargetMissing

fun gate_apply :: "gate_event \<Rightarrow> sqm_recovery_gate \<Rightarrow> sqm_recovery_gate" where
  "gate_apply (RepairFailed generation) g = gate_record_failed generation g"
| "gate_apply SawHealthy g = gate_observe_healthy g"
| "gate_apply SawTargetMissing g = gate_observe_target_missing g"

lemma gate_after:
  "gate_failed_generation (fold gate_apply (es @ [e]) g) =
     (case e of RepairFailed generation \<Rightarrow> Some generation | _ \<Rightarrow> None)"
  by (cases e) (simp_all add: gate_record_failed_def gate_observe_healthy_def gate_observe_target_missing_def)

section \<open>Properties\<close>

text \<open>C40: the gate depends on the last event only, never on how often or when it is asked. After any
  history from the initial gate, a repair of a topology generation has to wait exactly when the last
  event was a failed repair of that very generation: a changed generation, a healthy observation or a
  missing target admits the next repair, and asking changes nothing.\<close>

theorem recovery_gate_exact:
  "gate_admission (fold gate_apply es gate_default) generation = WaitForStateChange
   \<longleftrightarrow> (\<exists>es'. es = es' @ [RepairFailed generation])"
proof (cases es rule: rev_cases)
  case Nil
  then show ?thesis by (simp add: gate_admission_def gate_default_def)
next
  case (snoc es' e)
  then show ?thesis
    unfolding gate_admission_def snoc gate_after by (cases e) auto
qed

end
