(* ===== verification/Lease_Table.thy ===== *)
theory Lease_Table
  imports Request_Codec Machine
begin

text \<open>
  The runtime leases of \<open>operations/lease.rs\<close>: which keys a job asks for, and the table that grants
  them. A \<open>BTreeSet\<close> is its sorted list without duplicates, in the order that Rust derives for the
  key; a \<open>BTreeMap\<close> is a map.
\<close>

section \<open>Keys and their order\<close>

datatype lease_key =
    HeavyTraffic | Instance string | TargetInterface string | SqmFingerprint string | ManagedSqmSection string

definition lease_key_rank :: "lease_key \<Rightarrow> nat \<times> string" where
  "lease_key_rank k =
     (case k of HeavyTraffic \<Rightarrow> (0, []) | Instance s \<Rightarrow> (1, s) | TargetInterface s \<Rightarrow> (2, s)
      | SqmFingerprint s \<Rightarrow> (3, s) | ManagedSqmSection s \<Rightarrow> (4, s))"

lemma lease_key_rank_inject: "lease_key_rank a = lease_key_rank b \<longleftrightarrow> a = b"
  by (cases a; cases b) (auto simp: lease_key_rank_def)

instantiation lease_key :: linorder
begin

definition less_eq_lease_key :: "lease_key \<Rightarrow> lease_key \<Rightarrow> bool" where
  "less_eq_lease_key a b \<longleftrightarrow>
     fst (lease_key_rank a) < fst (lease_key_rank b)
     \<or> fst (lease_key_rank a) = fst (lease_key_rank b) \<and> snd (lease_key_rank a) \<le> snd (lease_key_rank b)"

definition less_lease_key :: "lease_key \<Rightarrow> lease_key \<Rightarrow> bool" where
  "less_lease_key a b \<longleftrightarrow> a \<le> b \<and> \<not> b \<le> (a :: lease_key)"

instance
proof
  fix a b c :: lease_key
  show "(a < b) = (a \<le> b \<and> \<not> b \<le> a)" by (rule less_lease_key_def)
  show "a \<le> a" by (simp add: less_eq_lease_key_def)
  show "a \<le> b \<Longrightarrow> b \<le> c \<Longrightarrow> a \<le> c" by (auto simp: less_eq_lease_key_def)
  show "a \<le> b \<Longrightarrow> b \<le> a \<Longrightarrow> a = b"
    using lease_key_rank_inject [of a b] by (auto simp: less_eq_lease_key_def prod_eq_iff)
  show "a \<le> b \<or> b \<le> a" by (auto simp: less_eq_lease_key_def)
qed

end

section \<open>Definitions\<close>

definition MAX_LEASE_KEYS_PER_JOB :: nat where
  "MAX_LEASE_KEYS_PER_JOB = 5"

datatype lease_acquire_error = JobAlreadyOwns string | Conflict lease_key string

definition conflict_kind :: "lease_acquire_error \<Rightarrow> string option" where
  "conflict_kind e =
     (case e of
        JobAlreadyOwns _ \<Rightarrow> None
      | Conflict key _ \<Rightarrow>
          Some (case key of
                  HeavyTraffic \<Rightarrow> ''heavy-traffic''
                | Instance _ \<Rightarrow> ''instance''
                | TargetInterface _ \<Rightarrow> ''target-interface''
                | SqmFingerprint _ \<Rightarrow> ''managed-sqm''
                | ManagedSqmSection _ \<Rightarrow> ''managed-sqm-section''))"

definition owner_job_id :: "lease_acquire_error \<Rightarrow> string option" where
  "owner_job_id e = (case e of Conflict _ owner \<Rightarrow> Some owner | JobAlreadyOwns _ \<Rightarrow> None)"

definition user_message :: "lease_acquire_error \<Rightarrow> string" where
  "user_message e =
     (case e of
        JobAlreadyOwns _ \<Rightarrow> ''this operation already owns runtime resources''
      | Conflict HeavyTraffic _ \<Rightarrow> ''another traffic-intensive operation is already running''
      | Conflict (Instance _) _ \<Rightarrow> ''another operation is already active for this instance''
      | Conflict (TargetInterface _) _ \<Rightarrow> ''another operation is already using this target interface''
      | Conflict (SqmFingerprint _) _ \<Rightarrow> ''another operation is already using this managed SQM runtime''
      | Conflict (ManagedSqmSection _) _ \<Rightarrow> ''another operation is already using this managed SQM runtime'')"

text \<open>\<open>BTreeSet::insert\<close>.\<close>

definition set_insert :: "'a::linorder \<Rightarrow> 'a list \<Rightarrow> 'a list" where
  "set_insert k ks = (if k \<in> set ks then ks else insort k ks)"

definition managed_sqm_section_key :: "string \<Rightarrow> lease_key result" where
  "managed_sqm_section_key section =
     and_then (validate_uci_section section) (\<lambda>_. Ok (ManagedSqmSection section))"

record lease_request =
  lr_job_id :: string
  lr_keys :: "lease_key list"

definition requires_heavy_traffic :: "operation_kind \<Rightarrow> bool" where
  "requires_heavy_traffic operation = (operation \<in> set [FullAutotune, AutomaticRating, GuidedRating, Speedtest])"

definition local_from_operation :: "operation_request \<Rightarrow> lease_request result" where
  "local_from_operation request =
     and_then (request_validate request) (\<lambda>_.
     let keys = set_insert (SqmFingerprint (id_sqm_fingerprint (rq_identity request)))
           (set_insert (TargetInterface (id_target_interface (rq_identity request)))
           (set_insert (Instance (id_instance (rq_identity request))) []))
     in
     and_then (if rq_target_state request = AbsentBootstrap then
                 and_then (ok_or (rq_managed_sqm_section request)
                   ''absent bootstrap lease requires a planned managed SQM section'') (\<lambda>section.
                 and_then (managed_sqm_section_key section) (\<lambda>key.
                 Ok (set_insert key keys)))
               else Ok keys) (\<lambda>keys.
     and_then (reject (length keys > MAX_LEASE_KEYS_PER_JOB)
       ''operation requests too many runtime leases'') (\<lambda>_.
     Ok \<lparr>lr_job_id = id_job_id (rq_identity request), lr_keys = keys\<rparr>)))"

definition from_journalled_operation :: "operation_request \<Rightarrow> bool \<Rightarrow> lease_request result" where
  "from_journalled_operation request heavy_lease_acquired =
     and_then (local_from_operation request) (\<lambda>lease.
     if heavy_lease_acquired then
       and_then (reject (\<not> requires_heavy_traffic (rq_operation request))
         ''journal claims a heavy lease for a light operation'') (\<lambda>_.
       Ok (lease\<lparr>lr_keys := set_insert HeavyTraffic (lr_keys lease)\<rparr>))
     else Ok lease)"

definition heavy_for :: "string \<Rightarrow> lease_request" where
  "heavy_for job_id = \<lparr>lr_job_id = job_id, lr_keys = [HeavyTraffic]\<rparr>"

record lease_table =
  lt_owners :: "lease_key \<rightharpoonup> string"
  lt_jobs :: "string \<rightharpoonup> lease_key list"

definition table_default :: lease_table where
  "table_default = \<lparr>lt_owners = Map.empty, lt_jobs = Map.empty\<rparr>"

text \<open>The \<open>find_map\<close> over the keys in order: the first key that has an owner.\<close>

fun first_owned :: "lease_table \<Rightarrow> lease_key list \<Rightarrow> (lease_key \<times> string) option" where
  "first_owned t [] = None"
| "first_owned t (k # ks) =
     (case lt_owners t k of Some owner \<Rightarrow> Some (k, owner) | None \<Rightarrow> first_owned t ks)"

definition insert_owners :: "string \<Rightarrow> lease_key list \<Rightarrow> (lease_key \<rightharpoonup> string) \<Rightarrow> (lease_key \<rightharpoonup> string)" where
  "insert_owners job_id keys owners = fold (\<lambda>k m. m(k \<mapsto> job_id)) keys owners"

definition lease_acquire :: "lease_table \<Rightarrow> lease_request \<Rightarrow> lease_acquire_error + lease_table" where
  "lease_acquire t request =
     (if lt_jobs t (lr_job_id request) \<noteq> None then Inl (JobAlreadyOwns (lr_job_id request))
      else case first_owned t (lr_keys request) of
             Some (key, owner) \<Rightarrow> Inl (Conflict key owner)
           | None \<Rightarrow>
               Inr (t\<lparr>lt_owners := insert_owners (lr_job_id request) (lr_keys request) (lt_owners t),
                      lt_jobs := (lt_jobs t)(lr_job_id request \<mapsto> lr_keys request)\<rparr>))"

text \<open>The derived \<open>Debug\<close> text of a key; the strings in keys are validated identifiers and
  fingerprints, which \<open>Debug\<close> prints without escapes.\<close>

definition lease_key_debug :: "lease_key \<Rightarrow> string" where
  "lease_key_debug k =
     (case k of
        HeavyTraffic \<Rightarrow> ''HeavyTraffic''
      | Instance s \<Rightarrow> ''Instance('' @ [CHR 0x22] @ s @ [CHR 0x22] @ '')''
      | TargetInterface s \<Rightarrow> ''TargetInterface('' @ [CHR 0x22] @ s @ [CHR 0x22] @ '')''
      | SqmFingerprint s \<Rightarrow> ''SqmFingerprint('' @ [CHR 0x22] @ s @ [CHR 0x22] @ '')''
      | ManagedSqmSection s \<Rightarrow> ''ManagedSqmSection('' @ [CHR 0x22] @ s @ [CHR 0x22] @ '')'')"

definition lease_acquire_additional :: "lease_table \<Rightarrow> lease_request \<Rightarrow> lease_table result" where
  "lease_acquire_additional t request =
     and_then (ok_or (lt_jobs t (lr_job_id request))
       (''job '' @ lr_job_id request @ '' owns no base leases'')) (\<lambda>owned.
     and_then (reject (lr_keys request = [] \<or> list_ex (\<lambda>k. k \<in> set owned) (lr_keys request))
       ''additional lease request is empty or duplicates an owned key'') (\<lambda>_.
     and_then (reject (length owned + length (lr_keys request) > MAX_LEASE_KEYS_PER_JOB)
       ''operation requests too many runtime leases'') (\<lambda>_.
     case first_owned t (lr_keys request) of
       Some (key, owner) \<Rightarrow>
         Err (''runtime lease '' @ lease_key_debug key @ '' is already owned by job '' @ owner)
     | None \<Rightarrow>
         Ok (t\<lparr>lt_owners := insert_owners (lr_job_id request) (lr_keys request) (lt_owners t),
               lt_jobs := (lt_jobs t)(lr_job_id request \<mapsto> fold set_insert (lr_keys request) owned)\<rparr>))))"

text \<open>The loop of \<open>release\<close>. The job has been removed already; on an inconsistency the loop stops
  with what it has removed so far.\<close>

fun release_keys :: "string \<Rightarrow> lease_key list \<Rightarrow> lease_table \<Rightarrow> lease_table \<times> unit result" where
  "release_keys job_id [] t = (t, Ok ())"
| "release_keys job_id (key # keys) t =
     (case lt_owners t key of
        Some owner \<Rightarrow>
          if owner = job_id then release_keys job_id keys (t\<lparr>lt_owners := (lt_owners t)(key := None)\<rparr>)
          else (t, Err ''runtime lease owner table is inconsistent'')
      | None \<Rightarrow> (t, Err ''runtime lease disappeared before release''))"

definition lease_release :: "lease_table \<Rightarrow> string \<Rightarrow> lease_table \<times> unit result" where
  "lease_release t job_id =
     (case lt_jobs t job_id of
        None \<Rightarrow> (t, Err (''job '' @ job_id @ '' owns no runtime leases''))
      | Some keys \<Rightarrow> release_keys job_id keys (t\<lparr>lt_jobs := (lt_jobs t)(job_id := None)\<rparr>))"

definition lease_release_heavy :: "lease_table \<Rightarrow> string \<Rightarrow> lease_table result" where
  "lease_release_heavy t job_id =
     and_then (ok_or (lt_jobs t job_id) (''job '' @ job_id @ '' owns no runtime leases'')) (\<lambda>keys.
     and_then (reject (HeavyTraffic \<notin> set keys \<or> lt_owners t HeavyTraffic \<noteq> Some job_id)
       (''job '' @ job_id @ '' does not own the heavy-traffic lease'')) (\<lambda>_.
     and_then (reject (length keys = 1)
       ''heavy-traffic lease cannot be detached without local ownership'') (\<lambda>_.
     Ok (t\<lparr>lt_owners := (lt_owners t)(HeavyTraffic := None),
           lt_jobs := (lt_jobs t)(job_id \<mapsto> remove1 HeavyTraffic keys)\<rparr>))))"

definition lease_contains_job :: "lease_table \<Rightarrow> string \<Rightarrow> bool" where
  "lease_contains_job t job_id = (lt_jobs t job_id \<noteq> None)"

definition lease_job_count :: "lease_table \<Rightarrow> nat" where
  "lease_job_count t = card (dom (lt_jobs t))"

section \<open>The invariant\<close>

definition keys_ok :: "lease_key list \<Rightarrow> bool" where
  "keys_ok ks \<longleftrightarrow> sorted ks \<and> distinct ks \<and> ks \<noteq> [] \<and> length ks \<le> MAX_LEASE_KEYS_PER_JOB"

definition lease_inv :: "lease_table \<Rightarrow> bool" where
  "lease_inv t \<longleftrightarrow>
     (\<forall>k j. lt_owners t k = Some j \<longleftrightarrow> (\<exists>ks. lt_jobs t j = Some ks \<and> k \<in> set ks))
     \<and> (\<forall>j ks. lt_jobs t j = Some ks \<longrightarrow> keys_ok ks)"

inductive lease_step :: "lease_table \<Rightarrow> lease_table \<Rightarrow> bool" where
  acquire: "from_journalled_operation operation heavy = Ok request \<Longrightarrow> lease_acquire t request = Inr t'
    \<Longrightarrow> lease_step t t'"
| additional: "sorted (lr_keys request) \<Longrightarrow> distinct (lr_keys request)
    \<Longrightarrow> lease_acquire_additional t request = Ok t' \<Longrightarrow> lease_step t t'"
| release: "lease_release t job_id = (t', outcome) \<Longrightarrow> lease_step t t'"
| release_heavy: "lease_release_heavy t job_id = Ok t' \<Longrightarrow> lease_step t t'"

lemma lease_inv_owner: "lease_inv t \<Longrightarrow> lt_owners t k = Some j \<longleftrightarrow> (\<exists>ks. lt_jobs t j = Some ks \<and> k \<in> set ks)"
  by (simp add: lease_inv_def)

lemma lease_inv_keys: "lease_inv t \<Longrightarrow> lt_jobs t j = Some ks \<Longrightarrow> keys_ok ks"
  by (simp add: lease_inv_def)

lemma lease_inv_free:
  "lease_inv t \<Longrightarrow> lt_owners t k = None \<Longrightarrow> lt_jobs t j = Some ks \<Longrightarrow> k \<notin> set ks"
  using lease_inv_owner [of t k j] by auto

lemma lease_inv_unique:
  assumes "lease_inv t" "lt_jobs t j = Some ks" "k \<in> set ks" "lt_jobs t i = Some hs" "k \<in> set hs"
  shows "i = j"
proof -
  have "lt_owners t k = Some j" "lt_owners t k = Some i"
    using assms by (auto simp: lease_inv_owner)
  then show ?thesis by simp
qed

lemma set_insert_simps [simp]:
  "set (set_insert k ks) = insert k (set ks)"
  "sorted (set_insert k ks) \<longleftrightarrow> sorted ks"
  "distinct (set_insert k ks) \<longleftrightarrow> distinct ks"
  by (auto simp: set_insert_def sorted_insort set_insort_key distinct_insort)

lemma length_set_insert: "length (set_insert k ks) = (if k \<in> set ks then length ks else Suc (length ks))"
  by (simp add: set_insert_def)

lemma fold_set_insert [simp]:
  "set (fold set_insert ks acc) = set ks \<union> set acc"
  "sorted acc \<Longrightarrow> sorted (fold set_insert ks acc)"
  "distinct acc \<Longrightarrow> distinct (fold set_insert ks acc)"
  by (induction ks arbitrary: acc) auto

lemma length_fold_set_insert: "length (fold set_insert ks acc) \<le> length ks + length acc"
proof (induction ks arbitrary: acc)
  case (Cons k ks)
  then show ?case
    using Cons [of "set_insert k acc"] by (simp add: length_set_insert split: if_splits)
qed simp

lemma first_owned_None_iff: "first_owned t ks = None \<longleftrightarrow> (\<forall>k\<in>set ks. lt_owners t k = None)"
  by (induction ks) (auto split: option.splits)

lemma first_owned_Some:
  assumes "first_owned t ks = Some (k, owner)"
  shows "\<exists>pre post. ks = pre @ k # post \<and> (\<forall>x\<in>set pre. lt_owners t x = None) \<and> lt_owners t k = Some owner"
  using assms
proof (induction ks)
  case (Cons x ks)
  show ?case
  proof (cases "lt_owners t x")
    case None
    with Cons obtain pre post where "ks = pre @ k # post" "\<forall>x\<in>set pre. lt_owners t x = None" "lt_owners t k = Some owner"
      by auto
    with None show ?thesis by (intro exI [of _ "x # pre"] exI [of _ post]) auto
  next
    case (Some o')
    with Cons.prems show ?thesis by (intro exI [of _ "[]"] exI [of _ ks]) auto
  qed
qed simp

lemma insert_owners_apply [simp]:
  "insert_owners j ks m k = (if k \<in> set ks then Some j else m k)"
  by (induction ks arbitrary: m) (auto simp: insert_owners_def)

lemma lease_acquire_Ok_iff:
  "lease_acquire t request = Inr t' \<longleftrightarrow>
     lt_jobs t (lr_job_id request) = None \<and> (\<forall>k\<in>set (lr_keys request). lt_owners t k = None)
     \<and> t' = t\<lparr>lt_owners := insert_owners (lr_job_id request) (lr_keys request) (lt_owners t),
              lt_jobs := (lt_jobs t)(lr_job_id request \<mapsto> lr_keys request)\<rparr>"
  by (auto simp: lease_acquire_def first_owned_None_iff [symmetric] split: option.splits)

lemma lease_acquire_additional_Ok_iff:
  "lease_acquire_additional t request = Ok t' \<longleftrightarrow>
     (\<exists>owned. lt_jobs t (lr_job_id request) = Some owned \<and> lr_keys request \<noteq> []
        \<and> set (lr_keys request) \<inter> set owned = {}
        \<and> length owned + length (lr_keys request) \<le> MAX_LEASE_KEYS_PER_JOB
        \<and> (\<forall>k\<in>set (lr_keys request). lt_owners t k = None)
        \<and> t' = t\<lparr>lt_owners := insert_owners (lr_job_id request) (lr_keys request) (lt_owners t),
              lt_jobs := (lt_jobs t)(lr_job_id request \<mapsto> fold set_insert (lr_keys request) owned)\<rparr>)"
proof (cases "first_owned t (lr_keys request)")
  case None
  then show ?thesis
    using first_owned_None_iff [of t "lr_keys request"]
    by (auto simp: lease_acquire_additional_def and_then_Inr_iff list_ex_iff not_less)
next
  case (Some p)
  then have "\<not> (\<forall>k\<in>set (lr_keys request). lt_owners t k = None)"
    using first_owned_None_iff [of t "lr_keys request"] by simp
  with Some show ?thesis
    by (cases p) (auto simp: lease_acquire_additional_def and_then_Inr_iff)
qed

lemma local_from_operation_keys:
  assumes "local_from_operation operation = Ok request"
  shows "sorted (lr_keys request) \<and> distinct (lr_keys request) \<and> lr_keys request \<noteq> []
    \<and> length (lr_keys request) \<le> 4 \<and> HeavyTraffic \<notin> set (lr_keys request)"
  using assms
  by (auto simp: local_from_operation_def Let_def and_then_Inr_iff managed_sqm_section_key_def length_set_insert
      set_insert_def split: if_splits)

lemma from_journalled_operation_keys:
  assumes "from_journalled_operation operation heavy = Ok request"
  shows "keys_ok (lr_keys request)" "HeavyTraffic \<in> set (lr_keys request) \<longleftrightarrow> heavy"
proof -
  obtain lease where lease: "local_from_operation operation = Ok lease"
    and request: "request = (if heavy then lease\<lparr>lr_keys := set_insert HeavyTraffic (lr_keys lease)\<rparr> else lease)"
    using assms unfolding from_journalled_operation_def
    by (elim and_then_OkE) (cases heavy; simp add: and_then_Inr_iff)
  have "set_insert HeavyTraffic (lr_keys lease) \<noteq> []"
    by (simp flip: set_empty)
  then show "keys_ok (lr_keys request)" "HeavyTraffic \<in> set (lr_keys request) \<longleftrightarrow> heavy"
    using local_from_operation_keys [OF lease]
    by (simp_all add: request keys_ok_def MAX_LEASE_KEYS_PER_JOB_def length_set_insert)
qed

lemma lease_acquire_inv:
  assumes "lease_inv t" "keys_ok (lr_keys request)" "lease_acquire t request = Inr t'"
  shows "lease_inv t'"
  using assms(2,3) lease_inv_owner [OF assms(1)] lease_inv_keys [OF assms(1)] lease_inv_free [OF assms(1)]
  unfolding lease_acquire_Ok_iff lease_inv_def [of t'] by auto

lemma lease_acquire_additional_inv:
  assumes "lease_inv t" "lease_acquire_additional t request = Ok t'"
  shows "lease_inv t'"
proof -
  obtain owned where owned: "lt_jobs t (lr_job_id request) = Some owned"
    and fresh: "\<forall>k\<in>set (lr_keys request). lt_owners t k = None"
    and len: "length owned + length (lr_keys request) \<le> MAX_LEASE_KEYS_PER_JOB"
    and ne: "lr_keys request \<noteq> []"
    and t': "t' = t\<lparr>lt_owners := insert_owners (lr_job_id request) (lr_keys request) (lt_owners t),
              lt_jobs := (lt_jobs t)(lr_job_id request \<mapsto> fold set_insert (lr_keys request) owned)\<rparr>"
    using assms(2) unfolding lease_acquire_additional_Ok_iff by blast
  have "keys_ok (fold set_insert (lr_keys request) owned)"
    using lease_inv_keys [OF assms(1) owned] len ne length_fold_set_insert [of "lr_keys request" owned]
    by (auto simp: keys_ok_def simp flip: set_empty)
  then show ?thesis
    using owned fresh lease_inv_owner [OF assms(1)] lease_inv_keys [OF assms(1)] lease_inv_free [OF assms(1)]
    unfolding t' lease_inv_def by auto
qed

lemma release_keys_owned:
  assumes "\<forall>k\<in>set ks. lt_owners t k = Some j" "distinct ks"
  shows "release_keys j ks t = (t\<lparr>lt_owners := (\<lambda>k. if k \<in> set ks then None else lt_owners t k)\<rparr>, Ok ())"
  using assms
proof (induction ks arbitrary: t)
  case (Cons k ks)
  have "\<forall>x\<in>set ks. ((lt_owners t)(k := None)) x = Some j"
    using Cons.prems by auto
  then have "release_keys j ks (t\<lparr>lt_owners := (lt_owners t)(k := None)\<rparr>) =
      (t\<lparr>lt_owners := (\<lambda>x. if x \<in> set ks then None else ((lt_owners t)(k := None)) x)\<rparr>, Ok ())"
    using Cons.IH [of "t\<lparr>lt_owners := (lt_owners t)(k := None)\<rparr>"] Cons.prems by (simp cong: if_cong)
  moreover have "(\<lambda>x. if x \<in> set ks then None else ((lt_owners t)(k := None)) x)
      = (\<lambda>x. if x \<in> set (k # ks) then None else lt_owners t x)"
    by auto
  ultimately show ?case
    using Cons.prems by simp
qed simp

lemma lease_release_owned:
  assumes "lease_inv t" "lt_jobs t j = Some ks"
  shows "lease_release t j =
    (t\<lparr>lt_jobs := (lt_jobs t)(j := None), lt_owners := (\<lambda>k. if lt_owners t k = Some j then None else lt_owners t k)\<rparr>, Ok ())"
proof -
  have "k \<in> set ks \<longleftrightarrow> lt_owners t k = Some j" for k
    using assms by (auto simp: lease_inv_owner)
  then show ?thesis
    using release_keys_owned [of ks "t\<lparr>lt_jobs := (lt_jobs t)(j := None)\<rparr>" j] lease_inv_keys [OF assms]
    by (simp add: lease_release_def assms(2) keys_ok_def cong: if_cong)
qed

lemma lease_release_inv: "lease_inv t \<Longrightarrow> lease_release t j = (t', outcome) \<Longrightarrow> lease_inv t'"
proof (cases "lt_jobs t j")
  case None
  then show "lease_inv t \<Longrightarrow> lease_release t j = (t', outcome) \<Longrightarrow> lease_inv t'"
    by (simp add: lease_release_def)
next
  case (Some ks)
  assume inv: "lease_inv t" and "lease_release t j = (t', outcome)"
  then have "t' = t\<lparr>lt_jobs := (lt_jobs t)(j := None),
      lt_owners := (\<lambda>k. if lt_owners t k = Some j then None else lt_owners t k)\<rparr>"
    using lease_release_owned [OF inv Some] by simp
  then show "lease_inv t'"
    using lease_inv_owner [OF inv] lease_inv_keys [OF inv] lease_inv_unique [OF inv]
    unfolding lease_inv_def [of t'] by auto
qed

lemma lease_release_heavy_inv:
  assumes "lease_inv t" "lease_release_heavy t j = Ok t'"
  shows "lease_inv t'"
proof -
  obtain ks where ks: "lt_jobs t j = Some ks" "HeavyTraffic \<in> set ks" "lt_owners t HeavyTraffic = Some j" "length ks \<noteq> 1"
    and t': "t' = t\<lparr>lt_owners := (lt_owners t)(HeavyTraffic := None),
           lt_jobs := (lt_jobs t)(j \<mapsto> remove1 HeavyTraffic ks)\<rparr>"
    using assms(2) by (auto simp: lease_release_heavy_def and_then_Inr_iff)
  have ok: "keys_ok ks"
    by (rule lease_inv_keys [OF assms(1) ks(1)])
  have len: "length (remove1 HeavyTraffic ks) = length ks - 1"
    using ks(2) by (simp add: length_remove1)
  have "length ks > 1"
    using ks(2,4) by (cases ks) auto
  then have "remove1 HeavyTraffic ks \<noteq> []"
    using len by (metis length_greater_0_conv zero_less_diff)
  then have "keys_ok (remove1 HeavyTraffic ks)"
    using ok len by (auto simp: keys_ok_def sorted_remove1)
  moreover have "set (remove1 HeavyTraffic ks) = set ks - {HeavyTraffic}"
    using ok by (simp add: keys_ok_def)
  moreover have "i = j" if "lt_jobs t i = Some hs" "HeavyTraffic \<in> set hs" for i hs
    by (rule lease_inv_unique [OF assms(1) ks(1,2) that])
  ultimately have keys: "\<forall>i hs. lt_jobs t' i = Some hs \<longrightarrow> keys_ok hs"
    and others: "\<And>i hs. lt_jobs t i = Some hs \<Longrightarrow> HeavyTraffic \<in> set hs \<Longrightarrow> i = j"
    and rest: "set (remove1 HeavyTraffic ks) = set ks - {HeavyTraffic}"
    using lease_inv_keys [OF assms(1)] by (auto simp: t')
  have "lt_owners t' k = Some i \<longleftrightarrow> (\<exists>hs. lt_jobs t' i = Some hs \<and> k \<in> set hs)" for k i
  proof (cases "i = j")
    case True
    then show ?thesis using lease_inv_owner [OF assms(1), of k j] by (simp add: t' rest ks(1))
  next
    case False
    then have "\<not> (\<exists>hs. lt_jobs t i = Some hs \<and> HeavyTraffic \<in> set hs)" using others by blast
    with False show ?thesis using lease_inv_owner [OF assms(1), of k i] by (simp add: t')
  qed
  with keys show ?thesis by (simp add: lease_inv_def)
qed

lemma table_default_inv: "lease_inv table_default"
  by (simp add: lease_inv_def table_default_def)

lemma lease_step_inv: "lease_step t t' \<Longrightarrow> lease_inv t \<Longrightarrow> lease_inv t'"
  by (induction rule: lease_step.induct)
    (auto intro: lease_acquire_inv lease_acquire_additional_inv lease_release_inv lease_release_heavy_inv
      from_journalled_operation_keys(1))

interpretation lease_machine: invariant_machine "\<lambda>t. t = table_default" lease_step lease_inv
  by unfold_locales (auto intro: table_default_inv lease_step_inv)

text \<open>Data for the witnesses: the leases of one journalled speed test and the table that holds them.\<close>

definition sample_lease :: lease_request where
  "sample_lease = \<lparr>lr_job_id = sample_hex 32,
     lr_keys = [HeavyTraffic, Instance ''wan'', TargetInterface ''pppoe-wan'', SqmFingerprint (sample_hex 64)]\<rparr>"

definition sample_table :: lease_table where
  "sample_table = \<lparr>lt_owners = insert_owners (sample_hex 32) (lr_keys sample_lease) Map.empty,
     lt_jobs = [sample_hex 32 \<mapsto> lr_keys sample_lease]\<rparr>"

lemma sample_lease_journalled: "from_journalled_operation sample_request True = Ok sample_lease"
  by code_simp

lemma sample_table_acquired: "lease_acquire table_default sample_lease = Inr sample_table"
  by (simp add: lease_acquire_def table_default_def sample_lease_def sample_table_def)

lemma sample_table_reachable: "reachable_from (\<lambda>t. t = table_default) lease_step sample_table"
  by (rule reachable_from_step [OF reachable_from_start])
    (auto intro: lease_step.acquire [OF sample_lease_journalled sample_table_acquired])

lemma sample_table_inv: "lease_inv sample_table"
  by (rule lease_machine.reachable_inv [OF sample_table_reachable])

lemma sample_table_owners: "lt_owners sample_table HeavyTraffic = Some (sample_hex 32)"
  by (simp add: sample_table_def sample_lease_def insert_owners_def)

section \<open>Properties\<close>

text \<open>C30: leases are exclusive in every table that the operations of the coordinator can produce. A key
  has one owner, which is a registered job that lists the key; two jobs never list the same key, the
  heavy-traffic key included; and no job holds more than five keys, in the order of the set and without
  duplicates. A step is an acquisition of the leases of an operation, of additional keys, a release, or
  a detachment of the heavy lease, whatever its outcome.\<close>

theorem leases_exclusive:
  assumes "reachable_from (\<lambda>t. t = table_default) lease_step t"
  shows "(lt_owners t k = Some j \<longleftrightarrow> (\<exists>ks. lt_jobs t j = Some ks \<and> k \<in> set ks))
    \<and> (lt_jobs t i = Some is \<and> lt_jobs t j = Some js \<and> k \<in> set is \<and> k \<in> set js \<longrightarrow> i = j)
    \<and> (lt_jobs t j = Some js \<longrightarrow> sorted js \<and> distinct js \<and> length js \<le> MAX_LEASE_KEYS_PER_JOB)"
proof -
  have inv: "lease_inv t"
    by (rule lease_machine.reachable_inv [OF assms])
  show ?thesis
    using lease_inv_owner [OF inv] lease_inv_keys [OF inv] lease_inv_unique [OF inv]
    by (auto simp: keys_ok_def)
qed

theorem leases_exclusive_witness:
  "\<exists>js. lt_jobs sample_table (sample_hex 32) = Some js \<and> HeavyTraffic \<in> set js
     \<and> length js \<le> MAX_LEASE_KEYS_PER_JOB"
proof -
  obtain js where "lt_jobs sample_table (sample_hex 32) = Some js" "HeavyTraffic \<in> set js"
    using leases_exclusive [OF sample_table_reachable, of HeavyTraffic "sample_hex 32"] sample_table_owners by metis
  with leases_exclusive [OF sample_table_reachable] show ?thesis by blast
qed

text \<open>An acquisition is all or nothing. It succeeds exactly when the job owns nothing yet and none
  of the requested keys has an owner; then the job owns exactly the requested keys and no other key
  changes its owner. Otherwise nothing changes, and a conflict names the smallest requested key that is
  taken, with its true owner.\<close>

theorem acquire_all_or_nothing:
  assumes "lease_inv t" "sorted (lr_keys request)"
  shows "case lease_acquire t request of
      Inr t' \<Rightarrow> lt_jobs t (lr_job_id request) = None \<and> (\<forall>k\<in>set (lr_keys request). lt_owners t k = None)
        \<and> (\<forall>k. lt_owners t' k = (if k \<in> set (lr_keys request) then Some (lr_job_id request) else lt_owners t k))
        \<and> (\<forall>j. lt_jobs t' j = (if j = lr_job_id request then Some (lr_keys request) else lt_jobs t j))
    | Inl (JobAlreadyOwns j) \<Rightarrow> j = lr_job_id request \<and> lt_jobs t j \<noteq> None
    | Inl (Conflict k owner) \<Rightarrow> k \<in> set (lr_keys request) \<and> lt_owners t k = Some owner
        \<and> lt_jobs t owner \<noteq> None \<and> (\<forall>k'\<in>set (lr_keys request). lt_owners t k' \<noteq> None \<longrightarrow> k \<le> k')"
proof (cases "lease_acquire t request")
  case (Inr t')
  then show ?thesis using lease_acquire_Ok_iff [of t request t'] by simp
next
  case (Inl e)
  then consider "e = JobAlreadyOwns (lr_job_id request)" "lt_jobs t (lr_job_id request) \<noteq> None"
    | k owner where "e = Conflict k owner" "first_owned t (lr_keys request) = Some (k, owner)"
    by (auto simp: lease_acquire_def split: if_splits option.splits)
  then show ?thesis
  proof cases
    case (2 k owner)
    then obtain pre post where keys: "lr_keys request = pre @ k # post"
      and pre: "\<forall>x\<in>set pre. lt_owners t x = None" and owner: "lt_owners t k = Some owner"
      using first_owned_Some by blast
    have "lt_jobs t owner \<noteq> None"
      using owner lease_inv_owner [OF assms(1)] by auto
    moreover have "\<forall>k'\<in>set (lr_keys request). lt_owners t k' \<noteq> None \<longrightarrow> k \<le> k'"
      using assms(2) pre by (auto simp: keys sorted_append)
    ultimately show ?thesis
      using Inl 2 owner keys by simp
  qed (simp add: Inl)
qed

theorem acquire_all_or_nothing_witness:
  "lease_acquire sample_table (heavy_for ''other'') = Inl (Conflict HeavyTraffic (sample_hex 32))
   \<and> lt_jobs sample_table (sample_hex 32) \<noteq> None"
proof -
  have jobs: "lt_jobs sample_table ''other'' = None"
    by (simp add: sample_table_def sample_hex_def numeral_eq_Suc)
  have conflict: "lease_acquire sample_table (heavy_for ''other'') = Inl (Conflict HeavyTraffic (sample_hex 32))"
    using sample_table_owners jobs by (simp add: lease_acquire_def heavy_for_def)
  have "sorted (lr_keys (heavy_for ''other''))"
    by (simp add: heavy_for_def)
  with acquire_all_or_nothing [OF sample_table_inv, of "heavy_for ''other''"] conflict
  show ?thesis by simp
qed

text \<open>Releasing never gets stuck. In a reachable table a registered job is released without an
  error: the inconsistency branches of the loop are unreachable, the job and exactly the keys it owned
  are gone, and every other job keeps its keys. An unknown job leaves the table as it is.\<close>

theorem release_complete:
  assumes "reachable_from (\<lambda>t. t = table_default) lease_step t"
  shows "case lt_jobs t j of
      Some ks \<Rightarrow> \<exists>t'. lease_release t j = (t', Ok ()) \<and> lt_jobs t' = (lt_jobs t)(j := None)
        \<and> (\<forall>k. lt_owners t' k = (if k \<in> set ks then None else lt_owners t k))
    | None \<Rightarrow> fst (lease_release t j) = t \<and> is_err (snd (lease_release t j))"
proof (cases "lt_jobs t j")
  case (Some ks)
  have inv: "lease_inv t"
    by (rule lease_machine.reachable_inv [OF assms])
  have "lt_owners t k = Some j \<longleftrightarrow> k \<in> set ks" for k
    using lease_inv_owner [OF inv] Some by simp
  then show ?thesis
    using lease_release_owned [OF inv Some] Some by simp
qed (simp add: lease_release_def)

theorem release_complete_witness:
  "\<exists>t'. lease_release sample_table (sample_hex 32) = (t', Ok ()) \<and> lt_owners t' HeavyTraffic = None"
proof -
  have "lt_jobs sample_table (sample_hex 32) = Some (lr_keys sample_lease)"
    by (simp add: sample_table_def)
  moreover have "HeavyTraffic \<in> set (lr_keys sample_lease)"
    by (simp add: sample_lease_def)
  ultimately show ?thesis
    using release_complete [OF sample_table_reachable, of "sample_hex 32"] by force
qed

end
