(* ===== verification/Float64.thy ===== *)
theory Float64
  imports Complex_Main "HOL-Library.Log_Nat" Rust_Prelude
begin

text \<open>
  The type \<open>f64\<close> of Rust: IEEE 754 binary64 with rounding to nearest, ties to even. A finite value is
  the rational number it denotes, so the operations are exact rational arithmetic followed by one
  rounding; overflow, infinities and NaN are kept. The two zeros are one value: no modelled code prints
  a zero, takes its sign or divides by one that may be negative. \<open>f64_ok\<close> says that a finite value is
  one of the doubles; every operation returns such a value.
\<close>

section \<open>Rounding a rational number\<close>

definition pow2 :: "int \<Rightarrow> rat" where
  "pow2 k = (if 0 \<le> k then 2 ^ nat k else 1 / 2 ^ nat (- k))"

definition round_half_even :: "rat \<Rightarrow> int" where
  "round_half_even x =
     (let n = \<lfloor>x\<rfloor>; d = x - of_int n
      in if d < 1/2 then n else if d > 1/2 then n + 1 else if even n then n else n + 1)"

text \<open>The exponent of the leading binary digit of a positive rational number.\<close>

definition ilog2 :: "rat \<Rightarrow> int" where
  "ilog2 x =
     (let (n, d) = quotient_of x; k = bitlen n - bitlen d
      in if pow2 k \<le> x then k else k - 1)"

text \<open>The exponent of the last of the 53 digits, and the subnormal range below it.\<close>

definition ulp_exp :: "rat \<Rightarrow> int" where
  "ulp_exp x = max (ilog2 \<bar>x\<bar> - 52) (- 1074)"

definition rnd_rat :: "rat \<Rightarrow> rat" where
  "rnd_rat x = (if x = 0 then 0 else of_int (round_half_even (x / pow2 (ulp_exp x))) * pow2 (ulp_exp x))"

lemma pow2_pos [simp]: "0 < pow2 k" "pow2 k \<noteq> 0" "0 \<le> pow2 k"
  by (simp_all add: pow2_def)

lemma pow2_0 [simp]: "pow2 0 = 1"
  by (simp add: pow2_def)

lemma pow2_eq_powi: "pow2 k = 2 powi k"
  by (simp add: pow2_def power_int_def power_one_over)

lemma pow2_add: "pow2 (a + b) = pow2 a * pow2 b"
  unfolding pow2_eq_powi by (rule power_int_add) simp

lemma pow2_diff: "pow2 (a - b) = pow2 a / pow2 b"
  unfolding pow2_eq_powi by (rule power_int_diff) simp

lemma pow2_less_iff [simp]: "pow2 a < pow2 b \<longleftrightarrow> a < b"
proof -
  have "pow2 i < pow2 j" if "i < j" for i j
    unfolding pow2_eq_powi using that by (intro power_int_strict_increasing) simp_all
  then show ?thesis by (metis linorder_neqE_linordered_idom order_less_asym order_less_irrefl)
qed

lemma pow2_le_iff [simp]: "pow2 a \<le> pow2 b \<longleftrightarrow> a \<le> b"
  by (simp flip: not_less)

lemma pow2_nat: "0 \<le> k \<Longrightarrow> pow2 k = of_int (2 ^ nat k)"
  by (simp add: pow2_def)

subsection \<open>Rounding to an integer\<close>

lemma round_half_even_of_int [simp]: "round_half_even (of_int n) = n"
  by (simp add: round_half_even_def)

lemma round_half_even_bounds: "\<lfloor>x\<rfloor> \<le> round_half_even x" "round_half_even x \<le> \<lfloor>x\<rfloor> + 1"
  by (simp_all add: round_half_even_def Let_def)

lemma round_half_even_mono:
  assumes "x \<le> y"
  shows "round_half_even x \<le> round_half_even y"
proof (cases "\<lfloor>x\<rfloor> = \<lfloor>y\<rfloor>")
  case True
  then show ?thesis using assms by (simp add: round_half_even_def Let_def)
next
  case False
  with floor_mono [OF assms] have "\<lfloor>x\<rfloor> + 1 \<le> \<lfloor>y\<rfloor>" by linarith
  with round_half_even_bounds [of x] round_half_even_bounds [of y] show ?thesis by linarith
qed

lemma round_half_even_le_int: "x \<le> of_int n \<Longrightarrow> round_half_even x \<le> n"
  using round_half_even_mono [of x "of_int n"] by simp

lemma round_half_even_ge_int: "of_int n \<le> x \<Longrightarrow> n \<le> round_half_even x"
  using round_half_even_mono [of "of_int n" x] by simp

lemma round_half_even_minus: "round_half_even (- x) = - round_half_even x"
proof (cases "x = of_int \<lfloor>x\<rfloor>")
  case True
  then show ?thesis
    by (metis of_int_minus round_half_even_of_int)
next
  case False
  then have floor: "\<lfloor>- x\<rfloor> = - \<lfloor>x\<rfloor> - 1"
    by linarith
  then have "even \<lfloor>- x\<rfloor> \<longleftrightarrow> odd \<lfloor>x\<rfloor>" "- x - of_int \<lfloor>- x\<rfloor> = 1 - (x - of_int \<lfloor>x\<rfloor>)"
    by simp_all
  then show ?thesis
    using floor by (simp add: round_half_even_def Let_def del: of_int_minus)
qed

subsection \<open>The leading digit\<close>

lemma ilog2_bounds:
  assumes "0 < x"
  shows "pow2 (ilog2 x) \<le> x" "x < pow2 (ilog2 x + 1)"
proof -
  obtain n d where q: "quotient_of x = (n, d)" by fastforce
  then have d: "0 < d" and x: "x = of_int n / of_int d"
    by (simp_all add: quotient_of_denom_pos quotient_of_div)
  with assms have n: "0 < n" by (simp add: zero_less_divide_iff)
  have bound: "pow2 (bitlen k - 1) \<le> of_int k \<and> of_int k < pow2 (bitlen k)" if "0 < k" for k :: int
  proof -
    have "2 ^ nat (bitlen k - 1) \<le> k \<and> k < 2 ^ nat (bitlen k)"
      using bitlen_bounds [OF that] .
    moreover have "0 \<le> bitlen k - 1" using that by (simp add: bitlen_nonneg bitlen_alt_def)
    ultimately show ?thesis
      by (simp add: pow2_nat bitlen_nonneg del: of_int_power)
  qed
  let ?k = "bitlen n - bitlen d"
  have "x < pow2 (?k + 1)"
  proof -
    have "x * pow2 (bitlen d - 1) \<le> x * of_int d"
      using bound [OF d] assms by (intro mult_left_mono) auto
    also have "\<dots> = of_int n" using d by (simp add: x)
    also have "\<dots> < pow2 (bitlen n)" using bound [OF n] by simp
    finally have "x < pow2 (bitlen n) / pow2 (bitlen d - 1)" by (simp add: pos_less_divide_eq)
    then show ?thesis by (simp flip: pow2_diff add: algebra_simps)
  qed
  moreover have "pow2 (?k - 1) < x"
  proof -
    have "pow2 (bitlen n - 1) \<le> of_int n" using bound [OF n] by simp
    also have "\<dots> = x * of_int d" using d by (simp add: x)
    also have "\<dots> < x * pow2 (bitlen d)" using bound [OF d] assms by (intro mult_strict_left_mono) auto
    finally have "pow2 (bitlen n - 1) / pow2 (bitlen d) < x" by (simp add: pos_divide_less_eq)
    then show ?thesis by (simp flip: pow2_diff add: algebra_simps)
  qed
  ultimately show "pow2 (ilog2 x) \<le> x" "x < pow2 (ilog2 x + 1)"
    by (auto simp: ilog2_def q Let_def)
qed

lemma ilog2_unique: "pow2 k \<le> x \<Longrightarrow> x < pow2 (k + 1) \<Longrightarrow> ilog2 x = k"
proof -
  assume k: "pow2 k \<le> x" "x < pow2 (k + 1)"
  then have "0 < x" using pow2_pos(1) [of k] by linarith
  from ilog2_bounds [OF this] k have "pow2 k < pow2 (ilog2 x + 1)" "pow2 (ilog2 x) < pow2 (k + 1)"
    by linarith+
  then show ?thesis by simp
qed

lemma ilog2_mono: "0 < x \<Longrightarrow> x \<le> y \<Longrightarrow> ilog2 x \<le> ilog2 y"
proof -
  assume "0 < x" "x \<le> y"
  with ilog2_bounds [of x] ilog2_bounds [of y] have "pow2 (ilog2 x) < pow2 (ilog2 y + 1)" by linarith
  then show ?thesis by simp
qed

lemma ilog2_pow2 [simp]: "ilog2 (pow2 k) = k"
  by (rule ilog2_unique) simp_all

subsection \<open>Rounding to a double\<close>

lemma rnd_rat_0 [simp]: "rnd_rat 0 = 0"
  by (simp add: rnd_rat_def)

lemma ulp_exp_minus [simp]: "ulp_exp (- x) = ulp_exp x"
  by (simp add: ulp_exp_def)

lemma rnd_rat_minus [simp]: "rnd_rat (- x) = - rnd_rat x"
  by (simp add: rnd_rat_def round_half_even_minus)

lemma rnd_rat_nonneg: "0 \<le> x \<Longrightarrow> 0 \<le> rnd_rat x"
  using round_half_even_ge_int [of 0 "x / pow2 (ulp_exp x)"] by (simp add: rnd_rat_def)

text \<open>A multiple of a power of two is an upper (lower) bound of what rounds to it from below (above).\<close>

lemma rnd_rat_grid:
  assumes "x \<noteq> 0" "ulp_exp x \<le> e"
  shows "x \<le> of_int m * pow2 e \<Longrightarrow> rnd_rat x \<le> of_int m * pow2 e"
    and "of_int m * pow2 e \<le> x \<Longrightarrow> of_int m * pow2 e \<le> rnd_rat x"
proof -
  have e: "of_int m * pow2 e = of_int (m * 2 ^ nat (e - ulp_exp x)) * pow2 (ulp_exp x)"
  proof -
    have "pow2 e = pow2 (e - ulp_exp x) * pow2 (ulp_exp x)"
      by (simp flip: pow2_add)
    with assms(2) show ?thesis by (simp add: pow2_nat)
  qed
  show "rnd_rat x \<le> of_int m * pow2 e" if "x \<le> of_int m * pow2 e"
  proof -
    have "x / pow2 (ulp_exp x) \<le> of_int (m * 2 ^ nat (e - ulp_exp x))"
      using that unfolding e by (simp add: pos_divide_le_eq)
    from round_half_even_le_int [OF this] show ?thesis
      using assms(1) unfolding e rnd_rat_def by (simp del: of_int_mult)
  qed
  show "of_int m * pow2 e \<le> rnd_rat x" if "of_int m * pow2 e \<le> x"
  proof -
    have "of_int (m * 2 ^ nat (e - ulp_exp x)) \<le> x / pow2 (ulp_exp x)"
      using that unfolding e by (simp add: pos_le_divide_eq)
    from round_half_even_ge_int [OF this] show ?thesis
      using assms(1) unfolding e rnd_rat_def by (simp del: of_int_mult)
  qed
qed

lemma rnd_rat_mono_pos:
  assumes "0 < x" "x \<le> y"
  shows "rnd_rat x \<le> rnd_rat y"
proof (cases "ulp_exp x = ulp_exp y")
  case True
  have "x / pow2 (ulp_exp y) \<le> y / pow2 (ulp_exp y)"
    using assms(2) by (simp add: divide_right_mono)
  from round_half_even_mono [OF this] show ?thesis
    using assms True by (simp add: rnd_rat_def)
next
  case False
  have le: "ilog2 x \<le> ilog2 y" by (rule ilog2_mono [OF assms])
  with False assms have y: "ulp_exp y = ilog2 y - 52" and less: "ilog2 x < ilog2 y"
    and x: "ulp_exp x \<le> ilog2 y"
    by (auto simp: ulp_exp_def max_def split: if_splits)
  have "x < pow2 (ilog2 x + 1)" using ilog2_bounds(2) assms(1) .
  also have "\<dots> \<le> pow2 (ilog2 y)" using less by simp
  finally have "rnd_rat x \<le> of_int 1 * pow2 (ilog2 y)"
    using assms x by (intro rnd_rat_grid(1)) auto
  also have "\<dots> \<le> rnd_rat y"
    using assms y ilog2_bounds(1) [of y] by (intro rnd_rat_grid(2)) auto
  finally show ?thesis .
qed

lemma rnd_rat_mono:
  assumes "x \<le> y"
  shows "rnd_rat x \<le> rnd_rat y"
proof -
  consider "0 < x" | "y < 0" | "x \<le> 0" "0 \<le> y" by linarith
  then show ?thesis
  proof cases
    case 2
    then have "rnd_rat (- y) \<le> rnd_rat (- x)"
      using assms by (intro rnd_rat_mono_pos) auto
    then show ?thesis by simp
  next
    case 3
    then show ?thesis using rnd_rat_nonneg [of y] rnd_rat_nonneg [of "- x"] by simp
  qed (rule rnd_rat_mono_pos [OF _ assms])
qed

lemma rnd_rat_fixed:
  assumes "\<bar>m\<bar> \<le> 2 ^ 53" "- 1074 \<le> e"
  shows "rnd_rat (of_int m * pow2 e) = of_int m * pow2 e"
proof (cases "m = 0")
  case False
  let ?x = "of_int m * pow2 e"
  have x: "?x \<noteq> 0" using False by simp
  have abs: "\<bar>?x\<bar> = of_int \<bar>m\<bar> * pow2 e" by (simp add: abs_mult)
  have "\<exists>m' e'. ?x = of_int m' * pow2 e' \<and> ulp_exp ?x \<le> e'"
  proof (cases "\<bar>m\<bar> = 2 ^ 53")
    case True
    have "ilog2 \<bar>?x\<bar> = e + 53"
      unfolding abs True by (rule ilog2_unique) (simp_all add: pow2_add pow2_nat)
    with assms(2) have "ulp_exp ?x \<le> e + 1" by (simp add: ulp_exp_def)
    moreover have "?x = of_int (if 0 < m then 2 ^ 52 else - (2 ^ 52)) * pow2 (e + 1)"
    proof -
      have "m = (if 0 < m then 2 ^ 53 else - (2 ^ 53))" using True by auto
      then have "(of_int m :: rat) = of_int (if 0 < m then 2 ^ 53 else - (2 ^ 53))" by (rule arg_cong)
      then show ?thesis unfolding pow2_add by (cases "0 < m") (simp_all add: pow2_nat)
    qed
    ultimately show ?thesis by blast
  next
    case False
    with assms(1) have "\<bar>m\<bar> < 2 ^ 53" by linarith
    then have "(of_int \<bar>m\<bar> :: rat) < of_int (2 ^ 53)" by (simp only: of_int_less_iff)
    then have "\<bar>?x\<bar> < pow2 (53 + e)" unfolding abs by (simp add: pow2_add pow2_nat)
    moreover have "pow2 (ilog2 \<bar>?x\<bar>) \<le> \<bar>?x\<bar>" using x by (intro ilog2_bounds(1)) simp
    ultimately have "pow2 (ilog2 \<bar>?x\<bar>) < pow2 (53 + e)" by linarith
    then have "ulp_exp ?x \<le> e" using assms(2) by (simp add: ulp_exp_def)
    then show ?thesis by blast
  qed
  then obtain m' e' where g: "?x = of_int m' * pow2 e'" "ulp_exp ?x \<le> e'" by blast
  from rnd_rat_grid [OF x g(2), of m'] g(1) show ?thesis by (intro antisym) auto
qed simp

lemma rnd_rat_idem [simp]: "rnd_rat (rnd_rat x) = rnd_rat x"
proof (cases "x = 0")
  case False
  let ?e = "ulp_exp x" and ?m = "round_half_even (x / pow2 (ulp_exp x))"
  have "\<bar>x\<bar> < pow2 (ilog2 \<bar>x\<bar> + 1)" using False by (intro ilog2_bounds(2)) simp
  also have "\<dots> \<le> pow2 (53 + ?e)" by (simp add: ulp_exp_def)
  finally have "\<bar>x\<bar> < of_int (2 ^ 53) * pow2 ?e" by (simp add: pow2_add pow2_nat)
  then have "x \<le> of_int (2 ^ 53) * pow2 ?e" "of_int (- (2 ^ 53)) * pow2 ?e \<le> x" by auto
  then have "x / pow2 ?e \<le> of_int (2 ^ 53)" "of_int (- (2 ^ 53)) \<le> x / pow2 ?e"
    by (simp_all only: pos_divide_le_eq pos_le_divide_eq pow2_pos)
  from round_half_even_le_int [OF this(1)] round_half_even_ge_int [OF this(2)]
  have "\<bar>?m\<bar> \<le> 2 ^ 53" by linarith
  then show ?thesis
    using False rnd_rat_fixed [of ?m ?e] by (simp add: rnd_rat_def ulp_exp_def)
qed simp

section \<open>The type and its operations\<close>

datatype f64 = Fin rat | PInf | MInf | NaN

definition rnd :: "rat \<Rightarrow> f64" where
  "rnd x = (let r = rnd_rat x in if pow2 1024 \<le> r then PInf else if r \<le> - pow2 1024 then MInf else Fin r)"

definition f64_ok :: "f64 \<Rightarrow> bool" where
  "f64_ok v = (case v of Fin x \<Rightarrow> rnd_rat x = x \<and> \<bar>x\<bar> < pow2 1024 | _ \<Rightarrow> True)"

definition is_finite :: "f64 \<Rightarrow> bool" where
  "is_finite v = (case v of Fin _ \<Rightarrow> True | _ \<Rightarrow> False)"

fun fneg :: "f64 \<Rightarrow> f64" where
  "fneg (Fin a) = Fin (- a)"
| "fneg PInf = MInf"
| "fneg MInf = PInf"
| "fneg NaN = NaN"

fun fadd :: "f64 \<Rightarrow> f64 \<Rightarrow> f64" where
  "fadd (Fin a) (Fin b) = rnd (a + b)"
| "fadd NaN _ = NaN"
| "fadd _ NaN = NaN"
| "fadd PInf MInf = NaN"
| "fadd MInf PInf = NaN"
| "fadd PInf _ = PInf"
| "fadd _ PInf = PInf"
| "fadd MInf _ = MInf"
| "fadd _ MInf = MInf"

definition fsub :: "f64 \<Rightarrow> f64 \<Rightarrow> f64" where
  "fsub a b = fadd a (fneg b)"

text \<open>An infinity of the sign of a rational number, and NaN for zero.\<close>

definition inf_signed :: "rat \<Rightarrow> f64" where
  "inf_signed a = (if 0 < a then PInf else if a < 0 then MInf else NaN)"

fun fmul :: "f64 \<Rightarrow> f64 \<Rightarrow> f64" where
  "fmul (Fin a) (Fin b) = rnd (a * b)"
| "fmul NaN _ = NaN"
| "fmul _ NaN = NaN"
| "fmul (Fin a) PInf = inf_signed a"
| "fmul PInf (Fin a) = inf_signed a"
| "fmul (Fin a) MInf = inf_signed (- a)"
| "fmul MInf (Fin a) = inf_signed (- a)"
| "fmul PInf PInf = PInf"
| "fmul MInf MInf = PInf"
| "fmul PInf MInf = MInf"
| "fmul MInf PInf = MInf"

fun fdiv :: "f64 \<Rightarrow> f64 \<Rightarrow> f64" where
  "fdiv (Fin a) (Fin b) = (if b = 0 then inf_signed a else rnd (a / b))"
| "fdiv NaN _ = NaN"
| "fdiv _ NaN = NaN"
| "fdiv (Fin a) _ = Fin 0"
| "fdiv PInf (Fin b) = (if 0 \<le> b then PInf else MInf)"
| "fdiv MInf (Fin b) = (if 0 \<le> b then MInf else PInf)"
| "fdiv _ _ = NaN"

fun flt :: "f64 \<Rightarrow> f64 \<Rightarrow> bool" where
  "flt (Fin a) (Fin b) = (a < b)"
| "flt NaN _ = False"
| "flt _ NaN = False"
| "flt MInf MInf = False"
| "flt MInf _ = True"
| "flt PInf _ = False"
| "flt _ PInf = True"
| "flt _ MInf = False"

definition feq :: "f64 \<Rightarrow> f64 \<Rightarrow> bool" where
  "feq a b = (a = b \<and> a \<noteq> NaN)"

definition fle :: "f64 \<Rightarrow> f64 \<Rightarrow> bool" where
  "fle a b = (flt a b \<or> feq a b)"

text \<open>\<open>f64::max\<close> and \<open>f64::min\<close> return the other operand when one is NaN.\<close>

definition fmax :: "f64 \<Rightarrow> f64 \<Rightarrow> f64" where
  "fmax a b = (if a = NaN then b else if b = NaN then a else if flt a b then b else a)"

definition fmin :: "f64 \<Rightarrow> f64 \<Rightarrow> f64" where
  "fmin a b = (if a = NaN then b else if b = NaN then a else if flt b a then b else a)"

definition fabs :: "f64 \<Rightarrow> f64" where
  "fabs v = (case v of Fin a \<Rightarrow> Fin \<bar>a\<bar> | MInf \<Rightarrow> PInf | _ \<Rightarrow> v)"

text \<open>\<open>clamp\<close> with bounds that are in order; NaN stays NaN.\<close>

definition fclamp :: "f64 \<Rightarrow> f64 \<Rightarrow> f64 \<Rightarrow> f64" where
  "fclamp v low high = (if flt v low then low else if flt high v then high else v)"

text \<open>\<open>round\<close>: to the nearest integer, ties away from zero.\<close>

definition round_half_away :: "rat \<Rightarrow> int" where
  "round_half_away q = (if 0 \<le> q then \<lfloor>q + 1/2\<rfloor> else - \<lfloor>- q + 1/2\<rfloor>)"

definition fround :: "f64 \<Rightarrow> f64" where
  "fround v = (case v of Fin q \<Rightarrow> Fin (of_int (round_half_away q)) | _ \<Rightarrow> v)"

definition fceil :: "f64 \<Rightarrow> f64" where
  "fceil v = (case v of Fin q \<Rightarrow> Fin (of_int \<lceil>q\<rceil>) | _ \<Rightarrow> v)"

text \<open>\<open>as u64\<close> saturates and \<open>as f64\<close> rounds.\<close>

definition f64_as_u64 :: "f64 \<Rightarrow> u64" where
  "f64_as_u64 v =
     (case v of
        Fin q \<Rightarrow> (if q < 0 then 0 else if 2 ^ 64 \<le> q then - 1 else word_of_int \<lfloor>q\<rfloor>)
      | PInf \<Rightarrow> - 1
      | _ \<Rightarrow> 0)"

definition u64_as_f64 :: "u64 \<Rightarrow> f64" where
  "u64_as_f64 w = rnd (of_nat (unat w))"

definition f64_EPSILON :: f64 where
  "f64_EPSILON = Fin (pow2 (- 52))"

definition f64_MIN_POSITIVE :: f64 where
  "f64_MIN_POSITIVE = Fin (pow2 (- 1022))"

text \<open>Evaluation compares exponents instead of computing the largest power of two.\<close>

lemma ilog2_less_iff:
  assumes "0 < x"
  shows "ilog2 x < k \<longleftrightarrow> x < pow2 k"
proof
  assume "ilog2 x < k"
  then have "pow2 (ilog2 x + 1) \<le> pow2 k" by simp
  with ilog2_bounds(2) [OF assms] show "x < pow2 k" by linarith
next
  assume "x < pow2 k"
  with ilog2_bounds(1) [OF assms] have "pow2 (ilog2 x) < pow2 k" by linarith
  then show "ilog2 x < k" by simp
qed

lemma abs_less_pow2_iff: "\<bar>x\<bar> < pow2 k \<longleftrightarrow> x = 0 \<or> ilog2 \<bar>x\<bar> < k"
  using ilog2_less_iff [of "\<bar>x\<bar>" k] by (cases "x = 0") simp_all

lemma rnd_code [code]:
  "rnd x = (let r = rnd_rat x in
     if r = 0 \<or> ilog2 \<bar>r\<bar> < 1024 then Fin r else if 0 < r then PInf else MInf)"
proof -
  obtain p where "pow2 1024 = p" "0 < p" using pow2_pos(1) by blast
  then show ?thesis
    unfolding rnd_def Let_def abs_less_pow2_iff [symmetric] by (auto simp: abs_less_iff not_less)
qed

lemma f64_ok_code [code]:
  "f64_ok v = (case v of Fin x \<Rightarrow> rnd_rat x = x \<and> (x = 0 \<or> ilog2 \<bar>x\<bar> < 1024) | _ \<Rightarrow> True)"
  by (cases v) (simp_all add: f64_ok_def abs_less_pow2_iff)

section \<open>Laws\<close>

named_theorems f64_simps \<open>evaluation of floating point operations on finite values\<close>

lemma fsub_Fin [simp, f64_simps]: "fsub (Fin a) (Fin b) = rnd (a - b)"
  by (simp add: fsub_def)

lemma fle_Fin [simp, f64_simps]: "fle (Fin a) (Fin b) \<longleftrightarrow> a \<le> b"
  by (auto simp: fle_def feq_def)

lemma feq_Fin [simp, f64_simps]: "feq (Fin a) (Fin b) \<longleftrightarrow> a = b"
  by (simp add: feq_def)

lemma fmax_Fin [simp, f64_simps]: "fmax (Fin a) (Fin b) = Fin (max a b)"
  by (simp add: fmax_def max_def)

lemma fmin_Fin [simp, f64_simps]: "fmin (Fin a) (Fin b) = Fin (min a b)"
  by (auto simp: fmin_def min_def)

lemma is_finite_iff: "is_finite v \<longleftrightarrow> (\<exists>x. v = Fin x)"
  by (cases v) (simp_all add: is_finite_def)

lemma is_finite_simps [simp]: "is_finite (Fin x)" "\<not> is_finite PInf" "\<not> is_finite MInf" "\<not> is_finite NaN"
  by (simp_all add: is_finite_def)

lemma f64_ok_simps [simp]: "f64_ok PInf" "f64_ok MInf" "f64_ok NaN" "f64_ok (Fin 0)"
  by (simp_all add: f64_ok_def)

lemma f64_ok_Fin: "f64_ok (Fin x) \<longleftrightarrow> rnd_rat x = x \<and> \<bar>x\<bar> < pow2 1024"
  by (simp add: f64_ok_def)

lemma f64_ok_rnd [simp]: "f64_ok (rnd x)"
  by (auto simp: rnd_def Let_def f64_ok_Fin)

lemma rnd_exact: "f64_ok (Fin x) \<Longrightarrow> rnd x = Fin x"
  by (auto simp: f64_ok_Fin rnd_def)

lemma f64_ok_minus [simp]: "f64_ok (Fin (- x)) \<longleftrightarrow> f64_ok (Fin x)"
  by (simp add: f64_ok_Fin)

lemma f64_ok_int:
  assumes "\<bar>m\<bar> \<le> 2 ^ 53"
  shows "f64_ok (Fin (of_int m))"
proof -
  have "(of_int \<bar>m\<bar> :: rat) \<le> of_int (2 ^ 53)" using assms by (simp only: of_int_le_iff)
  also have "\<dots> = pow2 53" by (simp add: pow2_nat)
  also have "\<dots> < pow2 1024" by simp
  finally show ?thesis using rnd_rat_fixed [of m 0] assms by (simp add: f64_ok_Fin)
qed

lemma f64_ok_pow2: "- 1074 \<le> e \<Longrightarrow> e < 1024 \<Longrightarrow> f64_ok (Fin (pow2 e))"
  using rnd_rat_fixed [of 1 e] by (simp add: f64_ok_Fin)

lemma f64_ok_1 [simp]: "f64_ok (Fin 1)"
  using f64_ok_int [of 1] by simp

lemma f64_ok_numeral: "(numeral n :: int) \<le> 2 ^ 53 \<Longrightarrow> f64_ok (Fin (numeral n))"
  using f64_ok_int [of "numeral n"] by simp

lemma rnd_0 [simp]: "rnd 0 = Fin 0" and rnd_1 [simp]: "rnd 1 = Fin 1"
  by (simp_all add: rnd_exact)

text \<open>The workhorse: rounding never crosses a double.\<close>

lemma rnd_between:
  assumes "f64_ok (Fin a)" "f64_ok (Fin b)" "a \<le> x" "x \<le> b"
  obtains r where "rnd x = Fin r" "a \<le> r" "r \<le> b" "f64_ok (Fin r)"
proof -
  have r: "a \<le> rnd_rat x" "rnd_rat x \<le> b"
    using rnd_rat_mono [OF assms(3)] rnd_rat_mono [OF assms(4)] assms(1,2) by (simp_all add: f64_ok_Fin)
  moreover have "- pow2 1024 < a" "b < pow2 1024"
    using assms(1,2) by (auto simp: f64_ok_Fin)
  ultimately have "rnd x = Fin (rnd_rat x)"
    by (simp add: rnd_def Let_def)
  with r that show ?thesis using f64_ok_rnd [of x] by metis
qed

lemma f64_ok_fneg [simp]: "f64_ok (fneg a) \<longleftrightarrow> f64_ok a"
  by (cases a) simp_all

lemma f64_ok_inf_signed [simp]: "f64_ok (inf_signed a)"
  by (simp add: inf_signed_def)

lemma f64_ok_arith [simp]: "f64_ok (fadd a b)" "f64_ok (fsub a b)" "f64_ok (fmul a b)" "f64_ok (fdiv a b)"
  by (cases a; cases b; simp add: fsub_def)+

lemma f64_ok_choice: "f64_ok a \<Longrightarrow> f64_ok b \<Longrightarrow> f64_ok (fmax a b)"
  "f64_ok a \<Longrightarrow> f64_ok b \<Longrightarrow> f64_ok (fmin a b)"
  by (simp_all add: fmax_def fmin_def)

end
