(* ===== verification/Controller_Config.thy ===== *)
theory Controller_Config
  imports Float64
begin

text \<open>
  The configuration of the rate controller and its validation: \<open>config_validation.rs\<close> and the rate part of
  \<open>Config::validate\<close> in \<open>main.rs\<close>, for the build without the optional calibration and transport-probe
  features (the Lite package). The record has the options these checks and the controller read. A
  validation is the list of its checks in source order; the first failing check is the error.
\<close>

section \<open>Data\<close>

record config =
  adjust_dl_shaper_rate :: bool
  adjust_ul_shaper_rate :: bool
  min_dl_shaper_rate_kbps :: f64
  base_dl_shaper_rate_kbps :: f64
  max_dl_shaper_rate_kbps :: f64
  min_ul_shaper_rate_kbps :: f64
  base_ul_shaper_rate_kbps :: f64
  max_ul_shaper_rate_kbps :: f64
  manage_sqm :: bool
  adaptive_ceiling_enabled :: bool
  adaptive_ceiling_dl_cap_kbps :: f64
  adaptive_ceiling_ul_cap_kbps :: f64
  adaptive_ceiling_dl_safe_kbps :: f64
  adaptive_ceiling_ul_safe_kbps :: f64
  adaptive_ceiling_dl_evidence :: string
  adaptive_ceiling_ul_evidence :: string
  adaptive_ceiling_hold_time_s :: f64
  adaptive_ceiling_growth_percent :: f64
  adaptive_ceiling_probe_duration_s :: f64
  adaptive_ceiling_cooldown_s :: f64
  adaptive_ceiling_failed_bound_ttl_s :: f64
  connection_active_thr_kbps :: f64
  connection_stall_thr_kbps :: f64
  high_load_thr :: f64
  alpha_baseline_increase :: f64
  alpha_baseline_decrease :: f64
  alpha_delta_ewma :: f64
  shaper_rate_min_adjust_down_bufferbloat :: f64
  shaper_rate_max_adjust_down_bufferbloat :: f64
  shaper_rate_adjust_down_load_low :: f64
  shaper_rate_min_adjust_up_load_high :: f64
  shaper_rate_max_adjust_up_load_high :: f64
  shaper_rate_adjust_up_load_low :: f64
  dl_owd_delta_delay_thr_ms :: f64
  ul_owd_delta_delay_thr_ms :: f64
  dl_avg_owd_delta_max_adjust_up_thr_ms :: f64
  ul_avg_owd_delta_max_adjust_up_thr_ms :: f64
  dl_avg_owd_delta_max_adjust_down_thr_ms :: f64
  ul_avg_owd_delta_max_adjust_down_thr_ms :: f64
  reflector_sum_owd_baselines_delta_thr_ms :: f64
  reflector_owd_delta_ewma_delta_thr_ms :: f64
  reflector_ping_interval_s :: f64
  reflector_health_check_interval_s :: f64
  reflector_response_deadline_s :: f64
  global_ping_response_timeout_s :: f64
  if_up_check_interval_s :: f64
  route_check_interval_s :: f64
  startup_wait_s :: f64
  sustained_idle_sleep_thr_s :: f64
  reflector_replacement_interval_mins :: f64
  reflector_comparison_interval_mins :: f64
  monitor_achieved_rates_interval_ms :: u64
  monitor_cpu_usage_interval_ms :: u64
  bufferbloat_detection_window :: nat
  bufferbloat_detection_thr :: nat
  bufferbloat_refractory_period_ms :: u64
  decay_refractory_period_ms :: u64
  reflector_misbehaving_detection_window :: nat
  reflector_misbehaving_detection_thr :: nat
  no_pingers :: nat
  reflectors :: "string list"
  dl_max_wire_packet_size_bits :: u64
  ul_max_wire_packet_size_bits :: u64

text \<open>The error texts print doubles; the model keeps the check that failed and its bounds.\<close>

datatype config_error =
    OutOfRange string f64 f64
  | RateOrder string
  | AdjustDownOrder
  | AdjustUpOrder
  | ThresholdOrder string
  | IntervalRange string
  | WindowRange string
  | ThresholdRange string
  | PingerRange
  | HistoryBudget
  | RouteCheckInterval
  | NoReflectors
  | NoPingers
  | PingersExceedReflectors
  | ActiveAboveMinimum string
  | EvidenceUnsupported string
  | LegacyClaimsSafe string
  | SafeOutsideRange string
  | CapBelowMaximum string
  | AdaptiveTimer string

text \<open>A check is the condition that rejects and its error.\<close>

type_synonym check = "bool \<times> config_error"

fun first_failure :: "check list \<Rightarrow> config_error option" where
  "first_failure [] = None"
| "first_failure ((bad, e) # cs) = (if bad then Some e else first_failure cs)"

section \<open>Validation\<close>

definition MAX_WINDOW_SAMPLES :: nat where "MAX_WINDOW_SAMPLES = 4096"
definition MAX_PINGERS :: nat where "MAX_PINGERS = 64"
definition MAX_TIMER_S :: f64 where "MAX_TIMER_S = fdiv (Fin 2147483647) (Fin 1000)"
definition MIN_TIMER_S :: f64 where "MIN_TIMER_S = rnd (1 / 10 ^ 9)"
definition MAX_HISTORY_BYTES :: nat where "MAX_HISTORY_BYTES = 1024 * 1024"
definition MIN_ENABLED_RATE_KBPS :: f64 where "MIN_ENABLED_RATE_KBPS = Fin 1"
definition max_rate :: f64 where "max_rate = Fin 100000000"

definition bounded :: "string \<Rightarrow> f64 \<Rightarrow> f64 \<Rightarrow> f64 \<Rightarrow> check" where
  "bounded name v minimum maximum =
     (\<not> is_finite v \<or> flt v minimum \<or> flt maximum v, OutOfRange name minimum maximum)"

definition rate_checks :: "string \<Rightarrow> bool \<Rightarrow> f64 \<Rightarrow> f64 \<Rightarrow> f64 \<Rightarrow> check list" where
  "rate_checks direction enabled min_r base_r max_r =
     (if \<not> enabled \<and> feq min_r (Fin 0) \<and> feq base_r (Fin 0) \<and> feq max_r (Fin 0) then []
      else [bounded (direction @ '' minimum rate'') min_r MIN_ENABLED_RATE_KBPS max_rate,
            bounded (direction @ '' base rate'') base_r MIN_ENABLED_RATE_KBPS max_rate,
            bounded (direction @ '' maximum rate'') max_r MIN_ENABLED_RATE_KBPS max_rate,
            (flt base_r min_r \<or> flt max_r base_r, RateOrder direction)])"

definition threshold_order :: "string \<Rightarrow> f64 \<Rightarrow> f64 \<Rightarrow> f64 \<Rightarrow> check" where
  "threshold_order direction up delay down = (flt delay up \<or> flt down delay, ThresholdOrder direction)"

definition window_checks :: "string \<Rightarrow> nat \<Rightarrow> nat \<Rightarrow> check list" where
  "window_checks name window threshold =
     [(\<not> (1 \<le> window \<and> window \<le> MAX_WINDOW_SAMPLES), WindowRange name),
      (threshold = 0 \<or> threshold > window, ThresholdRange name)]"

definition interval_check :: "string \<Rightarrow> u64 \<Rightarrow> check" where
  "interval_check name ms = (ms = 0 \<or> ms > 2147483647, IntervalRange name)"

definition factor_checks :: "config \<Rightarrow> check list" where
  "factor_checks c =
     [bounded ''connection_active_thr_kbps'' (connection_active_thr_kbps c) (Fin 0) max_rate,
      bounded ''connection_stall_thr_kbps'' (connection_stall_thr_kbps c) (Fin 0) max_rate,
      bounded ''adaptive_ceiling_dl_cap_kbps'' (adaptive_ceiling_dl_cap_kbps c) (Fin 0) max_rate,
      bounded ''adaptive_ceiling_ul_cap_kbps'' (adaptive_ceiling_ul_cap_kbps c) (Fin 0) max_rate,
      bounded ''adaptive_ceiling_dl_safe_kbps'' (adaptive_ceiling_dl_safe_kbps c) (Fin 0) max_rate,
      bounded ''adaptive_ceiling_ul_safe_kbps'' (adaptive_ceiling_ul_safe_kbps c) (Fin 0) max_rate,
      bounded ''high_load_thr'' (high_load_thr c) (rnd (1/100)) (Fin 1),
      bounded ''alpha_baseline_increase'' (alpha_baseline_increase c) (Fin 0) (Fin 1),
      bounded ''alpha_baseline_decrease'' (alpha_baseline_decrease c) (Fin 0) (Fin 1),
      bounded ''alpha_delta_ewma'' (alpha_delta_ewma c) (Fin 0) (Fin 1),
      bounded ''shaper_rate_min_adjust_down_bufferbloat'' (shaper_rate_min_adjust_down_bufferbloat c)
        f64_MIN_POSITIVE (Fin 1),
      bounded ''shaper_rate_max_adjust_down_bufferbloat'' (shaper_rate_max_adjust_down_bufferbloat c)
        f64_MIN_POSITIVE (Fin 1),
      bounded ''shaper_rate_adjust_down_load_low'' (shaper_rate_adjust_down_load_low c) f64_MIN_POSITIVE (Fin 1),
      bounded ''shaper_rate_min_adjust_up_load_high'' (shaper_rate_min_adjust_up_load_high c) (Fin 1) max_rate,
      bounded ''shaper_rate_max_adjust_up_load_high'' (shaper_rate_max_adjust_up_load_high c) (Fin 1) max_rate,
      bounded ''shaper_rate_adjust_up_load_low'' (shaper_rate_adjust_up_load_low c) (Fin 1) max_rate,
      (flt (shaper_rate_min_adjust_down_bufferbloat c) (shaper_rate_max_adjust_down_bufferbloat c), AdjustDownOrder),
      (flt (shaper_rate_max_adjust_up_load_high c) (shaper_rate_min_adjust_up_load_high c), AdjustUpOrder)]"

definition delay_checks :: "config \<Rightarrow> check list" where
  "delay_checks c =
     (let limit = fmul MAX_TIMER_S (Fin 1000)
      in [bounded ''dl_owd_delta_delay_thr_ms'' (dl_owd_delta_delay_thr_ms c) (Fin 0) limit,
          bounded ''ul_owd_delta_delay_thr_ms'' (ul_owd_delta_delay_thr_ms c) (Fin 0) limit,
          bounded ''dl_avg_owd_delta_max_adjust_up_thr_ms'' (dl_avg_owd_delta_max_adjust_up_thr_ms c) (Fin 0) limit,
          bounded ''ul_avg_owd_delta_max_adjust_up_thr_ms'' (ul_avg_owd_delta_max_adjust_up_thr_ms c) (Fin 0) limit,
          bounded ''dl_avg_owd_delta_max_adjust_down_thr_ms'' (dl_avg_owd_delta_max_adjust_down_thr_ms c) (Fin 0) limit,
          bounded ''ul_avg_owd_delta_max_adjust_down_thr_ms'' (ul_avg_owd_delta_max_adjust_down_thr_ms c) (Fin 0) limit,
          bounded ''reflector_sum_owd_baselines_delta_thr_ms'' (reflector_sum_owd_baselines_delta_thr_ms c) (Fin 0) limit,
          bounded ''reflector_owd_delta_ewma_delta_thr_ms'' (reflector_owd_delta_ewma_delta_thr_ms c) (Fin 0) limit,
          threshold_order ''download'' (dl_avg_owd_delta_max_adjust_up_thr_ms c) (dl_owd_delta_delay_thr_ms c)
            (dl_avg_owd_delta_max_adjust_down_thr_ms c),
          threshold_order ''upload'' (ul_avg_owd_delta_max_adjust_up_thr_ms c) (ul_owd_delta_delay_thr_ms c)
            (ul_avg_owd_delta_max_adjust_down_thr_ms c)])"

definition timer_checks :: "config \<Rightarrow> check list" where
  "timer_checks c =
     [bounded ''reflector_ping_interval_s'' (reflector_ping_interval_s c) (rnd (5/100)) MAX_TIMER_S,
      bounded ''reflector_health_check_interval_s'' (reflector_health_check_interval_s c) MIN_TIMER_S MAX_TIMER_S,
      bounded ''reflector_response_deadline_s'' (reflector_response_deadline_s c) MIN_TIMER_S MAX_TIMER_S,
      bounded ''global_ping_response_timeout_s'' (global_ping_response_timeout_s c) MIN_TIMER_S MAX_TIMER_S,
      bounded ''if_up_check_interval_s'' (if_up_check_interval_s c) MIN_TIMER_S MAX_TIMER_S,
      bounded ''route_check_interval_s'' (route_check_interval_s c) MIN_TIMER_S MAX_TIMER_S,
      bounded ''adaptive_ceiling_hold_time_s'' (adaptive_ceiling_hold_time_s c) MIN_TIMER_S MAX_TIMER_S,
      bounded ''adaptive_ceiling_probe_duration_s'' (adaptive_ceiling_probe_duration_s c) MIN_TIMER_S MAX_TIMER_S,
      bounded ''adaptive_ceiling_failed_bound_ttl_s'' (adaptive_ceiling_failed_bound_ttl_s c) MIN_TIMER_S MAX_TIMER_S,
      bounded ''startup_wait_s'' (startup_wait_s c) (Fin 0) MAX_TIMER_S,
      bounded ''sustained_idle_sleep_thr_s'' (sustained_idle_sleep_thr_s c) (Fin 0) MAX_TIMER_S,
      bounded ''adaptive_ceiling_cooldown_s'' (adaptive_ceiling_cooldown_s c) (Fin 0) MAX_TIMER_S,
      bounded ''reflector_replacement_interval_mins'' (reflector_replacement_interval_mins c) (Fin 0)
        (fdiv MAX_TIMER_S (Fin 60)),
      bounded ''reflector_comparison_interval_mins'' (reflector_comparison_interval_mins c) (Fin 0)
        (fdiv MAX_TIMER_S (Fin 60))]"

text \<open>The saturation of the history sum does not matter: the comparison is with one mebibyte.\<close>

definition count_checks :: "config \<Rightarrow> check list" where
  "count_checks c =
     [interval_check ''monitor_achieved_rates_interval_ms'' (monitor_achieved_rates_interval_ms c),
      interval_check ''monitor_cpu_usage_interval_ms'' (monitor_cpu_usage_interval_ms c)]
     @ window_checks ''bufferbloat_detection'' (bufferbloat_detection_window c) (bufferbloat_detection_thr c)
     @ window_checks ''reflector_misbehaving_detection'' (reflector_misbehaving_detection_window c)
         (reflector_misbehaving_detection_thr c)
     @ [(\<not> (1 \<le> no_pingers c \<and> no_pingers c \<le> MAX_PINGERS), PingerRange),
        (bufferbloat_detection_window c * 18
           + length (reflectors c) * reflector_misbehaving_detection_window c > MAX_HISTORY_BYTES, HistoryBudget)]"

definition validate_core :: "config \<Rightarrow> config_error option" where
  "validate_core c = first_failure
     (rate_checks ''download'' (adjust_dl_shaper_rate c) (min_dl_shaper_rate_kbps c) (base_dl_shaper_rate_kbps c)
        (max_dl_shaper_rate_kbps c)
      @ rate_checks ''upload'' (adjust_ul_shaper_rate c) (min_ul_shaper_rate_kbps c) (base_ul_shaper_rate_kbps c)
        (max_ul_shaper_rate_kbps c)
      @ factor_checks c @ delay_checks c @ timer_checks c @ count_checks c)"

text \<open>The part of \<open>Config::validate\<close> after \<open>validate_core\<close> that concerns reflectors, rates and the adaptive
  ceiling. The character check of the reflectors is the \<open>else\<close> branch of a statement that only the
  calibration build compiles, so the Lite build has none.\<close>

definition is_valid_reflector_candidate :: "string \<Rightarrow> bool" where
  "is_valid_reflector_candidate s =
     (if s = [] \<or> length s > 253 \<or> starts_with s ''-'' \<or> contains_str s ''://'' then False
      else list_all (\<lambda>ch. is_ascii_alphanumeric ch \<or> ch \<in> set ''.-:'') s)"

definition evidence_checks :: "string \<Rightarrow> f64 \<Rightarrow> f64 \<Rightarrow> f64 \<Rightarrow> string \<Rightarrow> check list" where
  "evidence_checks direction safe base_r maximum evidence =
     [(evidence \<notin> {''legacy_unverified'', ''shaped_validation'', ''retained_configuration'', ''user_configured''},
       EvidenceUnsupported direction),
      (if evidence = ''legacy_unverified'' then (\<not> feq safe (Fin 0), LegacyClaimsSafe direction)
       else (\<not> is_finite safe \<or> flt safe base_r \<or> flt maximum safe, SafeOutsideRange direction))]"

definition adaptive_checks :: "config \<Rightarrow> check list" where
  "adaptive_checks c =
     (if \<not> adaptive_ceiling_enabled c then []
      else evidence_checks ''download'' (adaptive_ceiling_dl_safe_kbps c) (base_dl_shaper_rate_kbps c)
             (max_dl_shaper_rate_kbps c) (adaptive_ceiling_dl_evidence c)
         @ evidence_checks ''upload'' (adaptive_ceiling_ul_safe_kbps c) (base_ul_shaper_rate_kbps c)
             (max_ul_shaper_rate_kbps c) (adaptive_ceiling_ul_evidence c)
         @ [(\<not> is_finite (adaptive_ceiling_dl_cap_kbps c)
               \<or> flt (adaptive_ceiling_dl_cap_kbps c) (max_dl_shaper_rate_kbps c), CapBelowMaximum ''download''),
            (\<not> is_finite (adaptive_ceiling_ul_cap_kbps c)
               \<or> flt (adaptive_ceiling_ul_cap_kbps c) (max_ul_shaper_rate_kbps c), CapBelowMaximum ''upload''),
            (\<not> is_finite (adaptive_ceiling_hold_time_s c) \<or> fle (adaptive_ceiling_hold_time_s c) (Fin 0),
             AdaptiveTimer ''adaptive_ceiling_hold_time_s''),
            (\<not> is_finite (adaptive_ceiling_growth_percent c) \<or> fle (adaptive_ceiling_growth_percent c) (Fin 0)
               \<or> flt (Fin 10) (adaptive_ceiling_growth_percent c), AdaptiveTimer ''adaptive_ceiling_growth_percent''),
            (\<not> is_finite (adaptive_ceiling_probe_duration_s c)
               \<or> fle (adaptive_ceiling_probe_duration_s c) (Fin 0), AdaptiveTimer ''adaptive_ceiling_probe_duration_s''),
            (\<not> is_finite (adaptive_ceiling_cooldown_s c) \<or> flt (adaptive_ceiling_cooldown_s c) (Fin 0),
             AdaptiveTimer ''adaptive_ceiling_cooldown_s''),
            (\<not> is_finite (adaptive_ceiling_failed_bound_ttl_s c)
               \<or> fle (adaptive_ceiling_failed_bound_ttl_s c) (Fin 0),
             AdaptiveTimer ''adaptive_ceiling_failed_bound_ttl_s'')])"

definition rate_validate :: "config \<Rightarrow> config_error option" where
  "rate_validate c = first_failure
     ((\<not> (fle (Fin 1) (route_check_interval_s c) \<and> fle (route_check_interval_s c) (Fin 60)), RouteCheckInterval)
      # (reflectors c = [], NoReflectors)
      # (no_pingers c = 0, NoPingers)
      # (no_pingers c > length (reflectors c), PingersExceedReflectors)
      # (adjust_dl_shaper_rate c \<and> flt (min_dl_shaper_rate_kbps c) (connection_active_thr_kbps c),
       ActiveAboveMinimum ''download'')
      # (adjust_ul_shaper_rate c \<and> flt (min_ul_shaper_rate_kbps c) (connection_active_thr_kbps c),
       ActiveAboveMinimum ''upload'')
      # adaptive_checks c)"

definition config_validate :: "config \<Rightarrow> config_error option" where
  "config_validate c = (case validate_core c of Some e \<Rightarrow> Some e | None \<Rightarrow> rate_validate c)"

section \<open>What a valid configuration is\<close>

lemma first_failure_None_iff: "first_failure cs = None \<longleftrightarrow> (\<forall>p\<in>set cs. \<not> fst p)"
  by (induction cs rule: first_failure.induct) auto

lemma bounded_ok:
  assumes "\<not> fst (bounded name v (Fin a) (Fin b))"
  obtains x where "v = Fin x" "a \<le> x" "x \<le> b"
  using assms by (cases v) (auto simp: bounded_def)

end
