(* ===== verification/Adaptive_Ceiling.thy ===== *)
theory Adaptive_Ceiling
  imports Float64 Machine
begin

text \<open>
  The bounded ceiling probe of one direction (\<open>adaptive_ceiling.rs\<close>): a state machine that raises the
  upper limit of the shaper rate step by step under clean high load, keeps what it has proved safe, and
  falls back on bufferbloat. An \<open>Instant\<close> and a \<open>Duration\<close> are nanoseconds (\<open>nat\<close>);
  \<open>duration_since\<close> saturates at zero, which is truncated subtraction.
\<close>

section \<open>Data\<close>

type_synonym instant = nat
type_synonym duration = nat

datatype adaptive_ceiling_phase = Cruise | Qualify | ProbeRamp | ProbeObserve | Backoff

datatype adaptive_ceiling_change = Raised f64 f64 | Lowered f64 f64

record adaptive_ceiling_transition =
  tr_from :: adaptive_ceiling_phase
  tr_to :: adaptive_ceiling_phase
  tr_reason :: string

record adaptive_ceiling_update =
  up_change :: "adaptive_ceiling_change option"
  up_transition :: "adaptive_ceiling_transition option"

record adaptive_ceiling_policy =
  hold_time :: duration
  probe_step_percent :: f64
  probe_duration :: duration
  cooldown :: duration
  failed_bound_ttl :: duration
  eligibility_grace :: duration
  minimum_throughput_gain_percent :: f64

record adaptive_ceiling_observation =
  ob_eligible :: bool
  ob_bufferbloat :: bool
  ob_shaper_rate_kbps :: f64
  ob_achieved_rate_kbps :: f64

record adaptive_ceiling_direction =
  ac_configured_max_kbps :: f64
  ac_effective_max_kbps :: f64
  ac_absolute_cap_kbps :: f64
  ac_initial_safe_ceiling_kbps :: f64
  ac_safe_ceiling_kbps :: f64
  ac_failed_ceiling_kbps :: "f64 option"
  ac_failed_at :: "instant option"
  ac_probe_target_kbps :: "f64 option"
  ac_probe_baseline_achieved_kbps :: "f64 option"
  ac_probe_peak_achieved_kbps :: f64
  ac_phase :: adaptive_ceiling_phase
  ac_phase_since :: instant
  ac_last_eligible_at :: "instant option"
  ac_last_transition_reason :: string

section \<open>Operations\<close>

definition update_default :: adaptive_ceiling_update where
  "update_default = \<lparr>up_change = None, up_transition = None\<rparr>"

definition new_at_with_verified_safe :: "f64 \<Rightarrow> f64 \<Rightarrow> f64 \<Rightarrow> instant \<Rightarrow> adaptive_ceiling_direction" where
  "new_at_with_verified_safe configured_max_kbps absolute_cap_kbps verified_safe_kbps now =
     (let absolute_cap_kbps = fmax absolute_cap_kbps configured_max_kbps;
          verified_safe_kbps = fmin (fmin (fmax verified_safe_kbps (Fin 1)) (fmax configured_max_kbps (Fin 1)))
            absolute_cap_kbps
      in \<lparr>ac_configured_max_kbps = configured_max_kbps, ac_effective_max_kbps = verified_safe_kbps,
          ac_absolute_cap_kbps = absolute_cap_kbps, ac_initial_safe_ceiling_kbps = verified_safe_kbps,
          ac_safe_ceiling_kbps = verified_safe_kbps, ac_failed_ceiling_kbps = None, ac_failed_at = None,
          ac_probe_target_kbps = None, ac_probe_baseline_achieved_kbps = None,
          ac_probe_peak_achieved_kbps = Fin 0, ac_phase = Cruise, ac_phase_since = now,
          ac_last_eligible_at = None, ac_last_transition_reason = ''initialized''\<rparr>)"

definition DURATION_MAX :: duration where
  "DURATION_MAX = (2 ^ 64 - 1) * 1000000000 + 999999999"

definition ramp_timeout :: "adaptive_ceiling_policy \<Rightarrow> duration" where
  "ramp_timeout policy =
     max (max (hold_time policy) (min (probe_duration policy * 3) DURATION_MAX)) 15000000000"

definition rate_change :: "f64 \<Rightarrow> f64 \<Rightarrow> adaptive_ceiling_change option" where
  "rate_change from_kbps to_kbps =
     (if flt (fadd from_kbps f64_EPSILON) to_kbps then Some (Raised from_kbps to_kbps)
      else if flt (fadd to_kbps f64_EPSILON) from_kbps then Some (Lowered from_kbps to_kbps)
      else None)"

definition enter_phase ::
  "adaptive_ceiling_direction \<Rightarrow> instant \<Rightarrow> adaptive_ceiling_phase \<Rightarrow> string
     \<Rightarrow> adaptive_ceiling_direction \<times> adaptive_ceiling_transition" where
  "enter_phase d now phase reason =
     (d\<lparr>ac_phase := phase, ac_phase_since := now, ac_last_transition_reason := reason\<rparr>,
      \<lparr>tr_from = ac_phase d, tr_to = phase, tr_reason = reason\<rparr>)"

definition eligibility_expired :: "adaptive_ceiling_direction \<Rightarrow> instant \<Rightarrow> duration \<Rightarrow> bool" where
  "eligibility_expired d now grace =
     (case ac_last_eligible_at d of Some eligible_at \<Rightarrow> now - eligible_at > grace | None \<Rightarrow> True)"

definition shaper_at_ceiling :: "adaptive_ceiling_direction \<Rightarrow> f64 \<Rightarrow> bool" where
  "shaper_at_ceiling d shaper_rate_kbps = fle (fmul (ac_effective_max_kbps d) (rnd (98/100))) shaper_rate_kbps"

definition record_failed_bound :: "adaptive_ceiling_direction \<Rightarrow> f64 \<Rightarrow> instant \<Rightarrow> adaptive_ceiling_direction" where
  "record_failed_bound d failed_kbps now =
     d\<lparr>ac_failed_ceiling_kbps :=
         Some (case ac_failed_ceiling_kbps d of Some current \<Rightarrow> fmin current failed_kbps | None \<Rightarrow> failed_kbps),
       ac_failed_at := Some now\<rparr>"

definition probe_bound :: "adaptive_ceiling_direction \<Rightarrow> f64 \<Rightarrow> f64 option" where
  "probe_bound d step_percent =
     (let safe = ac_safe_ceiling_kbps d;
          open_target = fmul safe (fadd (Fin 1) (fdiv step_percent (Fin 100)))
      in case ac_failed_ceiling_kbps d of
           Some failed \<Rightarrow>
             if flt safe failed then Some (fmin open_target (fadd safe (fdiv (fsub failed safe) (Fin 2))))
             else None
         | None \<Rightarrow> Some open_target)"

definition next_probe_target :: "adaptive_ceiling_direction \<Rightarrow> f64 \<Rightarrow> f64 option" where
  "next_probe_target d step_percent =
     (let safe = ac_safe_ceiling_kbps d
      in if fle (ac_absolute_cap_kbps d) safe then None
         else if (case ac_failed_ceiling_kbps d of
                    Some failed \<Rightarrow> fle failed (fadd safe (fmax (fmul safe (rnd (5/1000))) (Fin 1000)))
                  | None \<Rightarrow> False) then None
         else case probe_bound d step_percent of
           None \<Rightarrow> None
         | Some bounded_target \<Rightarrow>
             (let target = fround (fmin (fmax bounded_target (fadd safe (Fin 1))) (ac_absolute_cap_kbps d))
              in if flt (fadd safe f64_EPSILON) target then Some target else None))"

definition expire_failed_bound ::
  "adaptive_ceiling_direction \<Rightarrow> instant \<Rightarrow> duration \<Rightarrow> adaptive_ceiling_direction \<times> adaptive_ceiling_update" where
  "expire_failed_bound d now ttl =
     (case ac_failed_at d of
        None \<Rightarrow> (d, update_default)
      | Some failed_at \<Rightarrow>
          if now - failed_at < ttl then (d, update_default)
          else (d\<lparr>ac_failed_ceiling_kbps := None, ac_failed_at := None,
                  ac_last_transition_reason := ''failed bound expired''\<rparr>,
                \<lparr>up_change = None, up_transition = Some
                   \<lparr>tr_from = ac_phase d, tr_to = ac_phase d, tr_reason = ''failed bound expired''\<rparr>\<rparr>))"

text \<open>The five assignments that end every probe, and the fall back to the safe ceiling.\<close>

definition clear_probe :: "adaptive_ceiling_direction \<Rightarrow> adaptive_ceiling_direction" where
  "clear_probe d = d\<lparr>ac_probe_target_kbps := None, ac_probe_baseline_achieved_kbps := None,
     ac_probe_peak_achieved_kbps := Fin 0, ac_effective_max_kbps := ac_safe_ceiling_kbps d,
     ac_last_eligible_at := None\<rparr>"

definition leave_probe ::
  "adaptive_ceiling_direction \<Rightarrow> f64 \<Rightarrow> instant \<Rightarrow> adaptive_ceiling_phase \<Rightarrow> string
     \<Rightarrow> adaptive_ceiling_direction \<times> adaptive_ceiling_update" where
  "leave_probe d previous now phase reason =
     (let d = clear_probe d; (d', transition) = enter_phase d now phase reason
      in (d', \<lparr>up_change = rate_change previous (ac_effective_max_kbps d), up_transition = Some transition\<rparr>))"

definition abort_probe ::
  "adaptive_ceiling_direction \<Rightarrow> instant \<Rightarrow> string \<Rightarrow> adaptive_ceiling_direction \<times> adaptive_ceiling_update" where
  "abort_probe d now reason = leave_probe d (ac_effective_max_kbps d) now Backoff reason"

definition pause ::
  "adaptive_ceiling_direction \<Rightarrow> instant \<Rightarrow> string \<Rightarrow> adaptive_ceiling_direction \<times> adaptive_ceiling_update" where
  "pause d now reason = leave_probe d (ac_effective_max_kbps d) now Cruise reason"

definition abort_probe_gap ::
  "adaptive_ceiling_direction \<Rightarrow> instant \<Rightarrow> adaptive_ceiling_direction \<times> adaptive_ceiling_update" where
  "abort_probe_gap d now =
     (if ac_phase d \<in> {Qualify, ProbeRamp, ProbeObserve} then abort_probe d now ''probe response gap''
      else (d, update_default))"

definition reset_to_configured ::
  "adaptive_ceiling_direction \<Rightarrow> instant \<Rightarrow> adaptive_ceiling_direction \<times> adaptive_ceiling_update" where
  "reset_to_configured d now =
     leave_probe (d\<lparr>ac_safe_ceiling_kbps := ac_initial_safe_ceiling_kbps d,
                    ac_failed_ceiling_kbps := None, ac_failed_at := None\<rparr>)
       (ac_effective_max_kbps d) now Cruise ''stall reset''"

definition handle_bufferbloat ::
  "adaptive_ceiling_direction \<Rightarrow> instant \<Rightarrow> f64 \<Rightarrow> adaptive_ceiling_direction \<times> adaptive_ceiling_update" where
  "handle_bufferbloat d now shaper_rate_kbps =
     (if ac_phase d = Backoff then (d, update_default)
      else
        let previous = ac_effective_max_kbps d;
            failed = fmax (case ac_probe_target_kbps d of Some t \<Rightarrow> t | None \<Rightarrow> ac_effective_max_kbps d)
              (ac_initial_safe_ceiling_kbps d);
            d = (if flt (ac_safe_ceiling_kbps d) failed then record_failed_bound d failed now
                 else if flt (ac_initial_safe_ceiling_kbps d) (ac_safe_ceiling_kbps d)
                      \<and> flt shaper_rate_kbps (ac_safe_ceiling_kbps d)
                 then (record_failed_bound d (ac_safe_ceiling_kbps d) now)
                        \<lparr>ac_safe_ceiling_kbps := fmax shaper_rate_kbps (ac_initial_safe_ceiling_kbps d)\<rparr>
                 else d)
        in leave_probe d previous now Backoff ''confirmed bufferbloat'')"

text \<open>The branches of \<open>observe\<close>, one per phase. \<open>u\<close> is the update so far.\<close>

definition observe_cruise ::
  "adaptive_ceiling_direction \<Rightarrow> adaptive_ceiling_update \<Rightarrow> instant \<Rightarrow> adaptive_ceiling_observation
     \<Rightarrow> adaptive_ceiling_policy \<Rightarrow> adaptive_ceiling_direction \<times> adaptive_ceiling_update" where
  "observe_cruise d u now ob policy =
     (if ob_eligible ob \<and> shaper_at_ceiling d (ob_shaper_rate_kbps ob)
          \<and> next_probe_target d (probe_step_percent policy) \<noteq> None
      then let d = d\<lparr>ac_probe_baseline_achieved_kbps := Some (fmax (ob_achieved_rate_kbps ob) (Fin 0)),
                     ac_probe_peak_achieved_kbps := Fin 0\<rparr>;
               (d, transition) = enter_phase d now Qualify ''clean high load qualification started''
           in (d, u\<lparr>up_transition := Some transition\<rparr>)
      else (d, u))"

definition observe_qualify ::
  "adaptive_ceiling_direction \<Rightarrow> adaptive_ceiling_update \<Rightarrow> instant \<Rightarrow> adaptive_ceiling_observation
     \<Rightarrow> adaptive_ceiling_policy \<Rightarrow> adaptive_ceiling_direction \<times> adaptive_ceiling_update" where
  "observe_qualify d u now ob policy =
     (let achieved = fmax (ob_achieved_rate_kbps ob) (Fin 0);
          d = (if ob_eligible ob
               then d\<lparr>ac_probe_baseline_achieved_kbps :=
                        Some (case ac_probe_baseline_achieved_kbps d of
                                Some current \<Rightarrow> fmax current achieved | None \<Rightarrow> achieved)\<rparr>
               else d);
          stop = (\<lambda>reason.
            let (d, transition) = enter_phase (d\<lparr>ac_probe_baseline_achieved_kbps := None,
                  ac_probe_peak_achieved_kbps := Fin 0\<rparr>) now Cruise reason
            in (d, u\<lparr>up_transition := Some transition\<rparr>))
      in if eligibility_expired d now (eligibility_grace policy) then stop ''qualification grace expired''
         else if now - ac_phase_since d \<ge> hold_time policy \<and> ob_eligible ob
                 \<and> shaper_at_ceiling d (ob_shaper_rate_kbps ob)
         then (case next_probe_target d (probe_step_percent policy) of
                 Some target \<Rightarrow>
                   let previous = ac_effective_max_kbps d;
                       (d, transition) = enter_phase (d\<lparr>ac_probe_target_kbps := Some target,
                          ac_effective_max_kbps := target\<rparr>) now ProbeRamp ''bounded probe opened''
                   in (d, u\<lparr>up_change := rate_change previous target, up_transition := Some transition\<rparr>)
               | None \<Rightarrow> stop ''no probe space remains'')
         else (d, u))"

definition probe_peak :: "adaptive_ceiling_direction \<Rightarrow> adaptive_ceiling_observation \<Rightarrow> adaptive_ceiling_direction" where
  "probe_peak d ob =
     (if ob_eligible ob
      then d\<lparr>ac_probe_peak_achieved_kbps :=
               fmax (ac_probe_peak_achieved_kbps d) (fmax (ob_achieved_rate_kbps ob) (Fin 0))\<rparr>
      else d)"

definition probe_target_or_safe :: "adaptive_ceiling_direction \<Rightarrow> f64" where
  "probe_target_or_safe d =
     (case ac_probe_target_kbps d of Some t \<Rightarrow> t | None \<Rightarrow> ac_safe_ceiling_kbps d)"

definition observe_ramp ::
  "adaptive_ceiling_direction \<Rightarrow> adaptive_ceiling_update \<Rightarrow> instant \<Rightarrow> adaptive_ceiling_observation
     \<Rightarrow> adaptive_ceiling_policy \<Rightarrow> adaptive_ceiling_direction \<times> adaptive_ceiling_update" where
  "observe_ramp d u now ob policy =
     (if eligibility_expired d now (eligibility_grace policy) then abort_probe d now ''probe ramp grace expired''
      else let d = probe_peak d ob; target = probe_target_or_safe d
           in if ob_eligible ob \<and> fle (fmul target (rnd (98/100))) (ob_shaper_rate_kbps ob)
              then let (d, transition) = enter_phase d now ProbeObserve ''probe target reached''
                   in (d, u\<lparr>up_transition := Some transition\<rparr>)
              else if now - ac_phase_since d \<ge> ramp_timeout policy then abort_probe d now ''probe ramp timed out''
              else (d, u))"

definition required_gain :: "adaptive_ceiling_direction \<Rightarrow> f64 \<Rightarrow> f64 \<Rightarrow> adaptive_ceiling_policy \<Rightarrow> f64" where
  "required_gain d target baseline policy =
     (let probe_headroom = fmax (fsub target (ac_safe_ceiling_kbps d)) (Fin 0)
      in fmin (fmax (fdiv (fmul baseline (fmax (minimum_throughput_gain_percent policy) (Fin 0))) (Fin 100)) (Fin 50))
           (fmax (fmul probe_headroom (Fin (1/2))) (Fin 1)))"

definition observe_probe ::
  "adaptive_ceiling_direction \<Rightarrow> adaptive_ceiling_update \<Rightarrow> instant \<Rightarrow> adaptive_ceiling_observation
     \<Rightarrow> adaptive_ceiling_policy \<Rightarrow> adaptive_ceiling_direction \<times> adaptive_ceiling_update" where
  "observe_probe d u now ob policy =
     (if eligibility_expired d now (eligibility_grace policy) then
        abort_probe d now ''probe observation grace expired''
      else let d = probe_peak d ob
           in if ob_eligible ob \<and> now - ac_phase_since d \<ge> probe_duration policy
              then let target = probe_target_or_safe d;
                       baseline = (case ac_probe_baseline_achieved_kbps d of Some b \<Rightarrow> b | None \<Rightarrow> Fin 0)
                   in if flt (Fin 0) baseline
                         \<and> flt (fadd (ac_probe_peak_achieved_kbps d) f64_EPSILON)
                               (fadd baseline (required_gain d target baseline policy))
                      then abort_probe d now ''probe added no measurable throughput''
                      else let (d, transition) = enter_phase
                                 (d\<lparr>ac_safe_ceiling_kbps := target, ac_effective_max_kbps := target,
                                    ac_probe_target_kbps := None, ac_probe_baseline_achieved_kbps := None,
                                    ac_probe_peak_achieved_kbps := Fin 0\<rparr>) now Backoff ''probe confirmed safe''
                           in (d, u\<lparr>up_transition := Some transition\<rparr>)
              else (d, u))"

definition observe_backoff ::
  "adaptive_ceiling_direction \<Rightarrow> adaptive_ceiling_update \<Rightarrow> instant
     \<Rightarrow> adaptive_ceiling_policy \<Rightarrow> adaptive_ceiling_direction \<times> adaptive_ceiling_update" where
  "observe_backoff d u now policy =
     (if now - ac_phase_since d \<ge> cooldown policy
      then let (d, transition) = enter_phase d now Cruise ''probe cooldown complete''
           in (d, u\<lparr>up_transition := Some transition\<rparr>)
      else (d, u))"

definition observe ::
  "adaptive_ceiling_direction \<Rightarrow> instant \<Rightarrow> adaptive_ceiling_observation \<Rightarrow> adaptive_ceiling_policy
     \<Rightarrow> adaptive_ceiling_direction \<times> adaptive_ceiling_update" where
  "observe d now ob policy =
     (let (d, u) = expire_failed_bound d now (failed_bound_ttl policy);
          d = (if ob_eligible ob then d\<lparr>ac_last_eligible_at := Some now\<rparr> else d)
      in if ob_bufferbloat ob then handle_bufferbloat d now (ob_shaper_rate_kbps ob)
         else case ac_phase d of
           Cruise \<Rightarrow> observe_cruise d u now ob policy
         | Qualify \<Rightarrow> observe_qualify d u now ob policy
         | ProbeRamp \<Rightarrow> observe_ramp d u now ob policy
         | ProbeObserve \<Rightarrow> observe_probe d u now ob policy
         | Backoff \<Rightarrow> observe_backoff d u now policy)"

text \<open>The steps of one direction: observations, pauses, response gaps and resets, with any policy.\<close>

inductive ceiling_step :: "adaptive_ceiling_direction \<Rightarrow> adaptive_ceiling_direction \<Rightarrow> bool" where
  observed: "f64_ok (ob_shaper_rate_kbps ob) \<Longrightarrow> observe d now ob policy = (d', u) \<Longrightarrow> ceiling_step d d'"
| paused: "pause d now reason = (d', u) \<Longrightarrow> ceiling_step d d'"
| gap: "abort_probe_gap d now = (d', u) \<Longrightarrow> ceiling_step d d'"
| reset: "reset_to_configured d now = (d', u) \<Longrightarrow> ceiling_step d d'"

section \<open>The invariant\<close>

text \<open>What the last \<open>round\<close> of the probe target can reach: the cap, or the integer next to it.\<close>

definition cap_limit :: "rat \<Rightarrow> rat" where
  "cap_limit c = max c (of_int (round_half_away c))"

definition ceiling_core :: "rat \<Rightarrow> rat \<Rightarrow> adaptive_ceiling_direction \<Rightarrow> bool" where
  "ceiling_core m c d \<longleftrightarrow>
     (\<exists>i s. ac_absolute_cap_kbps d = Fin c \<and> ac_initial_safe_ceiling_kbps d = Fin i
        \<and> ac_safe_ceiling_kbps d = Fin s \<and> f64_ok (Fin c) \<and> f64_ok (Fin i) \<and> f64_ok (Fin s)
        \<and> 1 \<le> i \<and> i \<le> m \<and> m \<le> c \<and> i \<le> s \<and> s \<le> cap_limit c \<and> c \<le> 2 ^ 52)"

definition probing :: "adaptive_ceiling_direction \<Rightarrow> bool" where
  "probing d = (ac_phase d = ProbeRamp \<or> ac_phase d = ProbeObserve)"

definition ceiling_probe :: "rat \<Rightarrow> adaptive_ceiling_direction \<Rightarrow> bool" where
  "ceiling_probe c d \<longleftrightarrow>
     (if probing d
      then \<exists>s t. ac_safe_ceiling_kbps d = Fin s \<and> ac_probe_target_kbps d = Some (Fin t)
             \<and> ac_effective_max_kbps d = Fin t \<and> s < t \<and> t \<le> cap_limit c \<and> f64_ok (Fin t)
      else ac_probe_target_kbps d = None \<and> ac_effective_max_kbps d = ac_safe_ceiling_kbps d)"

definition ceiling_inv :: "rat \<Rightarrow> rat \<Rightarrow> adaptive_ceiling_direction \<Rightarrow> bool" where
  "ceiling_inv m c d \<longleftrightarrow> ceiling_core m c d \<and> ceiling_probe c d"

lemma round_half_away_mono:
  assumes "x \<le> y"
  shows "round_half_away x \<le> round_half_away y"
proof -
  have floor: "\<lfloor>a + 1/2\<rfloor> \<le> \<lfloor>b + 1/2\<rfloor>" if "a \<le> b" for a b :: rat
    using that by (intro floor_mono) simp
  have zero: "\<lfloor>0 + 1/2 :: rat\<rfloor> = 0"
    by (simp add: floor_eq_iff)
  consider "0 \<le> x" | "x < 0" "0 \<le> y" | "y < 0"
    by linarith
  then show ?thesis
  proof cases
    case 2
    then have "round_half_away y = \<lfloor>y + 1/2\<rfloor>" "round_half_away x = - \<lfloor>- x + 1/2\<rfloor>"
      by (simp_all add: round_half_away_def)
    then show ?thesis
      using 2 floor [of 0 y] floor [of 0 "- x"] zero by linarith
  next
    case 3
    then show ?thesis
      using floor [of "- y" "- x"] assms by (simp add: round_half_away_def)
  qed (use assms floor in \<open>simp add: round_half_away_def\<close>)
qed

lemma round_half_away_of_int [simp]: "round_half_away (of_int n) = n"
  by (auto simp: round_half_away_def floor_eq_iff)

lemma cap_limit_of_int [simp]: "cap_limit (of_int n) = of_int n"
  by (simp add: cap_limit_def)

lemma f64_ok_round:
  assumes "0 \<le> q" "q \<le> 2 ^ 52"
  shows "f64_ok (Fin (of_int (round_half_away q)))"
proof (rule f64_ok_int)
  have "round_half_away q \<le> round_half_away (of_int (2 ^ 52))"
    using assms(2) by (intro round_half_away_mono) simp
  moreover have "round_half_away (of_int 0) \<le> round_half_away q"
    using assms(1) by (intro round_half_away_mono) simp
  ultimately show "\<bar>round_half_away q\<bar> \<le> 2 ^ 53"
    by (simp only: round_half_away_of_int) simp
qed

lemma fmin_fmax_Fin:
  obtains y where "fmin (fmax b (Fin l)) (Fin c) = Fin y" "y \<le> c" "min l c \<le> y"
proof -
  have "\<exists>y. fmin (fmax b (Fin l)) (Fin c) = Fin y \<and> y \<le> c \<and> min l c \<le> y"
    by (cases b) (auto simp: fmax_def fmin_def)
  with that show thesis by blast
qed

lemma next_probe_target_bounds:
  assumes core: "ceiling_core m c d" and target: "next_probe_target d p = Some t"
  obtains s x where "ac_safe_ceiling_kbps d = Fin s" "t = Fin x" "s < x" "x \<le> cap_limit c" "f64_ok (Fin x)"
proof -
  obtain i s where c: "ac_absolute_cap_kbps d = Fin c" "ac_safe_ceiling_kbps d = Fin s" "f64_ok (Fin s)"
    "1 \<le> i" "i \<le> s" "i \<le> c" "c \<le> 2 ^ 52" "s \<le> cap_limit c"
    using core by (auto simp: ceiling_core_def)
  from target obtain b where b: "t = fround (fmin (fmax b (fadd (Fin s) (Fin 1))) (Fin c))"
    "flt (fadd (Fin s) f64_EPSILON) t"
    by (auto simp: next_probe_target_def c Let_def split: if_splits option.splits)
  have "round_half_away c \<le> round_half_away (of_int (2 ^ 52))"
    using c(7) by (intro round_half_away_mono) simp
  then have "(of_int (round_half_away c) :: rat) \<le> of_int (2 ^ 52)"
    by (simp only: round_half_away_of_int of_int_le_iff)
  with c(7,8) have "s \<le> 2 ^ 52"
    by (simp add: cap_limit_def)
  have "f64_ok (Fin (2 ^ 53))"
    using f64_ok_int [of "2 ^ 53"] by simp
  then obtain s1 where s1: "rnd (s + 1) = Fin s1" "s \<le> s1"
    by (rule rnd_between [OF c(3), of "2 ^ 53" "s + 1"]) (use \<open>s \<le> 2 ^ 52\<close> in auto)
  obtain e where e: "rnd (s + pow2 (- 52)) = Fin e" "s \<le> e"
    by (rule rnd_between [OF c(3) \<open>f64_ok (Fin (2 ^ 53))\<close>, of "s + pow2 (- 52)"])
      (use \<open>s \<le> 2 ^ 52\<close> in \<open>auto simp: pow2_def\<close>)
  obtain y where y: "fmin (fmax b (Fin s1)) (Fin c) = Fin y" "y \<le> c" "min s1 c \<le> y"
    by (rule fmin_fmax_Fin)
  have t: "t = Fin (of_int (round_half_away y))"
    by (simp add: b(1) s1 y fround_def)
  show thesis
  proof (rule that [OF c(2) t])
    show "s < of_int (round_half_away y)"
      using b(2) e by (simp add: t f64_EPSILON_def)
    have "(of_int (round_half_away y) :: rat) \<le> of_int (round_half_away c)"
      using round_half_away_mono [OF y(2)] by simp
    then show "of_int (round_half_away y) \<le> cap_limit c"
      by (simp add: cap_limit_def)
    show "f64_ok (Fin (of_int (round_half_away y)))"
      using y c s1 by (intro f64_ok_round) auto
  qed
qed

lemma leave_probe_inv:
  assumes "ceiling_core m c d" "phase = Cruise \<or> phase = Backoff"
  shows "ceiling_inv m c (fst (leave_probe d previous now phase reason))"
  using assms by (auto simp: leave_probe_def clear_probe_def enter_phase_def ceiling_inv_def ceiling_core_def
      ceiling_probe_def probing_def Let_def)

text \<open>The constants of a direction and everything the invariant does not mention may change freely.\<close>

lemma ceiling_core_cong:
  assumes "ceiling_core m c d" "ac_absolute_cap_kbps d' = ac_absolute_cap_kbps d"
    "ac_initial_safe_ceiling_kbps d' = ac_initial_safe_ceiling_kbps d"
    "ac_safe_ceiling_kbps d' = ac_safe_ceiling_kbps d"
  shows "ceiling_core m c d'"
  using assms by (simp add: ceiling_core_def)

lemma ceiling_probe_cong:
  assumes "ceiling_probe c d" "probing d' = probing d" "ac_safe_ceiling_kbps d' = ac_safe_ceiling_kbps d"
    "ac_probe_target_kbps d' = ac_probe_target_kbps d" "ac_effective_max_kbps d' = ac_effective_max_kbps d"
  shows "ceiling_probe c d'"
  using assms unfolding ceiling_probe_def by metis

lemma ceiling_inv_cong:
  assumes "ceiling_inv m c d" "probing d' = probing d"
    "ac_absolute_cap_kbps d' = ac_absolute_cap_kbps d"
    "ac_initial_safe_ceiling_kbps d' = ac_initial_safe_ceiling_kbps d"
    "ac_safe_ceiling_kbps d' = ac_safe_ceiling_kbps d"
    "ac_probe_target_kbps d' = ac_probe_target_kbps d" "ac_effective_max_kbps d' = ac_effective_max_kbps d"
  shows "ceiling_inv m c d'"
  using assms ceiling_core_cong [of m c d d'] ceiling_probe_cong [of c d d'] by (simp add: ceiling_inv_def)

lemma abort_probe_inv: "ceiling_inv m c d \<Longrightarrow> ceiling_inv m c (fst (abort_probe d now reason))"
  unfolding abort_probe_def by (rule leave_probe_inv) (simp_all add: ceiling_inv_def)

lemma pause_inv: "ceiling_inv m c d \<Longrightarrow> ceiling_inv m c (fst (pause d now reason))"
  unfolding pause_def by (rule leave_probe_inv) (simp_all add: ceiling_inv_def)

lemma abort_probe_gap_inv: "ceiling_inv m c d \<Longrightarrow> ceiling_inv m c (fst (abort_probe_gap d now))"
  by (simp add: abort_probe_gap_def abort_probe_inv)

lemma reset_to_configured_inv:
  assumes "ceiling_inv m c d"
  shows "ceiling_inv m c (fst (reset_to_configured d now))"
proof -
  have "ceiling_core m c (d\<lparr>ac_safe_ceiling_kbps := ac_initial_safe_ceiling_kbps d,
                    ac_failed_ceiling_kbps := None, ac_failed_at := None\<rparr>)"
    using assms by (auto simp: ceiling_inv_def ceiling_core_def cap_limit_def)
  then show ?thesis
    unfolding reset_to_configured_def by (rule leave_probe_inv) simp
qed

lemma record_failed_bound_core: "ceiling_core m c (record_failed_bound d f now) = ceiling_core m c d"
  by (simp add: record_failed_bound_def ceiling_core_def)

lemma handle_bufferbloat_inv:
  assumes "ceiling_inv m c d" "f64_ok shaper"
  shows "ceiling_inv m c (fst (handle_bufferbloat d now shaper))"
proof (cases "ac_phase d = Backoff")
  case False
  have core: "ceiling_core m c d"
    using assms(1) by (simp add: ceiling_inv_def)
  have "ceiling_core m c ((record_failed_bound d f now)
      \<lparr>ac_safe_ceiling_kbps := fmax shaper (ac_initial_safe_ceiling_kbps d)\<rparr>)"
    if "flt shaper (ac_safe_ceiling_kbps d)" for f
    using core that assms(2)
    by (cases shaper) (auto simp: ceiling_core_def record_failed_bound_def fmax_def)
  with False core show ?thesis
    by (simp add: handle_bufferbloat_def Let_def record_failed_bound_core leave_probe_inv)
qed (simp add: handle_bufferbloat_def assms(1))

lemma probing_simps:
  "probing (d\<lparr>ac_phase := p, ac_phase_since := n, ac_last_transition_reason := r\<rparr>)
     \<longleftrightarrow> p = ProbeRamp \<or> p = ProbeObserve"
  "probing (d\<lparr>ac_probe_baseline_achieved_kbps := b\<rparr>) = probing d"
  "probing (d\<lparr>ac_probe_peak_achieved_kbps := k\<rparr>) = probing d"
  "probing (d\<lparr>ac_last_eligible_at := e\<rparr>) = probing d"
  by (auto simp: probing_def)

lemma observe_cruise_inv:
  assumes "ceiling_inv m c d" "ac_phase d = Cruise"
  shows "ceiling_inv m c (fst (observe_cruise d u now ob policy))"
  using assms
  by (auto simp: observe_cruise_def enter_phase_def probing_def Let_def
      elim!: ceiling_inv_cong)

lemma open_probe_inv:
  assumes "ceiling_inv m c d" "next_probe_target d p = Some t"
  shows "ceiling_inv m c (fst (enter_phase (d\<lparr>ac_probe_target_kbps := Some t, ac_effective_max_kbps := t\<rparr>)
           now ProbeRamp reason))"
proof -
  have core: "ceiling_core m c d" using assms(1) by (simp add: ceiling_inv_def)
  obtain s x where "ac_safe_ceiling_kbps d = Fin s" "t = Fin x" "s < x" "x \<le> cap_limit c" "f64_ok (Fin x)"
    by (rule next_probe_target_bounds [OF core assms(2)])
  then show ?thesis
    using ceiling_core_cong [OF core]
    by (simp add: ceiling_inv_def ceiling_probe_def enter_phase_def probing_def)
qed

lemma observe_qualify_inv:
  assumes "ceiling_inv m c d" "ac_phase d = Qualify"
  shows "ceiling_inv m c (fst (observe_qualify d u now ob policy))"
proof -
  define d1 where "d1 = (if ob_eligible ob
     then d\<lparr>ac_probe_baseline_achieved_kbps :=
        Some (case ac_probe_baseline_achieved_kbps d of
                Some current \<Rightarrow> fmax current (fmax (ob_achieved_rate_kbps ob) (Fin 0))
              | None \<Rightarrow> fmax (ob_achieved_rate_kbps ob) (Fin 0))\<rparr>
     else d)"
  have d1: "ceiling_inv m c d1" "\<not> probing d1"
    using assms by (auto simp: d1_def probing_def elim!: ceiling_inv_cong)
  then have stop: "ceiling_inv m c (fst (enter_phase (d1\<lparr>ac_probe_baseline_achieved_kbps := None,
      ac_probe_peak_achieved_kbps := Fin 0\<rparr>) now Cruise reason))" for reason
    by (auto simp: enter_phase_def probing_def elim!: ceiling_inv_cong)
  show ?thesis
    using d1 stop open_probe_inv [OF d1(1)]
    unfolding observe_qualify_def Let_def d1_def [symmetric]
    by (auto simp: case_prod_beta split: option.splits)
qed

lemma probe_peak_inv: "ceiling_inv m c d \<Longrightarrow> ceiling_inv m c (probe_peak d ob)"
  by (auto simp: probe_peak_def probing_simps elim!: ceiling_inv_cong)

lemma probe_peak_simps [simp]:
  "ac_phase (probe_peak d ob) = ac_phase d" "ac_phase_since (probe_peak d ob) = ac_phase_since d"
  by (simp_all add: probe_peak_def)

lemma observe_ramp_inv:
  assumes "ceiling_inv m c d" "ac_phase d = ProbeRamp"
  shows "ceiling_inv m c (fst (observe_ramp d u now ob policy))"
proof -
  have "ceiling_inv m c (fst (enter_phase (probe_peak d ob) now ProbeObserve reason))" for reason
    by (rule ceiling_inv_cong [OF probe_peak_inv [OF assms(1), of ob]])
      (simp_all add: enter_phase_def probing_def assms(2))
  then show ?thesis
    using assms by (simp add: observe_ramp_def Let_def case_prod_beta abort_probe_inv probe_peak_inv)
qed

lemma confirm_probe_inv:
  assumes "ceiling_inv m c d" "ac_phase d = ProbeObserve"
  shows "ceiling_inv m c (fst (enter_phase
     (d\<lparr>ac_safe_ceiling_kbps := probe_target_or_safe d, ac_effective_max_kbps := probe_target_or_safe d,
        ac_probe_target_kbps := None, ac_probe_baseline_achieved_kbps := None,
        ac_probe_peak_achieved_kbps := Fin 0\<rparr>) now Backoff reason))"
  using assms
  by (auto simp: ceiling_inv_def ceiling_core_def ceiling_probe_def probing_def enter_phase_def
      probe_target_or_safe_def)

lemma observe_probe_inv:
  assumes "ceiling_inv m c d" "ac_phase d = ProbeObserve"
  shows "ceiling_inv m c (fst (observe_probe d u now ob policy))"
proof -
  have peak: "ceiling_inv m c (probe_peak d ob)" "ac_phase (probe_peak d ob) = ProbeObserve"
    using assms by (simp_all add: probe_peak_inv)
  have abort: "ceiling_inv m c (fst (abort_probe e now reason))" if "ceiling_inv m c e" for e reason
    using that by (rule abort_probe_inv)
  show ?thesis
    unfolding observe_probe_def Let_def case_prod_beta if_distrib [of fst] fst_conv
    using abort [OF assms(1)] abort [OF peak(1)] peak(1) confirm_probe_inv [OF peak]
    by (simp only: split: if_split) blast
qed

lemma observe_backoff_inv:
  assumes "ceiling_inv m c d" "ac_phase d = Backoff"
  shows "ceiling_inv m c (fst (observe_backoff d u now policy))"
  using assms by (auto simp: observe_backoff_def enter_phase_def probing_def elim!: ceiling_inv_cong)

lemma observe_inv:
  assumes "ceiling_inv m c d" "f64_ok (ob_shaper_rate_kbps ob)"
  shows "ceiling_inv m c (fst (observe d now ob policy))"
proof -
  define d1 where "d1 = (let d0 = fst (expire_failed_bound d now (failed_bound_ttl policy))
     in if ob_eligible ob then d0\<lparr>ac_last_eligible_at := Some now\<rparr> else d0)"
  have "ceiling_inv m c d1"
    using assms(1)
    by (auto simp: d1_def expire_failed_bound_def probing_def Let_def split: option.splits elim!: ceiling_inv_cong)
  then show ?thesis
    using assms(2) observe_cruise_inv observe_qualify_inv observe_ramp_inv observe_probe_inv observe_backoff_inv
    by (cases "ac_phase d1")
      (simp_all add: observe_def case_prod_beta Let_def d1_def [unfolded Let_def, symmetric] handle_bufferbloat_inv)
qed

lemma ceiling_step_inv: "ceiling_step d d' \<Longrightarrow> ceiling_inv m c d \<Longrightarrow> ceiling_inv m c d'"
  by (induction rule: ceiling_step.induct)
    (metis fst_conv observe_inv pause_inv abort_probe_gap_inv reset_to_configured_inv)+

text \<open>A direction as the controller creates it: any verified rate, a configured maximum and a cap of at
  least that maximum.\<close>

definition ceiling_start :: "rat \<Rightarrow> rat \<Rightarrow> adaptive_ceiling_direction \<Rightarrow> bool" where
  "ceiling_start m c d \<longleftrightarrow>
     f64_ok (Fin m) \<and> f64_ok (Fin c) \<and> 1 \<le> m \<and> m \<le> c \<and> c \<le> 2 ^ 52
     \<and> (\<exists>safe now. f64_ok safe \<and> d = new_at_with_verified_safe (Fin m) (Fin c) safe now)"

lemma fmin_fmax_1:
  assumes "1 \<le> m"
  obtains i where "fmin (fmax safe (Fin 1)) (Fin m) = Fin i" "1 \<le> i" "i \<le> m" "i = 1 \<or> i = m \<or> safe = Fin i"
proof -
  have "\<exists>i. fmin (fmax safe (Fin 1)) (Fin m) = Fin i \<and> 1 \<le> i \<and> i \<le> m \<and> (i = 1 \<or> i = m \<or> safe = Fin i)"
    using assms by (cases safe) (auto simp: fmax_def fmin_def)
  with that show thesis by blast
qed

lemma ceiling_start_inv: "ceiling_start m c d \<Longrightarrow> ceiling_inv m c d"
proof -
  assume "ceiling_start m c d"
  then obtain safe now where ok: "f64_ok (Fin m)" "f64_ok (Fin c)" "1 \<le> m" "m \<le> c" "c \<le> 2 ^ 52" "f64_ok safe"
    and d: "d = new_at_with_verified_safe (Fin m) (Fin c) safe now"
    by (auto simp: ceiling_start_def)
  obtain i where i: "fmin (fmax safe (Fin 1)) (Fin m) = Fin i" "1 \<le> i" "i \<le> m" "i = 1 \<or> i = m \<or> safe = Fin i"
    by (rule fmin_fmax_1 [OF ok(3)])
  have "f64_ok (Fin i)" using i(4) ok by auto
  with i ok show ?thesis
    by (simp add: d new_at_with_verified_safe_def Let_def ceiling_inv_def ceiling_core_def ceiling_probe_def
        probing_def cap_limit_def max_absorb1 min_absorb1)
qed

lemma cap_limit_below: "0 \<le> c \<Longrightarrow> cap_limit c \<le> c + 1 / 2"
  unfolding cap_limit_def round_half_away_def by simp

lemma cap_limit_integral: "c = of_int \<lfloor>c\<rfloor> \<Longrightarrow> cap_limit c = c"
  using cap_limit_of_int [of "\<lfloor>c\<rfloor>"] by simp

lemma cap_limit_exact: "0 \<le> c \<Longrightarrow> c - of_int \<lfloor>c\<rfloor> < 1 / 2 \<Longrightarrow> cap_limit c = c"
proof -
  assume "0 \<le> c" "c - of_int \<lfloor>c\<rfloor> < 1 / 2"
  then have "\<lfloor>c + 1 / 2\<rfloor> = \<lfloor>c\<rfloor>" by linarith
  with \<open>0 \<le> c\<close> show ?thesis by (simp add: cap_limit_def round_half_away_def)
qed

interpretation ceiling_machine: invariant_machine "ceiling_start m c" ceiling_step "ceiling_inv m c" for m c
  by unfold_locales (auto intro: ceiling_start_inv ceiling_step_inv)

text \<open>Data for the witnesses: a link configured for 80 Mbit/s with a cap half a kilobit above it, seen at
  full clean load, and the same link with an integral cap.\<close>

definition sample_load :: adaptive_ceiling_observation where
  "sample_load = \<lparr>ob_eligible = True, ob_bufferbloat = False, ob_shaper_rate_kbps = Fin 80000,
     ob_achieved_rate_kbps = Fin 79000\<rparr>"

definition sample_policy :: adaptive_ceiling_policy where
  "sample_policy = \<lparr>hold_time = 10, probe_step_percent = Fin 3, probe_duration = 10, cooldown = 10,
     failed_bound_ttl = 100, eligibility_grace = 1000, minimum_throughput_gain_percent = Fin 1\<rparr>"

definition sample_probe :: "rat \<Rightarrow> adaptive_ceiling_direction" where
  "sample_probe c = fst (observe (fst (observe (new_at_with_verified_safe (Fin 80000) (Fin c) (Fin 80000) 0)
     5 sample_load sample_policy)) 20 sample_load sample_policy)"

lemma sample_probe_reachable:
  assumes "f64_ok (Fin c)" "80000 \<le> c" "c \<le> 2 ^ 52"
  shows "reachable_from (ceiling_start 80000 c) ceiling_step (sample_probe c)"
proof -
  have ok: "f64_ok (Fin 80000)" by (rule f64_ok_numeral) simp
  then have "ceiling_start 80000 c (new_at_with_verified_safe (Fin 80000) (Fin c) (Fin 80000) 0)"
    using assms unfolding ceiling_start_def by auto
  moreover have "ceiling_step e (fst (observe e now sample_load sample_policy))" for e now
    using ok by (intro ceiling_step.observed [where u = "snd (observe e now sample_load sample_policy)"])
      (simp_all add: sample_load_def)
  ultimately show ?thesis
    unfolding sample_probe_def by (blast intro: reachable_from_start reachable_from_step)
qed

section \<open>Properties\<close>

text \<open>C3: the ceiling of a direction is bounded whatever the traffic, the policy and the order of
  observations, pauses, gaps and resets. The safe ceiling never falls below the verified starting
  ceiling, and the effective ceiling is the safe one except during a probe, when it is above it. The cap
  is a bound only after rounding to whole kilobits per second: a cap whose fraction is below one half is
  never exceeded, any other cap by at most one half, because the probe target is rounded after it has
  been limited.\<close>

theorem adaptive_ceiling_bounded:
  assumes "reachable_from (ceiling_start m c) ceiling_step d"
  shows "\<exists>i s e. ac_initial_safe_ceiling_kbps d = Fin i \<and> ac_safe_ceiling_kbps d = Fin s
    \<and> ac_effective_max_kbps d = Fin e \<and> 1 \<le> i \<and> i \<le> m \<and> i \<le> s \<and> s \<le> e
    \<and> (s < e \<longleftrightarrow> ac_phase d = ProbeRamp \<or> ac_phase d = ProbeObserve)
    \<and> e \<le> c + 1 / 2 \<and> (c - of_int \<lfloor>c\<rfloor> < 1 / 2 \<longrightarrow> e \<le> c)"
proof -
  have inv: "ceiling_inv m c d"
    by (rule ceiling_machine.reachable_inv [OF assms])
  then obtain i s where base: "ac_initial_safe_ceiling_kbps d = Fin i" "ac_safe_ceiling_kbps d = Fin s"
    "1 \<le> i" "i \<le> m" "m \<le> c" "i \<le> s" "s \<le> cap_limit c"
    by (auto simp: ceiling_inv_def ceiling_core_def)
  obtain e where e: "ac_effective_max_kbps d = Fin e" "s \<le> e" "s < e \<longleftrightarrow> probing d" "e \<le> cap_limit c"
    using inv base(2,7) by (auto simp: ceiling_inv_def ceiling_probe_def split: if_splits)
  have "0 \<le> c" using base by linarith
  then have "e \<le> c + 1 / 2" "c - of_int \<lfloor>c\<rfloor> < 1 / 2 \<Longrightarrow> e \<le> c"
    using e(4) cap_limit_below [of c] cap_limit_exact [of c] by auto
  then show ?thesis using base e unfolding probing_def by blast
qed

theorem adaptive_ceiling_bounded_witness:
  "\<exists>s e. ac_safe_ceiling_kbps (sample_probe 100000) = Fin s \<and> ac_effective_max_kbps (sample_probe 100000) = Fin e
     \<and> s < e \<and> e \<le> 100000"
proof -
  have "f64_ok (Fin 100000)" by (rule f64_ok_numeral) simp
  then have "reachable_from (ceiling_start 80000 100000) ceiling_step (sample_probe 100000)"
    by (rule sample_probe_reachable) simp_all
  from adaptive_ceiling_bounded [OF this] have
    "\<exists>s e. ac_safe_ceiling_kbps (sample_probe 100000) = Fin s \<and> ac_effective_max_kbps (sample_probe 100000) = Fin e
     \<and> (s < e \<longleftrightarrow> ac_phase (sample_probe 100000) = ProbeRamp \<or> ac_phase (sample_probe 100000) = ProbeObserve)
     \<and> e \<le> 100000"
    by auto
  moreover have "ac_phase (sample_probe 100000) = ProbeRamp" by code_simp
  ultimately show ?thesis by auto
qed

text \<open>The absolute cap is exceeded when it is fractional. A reachable direction with a cap of 80000.5
  kilobits per second opens a probe at 80001, although the documentation of the bounded probe promises
  that the effective ceiling never exceeds the absolute cap.\<close>

theorem probe_exceeds_fractional_cap:
  "reachable_from (ceiling_start 80000 (160001 / 2)) ceiling_step (sample_probe (160001 / 2))
   \<and> ac_absolute_cap_kbps (sample_probe (160001 / 2)) = Fin (160001 / 2)
   \<and> ac_effective_max_kbps (sample_probe (160001 / 2)) = Fin 80001"
proof (intro conjI)
  show "reachable_from (ceiling_start 80000 (160001 / 2)) ceiling_step (sample_probe (160001 / 2))"
    by (rule sample_probe_reachable) code_simp+
  show "ac_absolute_cap_kbps (sample_probe (160001 / 2)) = Fin (160001 / 2)"
    by code_simp
  show "ac_effective_max_kbps (sample_probe (160001 / 2)) = Fin 80001"
    by code_simp
qed

end
