(* ===== verification/Latency_Baseline.thy ===== *)
theory Latency_Baseline
  imports Adaptive_Ceiling "HOL-Library.Multiset"
begin

text \<open>
  The cold-start qualification of a latency baseline (\<open>latency_baseline.rs\<close>). The ring of the last three
  one-way delay pairs is a list of length three with a write position; both directions of a pair are
  kept together. \<open>total_cmp\<close> on finite values is the order of the rationals.
\<close>

section \<open>Definitions\<close>

record baseline_warmup =
  wu_epoch :: instant
  wu_last_load :: "instant option"
  wu_quiet_since :: "instant option"
  wu_values :: "(f64 \<times> f64) list"
  wu_count :: nat
  wu_next :: nat

record baseline_observation =
  bo_owd_us :: "f64 \<times> f64"
  bo_now :: instant
  bo_load_epoch :: instant
  bo_quiet :: bool

record baseline_policy =
  bp_maximum_load_age :: duration
  bp_minimum_quiet_span :: duration
  bp_maximum_spread_us :: "f64 \<times> f64"

definition warmup_new :: "instant \<Rightarrow> baseline_warmup" where
  "warmup_new epoch = \<lparr>wu_epoch = epoch, wu_last_load = None, wu_quiet_since = None,
     wu_values = replicate 3 (Fin 0, Fin 0), wu_count = 0, wu_next = 0\<rparr>"

text \<open>\<open>f64::total_cmp\<close>: negative infinity, the finite values, positive infinity, NaN.\<close>

definition total_le :: "f64 \<Rightarrow> f64 \<Rightarrow> bool" where
  "total_le a b = (b = NaN \<or> fle a b)"

fun insort_total :: "f64 \<Rightarrow> f64 list \<Rightarrow> f64 list" where
  "insort_total v [] = [v]"
| "insort_total v (w # ws) = (if total_le v w then v # w # ws else w # insort_total v ws)"

definition sort_total :: "f64 list \<Rightarrow> f64 list" where
  "sort_total vs = foldr insort_total vs []"

text \<open>The median of the three values of one direction, unless they spread too far.\<close>

definition direction_median :: "f64 list \<Rightarrow> f64 \<Rightarrow> f64 option" where
  "direction_median vs maximum_spread =
     (let sorted_vs = sort_total vs
      in if flt maximum_spread (fsub (sorted_vs ! 2) (sorted_vs ! 0)) then None else Some (sorted_vs ! 1))"

definition warmup_observe ::
  "baseline_warmup \<Rightarrow> baseline_observation \<Rightarrow> baseline_policy \<Rightarrow> baseline_warmup \<times> (f64 \<times> f64) option" where
  "warmup_observe w ob policy =
     (let load_epoch = bo_load_epoch ob; now = bo_now ob;
          recent = (load_epoch > wu_epoch w \<and> load_epoch \<le> now \<and> now - load_epoch \<le> bp_maximum_load_age policy)
      in if \<not> recent \<or> \<not> bo_quiet ob \<or> \<not> (is_finite (fst (bo_owd_us ob)) \<and> is_finite (snd (bo_owd_us ob)))
         then (w\<lparr>wu_quiet_since := None, wu_count := 0, wu_next := 0\<rparr>, None)
         else if (case wu_last_load w of Some seen \<Rightarrow> load_epoch \<le> seen | None \<Rightarrow> False) then (w, None)
         else
           let since = (case wu_quiet_since w of Some t \<Rightarrow> t | None \<Rightarrow> load_epoch);
               w = w\<lparr>wu_last_load := Some load_epoch, wu_quiet_since := Some since,
                     wu_values := (wu_values w)[wu_next w := bo_owd_us ob],
                     wu_next := (wu_next w + 1) mod length (wu_values w),
                     wu_count := min (wu_count w + 1) (length (wu_values w))\<rparr>
           in if wu_count w \<noteq> length (wu_values w) \<or> now - since < bp_minimum_quiet_span policy then (w, None)
              else case direction_median (map fst (wu_values w)) (fst (bp_maximum_spread_us policy)) of
                None \<Rightarrow> (w, None)
              | Some dl \<Rightarrow>
                  (case direction_median (map snd (wu_values w)) (snd (bp_maximum_spread_us policy)) of
                     None \<Rightarrow> (w, None)
                   | Some ul \<Rightarrow> (w, Some (dl, ul))))"

section \<open>The specification\<close>

text \<open>
  What the qualification promises, without the ring: the run of usable quiet observations since the last
  one that was not quiet, recent and finite, each with a newer load measurement than all before. A
  baseline is the median of the last three of the run, once the run has three and spans the required
  time, unless one direction spreads too far.
\<close>

record quiet_run =
  qr_run :: "baseline_observation list"
  qr_seen :: "instant option"

definition fin_val :: "f64 \<Rightarrow> rat" where
  "fin_val v = (case v of Fin x \<Rightarrow> x | _ \<Rightarrow> 0)"

definition spec_median :: "rat list \<Rightarrow> f64 \<Rightarrow> f64 option" where
  "spec_median xs maximum_spread =
     (if flt maximum_spread (rnd (sort xs ! 2 - sort xs ! 0)) then None else Some (Fin (sort xs ! 1)))"

definition usable :: "instant \<Rightarrow> baseline_observation \<Rightarrow> baseline_policy \<Rightarrow> bool" where
  "usable epoch ob policy \<longleftrightarrow>
     epoch < bo_load_epoch ob \<and> bo_load_epoch ob \<le> bo_now ob
     \<and> bo_now ob - bo_load_epoch ob \<le> bp_maximum_load_age policy \<and> bo_quiet ob
     \<and> is_finite (fst (bo_owd_us ob)) \<and> is_finite (snd (bo_owd_us ob))"

definition spec_observe ::
  "instant \<Rightarrow> quiet_run \<Rightarrow> baseline_observation \<Rightarrow> baseline_policy \<Rightarrow> quiet_run \<times> (f64 \<times> f64) option" where
  "spec_observe epoch q ob policy =
     (if \<not> usable epoch ob policy then (q\<lparr>qr_run := []\<rparr>, None)
      else if \<exists>seen. qr_seen q = Some seen \<and> bo_load_epoch ob \<le> seen then (q, None)
      else
        let run = qr_run q @ [ob]; three = drop (length run - 3) run
        in (q\<lparr>qr_run := run, qr_seen := Some (bo_load_epoch ob)\<rparr>,
            if length run < 3 \<or> bo_now ob - bo_load_epoch (hd run) < bp_minimum_quiet_span policy then None
            else case (spec_median (map (fin_val \<circ> fst \<circ> bo_owd_us) three) (fst (bp_maximum_spread_us policy)),
                       spec_median (map (fin_val \<circ> snd \<circ> bo_owd_us) three) (snd (bp_maximum_spread_us policy))) of
              (Some dl, Some ul) \<Rightarrow> Some (dl, ul)
            | _ \<Rightarrow> None))"

text \<open>The answers to a sequence of observations, each with the policy of its moment.\<close>

fun outputs :: "('s \<Rightarrow> 'o \<Rightarrow> 'p \<Rightarrow> 's \<times> 'r) \<Rightarrow> 's \<Rightarrow> ('o \<times> 'p) list \<Rightarrow> 'r list" where
  "outputs step s [] = []"
| "outputs step s ((ob, policy) # obs) = snd (step s ob policy) # outputs step (fst (step s ob policy)) obs"

section \<open>Refinement\<close>

lemma insort_total_Fin: "insort_total (Fin x) (map Fin xs) = map Fin (insort x xs)"
  by (induction xs) (simp_all add: total_le_def)

lemma sort_total_Fin: "sort_total (map Fin xs) = map Fin (sort xs)"
  by (induction xs) (simp_all add: sort_total_def insort_total_Fin)

lemma direction_median_spec:
  assumes "\<forall>v\<in>set vs. is_finite v" "mset (map fin_val vs) = mset xs" "length xs = 3"
  shows "direction_median vs m = spec_median xs m"
proof -
  have "vs = map Fin (map fin_val vs)"
    using assms(1) by (induction vs) (auto simp: is_finite_iff fin_val_def)
  then have "sort_total vs = map Fin (sort (map fin_val vs))"
    by (metis sort_total_Fin)
  also have "sort (map fin_val vs) = sort xs"
    using assms(2) by (intro properties_for_sort) simp_all
  finally show ?thesis
    using assms(3) by (simp add: direction_median_def spec_median_def Let_def)
qed

text \<open>The ring holds the last three observations of the run, each at its index modulo three.\<close>

definition warmup_rel :: "instant \<Rightarrow> baseline_warmup \<Rightarrow> quiet_run \<Rightarrow> bool" where
  "warmup_rel epoch w q \<longleftrightarrow>
     wu_epoch w = epoch \<and> wu_last_load w = qr_seen q \<and> length (wu_values w) = 3
     \<and> wu_quiet_since w = (if qr_run q = [] then None else Some (bo_load_epoch (hd (qr_run q))))
     \<and> wu_count w = min (length (qr_run q)) 3 \<and> wu_next w = length (qr_run q) mod 3
     \<and> (\<forall>ob\<in>set (qr_run q). is_finite (fst (bo_owd_us ob)) \<and> is_finite (snd (bo_owd_us ob)))
     \<and> (\<forall>i<length (qr_run q). length (qr_run q) \<le> i + 3 \<longrightarrow> wu_values w ! (i mod 3) = bo_owd_us (qr_run q ! i))"

lemma warmup_new_rel: "warmup_rel epoch (warmup_new epoch) \<lparr>qr_run = [], qr_seen = None\<rparr>"
  by (simp add: warmup_rel_def warmup_new_def)

lemma ring_mset:
  assumes "length vs = 3" "3 \<le> length run" "\<forall>i<length run. length run \<le> i + 3 \<longrightarrow> vs ! (i mod 3) = f (run ! i)"
  shows "mset vs = mset (map f (drop (length run - 3) run))"
proof -
  obtain n where n: "length run = n + 3" using assms(2) by (metis add.commute le_Suc_ex)
  have "drop n run = [run ! n, run ! (n + 1), run ! (n + 2)]"
    using n by (simp add: Cons_nth_drop_Suc [symmetric] numeral_3_eq_3)
  then have d: "map f (drop (length run - 3) run) = [vs ! (n mod 3), vs ! ((n + 1) mod 3), vs ! ((n + 2) mod 3)]"
    using assms(3) n by simp
  obtain a b c where "vs = [a, b, c]"
    using assms(1) by (auto simp: numeral_3_eq_3 length_Suc_conv)
  moreover have "n mod 3 = 0 \<or> n mod 3 = 1 \<or> n mod 3 = 2" by linarith
  ultimately show ?thesis
    unfolding d by (auto simp: mod_Suc add_mset_commute)
qed

lemma ring_push:
  assumes "length vs = 3" "\<forall>i<length run. length run \<le> i + 3 \<longrightarrow> vs ! (i mod 3) = f (run ! i)" "v = f x"
    "i < length (run @ [x])" "length (run @ [x]) \<le> i + 3"
  shows "vs[length run mod 3 := v] ! (i mod 3) = f ((run @ [x]) ! i)"
proof (cases "i = length run")
  case False
  then have "i < length run" "length run \<le> i + 2" using assms(4,5) by auto
  moreover from this have "length run mod 3 \<noteq> i mod 3" by presburger
  ultimately show ?thesis using assms(2) by (simp add: nth_append)
qed (use assms(1,3) in simp)

lemma ring_median:
  assumes "length vs = 3" "3 \<le> length run"
    "\<forall>i<length run. length run \<le> i + 3 \<longrightarrow> vs ! (i mod 3) = bo_owd_us (run ! i)"
    "\<forall>ob\<in>set run. is_finite (fst (bo_owd_us ob)) \<and> is_finite (snd (bo_owd_us ob))"
  shows "direction_median (map fst vs) m =
      spec_median (map (fin_val \<circ> fst \<circ> bo_owd_us) (drop (length run - 3) run)) m"
    "direction_median (map snd vs) m =
      spec_median (map (fin_val \<circ> snd \<circ> bo_owd_us) (drop (length run - 3) run)) m"
proof -
  let ?three = "drop (length run - 3) run"
  have ms: "mset vs = mset (map bo_owd_us ?three)" by (rule ring_mset [OF assms(1-3)])
  then have "set vs = set (map bo_owd_us ?three)" by (metis set_mset_mset)
  then have fin: "\<forall>v\<in>set vs. is_finite (fst v) \<and> is_finite (snd v)"
    using assms(4) by (auto dest: in_set_dropD)
  have m2: "mset (map g vs) = mset (map (g \<circ> bo_owd_us) ?three)" for g :: "f64 \<times> f64 \<Rightarrow> rat"
    using arg_cong [OF ms, of "image_mset g"] by (simp add: image_mset.compositionality o_assoc)
  have "length ?three = 3" using assms(2) by simp
  then show "direction_median (map fst vs) m = spec_median (map (fin_val \<circ> fst \<circ> bo_owd_us) ?three) m"
    "direction_median (map snd vs) m = spec_median (map (fin_val \<circ> snd \<circ> bo_owd_us) ?three) m"
    using fin m2 [of "fin_val \<circ> fst"] m2 [of "fin_val \<circ> snd"]
    by (intro direction_median_spec; simp add: o_assoc)+
qed

lemma warmup_observe_rel:
  assumes rel: "warmup_rel epoch w q"
  shows "warmup_rel epoch (fst (warmup_observe w ob policy)) (fst (spec_observe epoch q ob policy))
     \<and> snd (warmup_observe w ob policy) = snd (spec_observe epoch q ob policy)"
proof -
  note r = rel [unfolded warmup_rel_def]
  define stale where "stale \<longleftrightarrow> (\<exists>seen. qr_seen q = Some seen \<and> bo_load_epoch ob \<le> seen)"
  have stale: "stale \<longleftrightarrow> (case wu_last_load w of Some seen \<Rightarrow> bo_load_epoch ob \<le> seen | None \<Rightarrow> False)"
    using r by (auto simp: stale_def split: option.split)
  note defs = warmup_observe_def spec_observe_def stale_def [symmetric] stale [symmetric] Let_def
  show ?thesis
  proof (cases "usable epoch ob policy \<and> \<not> stale")
    case False
    then show ?thesis
      using r unfolding defs usable_def by (auto simp: warmup_rel_def)
  next
    case True
    let ?run = "qr_run q @ [ob]" and ?vs = "(wu_values w)[length (qr_run q) mod 3 := bo_owd_us ob]"
    let ?w = "w\<lparr>wu_last_load := Some (bo_load_epoch ob), wu_quiet_since := Some (bo_load_epoch (hd ?run)),
        wu_values := ?vs, wu_next := (wu_next w + 1) mod 3, wu_count := min (wu_count w + 1) 3\<rparr>"
    have rel': "warmup_rel epoch ?w (q\<lparr>qr_run := ?run, qr_seen := Some (bo_load_epoch ob)\<rparr>)"
      using r True ring_push [of "wu_values w" "qr_run q" bo_owd_us "bo_owd_us ob" ob]
      by (auto simp: warmup_rel_def usable_def mod_Suc)
    then have ring: "length ?vs = 3" "\<forall>i<length ?run. length ?run \<le> i + 3 \<longrightarrow> ?vs ! (i mod 3) = bo_owd_us (?run ! i)"
      "\<forall>ob\<in>set ?run. is_finite (fst (bo_owd_us ob)) \<and> is_finite (snd (bo_owd_us ob))"
      by (simp_all add: warmup_rel_def)
    have med: "direction_median (map fst ?vs) m =
        spec_median (map (fin_val \<circ> fst \<circ> bo_owd_us) (drop (length ?run - 3) ?run)) m"
      "direction_median (map snd ?vs) m =
        spec_median (map (fin_val \<circ> snd \<circ> bo_owd_us) (drop (length ?run - 3) ?run)) m"
      if "3 \<le> length ?run" for m
      by (rule ring_median [OF ring(1) that ring(2,3)])+
    have since: "(case wu_quiet_since w of Some t \<Rightarrow> t | None \<Rightarrow> bo_load_epoch ob) = bo_load_epoch (hd ?run)"
      using r by (cases "qr_run q") auto
    have count: "min (wu_count w + 1) 3 \<noteq> 3 \<longleftrightarrow> length ?run < 3"
      using r by auto
    have "fst (warmup_observe w ob policy) = ?w"
      using r True unfolding defs usable_def since by (simp split: option.split)
    moreover have "snd (warmup_observe w ob policy) = snd (spec_observe epoch q ob policy)"
      using r True med count unfolding defs usable_def since by (auto split: option.split)
    ultimately show ?thesis
      using rel' True by (simp add: spec_observe_def stale_def [symmetric] Let_def)
  qed
qed

text \<open>C36: the ring buffer implementation of the cold-start qualification refines the specification on runs:
  for every sequence of observations and policies it learns a baseline at the same moments and with the
  same values. So a baseline is never learned from fewer than three quiet recent observations in a row
  with strictly newer load measurements, and it is their median in both directions.\<close>

theorem baseline_warmup_refines:
  "outputs warmup_observe (warmup_new epoch) obs = outputs (spec_observe epoch) \<lparr>qr_run = [], qr_seen = None\<rparr> obs"
proof -
  have "outputs warmup_observe w obs = outputs (spec_observe epoch) q obs" if "warmup_rel epoch w q" for w q
    using that
  proof (induction obs arbitrary: w q)
    case (Cons a obs)
    then show ?case
      using warmup_observe_rel [OF Cons.prems] by (cases a) simp
  qed simp
  from this [OF warmup_new_rel] show ?thesis .
qed

end
