(* ===== verification/Rate_Controller.thy ===== *)
theory Rate_Controller
  imports Controller_Config Adaptive_Ceiling Latency_Baseline
begin

text \<open>
  The rate controller of one instance (\<open>main.rs\<close>, struct \<open>Controller\<close>), in the build without the optional
  calibration and transport-probe features: baselines, delay windows, the reaction of the shaper rate to
  load and bufferbloat, the adaptive ceilings, the clamp and the update of CAKE. Readings of the clock
  and the outcome of \<open>tc\<close> are arguments. \<open>None\<close> is a panic (a \<open>Duration\<close> made from a value that is no
  duration). Logging, status files and the CPU and history samples of the struct are left out.
\<close>

section \<open>Data\<close>

datatype load_kind = High | Low | Idle

datatype uplink_state = Active | Standby | Rechecking | Offline | Learning

datatype cake_qdisc_kind = Cake | CakeMq

record sample =
  sm_reflector :: string
  sm_timestamp :: f64
  sm_rtt_ms :: f64
  sm_dl_owd_us :: f64
  sm_ul_owd_us :: f64
  sm_timestamped_owd :: bool

record rate_sample =
  rs_dl_kbps :: f64
  rs_ul_kbps :: f64
  rs_fresh :: bool
  rs_dl_observed_at :: instant
  rs_ul_observed_at :: instant

record controller =
  dl_baseline_us :: "string \<rightharpoonup> f64"
  ul_baseline_us :: "string \<rightharpoonup> f64"
  baseline_epoch :: instant
  baseline_warmups :: "string \<rightharpoonup> baseline_warmup"
  dl_ewma_us :: "string \<rightharpoonup> f64"
  ul_ewma_us :: "string \<rightharpoonup> f64"
  dl_delays :: "bool list"
  ul_delays :: "bool list"
  dl_deltas_us :: "f64 list"
  ul_deltas_us :: "f64 list"
  shaper_dl :: f64
  shaper_ul :: f64
  adaptive_dl :: adaptive_ceiling_direction
  adaptive_ul :: adaptive_ceiling_direction
  last_set_dl :: u64
  last_set_ul :: u64
  last_shaper_attempt_dl :: instant
  last_shaper_attempt_ul :: instant
  last_bb_dl :: instant
  last_bb_ul :: instant
  last_decay_dl :: instant
  last_decay_ul :: instant
  run_state :: string
  uplink :: uplink_state
  sqm_runtime_healthy :: bool
  runtime_override_active :: bool
  runtime_operation_active :: bool
  dl_qdisc_kind :: "cake_qdisc_kind option"
  ul_qdisc_kind :: "cake_qdisc_kind option"

text \<open>What the environment answers to one shaper update: the clock at \<open>elapsed()\<close> and at the recorded
  attempt, the kind of the root qdisc that \<open>tc qdisc show\<close> identifies, and whether \<open>tc qdisc change\<close>
  succeeded; and the clock reading of the handler that leads to it.\<close>

record shaper_io =
  io_elapsed_at :: instant
  io_attempt_at :: instant
  io_qdisc :: "cake_qdisc_kind option"
  io_changed :: bool

record controller_io =
  io_now :: instant
  io_dl :: shaper_io
  io_ul :: shaper_io

section \<open>Helpers\<close>

definition CAKE_GROWTH_UPDATE_MIN_INTERVAL :: duration where
  "CAKE_GROWTH_UPDATE_MIN_INTERVAL = 100 * 1000000"

definition from_millis :: "u64 \<Rightarrow> duration" where
  "from_millis ms = unat ms * 1000000"

text \<open>\<open>Duration::try_from_secs_f64\<close>: to the nearest nanosecond; negative and too large values are errors.\<close>

definition try_from_secs_f64 :: "f64 \<Rightarrow> duration option" where
  "try_from_secs_f64 v =
     (case v of
        Fin x \<Rightarrow> if x < 0 \<or> round_half_even (x * 10 ^ 9) > int DURATION_MAX then None
                 else Some (nat (round_half_even (x * 10 ^ 9)))
      | _ \<Rightarrow> None)"

definition packet_compensation_us :: "u64 \<Rightarrow> f64 \<Rightarrow> f64" where
  "packet_compensation_us packet_size_bits shaper_rate_kbps =
     (if packet_size_bits = 0 \<or> fle shaper_rate_kbps (Fin 0) then Fin 0
      else fdiv (fmul (Fin 1000) (u64_as_f64 packet_size_bits)) shaper_rate_kbps)"

definition max_wire_packet_rtt_us :: "config \<Rightarrow> f64 \<Rightarrow> f64 \<Rightarrow> f64" where
  "max_wire_packet_rtt_us cfg dl_rate_kbps ul_rate_kbps =
     fadd (packet_compensation_us (dl_max_wire_packet_size_bits cfg) dl_rate_kbps)
       (packet_compensation_us (ul_max_wire_packet_size_bits cfg) ul_rate_kbps)"

definition saturating_mul_u64 :: "u64 \<Rightarrow> u64 \<Rightarrow> u64" where
  "saturating_mul_u64 a b = (if unat a * unat b < 2 ^ 64 then a * b else - 1)"

definition monitor_tick_timeout :: "config \<Rightarrow> duration" where
  "monitor_tick_timeout cfg =
     (let configured_us = saturating_mul_u64 (max (monitor_achieved_rates_interval_ms cfg) 100) 1000;
          compensated_us = f64_as_u64 (fceil (fmul (Fin 10)
            (max_wire_packet_rtt_us cfg (min_dl_shaper_rate_kbps cfg) (min_ul_shaper_rate_kbps cfg))))
      in unat (max configured_us compensated_us) * 1000)"

definition filled_bool_window :: "nat \<Rightarrow> bool list" where
  "filled_bool_window n = replicate n False"

definition filled_f64_window :: "nat \<Rightarrow> f64 list" where
  "filled_f64_window n = replicate n (Fin 0)"

definition push_window :: "'a list \<Rightarrow> 'a \<Rightarrow> 'a list" where
  "push_window window v = (if window = [] then window else tl window @ [v])"

definition average :: "f64 list \<Rightarrow> f64" where
  "average vs = (if vs = [] then Fin 0 else fdiv (foldl fadd (Fin 0) vs) (rnd (of_nat (length vs))))"

definition classify_load :: "f64 \<Rightarrow> f64 \<Rightarrow> f64 \<Rightarrow> f64 \<Rightarrow> load_kind" where
  "classify_load load_pct achieved_kbps active_thr_kbps high_load_pct =
     (if flt high_load_pct load_pct then High
      else if flt active_thr_kbps achieved_kbps then Low
      else Idle)"

definition shaper_update_due :: "u64 \<Rightarrow> u64 \<Rightarrow> duration \<Rightarrow> bool" where
  "shaper_update_due last_set target since_last_attempt =
     (if target = last_set then False
      else last_set = 0 \<or> target < last_set \<or> since_last_attempt \<ge> CAKE_GROWTH_UPDATE_MIN_INTERVAL)"

definition percent :: "f64 \<Rightarrow> f64 \<Rightarrow> f64" where
  "percent v base_v = (if fle base_v (Fin 0) then Fin 0 else fdiv (fmul v (Fin 100)) base_v)"

section \<open>One direction\<close>

text \<open>The selections \<open>if is_dl { .. } else { .. }\<close> of the methods.\<close>

definition dir_adjust :: "config \<Rightarrow> bool \<Rightarrow> bool" where
  "dir_adjust cfg is_dl = (if is_dl then adjust_dl_shaper_rate cfg else adjust_ul_shaper_rate cfg)"

definition dir_min :: "config \<Rightarrow> bool \<Rightarrow> f64" where
  "dir_min cfg is_dl = (if is_dl then min_dl_shaper_rate_kbps cfg else min_ul_shaper_rate_kbps cfg)"

definition dir_base :: "config \<Rightarrow> bool \<Rightarrow> f64" where
  "dir_base cfg is_dl = (if is_dl then base_dl_shaper_rate_kbps cfg else base_ul_shaper_rate_kbps cfg)"

definition dir_shaper :: "controller \<Rightarrow> bool \<Rightarrow> f64" where
  "dir_shaper s is_dl = (if is_dl then shaper_dl s else shaper_ul s)"

definition dir_adaptive :: "controller \<Rightarrow> bool \<Rightarrow> adaptive_ceiling_direction" where
  "dir_adaptive s is_dl = (if is_dl then adaptive_dl s else adaptive_ul s)"

definition dir_last_bb :: "controller \<Rightarrow> bool \<Rightarrow> instant" where
  "dir_last_bb s is_dl = (if is_dl then last_bb_dl s else last_bb_ul s)"

definition dir_last_decay :: "controller \<Rightarrow> bool \<Rightarrow> instant" where
  "dir_last_decay s is_dl = (if is_dl then last_decay_dl s else last_decay_ul s)"

definition dir_last_set :: "controller \<Rightarrow> bool \<Rightarrow> u64" where
  "dir_last_set s is_dl = (if is_dl then last_set_dl s else last_set_ul s)"

definition direction_compensation_us :: "config \<Rightarrow> controller \<Rightarrow> bool \<Rightarrow> f64" where
  "direction_compensation_us cfg s is_dl =
     (if is_dl then packet_compensation_us (dl_max_wire_packet_size_bits cfg) (shaper_dl s)
      else packet_compensation_us (ul_max_wire_packet_size_bits cfg) (shaper_ul s))"

definition delay_thr_us :: "config \<Rightarrow> controller \<Rightarrow> bool \<Rightarrow> f64" where
  "delay_thr_us cfg s is_dl =
     fadd (fmul (if is_dl then dl_owd_delta_delay_thr_ms cfg else ul_owd_delta_delay_thr_ms cfg) (Fin 1000))
       (direction_compensation_us cfg s is_dl)"

definition avg_adjust_up_thr_us :: "config \<Rightarrow> controller \<Rightarrow> bool \<Rightarrow> f64" where
  "avg_adjust_up_thr_us cfg s is_dl =
     fadd (fmul (if is_dl then dl_avg_owd_delta_max_adjust_up_thr_ms cfg
                 else ul_avg_owd_delta_max_adjust_up_thr_ms cfg) (Fin 1000))
       (direction_compensation_us cfg s is_dl)"

definition avg_adjust_down_thr_us :: "config \<Rightarrow> controller \<Rightarrow> bool \<Rightarrow> f64" where
  "avg_adjust_down_thr_us cfg s is_dl =
     fadd (fmul (if is_dl then dl_avg_owd_delta_max_adjust_down_thr_ms cfg
                 else ul_avg_owd_delta_max_adjust_down_thr_ms cfg) (Fin 1000))
       (direction_compensation_us cfg s is_dl)"

text \<open>The three reactions: the factor of a reduction, of a growth step, and the decay to the base rate.\<close>

definition reduce_factor :: "config \<Rightarrow> f64 \<Rightarrow> f64 \<Rightarrow> f64 \<Rightarrow> f64" where
  "reduce_factor cfg avg_delta_us delay_thr down_thr =
     (let factor = (if fle down_thr delay_thr then Fin 1
                    else if flt delay_thr avg_delta_us
                    then fmin (fdiv (fsub avg_delta_us delay_thr) (fsub down_thr delay_thr)) (Fin 1)
                    else Fin 0)
      in fsub (shaper_rate_min_adjust_down_bufferbloat cfg)
           (fmul factor (fsub (shaper_rate_min_adjust_down_bufferbloat cfg)
                              (shaper_rate_max_adjust_down_bufferbloat cfg))))"

definition growth_factor :: "config \<Rightarrow> f64 \<Rightarrow> f64 \<Rightarrow> f64 \<Rightarrow> f64" where
  "growth_factor cfg avg_delta_us delay_thr up_thr =
     (let factor = (if fle delay_thr up_thr then Fin 1
                    else if flt avg_delta_us delay_thr
                    then fmin (fdiv (fsub delay_thr avg_delta_us) (fsub delay_thr up_thr)) (Fin 1)
                    else Fin 0)
      in fsub (shaper_rate_min_adjust_up_load_high cfg)
           (fmul factor (fsub (shaper_rate_min_adjust_up_load_high cfg)
                              (shaper_rate_max_adjust_up_load_high cfg))))"

definition decay_rate :: "config \<Rightarrow> f64 \<Rightarrow> f64 \<Rightarrow> f64" where
  "decay_rate cfg base_v shaper =
     (if flt base_v shaper then fmax (fmul shaper (shaper_rate_adjust_down_load_low cfg)) base_v
      else if flt shaper base_v then fmin (fmul shaper (shaper_rate_adjust_up_load_low cfg)) base_v
      else shaper)"

definition update_direction ::
  "config \<Rightarrow> controller \<Rightarrow> bool \<Rightarrow> load_kind \<Rightarrow> bool \<Rightarrow> f64 \<Rightarrow> bool \<Rightarrow> instant \<Rightarrow> controller" where
  "update_direction cfg s is_dl kind bufferbloat avg_delta_us allow_growth now =
     (if \<not> dir_adjust cfg is_dl then s
      else
        let shaper = dir_shaper s is_dl;
            delay_thr = delay_thr_us cfg s is_dl;
            last_bb = dir_last_bb s is_dl;
            last_decay = dir_last_decay s is_dl;
            bb_ready = (now - last_bb \<ge> from_millis (bufferbloat_refractory_period_ms cfg));
            decay_ready = (now - last_decay \<ge> from_millis (decay_refractory_period_ms cfg));
            (shaper, last_bb, last_decay) =
              (if bufferbloat \<and> bb_ready
               then (fmul shaper (reduce_factor cfg avg_delta_us delay_thr (avg_adjust_down_thr_us cfg s is_dl)), now, now)
               else if kind = High \<and> bb_ready \<and> allow_growth
               then (fmul shaper (growth_factor cfg avg_delta_us delay_thr (avg_adjust_up_thr_us cfg s is_dl)), last_bb, now)
               else if (kind = Low \<or> kind = Idle) \<and> decay_ready
               then (decay_rate cfg (dir_base cfg is_dl) shaper, last_bb, now)
               else (shaper, last_bb, last_decay))
        in if is_dl then s\<lparr>shaper_dl := shaper, last_bb_dl := last_bb, last_decay_dl := last_decay\<rparr>
           else s\<lparr>shaper_ul := shaper, last_bb_ul := last_bb, last_decay_ul := last_decay\<rparr>)"

section \<open>The adaptive ceilings, the clamp and CAKE\<close>

definition adaptive_policy :: "config \<Rightarrow> adaptive_ceiling_policy option" where
  "adaptive_policy cfg =
     (case (try_from_secs_f64 (adaptive_ceiling_hold_time_s cfg),
            try_from_secs_f64 (adaptive_ceiling_probe_duration_s cfg),
            try_from_secs_f64 (adaptive_ceiling_cooldown_s cfg),
            try_from_secs_f64 (adaptive_ceiling_failed_bound_ttl_s cfg),
            try_from_secs_f64 (fmax (reflector_response_deadline_s cfg) (Fin 1))) of
        (Some hold, Some probe, Some cool, Some ttl, Some grace) \<Rightarrow>
          Some \<lparr>hold_time = hold, probe_step_percent = adaptive_ceiling_growth_percent cfg,
                probe_duration = probe, cooldown = cool, failed_bound_ttl = ttl, eligibility_grace = grace,
                minimum_throughput_gain_percent =
                  fclamp (fmul (adaptive_ceiling_growth_percent cfg) (Fin (1/2))) (Fin 1) (Fin 5)\<rparr>
      | _ \<Rightarrow> None)"

definition observe_direction ::
  "config \<Rightarrow> controller \<Rightarrow> adaptive_ceiling_policy \<Rightarrow> bool \<Rightarrow> load_kind \<Rightarrow> f64 \<Rightarrow> bool \<Rightarrow> nat \<Rightarrow> f64
     \<Rightarrow> bool \<Rightarrow> instant \<Rightarrow> controller" where
  "observe_direction cfg s policy is_dl kind achieved_kbps bufferbloat delay_count avg_delta_us clean now =
     (if \<not> dir_adjust cfg is_dl then s
      else
        let eligible = (kind = High \<and> \<not> bufferbloat \<and> delay_count < bufferbloat_detection_thr cfg
              \<and> fle avg_delta_us (avg_adjust_up_thr_us cfg s is_dl) \<and> clean);
            d = fst (observe (dir_adaptive s is_dl) now
              \<lparr>ob_eligible = eligible, ob_bufferbloat = bufferbloat, ob_shaper_rate_kbps = dir_shaper s is_dl,
               ob_achieved_rate_kbps = achieved_kbps\<rparr> policy)
        in if is_dl then s\<lparr>adaptive_dl := d\<rparr> else s\<lparr>adaptive_ul := d\<rparr>)"

definition update_adaptive_ceilings ::
  "config \<Rightarrow> controller \<Rightarrow> load_kind \<Rightarrow> load_kind \<Rightarrow> f64 \<Rightarrow> f64 \<Rightarrow> bool \<Rightarrow> bool \<Rightarrow> nat \<Rightarrow> nat \<Rightarrow> f64 \<Rightarrow> f64
     \<Rightarrow> bool \<times> bool \<Rightarrow> instant \<Rightarrow> controller option" where
  "update_adaptive_ceilings cfg s dl_kind ul_kind dl_achieved ul_achieved dl_bb ul_bb dl_count ul_count
     avg_dl avg_ul clean now =
     (if \<not> adaptive_ceiling_enabled cfg \<or> uplink s \<in> {Offline, Learning, Rechecking} then Some s
      else case adaptive_policy cfg of
        None \<Rightarrow> None
      | Some policy \<Rightarrow>
          Some (observe_direction cfg
            (observe_direction cfg s policy True dl_kind dl_achieved dl_bb dl_count avg_dl (fst clean) now)
            policy False ul_kind ul_achieved ul_bb ul_count avg_ul (snd clean) now))"

definition clamp_rates :: "config \<Rightarrow> controller \<Rightarrow> controller" where
  "clamp_rates cfg s =
     (let s = (if adjust_dl_shaper_rate cfg
               then s\<lparr>shaper_dl := fmin (fmax (shaper_dl s) (fmax (min_dl_shaper_rate_kbps cfg) (Fin 1)))
                        (ac_effective_max_kbps (adaptive_dl s))\<rparr>
               else s)
      in if adjust_ul_shaper_rate cfg
         then s\<lparr>shaper_ul := fmin (fmax (shaper_ul s) (fmax (min_ul_shaper_rate_kbps cfg) (Fin 1)))
                  (ac_effective_max_kbps (adaptive_ul s))\<rparr>
         else s)"

definition runtime_rate_control_suspended :: "controller \<Rightarrow> bool" where
  "runtime_rate_control_suspended s = (runtime_override_active s \<or> runtime_operation_active s)"

text \<open>The rate that is handed to \<open>tc\<close>: \<open>rate.round().max(1.0) as u64\<close>.\<close>

definition rounded_rate :: "f64 \<Rightarrow> u64" where
  "rounded_rate rate = f64_as_u64 (fmax (fround rate) (Fin 1))"

text \<open>\<open>qdisc_kind\<close>: the cached kind, or the one \<open>tc\<close> reports, which is then cached.\<close>

definition qdisc_kind :: "controller \<Rightarrow> bool \<Rightarrow> shaper_io \<Rightarrow> controller \<times> cake_qdisc_kind option" where
  "qdisc_kind s download io =
     (case (if download then dl_qdisc_kind s else ul_qdisc_kind s) of
        Some kind \<Rightarrow> (s, Some kind)
      | None \<Rightarrow>
          (case io_qdisc io of
             None \<Rightarrow> (s, None)
           | Some kind \<Rightarrow>
               (if download then s\<lparr>dl_qdisc_kind := Some kind\<rparr> else s\<lparr>ul_qdisc_kind := Some kind\<rparr>, Some kind)))"

definition apply_shaper :: "config \<Rightarrow> controller \<Rightarrow> bool \<Rightarrow> shaper_io \<Rightarrow> controller" where
  "apply_shaper cfg s is_dl io =
     (if runtime_rate_control_suspended s \<or> \<not> manage_sqm cfg \<and> \<not> sqm_runtime_healthy s then s
      else if \<not> dir_adjust cfg is_dl then s
      else
        let last_attempt = (if is_dl then last_shaper_attempt_dl s else last_shaper_attempt_ul s);
            rounded = rounded_rate (dir_shaper s is_dl)
        in if \<not> shaper_update_due (dir_last_set s is_dl) rounded (io_elapsed_at io - last_attempt) then s
           else
             let s = (if is_dl then s\<lparr>last_shaper_attempt_dl := io_attempt_at io\<rparr>
                      else s\<lparr>last_shaper_attempt_ul := io_attempt_at io\<rparr>)
             in case qdisc_kind s is_dl io of
                  (s, None) \<Rightarrow> s
                | (s, Some kind) \<Rightarrow>
                    if io_changed io
                    then (if is_dl then s\<lparr>last_set_dl := rounded\<rparr> else s\<lparr>last_set_ul := rounded\<rparr>)
                    else (if is_dl then s\<lparr>dl_qdisc_kind := None\<rparr> else s\<lparr>ul_qdisc_kind := None\<rparr>))"

definition apply_both :: "config \<Rightarrow> controller \<Rightarrow> controller_io \<Rightarrow> controller" where
  "apply_both cfg s io = apply_shaper cfg (apply_shaper cfg s True (io_dl io)) False (io_ul io)"

section \<open>Handlers\<close>

text \<open>One ceiling operation on every adjusted direction; then, if a ceiling changed, clamp and apply.\<close>

definition adaptive_each ::
  "config \<Rightarrow> controller \<Rightarrow> controller_io
     \<Rightarrow> (adaptive_ceiling_direction \<Rightarrow> adaptive_ceiling_direction \<times> adaptive_ceiling_update) \<Rightarrow> controller" where
  "adaptive_each cfg s io f =
     (let (s, dl_changed) = (if adjust_dl_shaper_rate cfg
            then (s\<lparr>adaptive_dl := fst (f (adaptive_dl s))\<rparr>, up_change (snd (f (adaptive_dl s))) \<noteq> None)
            else (s, False));
          (s, ul_changed) = (if adjust_ul_shaper_rate cfg
            then (s\<lparr>adaptive_ul := fst (f (adaptive_ul s))\<rparr>, up_change (snd (f (adaptive_ul s))) \<noteq> None)
            else (s, False))
      in if dl_changed \<or> ul_changed then apply_both cfg (clamp_rates cfg s) io else s)"

definition set_min_shaper_rates :: "config \<Rightarrow> controller \<Rightarrow> controller_io \<Rightarrow> controller" where
  "set_min_shaper_rates cfg s io =
     (let s = (if adjust_dl_shaper_rate cfg then s\<lparr>shaper_dl := fmax (min_dl_shaper_rate_kbps cfg) (Fin 1)\<rparr> else s);
          s = (if adjust_ul_shaper_rate cfg then s\<lparr>shaper_ul := fmax (min_ul_shaper_rate_kbps cfg) (Fin 1)\<rparr> else s)
      in apply_both cfg s io)"

definition set_run_state :: "config \<Rightarrow> controller \<Rightarrow> string \<Rightarrow> controller_io \<Rightarrow> controller" where
  "set_run_state cfg s state io =
     (if run_state s = state then s
      else let s = s\<lparr>run_state := state\<rparr>
           in if adaptive_ceiling_enabled cfg \<and> state \<noteq> ''RUNNING''
              then adaptive_each cfg s io (\<lambda>d. pause d (io_now io) ''autorate state paused'')
              else s)"

definition reset_adaptive_after_sustained_gap :: "config \<Rightarrow> controller \<Rightarrow> controller_io \<Rightarrow> controller" where
  "reset_adaptive_after_sustained_gap cfg s io =
     (if \<not> adaptive_ceiling_enabled cfg then s
      else adaptive_each cfg s io (\<lambda>d. reset_to_configured d (io_now io)))"

definition note_probe_gap :: "config \<Rightarrow> controller \<Rightarrow> controller_io \<Rightarrow> controller" where
  "note_probe_gap cfg s io =
     (if adaptive_ceiling_enabled cfg then adaptive_each cfg s io (\<lambda>d. abort_probe_gap d (io_now io)) else s)"

text \<open>The two clock readings of \<open>reset_uplink_learning\<close> are the epoch and the reset of the ceilings.\<close>

definition reset_uplink_learning :: "config \<Rightarrow> controller \<Rightarrow> instant \<Rightarrow> instant \<Rightarrow> controller" where
  "reset_uplink_learning cfg s epoch now =
     s\<lparr>dl_baseline_us := Map.empty, ul_baseline_us := Map.empty, baseline_epoch := epoch,
       baseline_warmups := Map.empty, dl_ewma_us := Map.empty, ul_ewma_us := Map.empty,
       dl_delays := filled_bool_window (bufferbloat_detection_window cfg),
       ul_delays := filled_bool_window (bufferbloat_detection_window cfg),
       dl_deltas_us := filled_f64_window (bufferbloat_detection_window cfg),
       ul_deltas_us := filled_f64_window (bufferbloat_detection_window cfg),
       adaptive_dl := fst (reset_to_configured (adaptive_dl s) now),
       adaptive_ul := fst (reset_to_configured (adaptive_ul s) now)\<rparr>"

subsection \<open>A latency sample\<close>

definition sample_usable :: "sample \<Rightarrow> bool" where
  "sample_usable sm \<longleftrightarrow>
     is_finite (sm_timestamp sm) \<and> \<not> flt (sm_timestamp sm) (Fin 0) \<and> is_finite (sm_rtt_ms sm)
     \<and> \<not> flt (sm_rtt_ms sm) (Fin 0) \<and> is_finite (sm_dl_owd_us sm) \<and> is_finite (sm_ul_owd_us sm)"

definition quiet_sample :: "config \<Rightarrow> controller \<Rightarrow> rate_sample \<Rightarrow> bool" where
  "quiet_sample cfg s rates \<longleftrightarrow>
     is_finite (rs_dl_kbps rates) \<and> is_finite (rs_ul_kbps rates)
     \<and> fle (Fin 0) (rs_dl_kbps rates) \<and> fle (Fin 0) (rs_ul_kbps rates)
     \<and> fle (rs_dl_kbps rates) (fmin (connection_active_thr_kbps cfg) (fmul (shaper_dl s) (rnd (1/10))))
     \<and> fle (rs_ul_kbps rates) (fmin (connection_active_thr_kbps cfg) (fmul (shaper_ul s) (rnd (1/10))))"

text \<open>The part for a reflector without baselines. The flag says whether the sample is processed further.\<close>

definition learn_baseline ::
  "config \<Rightarrow> controller \<Rightarrow> sample \<Rightarrow> f64 \<Rightarrow> rate_sample \<Rightarrow> instant \<Rightarrow> controller_io \<Rightarrow> controller \<times> bool" where
  "learn_baseline cfg s sm interval_s rates now io =
     (let r = sm_reflector sm
      in if dl_baseline_us s r \<noteq> None \<and> ul_baseline_us s r \<noteq> None then (s, True)
         else case try_from_secs_f64 (fmax (fdiv (sm_rtt_ms sm) (Fin 1000)) (fmul (Fin 2) interval_s)) of
           None \<Rightarrow> (s, False)
         | Some minimum_quiet_span \<Rightarrow>
             let policy = \<lparr>bp_maximum_load_age =
                     min (monitor_tick_timeout cfg * (if rs_fresh rates then 1 else 2)) DURATION_MAX,
                   bp_minimum_quiet_span = minimum_quiet_span,
                   bp_maximum_spread_us = (delay_thr_us cfg s True, delay_thr_us cfg s False)\<rparr>;
                 warmup = (case baseline_warmups s r of Some w \<Rightarrow> w | None \<Rightarrow> warmup_new (baseline_epoch s));
                 (warmup, warmed) = warmup_observe warmup
                   \<lparr>bo_owd_us = (sm_dl_owd_us sm, sm_ul_owd_us sm), bo_now = now,
                    bo_load_epoch = min (rs_dl_observed_at rates) (rs_ul_observed_at rates),
                    bo_quiet = quiet_sample cfg s rates\<rparr> policy;
                 s = s\<lparr>baseline_warmups := (baseline_warmups s)(r \<mapsto> warmup)\<rparr>
             in case warmed of
                  Some (dl, ul) \<Rightarrow>
                    let s = s\<lparr>dl_baseline_us := (dl_baseline_us s)(r \<mapsto> dl),
                              ul_baseline_us := (ul_baseline_us s)(r \<mapsto> ul),
                              baseline_warmups := (baseline_warmups s)(r := None)\<rparr>
                    in (if run_state s = ''LEARNING'' then set_run_state cfg s ''RUNNING'' io else s, True)
                | None \<Rightarrow>
                    (if dl_baseline_us s = Map.empty then set_run_state cfg s ''LEARNING'' io else s, False))"

text \<open>The exponential average of one baseline, and the delta against it.\<close>

definition baseline_ewma :: "config \<Rightarrow> f64 \<Rightarrow> f64 \<Rightarrow> f64" where
  "baseline_ewma cfg owd_us baseline =
     (let alpha = (if fle baseline owd_us then alpha_baseline_increase cfg else alpha_baseline_decrease cfg)
      in fadd (fmul alpha owd_us) (fmul (fsub (Fin 1) alpha) baseline))"

text \<open>The new baselines and the deltas of a sample: a jump of the remote clock restarts the baselines.\<close>

definition sample_deltas :: "config \<Rightarrow> sample \<Rightarrow> f64 \<Rightarrow> f64 \<Rightarrow> (f64 \<times> f64) \<times> (f64 \<times> f64)" where
  "sample_deltas cfg sm dl_baseline ul_baseline =
     (if sm_timestamped_owd sm
         \<and> fle (Fin 3000000000) (fadd (fabs (fsub (sm_dl_owd_us sm) dl_baseline))
                                  (fabs (fsub (sm_ul_owd_us sm) ul_baseline)))
      then ((sm_dl_owd_us sm, sm_ul_owd_us sm), (Fin 0, Fin 0))
      else let dl = baseline_ewma cfg (sm_dl_owd_us sm) dl_baseline;
               ul = baseline_ewma cfg (sm_ul_owd_us sm) ul_baseline
           in ((dl, ul), (fsub (sm_dl_owd_us sm) dl, fsub (sm_ul_owd_us sm) ul)))"

definition ewma_delta :: "config \<Rightarrow> f64 \<Rightarrow> f64 \<Rightarrow> f64" where
  "ewma_delta cfg delta_us current =
     fadd (fmul (alpha_delta_ewma cfg) delta_us) (fmul (fsub (Fin 1) (alpha_delta_ewma cfg)) current)"

definition count_delays :: "bool list \<Rightarrow> nat" where
  "count_delays delays = length (filter id delays)"

text \<open>Baselines, averages and windows after a sample of a reflector with baselines.\<close>

definition record_deltas ::
  "config \<Rightarrow> controller \<Rightarrow> sample \<Rightarrow> f64 \<Rightarrow> f64 \<Rightarrow> f64 \<Rightarrow> f64 \<Rightarrow> controller" where
  "record_deltas cfg s sm dl_load_pct ul_load_pct dl_baseline ul_baseline =
     (let r = sm_reflector sm;
          ((dl_new, ul_new), (dl_delta, ul_delta)) = sample_deltas cfg sm dl_baseline ul_baseline;
          high = fmul (high_load_thr cfg) (Fin 100);
          calm = (flt dl_load_pct high \<and> flt ul_load_pct high);
          entry = (\<lambda>m. case m r of Some v \<Rightarrow> v | None \<Rightarrow> Fin 0)
      in s\<lparr>dl_baseline_us := (dl_baseline_us s)(r \<mapsto> dl_new), ul_baseline_us := (ul_baseline_us s)(r \<mapsto> ul_new),
           dl_ewma_us := (if calm then (dl_ewma_us s)(r \<mapsto> ewma_delta cfg dl_delta (entry (dl_ewma_us s)))
                          else dl_ewma_us s),
           ul_ewma_us := (if calm then (ul_ewma_us s)(r \<mapsto> ewma_delta cfg ul_delta (entry (ul_ewma_us s)))
                          else ul_ewma_us s),
           dl_delays := push_window (dl_delays s) (flt (delay_thr_us cfg s True) dl_delta),
           ul_delays := push_window (ul_delays s) (flt (delay_thr_us cfg s False) ul_delta),
           dl_deltas_us := push_window (dl_deltas_us s) dl_delta,
           ul_deltas_us := push_window (ul_deltas_us s) ul_delta\<rparr>)"

text \<open>The reaction, from the windows and the load. Without transport probes growth is allowed and the
  transport evidence is clean.\<close>

definition react :: "config \<Rightarrow> controller \<Rightarrow> f64 \<Rightarrow> f64 \<Rightarrow> rate_sample \<Rightarrow> instant \<Rightarrow> controller_io \<Rightarrow> controller option" where
  "react cfg s dl_load_pct ul_load_pct rates now io =
     (let dl_count = count_delays (dl_delays s);
          ul_count = count_delays (ul_delays s);
          dl_bb = (dl_count \<ge> bufferbloat_detection_thr cfg);
          ul_bb = (ul_count \<ge> bufferbloat_detection_thr cfg);
          avg_dl = average (dl_deltas_us s);
          avg_ul = average (ul_deltas_us s);
          high = fmul (high_load_thr cfg) (Fin 100);
          dl_kind = classify_load dl_load_pct (rs_dl_kbps rates) (connection_active_thr_kbps cfg) high;
          ul_kind = classify_load ul_load_pct (rs_ul_kbps rates) (connection_active_thr_kbps cfg) high
      in if runtime_rate_control_suspended s then Some s
         else
           let s = update_direction cfg s True dl_kind dl_bb avg_dl True now;
               s = update_direction cfg s False ul_kind ul_bb avg_ul True now
           in case update_adaptive_ceilings cfg s dl_kind ul_kind (rs_dl_kbps rates) (rs_ul_kbps rates)
                     dl_bb ul_bb dl_count ul_count avg_dl avg_ul (True, True) now of
                None \<Rightarrow> None
              | Some s \<Rightarrow> Some (apply_both cfg (clamp_rates cfg s) io))"

definition on_sample_with_rates ::
  "config \<Rightarrow> controller \<Rightarrow> sample \<Rightarrow> f64 \<Rightarrow> rate_sample \<Rightarrow> instant \<Rightarrow> controller_io \<Rightarrow> controller option" where
  "on_sample_with_rates cfg s sm interval_s rates now io =
     (if \<not> sample_usable sm then Some (note_probe_gap cfg s io)
      else
        let dl_load_pct = percent (rs_dl_kbps rates) (shaper_dl s);
            ul_load_pct = percent (rs_ul_kbps rates) (shaper_ul s);
            (s, ready) = learn_baseline cfg s sm interval_s rates now io
        in if \<not> ready then Some s
           else case (dl_baseline_us s (sm_reflector sm), ul_baseline_us s (sm_reflector sm)) of
             (Some dl_baseline, Some ul_baseline) \<Rightarrow>
               react cfg (record_deltas cfg s sm dl_load_pct ul_load_pct dl_baseline ul_baseline)
                 dl_load_pct ul_load_pct rates now io
           | _ \<Rightarrow> Some s)"

section \<open>Start\<close>

definition adaptive_start_safe :: "config \<Rightarrow> bool \<Rightarrow> f64" where
  "adaptive_start_safe cfg is_dl =
     (let evidence = (if is_dl then adaptive_ceiling_dl_evidence cfg else adaptive_ceiling_ul_evidence cfg);
          maximum = (if is_dl then max_dl_shaper_rate_kbps cfg else max_ul_shaper_rate_kbps cfg)
      in if adaptive_ceiling_enabled cfg \<and> evidence = ''legacy_unverified'' then fmin (dir_base cfg is_dl) maximum
         else if adaptive_ceiling_enabled cfg
         then (if is_dl then adaptive_ceiling_dl_safe_kbps cfg else adaptive_ceiling_ul_safe_kbps cfg)
         else maximum)"

definition controller_new :: "config \<Rightarrow> instant \<Rightarrow> instant \<Rightarrow> instant \<Rightarrow> controller" where
  "controller_new cfg now dl_now ul_now =
     \<lparr>dl_baseline_us = Map.empty, ul_baseline_us = Map.empty, baseline_epoch = now,
      baseline_warmups = Map.empty, dl_ewma_us = Map.empty, ul_ewma_us = Map.empty,
      dl_delays = filled_bool_window (bufferbloat_detection_window cfg),
      ul_delays = filled_bool_window (bufferbloat_detection_window cfg),
      dl_deltas_us = filled_f64_window (bufferbloat_detection_window cfg),
      ul_deltas_us = filled_f64_window (bufferbloat_detection_window cfg),
      shaper_dl = base_dl_shaper_rate_kbps cfg, shaper_ul = base_ul_shaper_rate_kbps cfg,
      adaptive_dl = new_at_with_verified_safe (max_dl_shaper_rate_kbps cfg) (adaptive_ceiling_dl_cap_kbps cfg)
        (adaptive_start_safe cfg True) dl_now,
      adaptive_ul = new_at_with_verified_safe (max_ul_shaper_rate_kbps cfg) (adaptive_ceiling_ul_cap_kbps cfg)
        (adaptive_start_safe cfg False) ul_now,
      last_set_dl = 0, last_set_ul = 0, last_shaper_attempt_dl = now, last_shaper_attempt_ul = now,
      last_bb_dl = now, last_bb_ul = now, last_decay_dl = now, last_decay_ul = now,
      run_state = ''RUNNING'', uplink = Offline, sqm_runtime_healthy = True,
      runtime_override_active = False, runtime_operation_active = False,
      dl_qdisc_kind = None, ul_qdisc_kind = None\<rparr>"

text \<open>The steps of the controller. \<open>environment\<close> is what other parts of the daemon change: the state of
  the uplink and of SQM, the calibration holds, and the forgotten qdisc kinds.\<close>

inductive controller_step :: "config \<Rightarrow> controller \<Rightarrow> controller \<Rightarrow> bool" for cfg where
  started: "controller_step cfg s (apply_both cfg s io)"
| sampled: "on_sample_with_rates cfg s sm interval_s rates now io = Some s' \<Longrightarrow> controller_step cfg s s'"
| min_rates: "controller_step cfg s (set_min_shaper_rates cfg s io)"
| state_set: "controller_step cfg s (set_run_state cfg s state io)"
| gap: "controller_step cfg s (note_probe_gap cfg s io)"
| sustained_gap: "controller_step cfg s (reset_adaptive_after_sustained_gap cfg s io)"
| uplink_reset: "controller_step cfg s (reset_uplink_learning cfg s epoch now)"
| environment: "controller_step cfg s (s\<lparr>uplink := u, sqm_runtime_healthy := h, runtime_override_active := a,
    runtime_operation_active := b, dl_qdisc_kind := k, ul_qdisc_kind := l\<rparr>)"

definition dir_max :: "config \<Rightarrow> bool \<Rightarrow> f64" where
  "dir_max cfg is_dl = (if is_dl then max_dl_shaper_rate_kbps cfg else max_ul_shaper_rate_kbps cfg)"

definition dir_cap :: "config \<Rightarrow> bool \<Rightarrow> f64" where
  "dir_cap cfg is_dl =
     fmax (if is_dl then adaptive_ceiling_dl_cap_kbps cfg else adaptive_ceiling_ul_cap_kbps cfg) (dir_max cfg is_dl)"

section \<open>The invariant\<close>

lemmas dir_defs = dir_shaper_def dir_adaptive_def dir_last_set_def dir_last_bb_def dir_last_decay_def

definition dir_core :: "rat \<Rightarrow> rat \<Rightarrow> rat \<Rightarrow> controller \<Rightarrow> bool \<Rightarrow> bool" where
  "dir_core lo m c s is_dl \<longleftrightarrow>
     f64_ok (dir_shaper s is_dl) \<and> ceiling_inv m c (dir_adaptive s is_dl)
     \<and> (\<exists>i. ac_initial_safe_ceiling_kbps (dir_adaptive s is_dl) = Fin i \<and> lo \<le> i)
     \<and> (dir_last_set s is_dl = 0 \<or> round_half_away lo \<le> uint (dir_last_set s is_dl)
          \<and> uint (dir_last_set s is_dl) \<le> round_half_away c)"

definition dir_inv :: "rat \<Rightarrow> rat \<Rightarrow> rat \<Rightarrow> controller \<Rightarrow> bool \<Rightarrow> bool" where
  "dir_inv lo m c s is_dl \<longleftrightarrow> dir_core lo m c s is_dl
     \<and> (\<exists>r. dir_shaper s is_dl = Fin r \<and> lo \<le> r \<and> r \<le> cap_limit c)"

lemma dir_core_cong:
  assumes "dir_core lo m c s d" "f64_ok (dir_shaper s' d)" "dir_adaptive s' d = dir_adaptive s d"
    "dir_last_set s' d = dir_last_set s d"
  shows "dir_core lo m c s' d"
  using assms by (simp add: dir_core_def)

lemma dir_inv_cong:
  assumes "dir_inv lo m c s d" "dir_shaper s' d = dir_shaper s d" "dir_adaptive s' d = dir_adaptive s d"
    "dir_last_set s' d = dir_last_set s d"
  shows "dir_inv lo m c s' d"
  using assms by (simp add: dir_inv_def dir_core_def)

lemma dir_inv_core: "dir_inv lo m c s d \<Longrightarrow> dir_core lo m c s d"
  by (simp add: dir_inv_def)

lemma ceiling_inv_effective:
  assumes "ceiling_inv m c a" "ac_initial_safe_ceiling_kbps a = Fin i"
  obtains e where "ac_effective_max_kbps a = Fin e" "i \<le> e" "e \<le> cap_limit c" "f64_ok (Fin e)"
  using assms that by (auto simp: ceiling_inv_def ceiling_core_def ceiling_probe_def split: if_splits)

text \<open>The clamp brings any value, NaN and infinities included, between the minimum and the ceiling.\<close>

lemma clamp_value:
  assumes "1 \<le> lo" "lo \<le> e"
  obtains r where "fmin (fmax v (fmax (Fin lo) (Fin 1))) (Fin e) = Fin r" "lo \<le> r" "r \<le> e" "v = Fin r \<or> r = lo \<or> r = e"
proof -
  have "\<exists>r. fmin (fmax v (fmax (Fin lo) (Fin 1))) (Fin e) = Fin r \<and> lo \<le> r \<and> r \<le> e \<and> (v = Fin r \<or> r = lo \<or> r = e)"
    using assms by (cases v) (auto simp: fmax_def fmin_def)
  with that show thesis by blast
qed

lemma clamp_rates_sel:
  "dir_adaptive (clamp_rates cfg s) d = dir_adaptive s d"
  "dir_last_set (clamp_rates cfg s) d = dir_last_set s d"
  "dir_adjust cfg d \<Longrightarrow> dir_shaper (clamp_rates cfg s) d =
     fmin (fmax (dir_shaper s d) (fmax (dir_min cfg d) (Fin 1))) (ac_effective_max_kbps (dir_adaptive s d))"
  by (auto simp: clamp_rates_def dir_defs dir_adjust_def dir_min_def Let_def)

lemma clamp_rates_inv:
  assumes core: "dir_core lo m c s d" and "dir_adjust cfg d" "dir_min cfg d = Fin lo" "1 \<le> lo" "f64_ok (Fin lo)"
  shows "dir_inv lo m c (clamp_rates cfg s) d"
proof -
  obtain i where i: "ac_initial_safe_ceiling_kbps (dir_adaptive s d) = Fin i" "lo \<le> i"
    using core by (auto simp: dir_core_def)
  obtain e where e: "ac_effective_max_kbps (dir_adaptive s d) = Fin e" "i \<le> e" "e \<le> cap_limit c" "f64_ok (Fin e)"
    using core i(1) by (auto simp: dir_core_def intro: ceiling_inv_effective)
  obtain r where r: "fmin (fmax (dir_shaper s d) (fmax (Fin lo) (Fin 1))) (Fin e) = Fin r" "lo \<le> r" "r \<le> e"
    "dir_shaper s d = Fin r \<or> r = lo \<or> r = e"
    by (rule clamp_value [OF assms(4), of e "dir_shaper s d"]) (use i e in auto)
  have shaper: "dir_shaper (clamp_rates cfg s) d = Fin r"
    using r(1) by (simp add: clamp_rates_sel assms e)
  moreover have "f64_ok (Fin r)"
    using r(4) assms(5) e(4) core by (auto simp: dir_core_def)
  ultimately show ?thesis
    using core r e by (auto simp: dir_inv_def clamp_rates_sel intro: dir_core_cong)
qed

lemma round_half_away_cap_limit: "round_half_away (cap_limit c) = round_half_away c"
  by (simp add: cap_limit_def max_def)

lemma rounded_rate_bounds:
  assumes "1 \<le> r" "r \<le> 2 ^ 52"
  shows "uint (rounded_rate (Fin r)) = round_half_away r"
proof -
  have "round_half_away (of_int 1) \<le> round_half_away r" "round_half_away r \<le> round_half_away (of_int (2 ^ 52))"
    using assms by (auto intro!: round_half_away_mono)
  then have b: "1 \<le> round_half_away r" "round_half_away r \<le> 2 ^ 52"
    by (simp_all only: round_half_away_of_int)
  then have "(of_int 1 :: rat) \<le> of_int (round_half_away r)" "(of_int (round_half_away r) :: rat) \<le> of_int (2 ^ 52)"
    by (simp_all only: of_int_le_iff)
  then have "rounded_rate (Fin r) = word_of_int (round_half_away r)"
    by (simp add: rounded_rate_def fround_def f64_as_u64_def max_absorb1)
  with b show ?thesis
    by (simp add: uint_word_of_int)
qed

lemma apply_shaper_sel:
  "dir_shaper (apply_shaper cfg s b io) d = dir_shaper s d"
  "dir_adaptive (apply_shaper cfg s b io) d = dir_adaptive s d"
  "dir_last_set (apply_shaper cfg s b io) d = dir_last_set s d
   \<or> dir_last_set (apply_shaper cfg s b io) d = rounded_rate (dir_shaper s d)"
  by (auto simp: apply_shaper_def qdisc_kind_def dir_defs Let_def split: option.splits if_splits)

lemma apply_shaper_inv:
  assumes "dir_inv lo m c s d" "1 \<le> lo" "c \<le> 2 ^ 51"
  shows "dir_inv lo m c (apply_shaper cfg s b io) d"
proof -
  obtain r where r: "dir_shaper s d = Fin r" "lo \<le> r" "r \<le> cap_limit c" "f64_ok (Fin r)"
    using assms(1) by (auto simp: dir_inv_def dir_core_def)
  have "round_half_away c \<le> round_half_away (of_int (2 ^ 51))"
    using assms(3) by (intro round_half_away_mono) simp
  then have "(of_int (round_half_away c) :: rat) \<le> of_int (2 ^ 51)"
    by (simp only: round_half_away_of_int of_int_le_iff)
  with assms(3) have "cap_limit c \<le> 2 ^ 52"
    by (simp add: cap_limit_def)
  then have "uint (rounded_rate (Fin r)) = round_half_away r"
    using r assms(2) by (intro rounded_rate_bounds) auto
  moreover have "round_half_away lo \<le> round_half_away r" "round_half_away r \<le> round_half_away c"
    using r(2,3) round_half_away_mono [of r "cap_limit c"]
    by (auto simp: round_half_away_cap_limit intro: round_half_away_mono)
  ultimately show ?thesis
    using assms(1) r apply_shaper_sel [of cfg s b io d] by (auto simp: dir_inv_def dir_core_def)
qed

lemma apply_both_inv:
  "dir_inv lo m c s d \<Longrightarrow> 1 \<le> lo \<Longrightarrow> c \<le> 2 ^ 51 \<Longrightarrow> dir_inv lo m c (apply_both cfg s io) d"
  unfolding apply_both_def by (intro apply_shaper_inv)

lemma update_direction_sel:
  "dir_adaptive (update_direction cfg s b k bb avg g now) d = dir_adaptive s d"
  "dir_last_set (update_direction cfg s b k bb avg g now) d = dir_last_set s d"
  by (auto simp: update_direction_def dir_defs Let_def)

lemma f64_ok_decay: "f64_ok base_v \<Longrightarrow> f64_ok shaper \<Longrightarrow> f64_ok (decay_rate cfg base_v shaper)"
  by (simp add: decay_rate_def f64_ok_choice)

lemma update_direction_core:
  assumes "dir_core lo m c s d" "f64_ok (dir_base cfg b)"
  shows "dir_core lo m c (update_direction cfg s b k bb avg g now) d"
proof (rule dir_core_cong [OF assms(1)])
  have "f64_ok (dir_shaper s d)"
    using assms(1) by (simp add: dir_core_def)
  then show "f64_ok (dir_shaper (update_direction cfg s b k bb avg g now) d)"
    using assms(2) by (auto simp: update_direction_def dir_shaper_def Let_def f64_ok_decay)
qed (simp_all add: update_direction_sel)

text \<open>No operation of a ceiling changes its verified start.\<close>

lemma leave_probe_initial [simp]:
  "ac_initial_safe_ceiling_kbps (fst (leave_probe d p now ph r)) = ac_initial_safe_ceiling_kbps d"
  by (simp add: leave_probe_def clear_probe_def enter_phase_def Let_def)

lemma ceiling_ops_initial [simp]:
  "ac_initial_safe_ceiling_kbps (fst (pause d now r)) = ac_initial_safe_ceiling_kbps d"
  "ac_initial_safe_ceiling_kbps (fst (abort_probe d now r)) = ac_initial_safe_ceiling_kbps d"
  "ac_initial_safe_ceiling_kbps (fst (abort_probe_gap d now)) = ac_initial_safe_ceiling_kbps d"
  "ac_initial_safe_ceiling_kbps (fst (reset_to_configured d now)) = ac_initial_safe_ceiling_kbps d"
  "ac_initial_safe_ceiling_kbps (fst (handle_bufferbloat d now v)) = ac_initial_safe_ceiling_kbps d"
  by (simp_all add: pause_def abort_probe_def abort_probe_gap_def reset_to_configured_def handle_bufferbloat_def
      record_failed_bound_def Let_def)

lemma observe_phases_initial [simp]:
  "ac_initial_safe_ceiling_kbps (fst (observe_cruise d u now ob p)) = ac_initial_safe_ceiling_kbps d"
  "ac_initial_safe_ceiling_kbps (fst (observe_qualify d u now ob p)) = ac_initial_safe_ceiling_kbps d"
  "ac_initial_safe_ceiling_kbps (fst (observe_ramp d u now ob p)) = ac_initial_safe_ceiling_kbps d"
  "ac_initial_safe_ceiling_kbps (fst (observe_backoff d u now p)) = ac_initial_safe_ceiling_kbps d"
  by (simp_all add: observe_cruise_def observe_qualify_def observe_ramp_def observe_backoff_def enter_phase_def
      probe_peak_def Let_def split: option.splits)

lemma observe_probe_initial [simp]:
  "ac_initial_safe_ceiling_kbps (fst (observe_probe d u now ob p)) = ac_initial_safe_ceiling_kbps d"
  unfolding observe_probe_def Let_def case_prod_beta if_distrib [of fst] fst_conv
  by (simp add: enter_phase_def probe_peak_def)

lemma expire_failed_bound_initial [simp]:
  "ac_initial_safe_ceiling_kbps (fst (expire_failed_bound d now ttl)) = ac_initial_safe_ceiling_kbps d"
  by (simp add: expire_failed_bound_def split: option.split)

lemma observe_initial [simp]:
  "ac_initial_safe_ceiling_kbps (fst (observe d now ob p)) = ac_initial_safe_ceiling_kbps d"
  by (simp add: observe_def case_prod_beta Let_def split: adaptive_ceiling_phase.split)

lemma observe_direction_sel:
  "dir_shaper (observe_direction cfg s p b k a bb n avg cl now) d = dir_shaper s d"
  "dir_last_set (observe_direction cfg s p b k a bb n avg cl now) d = dir_last_set s d"
  by (auto simp: observe_direction_def dir_defs Let_def)

lemma observe_direction_core:
  assumes "dir_core lo m c s d"
  shows "dir_core lo m c (observe_direction cfg s p b k a bb n avg cl now) d"
proof -
  have "f64_ok (dir_shaper s d)" "ceiling_inv m c (dir_adaptive s d)"
    using assms by (simp_all add: dir_core_def)
  then have "ceiling_inv m c (dir_adaptive (observe_direction cfg s p b k a bb n avg cl now) d)"
    by (auto simp: observe_direction_def dir_adaptive_def dir_shaper_def Let_def intro: observe_inv)
  moreover have "ac_initial_safe_ceiling_kbps (dir_adaptive (observe_direction cfg s p b k a bb n avg cl now) d)
      = ac_initial_safe_ceiling_kbps (dir_adaptive s d)"
    by (simp add: observe_direction_def dir_adaptive_def Let_def)
  ultimately show ?thesis
    using assms by (simp add: dir_core_def observe_direction_sel)
qed

subsection \<open>Every step keeps it\<close>

text \<open>The limits of an adjusted direction, as validation leaves them.\<close>

definition dir_limits :: "config \<Rightarrow> bool \<Rightarrow> rat \<Rightarrow> rat \<Rightarrow> rat \<Rightarrow> bool" where
  "dir_limits cfg d lo m c \<longleftrightarrow> dir_adjust cfg d \<and> dir_min cfg d = Fin lo \<and> dir_max cfg d = Fin m
     \<and> dir_cap cfg d = Fin c \<and> f64_ok (Fin lo) \<and> f64_ok (dir_base cfg True) \<and> f64_ok (dir_base cfg False)
     \<and> 1 \<le> lo \<and> lo \<le> m \<and> c \<le> 2 ^ 51"

lemma clamp_apply_inv:
  assumes "dir_limits cfg d lo m c" "dir_core lo m c s d"
  shows "dir_inv lo m c (apply_both cfg (clamp_rates cfg s) io) d"
  using assms by (auto simp: dir_limits_def intro!: apply_both_inv clamp_rates_inv)

lemma dir_inv_adaptive:
  assumes "dir_inv lo m c s d" "ceiling_inv m c (dir_adaptive s d) \<Longrightarrow> ceiling_inv m c (dir_adaptive s' d)"
    "ac_initial_safe_ceiling_kbps (dir_adaptive s' d) = ac_initial_safe_ceiling_kbps (dir_adaptive s d)"
    "dir_shaper s' d = dir_shaper s d" "dir_last_set s' d = dir_last_set s d"
  shows "dir_inv lo m c s' d"
  using assms by (simp add: dir_inv_def dir_core_def)

lemma adaptive_each_inv:
  assumes "dir_limits cfg d lo m c" "dir_inv lo m c s d"
    and f: "\<And>a. ceiling_inv m c a \<Longrightarrow> ceiling_inv m c (fst (f a))"
    and initial: "\<And>a. ac_initial_safe_ceiling_kbps (fst (f a)) = ac_initial_safe_ceiling_kbps a"
  shows "dir_inv lo m c (adaptive_each cfg s io f) d"
proof -
  define dl where "dl = (if adjust_dl_shaper_rate cfg then s\<lparr>adaptive_dl := fst (f (adaptive_dl s))\<rparr> else s)"
  define ul where "ul = (if adjust_ul_shaper_rate cfg then dl\<lparr>adaptive_ul := fst (f (adaptive_ul dl))\<rparr> else dl)"
  have "dir_inv lo m c dl d"
    by (rule dir_inv_adaptive [OF assms(2)]) (cases d; simp add: dl_def dir_defs f initial)+
  then have "dir_inv lo m c ul d"
    by (rule dir_inv_adaptive) (cases d; simp add: ul_def dir_defs f initial)+
  moreover have "adaptive_each cfg s io f = ul \<or> adaptive_each cfg s io f = apply_both cfg (clamp_rates cfg ul) io"
    by (simp add: adaptive_each_def Let_def ul_def dl_def)
  ultimately show ?thesis
    using clamp_apply_inv [OF assms(1) dir_inv_core] by metis
qed

lemma set_run_state_inv:
  assumes "dir_limits cfg d lo m c" "dir_inv lo m c s d"
  shows "dir_inv lo m c (set_run_state cfg s state io) d"
proof -
  have "dir_inv lo m c (s\<lparr>run_state := state\<rparr>) d"
    using assms(2) by (rule dir_inv_cong) (simp_all add: dir_defs)
  then show ?thesis
    using assms adaptive_each_inv [OF assms(1), of "s\<lparr>run_state := state\<rparr>" "\<lambda>d. pause d (io_now io) ''autorate state paused''" io]
    by (simp add: set_run_state_def pause_inv Let_def)
qed

lemma learn_baseline_inv:
  assumes "dir_limits cfg d lo m c" "dir_inv lo m c s d"
  shows "dir_inv lo m c (fst (learn_baseline cfg s sm iv rates now io)) d"
proof -
  have keep: "dir_inv lo m c (s\<lparr>baseline_warmups := w\<rparr>) d"
    "dir_inv lo m c (s\<lparr>dl_baseline_us := a, ul_baseline_us := b, baseline_warmups := w\<rparr>) d" for a b w
    using assms(2) by (auto elim!: dir_inv_cong simp: dir_defs)
  show ?thesis
    using assms(2) keep set_run_state_inv [OF assms(1)]
    by (auto simp: learn_baseline_def Let_def case_prod_beta split: option.split prod.split)
qed

lemma record_deltas_inv:
  assumes "dir_inv lo m c s d"
  shows "dir_inv lo m c (record_deltas cfg s sm p q x y) d"
  by (rule dir_inv_cong [OF assms]) (simp_all add: record_deltas_def dir_defs Let_def case_prod_beta)

lemma update_adaptive_ceilings_core:
  assumes "dir_core lo m c s d" "update_adaptive_ceilings cfg s k l a b bb cc e f g h cl now = Some t"
  shows "dir_core lo m c t d"
  using assms
  by (auto simp: update_adaptive_ceilings_def intro!: observe_direction_core split: if_splits option.splits)

lemma react_inv:
  assumes "dir_limits cfg d lo m c" "dir_inv lo m c s d" "react cfg s p q rates now io = Some s'"
  shows "dir_inv lo m c s' d"
proof (cases "runtime_rate_control_suspended s")
  case False
  have base: "f64_ok (dir_base cfg True)" "f64_ok (dir_base cfg False)"
    using assms(1) by (simp_all add: dir_limits_def)
  have u: "dir_core lo m c (update_direction cfg (update_direction cfg s True k bb x True now) False l cc y True now) d"
    for k bb x l cc y
    using assms(2) base by (intro update_direction_core) (simp_all add: dir_inv_core)
  show ?thesis
    using False assms(3)
    by (auto simp: react_def Let_def split: option.splits
        intro!: clamp_apply_inv [OF assms(1)] dest: update_adaptive_ceilings_core [OF u])
qed (use assms in \<open>simp add: react_def Let_def\<close>)

lemma reset_uplink_learning_inv:
  assumes "dir_inv lo m c s d"
  shows "dir_inv lo m c (reset_uplink_learning cfg s epoch now) d"
  using assms reset_to_configured_inv
  by (auto simp: dir_inv_def dir_core_def dir_defs reset_uplink_learning_def)

lemma set_min_shaper_rates_inv:
  assumes limits: "dir_limits cfg d lo m c" and inv: "dir_inv lo m c s d"
  shows "dir_inv lo m c (set_min_shaper_rates cfg s io) d"
proof -
  define dl where "dl = (if adjust_dl_shaper_rate cfg then s\<lparr>shaper_dl := fmax (min_dl_shaper_rate_kbps cfg) (Fin 1)\<rparr> else s)"
  define ul where "ul = (if adjust_ul_shaper_rate cfg then dl\<lparr>shaper_ul := fmax (min_ul_shaper_rate_kbps cfg) (Fin 1)\<rparr> else dl)"
  have lo: "dir_adjust cfg d" "dir_min cfg d = Fin lo" "1 \<le> lo" "f64_ok (Fin lo)" "c \<le> 2 ^ 51"
    using limits by (simp_all add: dir_limits_def)
  have shaper: "dir_shaper ul d = Fin lo"
    using lo(1-3) by (cases d) (simp_all add: ul_def dl_def dir_adjust_def dir_min_def dir_shaper_def max_absorb1)
  have same: "dir_adaptive ul d = dir_adaptive s d" "dir_last_set ul d = dir_last_set s d"
    by (simp_all add: dir_defs ul_def dl_def)
  obtain i where i: "ac_initial_safe_ceiling_kbps (dir_adaptive s d) = Fin i" "lo \<le> i"
    "ceiling_inv m c (dir_adaptive s d)"
    using inv by (auto simp: dir_inv_def dir_core_def)
  have "lo \<le> cap_limit c"
    by (rule ceiling_inv_effective [OF i(3,1)]) (use i(2) in linarith)
  then have "dir_inv lo m c ul d"
    using inv lo shaper same by (simp add: dir_inv_def dir_core_def)
  from apply_both_inv [OF this lo(3,5)] show ?thesis
    unfolding set_min_shaper_rates_def Let_def ul_def dl_def .
qed

lemma controller_step_inv:
  assumes "controller_step cfg s s'" "dir_limits cfg d lo m c" "dir_inv lo m c s d"
  shows "dir_inv lo m c s' d"
  using assms
proof (induction rule: controller_step.induct)
  case (started s io)
  then show ?case by (auto simp: dir_limits_def intro: apply_both_inv)
next
  case (sampled s sm iv rates now io s')
  let ?l = "learn_baseline cfg s sm iv rates now io"
  have "dir_inv lo m c (fst ?l) d" by (rule learn_baseline_inv [OF sampled.prems])
  moreover have "dir_inv lo m c (note_probe_gap cfg s io) d"
    using sampled.prems adaptive_each_inv [OF sampled.prems, of "\<lambda>d. abort_probe_gap d (io_now io)" io]
    by (simp add: note_probe_gap_def abort_probe_gap_inv)
  ultimately show ?case
    using sampled.hyps react_inv [OF sampled.prems(1) record_deltas_inv]
    by (auto simp: on_sample_with_rates_def Let_def case_prod_beta split: if_splits option.splits)
next
  case (gap s io)
  then show ?case
    using adaptive_each_inv [OF gap, of "\<lambda>d. abort_probe_gap d (io_now io)" io]
    by (simp add: note_probe_gap_def abort_probe_gap_inv)
next
  case (sustained_gap s io)
  then show ?case
    using adaptive_each_inv [OF sustained_gap, of "\<lambda>d. reset_to_configured d (io_now io)" io]
    by (simp add: reset_adaptive_after_sustained_gap_def reset_to_configured_inv)
next
  case (environment s u h a b k l)
  then show ?case by (elim dir_inv_cong) (simp_all add: dir_defs)
qed (auto intro: set_min_shaper_rates_inv set_run_state_inv reset_uplink_learning_inv)

subsection \<open>Valid configurations\<close>

text \<open>The options are doubles.\<close>

definition config_doubles :: "config \<Rightarrow> bool" where
  "config_doubles cfg = list_all f64_ok
     [min_dl_shaper_rate_kbps cfg, base_dl_shaper_rate_kbps cfg, max_dl_shaper_rate_kbps cfg,
      min_ul_shaper_rate_kbps cfg, base_ul_shaper_rate_kbps cfg, max_ul_shaper_rate_kbps cfg,
      adaptive_ceiling_dl_cap_kbps cfg, adaptive_ceiling_ul_cap_kbps cfg,
      adaptive_ceiling_dl_safe_kbps cfg, adaptive_ceiling_ul_safe_kbps cfg,
      shaper_rate_min_adjust_down_bufferbloat cfg, shaper_rate_max_adjust_down_bufferbloat cfg,
      shaper_rate_adjust_down_load_low cfg, shaper_rate_min_adjust_up_load_high cfg,
      shaper_rate_max_adjust_up_load_high cfg, shaper_rate_adjust_up_load_low cfg]"

lemma config_validate_parts:
  assumes "config_validate cfg = None"
  shows "list_all (\<lambda>p. \<not> fst p) (rate_checks ''download'' (adjust_dl_shaper_rate cfg) (min_dl_shaper_rate_kbps cfg)
      (base_dl_shaper_rate_kbps cfg) (max_dl_shaper_rate_kbps cfg))"
    "list_all (\<lambda>p. \<not> fst p) (rate_checks ''upload'' (adjust_ul_shaper_rate cfg) (min_ul_shaper_rate_kbps cfg)
      (base_ul_shaper_rate_kbps cfg) (max_ul_shaper_rate_kbps cfg))"
    "list_all (\<lambda>p. \<not> fst p) (factor_checks cfg)" "list_all (\<lambda>p. \<not> fst p) (timer_checks cfg)"
    "list_all (\<lambda>p. \<not> fst p) (delay_checks cfg)" "list_all (\<lambda>p. \<not> fst p) (count_checks cfg)"
    "list_all (\<lambda>p. \<not> fst p) (adaptive_checks cfg)"
proof -
  have core: "validate_core cfg = None" and rest: "rate_validate cfg = None"
    using assms by (auto simp: config_validate_def split: option.splits)
  show "list_all (\<lambda>p. \<not> fst p) (adaptive_checks cfg)"
    using rest unfolding rate_validate_def first_failure_None_iff list_all_iff by auto
qed (use assms in \<open>auto simp: config_validate_def validate_core_def first_failure_None_iff list_all_iff
      split: option.splits\<close>)

lemma rate_checks_ok:
  assumes "list_all (\<lambda>p. \<not> fst p) (rate_checks direction True min_r base_r max_r)"
  obtains lo b m where "min_r = Fin lo" "base_r = Fin b" "max_r = Fin m" "1 \<le> lo" "lo \<le> b" "b \<le> m" "m \<le> 100000000"
proof -
  have "\<not> fst (bounded (direction @ '' minimum rate'') min_r (Fin 1) (Fin 100000000))"
    "\<not> fst (bounded (direction @ '' base rate'') base_r (Fin 1) (Fin 100000000))"
    "\<not> fst (bounded (direction @ '' maximum rate'') max_r (Fin 1) (Fin 100000000))"
    "\<not> (flt base_r min_r \<or> flt max_r base_r)"
    using assms by (simp_all add: rate_checks_def MIN_ENABLED_RATE_KBPS_def max_rate_def)
  then show thesis
    by (elim bounded_ok) (rule that, assumption, assumption, assumption, auto)
qed

lemma dir_rates_ok:
  assumes "config_validate cfg = None" "dir_adjust cfg d"
  obtains lo b m where "dir_min cfg d = Fin lo" "dir_base cfg d = Fin b" "dir_max cfg d = Fin m"
    "1 \<le> lo" "lo \<le> b" "b \<le> m" "m \<le> 100000000"
proof (cases d)
  case True
  with assms(2) have "adjust_dl_shaper_rate cfg = True" by (simp add: dir_adjust_def)
  from rate_checks_ok [OF config_validate_parts(1) [OF assms(1), unfolded this]] True that show thesis
    by (auto simp: dir_min_def dir_base_def dir_max_def)
next
  case False
  with assms(2) have "adjust_ul_shaper_rate cfg = True" by (simp add: dir_adjust_def)
  from rate_checks_ok [OF config_validate_parts(2) [OF assms(1), unfolded this]] False that show thesis
    by (auto simp: dir_min_def dir_base_def dir_max_def)
qed

lemma cap_ok:
  assumes "config_validate cfg = None"
  obtains a b where "adaptive_ceiling_dl_cap_kbps cfg = Fin a" "adaptive_ceiling_ul_cap_kbps cfg = Fin b"
    "0 \<le> a" "0 \<le> b" "a \<le> 100000000" "b \<le> 100000000"
proof -
  have "\<not> fst (bounded ''adaptive_ceiling_dl_cap_kbps'' (adaptive_ceiling_dl_cap_kbps cfg) (Fin 0) (Fin 100000000))"
    "\<not> fst (bounded ''adaptive_ceiling_ul_cap_kbps'' (adaptive_ceiling_ul_cap_kbps cfg) (Fin 0) (Fin 100000000))"
    using config_validate_parts(3) [OF assms] by (simp_all add: factor_checks_def max_rate_def)
  then show thesis
    by (elim bounded_ok) (erule (1) that, auto)
qed

lemma start_safe_ok:
  assumes "config_validate cfg = None" "config_doubles cfg" "dir_base cfg d = Fin b" "dir_max cfg d = Fin m" "b \<le> m"
  obtains x where "adaptive_start_safe cfg d = Fin x" "b \<le> x" "x \<le> m" "f64_ok (Fin x)"
proof -
  have "\<exists>x. adaptive_start_safe cfg d = Fin x \<and> b \<le> x \<and> x \<le> m"
  proof (cases "adaptive_ceiling_enabled cfg")
    case True
    define safe where "safe = (if d then adaptive_ceiling_dl_safe_kbps cfg else adaptive_ceiling_ul_safe_kbps cfg)"
    define evidence where "evidence = (if d then adaptive_ceiling_dl_evidence cfg else adaptive_ceiling_ul_evidence cfg)"
    have "list_all (\<lambda>p. \<not> fst p) (evidence_checks (if d then ''download'' else ''upload'') safe (Fin b) (Fin m) evidence)"
      using config_validate_parts(7) [OF assms(1)] assms(3,4) True
      by (cases d) (simp_all add: adaptive_checks_def safe_def evidence_def dir_base_def dir_max_def)
    then have "evidence = ''legacy_unverified'' \<or> is_finite safe \<and> \<not> flt safe (Fin b) \<and> \<not> flt (Fin m) safe"
      by (simp add: evidence_checks_def split: if_splits)
    moreover have "adaptive_start_safe cfg d = (if evidence = ''legacy_unverified'' then fmin (Fin b) (Fin m) else safe)"
      using True assms(3,4) by (auto simp: adaptive_start_safe_def safe_def evidence_def dir_base_def dir_max_def Let_def)
    ultimately show ?thesis
      using assms(5) by (auto simp: is_finite_iff)
  next
    case False
    then show ?thesis
      using assms(4,5) by (auto simp: adaptive_start_safe_def dir_max_def Let_def)
  qed
  moreover have "f64_ok (adaptive_start_safe cfg d)"
    using assms(2) by (auto simp: config_doubles_def adaptive_start_safe_def dir_base_def Let_def intro: f64_ok_choice)
  ultimately show thesis using that by auto
qed

lemma valid_start:
  assumes "config_validate cfg = None" "config_doubles cfg" "dir_adjust cfg d"
  obtains lo b m c where "dir_limits cfg d lo m c" "dir_base cfg d = Fin b" "lo \<le> b" "b \<le> m" "c \<le> 100000000"
    "dir_inv lo m c (controller_new cfg now a e) d"
proof -
  obtain lo b m where r: "dir_min cfg d = Fin lo" "dir_base cfg d = Fin b" "dir_max cfg d = Fin m"
    "1 \<le> lo" "lo \<le> b" "b \<le> m" "m \<le> 100000000"
    by (rule dir_rates_ok [OF assms(1,3)])
  obtain p q where cap: "adaptive_ceiling_dl_cap_kbps cfg = Fin p" "adaptive_ceiling_ul_cap_kbps cfg = Fin q"
    "p \<le> 100000000" "q \<le> 100000000"
    by (rule cap_ok [OF assms(1)])
  obtain x where x: "adaptive_start_safe cfg d = Fin x" "b \<le> x" "x \<le> m" "f64_ok (Fin x)"
    by (rule start_safe_ok [OF assms(1,2) r(2,3,6)])
  define k where "k = (if d then p else q)"
  define c where "c = max k m"
  have c: "dir_cap cfg d = Fin c" "c \<le> 100000000" "m \<le> c"
    using r cap by (auto simp: dir_cap_def c_def k_def)
  have ok: "f64_ok (Fin lo)" "f64_ok (Fin b)" "f64_ok (Fin m)" "f64_ok (Fin k)"
    "f64_ok (dir_base cfg True)" "f64_ok (dir_base cfg False)"
    using assms(2) r cap by (auto simp: config_doubles_def dir_min_def dir_base_def dir_max_def k_def split: if_splits)
  have limits: "dir_limits cfg d lo m c"
    using assms(3) r c ok by (simp add: dir_limits_def)
  have adaptive: "dir_adaptive (controller_new cfg now a e) d =
      new_at_with_verified_safe (Fin m) (Fin c) (Fin x) (if d then a else e)"
    using r x cap by (simp add: dir_adaptive_def controller_new_def dir_max_def new_at_with_verified_safe_def
        c_def k_def split: if_splits)
  have "ceiling_start m c (dir_adaptive (controller_new cfg now a e) d)"
    unfolding ceiling_start_def adaptive using r c ok x by (auto simp: c_def max_def)
  then have "ceiling_inv m c (dir_adaptive (controller_new cfg now a e) d)"
    by (rule ceiling_start_inv)
  moreover have "ac_initial_safe_ceiling_kbps (dir_adaptive (controller_new cfg now a e) d) = Fin x"
    unfolding adaptive using r x c by (simp add: new_at_with_verified_safe_def Let_def max_def min_def)
  moreover have "dir_shaper (controller_new cfg now a e) d = Fin b" "dir_last_set (controller_new cfg now a e) d = 0"
    using r(2) by (cases d; simp add: dir_shaper_def dir_last_set_def controller_new_def dir_base_def)+
  moreover have "b \<le> cap_limit c" using r c by (simp add: cap_limit_def)
  ultimately have "dir_inv lo m c (controller_new cfg now a e) d"
    using r x ok by (simp add: dir_inv_def dir_core_def)
  with limits r c show thesis by (intro that) auto
qed

section \<open>The reaction of one direction\<close>

lemma fmul_shrink:
  assumes "f64_ok (Fin x)" "0 \<le> x" "0 \<le> f" "f \<le> 1"
  obtains y where "fmul (Fin x) (Fin f) = Fin y" "0 \<le> y" "y \<le> x"
proof (rule rnd_between [of 0 x "x * f"])
  show "x * f \<le> x" using assms mult_left_le by blast
qed (use assms that in auto)

lemma fmul_grow:
  assumes "f64_ok (Fin x)" "0 \<le> x" "1 \<le> f"
  shows "fmul (Fin x) (Fin f) = PInf \<or> (\<exists>y. fmul (Fin x) (Fin f) = Fin y \<and> x \<le> y)"
proof -
  have "x \<le> x * f" using assms mult_left_mono [of 1 f x] by simp
  from rnd_rat_mono [OF this] have "x \<le> rnd_rat (x * f)"
    using assms(1) by (simp add: f64_ok_Fin)
  moreover have "- pow2 1024 < x" using assms(1) by (auto simp: f64_ok_Fin)
  ultimately show ?thesis by (auto simp: rnd_def Let_def)
qed

text \<open>The interpolation factor is between zero and one, whatever the deltas are.\<close>

lemma ratio_le_1:
  assumes "u = NaN \<or> u = PInf \<or> (\<exists>x\<ge>0. u = Fin x)"
  shows "\<exists>x. fmin u (Fin 1) = Fin x \<and> 0 \<le> x \<and> x \<le> 1"
  using assms by (auto simp: fmin_def)

lemma rnd_nonneg:
  assumes "0 \<le> x"
  shows "rnd x = PInf \<or> (\<exists>y\<ge>0. rnd x = Fin y)"
  using rnd_rat_nonneg [OF assms] pow2_pos(1) [of 1024] by (auto simp: rnd_def Let_def simp del: pow2_pos)

lemma fsub_positive:
  assumes "flt b a"
  shows "fsub a b = PInf \<or> (\<exists>x\<ge>0. fsub a b = Fin x)"
  using assms rnd_nonneg by (cases a; cases b) (auto simp: fsub_def)

lemma fdiv_nonneg:
  assumes "u = PInf \<or> (\<exists>x\<ge>0. u = Fin x)" "v = NaN \<or> v = PInf \<or> (\<exists>x\<ge>0. v = Fin x)"
  shows "fdiv u v = NaN \<or> fdiv u v = PInf \<or> (\<exists>x\<ge>0. fdiv u v = Fin x)"
proof -
  have "rnd (x / y) = PInf \<or> (\<exists>z\<ge>0. rnd (x / y) = Fin z)" if "0 \<le> x" "0 \<le> y" for x y
    using that by (intro rnd_nonneg) simp
  moreover have "inf_signed x = NaN \<or> inf_signed x = PInf" if "0 \<le> x" for x
    using that by (simp add: inf_signed_def)
  ultimately show ?thesis
    using assms by (elim disjE exE conjE) (simp_all, blast)
qed

lemma interpolation:
  assumes "flt low v" "\<not> fle high low"
  shows "\<exists>x. fmin (fdiv (fsub v low) (fsub high low)) (Fin 1) = Fin x \<and> 0 \<le> x \<and> x \<le> 1"
proof -
  have "low \<noteq> NaN" using assms(1) by (cases low) auto
  then have "high = NaN \<or> flt low high"
    using assms(2) by (cases high; cases low) (auto simp: fle_def feq_def)
  then have "fsub high low = NaN \<or> fsub high low = PInf \<or> (\<exists>x\<ge>0. fsub high low = Fin x)"
    using fsub_positive [of low high] by (cases low) (auto simp: fsub_def)
  with fsub_positive [OF assms(1)] show ?thesis by (intro ratio_le_1 fdiv_nonneg)
qed

lemma interpolation_down:
  assumes "flt v high" "\<not> fle high low"
  shows "\<exists>x. fmin (fdiv (fsub high v) (fsub high low)) (Fin 1) = Fin x \<and> 0 \<le> x \<and> x \<le> 1"
proof -
  have "high \<noteq> NaN" using assms(1) by (cases high; cases v) auto
  then have "low = NaN \<or> flt low high"
    using assms(2) by (cases high; cases low) (auto simp: fle_def feq_def)
  then have "fsub high low = NaN \<or> fsub high low = PInf \<or> (\<exists>x\<ge>0. fsub high low = Fin x)"
    using fsub_positive [of low high] by (cases high) (auto simp: fsub_def)
  with fsub_positive [OF assms(1)] show ?thesis by (intro ratio_le_1 fdiv_nonneg)
qed

lemma reduce_factor_bounds:
  assumes "shaper_rate_min_adjust_down_bufferbloat cfg = Fin a" "shaper_rate_max_adjust_down_bufferbloat cfg = Fin b"
    "f64_ok (Fin a)" "0 \<le> b" "b \<le> a"
  obtains f where "reduce_factor cfg avg dt down = Fin f" "0 \<le> f" "f \<le> a"
proof -
  obtain g where g: "rnd (a - b) = Fin g" "0 \<le> g" "g \<le> a" "f64_ok (Fin g)"
    by (rule rnd_between [of 0 a "a - b"]) (use assms in auto)
  have "\<exists>x. (if fle down dt then Fin 1 else if flt dt avg then fmin (fdiv (fsub avg dt) (fsub down dt)) (Fin 1)
      else Fin 0) = Fin x \<and> 0 \<le> x \<and> x \<le> 1"
    using interpolation [of dt avg down] by simp
  then obtain x where x: "(if fle down dt then Fin 1 else if flt dt avg
      then fmin (fdiv (fsub avg dt) (fsub down dt)) (Fin 1) else Fin 0) = Fin x" "0 \<le> x" "x \<le> 1"
    by blast
  obtain p where p: "fmul (Fin g) (Fin x) = Fin p" "0 \<le> p" "p \<le> g"
    by (rule fmul_shrink [OF g(4,2) x(2,3)])
  obtain f where f: "rnd (a - p) = Fin f" "0 \<le> f" "f \<le> a"
    by (rule rnd_between [of 0 a "a - p"]) (use assms g p in auto)
  have "reduce_factor cfg avg dt down = Fin f"
    using assms(1,2) g(1) p(1) f(1) unfolding reduce_factor_def Let_def x(1) by (simp add: mult.commute)
  with f that show thesis by blast
qed

lemma growth_factor_bounds:
  assumes "shaper_rate_min_adjust_up_load_high cfg = Fin a" "shaper_rate_max_adjust_up_load_high cfg = Fin b"
    "f64_ok (Fin a)" "f64_ok (Fin b)" "1 \<le> a" "a \<le> b" "b \<le> 100000000"
  obtains f where "growth_factor cfg avg dt up = Fin f" "a \<le> f" "f \<le> 200000000"
proof -
  have big: "f64_ok (Fin 200000000)" by (rule f64_ok_numeral) simp
  obtain g where g: "rnd (a - b) = Fin g" "- b \<le> g" "g \<le> 0" "f64_ok (Fin g)"
    by (rule rnd_between [of "- b" 0 "a - b"]) (use assms in auto)
  have "\<exists>x. (if fle dt up then Fin 1 else if flt avg dt then fmin (fdiv (fsub dt avg) (fsub dt up)) (Fin 1)
      else Fin 0) = Fin x \<and> 0 \<le> x \<and> x \<le> 1"
    using interpolation_down [of avg dt up] by simp
  then obtain x where x: "(if fle dt up then Fin 1 else if flt avg dt
      then fmin (fdiv (fsub dt avg) (fsub dt up)) (Fin 1) else Fin 0) = Fin x" "0 \<le> x" "x \<le> 1"
    by blast
  have "g \<le> x * g" using g(3) x mult_right_mono_neg [of x 1 g] by simp
  moreover have "x * g \<le> 0" using g(3) x by (simp add: mult_nonneg_nonpos)
  ultimately obtain p where p: "rnd (x * g) = Fin p" "g \<le> p" "p \<le> 0"
    by (rule rnd_between [of g 0 "x * g", OF g(4) f64_ok_simps(4)])
  obtain f where f: "rnd (a - p) = Fin f" "a \<le> f" "f \<le> 200000000"
    by (rule rnd_between [of a 200000000 "a - p", OF assms(3) big]) (use assms g p in auto)
  have "growth_factor cfg avg dt up = Fin f"
    using assms(1,2) g(1) p(1) f(1) unfolding growth_factor_def Let_def x(1) by simp
  with f that show thesis by blast
qed

lemma decay_rate_bounds:
  assumes "f64_ok (Fin x)" "0 \<le> x" "shaper_rate_adjust_down_load_low cfg = Fin p" "0 \<le> p" "p \<le> 1"
    "shaper_rate_adjust_up_load_low cfg = Fin q" "1 \<le> q"
  obtains y where "decay_rate cfg (Fin b) (Fin x) = Fin y" "min x b \<le> y" "y \<le> max x b"
proof -
  obtain z where "fmul (Fin x) (Fin p) = Fin z" "z \<le> x"
    by (rule fmul_shrink [OF assms(1,2,4,5)])
  moreover have "fmul (Fin x) (Fin q) = PInf \<or> (\<exists>z. fmul (Fin x) (Fin q) = Fin z \<and> x \<le> z)"
    by (rule fmul_grow [OF assms(1,2,7)])
  ultimately have "\<exists>y. decay_rate cfg (Fin b) (Fin x) = Fin y \<and> min x b \<le> y \<and> y \<le> max x b"
    using assms(3,6) by (cases "b < x"; cases "x < b") (auto simp: decay_rate_def fmin_def)
  with that show thesis by blast
qed

text \<open>The limits of the timers are doubles near the decimal values they are written as.\<close>

lemma MAX_TIMER_bounds:
  obtains t where "MAX_TIMER_S = Fin t" "2147483 \<le> t" "t \<le> 2147484" "f64_ok (Fin t)"
  by (rule rnd_between [of 2147483 2147484 "2147483647 / 1000"])
    (auto simp: MAX_TIMER_S_def intro: f64_ok_numeral that)

lemma MIN_TIMER_bounds:
  obtains t where "MIN_TIMER_S = Fin t" "0 \<le> t" "t \<le> 1"
  by (rule rnd_between [of 0 1 "1 / 10 ^ 9"]) (auto simp: MIN_TIMER_S_def intro: that)

lemma try_from_secs_f64_timer:
  assumes "0 \<le> x" "x \<le> 2147484"
  shows "try_from_secs_f64 (Fin x) \<noteq> None"
proof -
  have "round_half_even (x * 10 ^ 9) \<le> 2147484 * 10 ^ 9"
    using assms by (intro round_half_even_le_int) simp
  then show ?thesis
    using assms(1) by (simp add: try_from_secs_f64_def DURATION_MAX_def)
qed

lemma bounded_timer:
  assumes "\<not> fst (bounded name v l MAX_TIMER_S)" "l = MIN_TIMER_S \<or> l = Fin 0"
  obtains x where "v = Fin x" "0 \<le> x" "x \<le> 2147484"
proof -
  obtain t where t: "MAX_TIMER_S = Fin t" "t \<le> 2147484" by (rule MAX_TIMER_bounds)
  obtain u where u: "l = Fin u" "0 \<le> u"
    using assms(2) MIN_TIMER_bounds by (metis order_refl)
  have "\<exists>x. v = Fin x \<and> 0 \<le> x \<and> x \<le> 2147484"
    using assms(1) t(2) u(2) unfolding t(1) u(1) by (cases v) (auto simp: bounded_def)
  with that show thesis by blast
qed

text \<open>The durations of the adaptive policy exist under a valid configuration.\<close>

lemma adaptive_policy_exists:
  assumes "config_validate cfg = None"
  shows "adaptive_policy cfg \<noteq> None"
proof -
  have deadline: "try_from_secs_f64 (fmax v (Fin 1)) \<noteq> None"
    if checked: "\<not> fst (bounded name v MIN_TIMER_S MAX_TIMER_S)" for name v
  proof -
    obtain x where "v = Fin x" "0 \<le> x" "x \<le> 2147484"
      by (rule bounded_timer [OF checked]) simp_all
    then show ?thesis using try_from_secs_f64_timer [of "max x 1"] by simp
  qed
  have timer: "try_from_secs_f64 v \<noteq> None"
    if "\<not> fst (bounded name v l MAX_TIMER_S)" "l = MIN_TIMER_S \<or> l = Fin 0" for name v l
    using that by (rule bounded_timer) (simp add: try_from_secs_f64_timer)
  have "\<not> fst (bounded ''adaptive_ceiling_hold_time_s'' (adaptive_ceiling_hold_time_s cfg) MIN_TIMER_S MAX_TIMER_S)"
    "\<not> fst (bounded ''adaptive_ceiling_probe_duration_s'' (adaptive_ceiling_probe_duration_s cfg) MIN_TIMER_S MAX_TIMER_S)"
    "\<not> fst (bounded ''adaptive_ceiling_failed_bound_ttl_s'' (adaptive_ceiling_failed_bound_ttl_s cfg) MIN_TIMER_S MAX_TIMER_S)"
    "\<not> fst (bounded ''adaptive_ceiling_cooldown_s'' (adaptive_ceiling_cooldown_s cfg) (Fin 0) MAX_TIMER_S)"
    "\<not> fst (bounded ''reflector_response_deadline_s'' (reflector_response_deadline_s cfg) MIN_TIMER_S MAX_TIMER_S)"
    using config_validate_parts(4) [OF assms] by (simp_all add: timer_checks_def)
  note timer [OF this(1)] timer [OF this(2)] timer [OF this(3)] timer [OF this(4)] deadline [OF this(5)]
  then show ?thesis
    by (auto simp: adaptive_policy_def split: option.split)
qed

lemma factors_ok:
  assumes "config_validate cfg = None"
  obtains a b p where "shaper_rate_min_adjust_down_bufferbloat cfg = Fin a"
    "shaper_rate_max_adjust_down_bufferbloat cfg = Fin b" "shaper_rate_adjust_down_load_low cfg = Fin p"
    "0 \<le> b" "b \<le> a" "a \<le> 1" "0 \<le> p" "p \<le> 1"
proof -
  have "\<not> fst (bounded ''shaper_rate_min_adjust_down_bufferbloat'' (shaper_rate_min_adjust_down_bufferbloat cfg)
      (Fin (pow2 (- 1022))) (Fin 1))"
    "\<not> fst (bounded ''shaper_rate_max_adjust_down_bufferbloat'' (shaper_rate_max_adjust_down_bufferbloat cfg)
      (Fin (pow2 (- 1022))) (Fin 1))"
    "\<not> fst (bounded ''shaper_rate_adjust_down_load_low'' (shaper_rate_adjust_down_load_low cfg)
      (Fin (pow2 (- 1022))) (Fin 1))"
    "\<not> flt (shaper_rate_min_adjust_down_bufferbloat cfg) (shaper_rate_max_adjust_down_bufferbloat cfg)"
    using config_validate_parts(3) [OF assms] by (simp_all add: factor_checks_def f64_MIN_POSITIVE_def)
  then show thesis
    by (elim bounded_ok) (rule that, assumption, assumption, assumption, auto dest: order_trans [OF pow2_pos(3)])
qed

lemma growth_ok:
  assumes "config_validate cfg = None"
  obtains a b q where "shaper_rate_min_adjust_up_load_high cfg = Fin a"
    "shaper_rate_max_adjust_up_load_high cfg = Fin b" "shaper_rate_adjust_up_load_low cfg = Fin q"
    "1 \<le> a" "a \<le> b" "b \<le> 100000000" "1 \<le> q"
proof -
  have "\<not> fst (bounded ''shaper_rate_min_adjust_up_load_high'' (shaper_rate_min_adjust_up_load_high cfg)
      (Fin 1) (Fin 100000000))"
    "\<not> fst (bounded ''shaper_rate_max_adjust_up_load_high'' (shaper_rate_max_adjust_up_load_high cfg)
      (Fin 1) (Fin 100000000))"
    "\<not> fst (bounded ''shaper_rate_adjust_up_load_low'' (shaper_rate_adjust_up_load_low cfg) (Fin 1) (Fin 100000000))"
    "\<not> flt (shaper_rate_max_adjust_up_load_high cfg) (shaper_rate_min_adjust_up_load_high cfg)"
    using config_validate_parts(3) [OF assms] by (simp_all add: factor_checks_def max_rate_def)
  then show thesis
    by (elim bounded_ok) (rule that, assumption, assumption, assumption, auto)
qed

lemma update_direction_shaper:
  fixes s :: controller
  assumes "dir_adjust cfg d"
  shows "dir_shaper (update_direction cfg s d kind bb avg allow now) d =
     (if bb \<and> from_millis (bufferbloat_refractory_period_ms cfg) \<le> now - dir_last_bb s d
      then fmul (dir_shaper s d) (reduce_factor cfg avg (delay_thr_us cfg s d) (avg_adjust_down_thr_us cfg s d))
      else if kind = High \<and> from_millis (bufferbloat_refractory_period_ms cfg) \<le> now - dir_last_bb s d \<and> allow
      then fmul (dir_shaper s d) (growth_factor cfg avg (delay_thr_us cfg s d) (avg_adjust_up_thr_us cfg s d))
      else if kind \<noteq> High \<and> from_millis (decay_refractory_period_ms cfg) \<le> now - dir_last_decay s d
      then decay_rate cfg (dir_base cfg d) (dir_shaper s d)
      else dir_shaper s d)"
    and "dir_last_bb (update_direction cfg s d kind bb avg allow now) d =
     (if bb \<and> from_millis (bufferbloat_refractory_period_ms cfg) \<le> now - dir_last_bb s d then now
      else dir_last_bb s d)"
    and "dir_shaper (update_direction cfg s d kind bb avg allow now) (\<not> d) = dir_shaper s (\<not> d)"
  using assms by (cases kind; cases d; simp add: update_direction_def dir_defs dir_base_def Let_def)+

lemma growth_finite:
  assumes "f64_ok (Fin x)" "0 \<le> x" "x \<le> 2 ^ 52" "1 \<le> f" "f \<le> 200000000"
  obtains y where "fmul (Fin x) (Fin f) = Fin y" "x \<le> y"
proof -
  have big: "f64_ok (Fin (pow2 100))" by (rule f64_ok_pow2) simp_all
  have "x \<le> x * f" using assms mult_left_mono [of 1 f x] by simp
  moreover have "x * f \<le> 2 ^ 52 * 200000000" using assms by (intro mult_mono) simp_all
  then have "x * f \<le> pow2 100" by (simp add: pow2_def)
  ultimately show thesis
    by (rule rnd_between [OF assms(1) big]) (use that in simp)
qed

text \<open>C2: what one sample does to the rate of an adjusted direction under a valid configuration, whatever the
  measured delays are (NaN and infinities included). Bufferbloat after its refractory period never
  raises the rate and starts the period again; a high load without it never lowers the rate, and neither
  overflows; low and idle loads move the rate between where it is and the base rate and never past it;
  within the refractory period a loaded direction keeps its rate. The other direction is never touched.
\<close>

theorem update_direction_reaction:
  assumes valid: "config_validate cfg = None" and doubles: "config_doubles cfg" and adjust: "dir_adjust cfg d"
    and x: "dir_shaper s d = Fin x" "f64_ok (Fin x)" "0 \<le> x" "x \<le> 2 ^ 52"
    and s': "s' = update_direction cfg s d kind bb avg True now"
    and ready: "ready \<longleftrightarrow> from_millis (bufferbloat_refractory_period_ms cfg) \<le> now - dir_last_bb s d"
  shows "\<exists>y b. dir_shaper s' d = Fin y \<and> dir_base cfg d = Fin b
      \<and> (bb \<and> ready \<longrightarrow> 0 \<le> y \<and> y \<le> x \<and> dir_last_bb s' d = now)
      \<and> (\<not> bb \<and> kind = High \<and> ready \<longrightarrow> x \<le> y)
      \<and> (\<not> (bb \<and> ready) \<and> kind \<noteq> High \<longrightarrow> min x b \<le> y \<and> y \<le> max x b)
      \<and> (\<not> ready \<and> kind = High \<longrightarrow> y = x)
      \<and> dir_shaper s' (\<not> d) = dir_shaper s (\<not> d)"
proof -
  obtain b where b: "dir_base cfg d = Fin b"
    by (rule dir_rates_ok [OF valid adjust])
  obtain a r p where f: "shaper_rate_min_adjust_down_bufferbloat cfg = Fin a"
    "shaper_rate_max_adjust_down_bufferbloat cfg = Fin r" "shaper_rate_adjust_down_load_low cfg = Fin p"
    "0 \<le> r" "r \<le> a" "a \<le> 1" "0 \<le> p" "p \<le> 1"
    by (rule factors_ok [OF valid])
  obtain u v q where g: "shaper_rate_min_adjust_up_load_high cfg = Fin u"
    "shaper_rate_max_adjust_up_load_high cfg = Fin v" "shaper_rate_adjust_up_load_low cfg = Fin q"
    "1 \<le> u" "u \<le> v" "v \<le> 100000000" "1 \<le> q"
    by (rule growth_ok [OF valid])
  have ok: "f64_ok (Fin a)" "f64_ok (Fin u)" "f64_ok (Fin v)"
    using doubles f(1) g(1,2) by (simp_all add: config_doubles_def)
  obtain k where k: "reduce_factor cfg avg (delay_thr_us cfg s d) (avg_adjust_down_thr_us cfg s d) = Fin k" "0 \<le> k" "k \<le> a"
    by (rule reduce_factor_bounds [OF f(1,2) ok(1) f(4,5)])
  obtain h where h: "growth_factor cfg avg (delay_thr_us cfg s d) (avg_adjust_up_thr_us cfg s d) = Fin h" "u \<le> h" "h \<le> 200000000"
    by (rule growth_factor_bounds [OF g(1,2) ok(2,3) g(4-6)])
  obtain y1 where y1: "fmul (Fin x) (Fin k) = Fin y1" "0 \<le> y1" "y1 \<le> x"
    by (rule fmul_shrink [OF x(2,3) k(2)]) (use k f in auto)
  obtain y2 where y2: "fmul (Fin x) (Fin h) = Fin y2" "x \<le> y2"
    by (rule growth_finite [OF x(2-4), of h]) (use h g in auto)
  obtain y3 where y3: "decay_rate cfg (Fin b) (Fin x) = Fin y3" "min x b \<le> y3" "y3 \<le> max x b"
    by (rule decay_rate_bounds [OF x(2,3) f(3,7,8) g(3,7)])
  note sel = update_direction_shaper [OF adjust, of s kind bb avg True now]
  show ?thesis
    unfolding s' sel ready [symmetric] x(1) b k(1) h(1) y1(1) y2(1) y3(1)
    using y1 y2 y3 by (cases kind) auto
qed

text \<open>Data for the witnesses: a configuration with both directions and the adaptive ceiling, and a
  controller that has seen nothing yet.\<close>

definition sample_config :: config where
  "sample_config =
     \<lparr>adjust_dl_shaper_rate = True, adjust_ul_shaper_rate = True,
      min_dl_shaper_rate_kbps = Fin 5000, base_dl_shaper_rate_kbps = Fin 20000, max_dl_shaper_rate_kbps = Fin 80000,
      min_ul_shaper_rate_kbps = Fin 5000, base_ul_shaper_rate_kbps = Fin 20000, max_ul_shaper_rate_kbps = Fin 35000,
      manage_sqm = True, adaptive_ceiling_enabled = True,
      adaptive_ceiling_dl_cap_kbps = Fin 100000, adaptive_ceiling_ul_cap_kbps = Fin 40000,
      adaptive_ceiling_dl_safe_kbps = Fin 80000, adaptive_ceiling_ul_safe_kbps = Fin 35000,
      adaptive_ceiling_dl_evidence = ''user_configured'', adaptive_ceiling_ul_evidence = ''user_configured'',
      adaptive_ceiling_hold_time_s = Fin 10, adaptive_ceiling_growth_percent = Fin 3,
      adaptive_ceiling_probe_duration_s = Fin 15, adaptive_ceiling_cooldown_s = Fin 30,
      adaptive_ceiling_failed_bound_ttl_s = Fin 300,
      connection_active_thr_kbps = Fin 2000, connection_stall_thr_kbps = Fin 10, high_load_thr = Fin (3/4),
      alpha_baseline_increase = Fin (1/1024), alpha_baseline_decrease = Fin (7/8), alpha_delta_ewma = Fin (1/8),
      shaper_rate_min_adjust_down_bufferbloat = Fin 1, shaper_rate_max_adjust_down_bufferbloat = Fin (3/4),
      shaper_rate_adjust_down_load_low = Fin (7/8), shaper_rate_min_adjust_up_load_high = Fin 1,
      shaper_rate_max_adjust_up_load_high = Fin (5/4), shaper_rate_adjust_up_load_low = Fin (9/8),
      dl_owd_delta_delay_thr_ms = Fin 30, ul_owd_delta_delay_thr_ms = Fin 30,
      dl_avg_owd_delta_max_adjust_up_thr_ms = Fin 10, ul_avg_owd_delta_max_adjust_up_thr_ms = Fin 10,
      dl_avg_owd_delta_max_adjust_down_thr_ms = Fin 60, ul_avg_owd_delta_max_adjust_down_thr_ms = Fin 60,
      reflector_sum_owd_baselines_delta_thr_ms = Fin 20, reflector_owd_delta_ewma_delta_thr_ms = Fin 10,
      reflector_ping_interval_s = Fin (1/2), reflector_health_check_interval_s = Fin 1,
      reflector_response_deadline_s = Fin 1, global_ping_response_timeout_s = Fin 10,
      if_up_check_interval_s = Fin 10, route_check_interval_s = Fin 10, startup_wait_s = Fin 0,
      sustained_idle_sleep_thr_s = Fin 60, reflector_replacement_interval_mins = Fin 60,
      reflector_comparison_interval_mins = Fin 1,
      monitor_achieved_rates_interval_ms = 200, monitor_cpu_usage_interval_ms = 2000,
      bufferbloat_detection_window = 6, bufferbloat_detection_thr = 3,
      bufferbloat_refractory_period_ms = 300, decay_refractory_period_ms = 1000,
      reflector_misbehaving_detection_window = 60, reflector_misbehaving_detection_thr = 3,
      no_pingers = 1, reflectors = [''1.1.1.1''],
      dl_max_wire_packet_size_bits = 12000, ul_max_wire_packet_size_bits = 12000\<rparr>"

definition sample_io :: controller_io where
  "sample_io =
     \<lparr>io_now = 7, io_dl = \<lparr>io_elapsed_at = 7, io_attempt_at = 7, io_qdisc = Some Cake, io_changed = True\<rparr>,
      io_ul = \<lparr>io_elapsed_at = 7, io_attempt_at = 7, io_qdisc = None, io_changed = False\<rparr>\<rparr>"

lemma sample_config_valid: "config_validate sample_config = None"
proof -
  obtain t where t: "MAX_TIMER_S = Fin t" "2147483 \<le> t" "t \<le> 2147484" "f64_ok (Fin t)"
    by (rule MAX_TIMER_bounds)
  obtain u where u: "MIN_TIMER_S = Fin u" "0 \<le> u" "u \<le> 1"
    by (rule MIN_TIMER_bounds)
  have half: "f64_ok (Fin (1/2))" by code_simp
  obtain v where v: "rnd (1/100) = Fin v" "v \<le> 1/2"
    by (rule rnd_between [of 0 "1/2" "1/100"]) (use half in auto)
  obtain w where w: "rnd (1/20) = Fin w" "w \<le> 1/2"
    by (rule rnd_between [of 0 "1/2" "1/20"]) (use half in auto)
  obtain l where l: "rnd (t * 1000) = Fin l" "2147483 \<le> l"
    by (rule rnd_between [of 2147483 4294967296 "t * 1000"]) (use t(2,3) in \<open>auto simp: f64_ok_numeral\<close>)
  obtain m where m: "rnd (t / 60) = Fin m" "60 \<le> m"
    by (rule rnd_between [of 60 2147484 "t / 60"]) (use t(2,3) in \<open>auto simp: f64_ok_numeral\<close>)
  have "pow2 (- 1022) \<le> pow2 (- 1)" by (simp only: pow2_le_iff)
  then have pos: "pow2 (- 1022) \<le> 1/2" by (simp add: pow2_def [of "- 1"])
  have "validate_core sample_config = None"
    unfolding validate_core_def rate_checks_def factor_checks_def delay_checks_def timer_checks_def count_checks_def
      t(1) u(1) Let_def
    using t(2,3) u(2,3) v w l m pos
    by (simp add: sample_config_def bounded_def MIN_ENABLED_RATE_KBPS_def max_rate_def threshold_order_def
        interval_check_def window_checks_def MAX_WINDOW_SAMPLES_def MAX_PINGERS_def MAX_HISTORY_BYTES_def
        f64_MIN_POSITIVE_def)
  moreover have "rate_validate sample_config = None"
    by (simp add: rate_validate_def adaptive_checks_def evidence_checks_def sample_config_def)
  ultimately show ?thesis by (simp add: config_validate_def)
qed

lemma sample_config_doubles: "config_doubles sample_config"
  by code_simp

theorem update_direction_reaction_witness:
  "\<exists>y. dir_shaper (update_direction sample_config (controller_new sample_config 0 0 0) True Idle True NaN True (10 ^ 9)) True
     = Fin y \<and> 0 \<le> y \<and> y \<le> 20000"
proof -
  have start: "dir_adjust sample_config True" "dir_shaper (controller_new sample_config 0 0 0) True = Fin 20000"
    "f64_ok (Fin 20000)"
    by (simp_all add: dir_adjust_def sample_config_def dir_shaper_def controller_new_def f64_ok_numeral)
  show ?thesis
    using update_direction_reaction [OF sample_config_valid sample_config_doubles start _ _ refl refl,
        of Idle True NaN "10 ^ 9"]
    by (auto simp: from_millis_def sample_config_def dir_last_bb_def controller_new_def)
qed

section \<open>Reachable controllers\<close>

definition controller_start :: "config \<Rightarrow> controller \<Rightarrow> bool" where
  "controller_start cfg s \<longleftrightarrow> (\<exists>now a e. s = controller_new cfg now a e)"

text \<open>The invariant of a whole controller: every adjusted direction is within its limits.\<close>

definition controller_inv :: "config \<Rightarrow> controller \<Rightarrow> bool" where
  "controller_inv cfg s \<longleftrightarrow> (config_validate cfg = None \<and> config_doubles cfg \<longrightarrow>
     (\<forall>d. dir_adjust cfg d \<longrightarrow> (\<exists>lo m c. dir_limits cfg d lo m c \<and> c \<le> 100000000 \<and> dir_inv lo m c s d)))"

lemma controller_start_inv: "controller_start cfg s \<Longrightarrow> controller_inv cfg s"
  unfolding controller_start_def controller_inv_def by (metis valid_start)

lemma controller_step_keeps: "controller_inv cfg s \<Longrightarrow> controller_step cfg s t \<Longrightarrow> controller_inv cfg t"
  unfolding controller_inv_def by (meson controller_step_inv)

interpretation rate_machine: invariant_machine "controller_start cfg" "controller_step cfg" "controller_inv cfg" for cfg
  by unfold_locales (fact controller_start_inv, fact controller_step_keeps)

text \<open>C1: under a valid configuration the rate of an adjusted direction is, in every reachable controller, a
  finite number of at least the configured minimum and below the larger of the adaptive cap and the
  configured maximum plus one kilobit per second, and the last rate that CAKE accepted is nothing or
  the rounding of such a rate. No order of samples, gaps, state changes, uplink resets and failures of
  \<open>tc\<close> and no value of the measured delays and loads, NaN included, takes the shaper out of its range.
\<close>

theorem controller_rates_bounded:
  assumes "config_validate cfg = None" "config_doubles cfg" "dir_adjust cfg d"
    and "reachable_from (controller_start cfg) (controller_step cfg) s"
  shows "\<exists>lo m c r. dir_min cfg d = Fin lo \<and> dir_max cfg d = Fin m \<and> dir_cap cfg d = Fin c
     \<and> 1 \<le> lo \<and> lo \<le> m \<and> m \<le> c \<and> c \<le> 100000000
     \<and> dir_shaper s d = Fin r \<and> lo \<le> r \<and> r < c + 1 \<and> (c = of_int \<lfloor>c\<rfloor> \<longrightarrow> r \<le> c)
     \<and> (dir_last_set s d = 0
        \<or> round_half_away lo \<le> uint (dir_last_set s d) \<and> uint (dir_last_set s d) \<le> round_half_away c)"
proof -
  have "controller_inv cfg s" by (rule rate_machine.reachable_inv [OF assms(4)])
  then obtain lo m c where limits: "dir_limits cfg d lo m c" "c \<le> 100000000" and inv: "dir_inv lo m c s d"
    using assms(1-3) by (auto simp: controller_inv_def)
  from limits have l: "dir_min cfg d = Fin lo" "dir_max cfg d = Fin m" "dir_cap cfg d = Fin c" "1 \<le> lo" "lo \<le> m"
    by (simp_all add: dir_limits_def)
  have "m \<le> c" using inv by (auto simp: dir_inv_def dir_core_def ceiling_inv_def ceiling_core_def)
  with l have "0 \<le> c" by linarith
  from cap_limit_below [OF this] have "cap_limit c < c + 1" by linarith
  with cap_limit_integral show ?thesis
    using l limits(2) inv \<open>m \<le> c\<close> by (fastforce simp: dir_inv_def dir_core_def)
qed

theorem controller_rates_bounded_witness:
  "\<exists>r. dir_shaper (set_min_shaper_rates sample_config (controller_new sample_config 0 0 0) sample_io) True = Fin r
     \<and> 5000 \<le> r \<and> r \<le> 100000"
proof -
  have "reachable_from (controller_start sample_config) (controller_step sample_config)
      (set_min_shaper_rates sample_config (controller_new sample_config 0 0 0) sample_io)"
    by (rule reachable_from_step [where s = "controller_new sample_config 0 0 0"])
      (rule reachable_from_start, auto simp: controller_start_def intro: controller_step.min_rates)
  from controller_rates_bounded [OF sample_config_valid sample_config_doubles _ this, of True]
  show ?thesis
    by (auto simp: sample_config_def dir_adjust_def dir_min_def dir_max_def dir_cap_def)
qed

text \<open>C37: a valid configuration never makes the handler of a latency sample panic: every duration the
  adaptive policy is built from exists, whatever the state, the sample and the measured load are, and
  the sample always leads to a next state.
\<close>

theorem on_sample_never_panics:
  assumes "config_validate cfg = None"
  shows "\<exists>s'. on_sample_with_rates cfg s sm interval_s rates now io = Some s' \<and> controller_step cfg s s'"
proof -
  obtain policy where policy: "adaptive_policy cfg = Some policy"
    using adaptive_policy_exists [OF assms] by auto
  then have "\<exists>t'. react cfg t p q rates now io = Some t'" for t p q
    by (simp add: react_def update_adaptive_ceilings_def Let_def)
  then have "\<exists>s'. on_sample_with_rates cfg s sm interval_s rates now io = Some s'"
    by (auto simp: on_sample_with_rates_def Let_def case_prod_beta split: option.split)
  then show ?thesis by (blast intro: controller_step.sampled)
qed

theorem on_sample_never_panics_witness:
  "\<exists>s'. on_sample_with_rates sample_config (controller_new sample_config 0 0 0)
     \<lparr>sm_reflector = ''1.1.1.1'', sm_timestamp = Fin 5, sm_rtt_ms = Fin 20, sm_dl_owd_us = Fin 10000,
      sm_ul_owd_us = Fin 10000, sm_timestamped_owd = False\<rparr> (Fin 1)
     \<lparr>rs_dl_kbps = Fin 0, rs_ul_kbps = Fin 0, rs_fresh = True, rs_dl_observed_at = 0, rs_ul_observed_at = 0\<rparr> 7
     sample_io = Some s'"
  using on_sample_never_panics [OF sample_config_valid] by blast

text \<open>The validation of the Lite build accepts a reflector that it means to reject. A configuration whose
  only reflector is an option of the ping program and no address passes every check, because the
  check of the characters is compiled only with the calibration feature.
\<close>

theorem lite_accepts_option_reflector:
  "config_validate (sample_config\<lparr>reflectors := [''-f/etc/passwd'']\<rparr>) = None
   \<and> \<not> is_valid_reflector_candidate ''-f/etc/passwd''"
proof
  have "validate_core (c\<lparr>reflectors := [a]\<rparr>) = validate_core (c\<lparr>reflectors := [b]\<rparr>)"
    "rate_validate (c\<lparr>reflectors := [a]\<rparr>) = rate_validate (c\<lparr>reflectors := [b]\<rparr>)" for c a b
    by (simp_all add: validate_core_def rate_validate_def factor_checks_def delay_checks_def timer_checks_def
        count_checks_def adaptive_checks_def)
  moreover have "sample_config = sample_config\<lparr>reflectors := [''1.1.1.1'']\<rparr>"
    by (simp add: sample_config_def)
  ultimately show "config_validate (sample_config\<lparr>reflectors := [''-f/etc/passwd'']\<rparr>) = None"
    using sample_config_valid unfolding config_validate_def by metis
  show "\<not> is_valid_reflector_candidate ''-f/etc/passwd''"
    by code_simp
qed

end
