(* ===== verification/Scheduler_Text.thy ===== *)
theory Scheduler_Text
  imports Codec
begin

text \<open>
  The text layer of \<open>operations/scheduler.rs\<close>: the ordered record reader, the canonical integer
  parsers, the identifier and fingerprint checks, the calendar check and the exact byte arithmetic.
  The error texts are those of the source.
\<close>

section \<open>Definitions\<close>

definition MAX_EXACT_BYTES :: u64 where
  "MAX_EXACT_BYTES = 9007199254740991"

subsection \<open>Identifiers and fingerprints\<close>

definition require_identifier :: "string \<Rightarrow> string \<Rightarrow> unit result" where
  "require_identifier name value =
     reject (value = [] \<or> length value > 64
             \<or> \<not> list_all (\<lambda>b. is_ascii_alphanumeric b \<or> b \<in> set ''_.:-'') value)
       (name @ '' is invalid'')"

definition validate_scheduler_instance :: "string \<Rightarrow> unit result" where
  "validate_scheduler_instance value = require_identifier ''scheduler instance'' value"

definition require_lower_hex :: "string \<Rightarrow> string \<Rightarrow> nat \<Rightarrow> unit result" where
  "require_lower_hex name value bytes =
     reject (length value \<noteq> bytes \<or> \<not> list_all is_lower_hex_digit value)
       (name @ '' is invalid'')"

subsection \<open>Integers\<close>

definition optional_u64 :: "u64 option \<Rightarrow> string" where
  "optional_u64 value = (case value of None \<Rightarrow> ''-'' | Some v \<Rightarrow> word_string v)"

definition parse_u64 :: "string \<Rightarrow> string \<Rightarrow> u64 result" where
  "parse_u64 name value =
     (if value = [] \<or> (length value > 1 \<and> starts_with value ''0'')
      then Err (name @ '' is not canonical'')
      else ok_or (from_str_radix 10 value) (name @ '' is not an unsigned integer''))"

definition parse_optional_u64 :: "string \<Rightarrow> string \<Rightarrow> u64 option result" where
  "parse_optional_u64 name value =
     (if value = ''-'' then Ok None
      else and_then (parse_u64 name value) (\<lambda>v. Ok (Some v)))"

definition validate_accounted_bytes :: "string \<Rightarrow> u64 \<Rightarrow> unit result" where
  "validate_accounted_bytes name value =
     reject (value > MAX_EXACT_BYTES) (name @ '' exceeds the exact accounting range'')"

definition checked_bytes_add :: "u64 \<Rightarrow> u64 \<Rightarrow> string \<Rightarrow> u64 result" where
  "checked_bytes_add lhs rhs name =
     and_then (ok_or (checked_add lhs rhs) (name @ '' overflow'')) (\<lambda>value.
     and_then (validate_accounted_bytes name value) (\<lambda>_.
     Ok value))"

definition replace_reservation_charge :: "u64 \<Rightarrow> u64 \<Rightarrow> u64 \<Rightarrow> string \<Rightarrow> u64 result" where
  "replace_reservation_charge charged reserved consumed name =
     and_then (ok_or (checked_sub charged reserved) (name @ '' is missing its reservation charge''))
       (\<lambda>without_reservation. checked_bytes_add without_reservation consumed name)"

subsection \<open>Calendar periods\<close>

text \<open>The slice \<open>s[a..b]\<close>; every use is in range.\<close>

definition slice :: "string \<Rightarrow> nat \<Rightarrow> nat \<Rightarrow> string" where
  "slice s a b = take (b - a) (drop a s)"

definition maximum_day :: "u16 \<Rightarrow> u8 \<Rightarrow> u8" where
  "maximum_day year month =
     (let leap = (year mod 4 = 0 \<and> (year mod 100 \<noteq> 0 \<or> year mod 400 = 0))
      in if month = 2 then (if leap then 29 else 28)
         else if month = 4 \<or> month = 6 \<or> month = 9 \<or> month = 11 then 30
         else 31)"

definition validate_period :: "string \<Rightarrow> string \<Rightarrow> unit result" where
  "validate_period day month =
     and_then (reject (length day \<noteq> 8 \<or> length month \<noteq> 6
                 \<or> \<not> list_all is_ascii_digit day \<or> \<not> list_all is_ascii_digit month
                 \<or> \<not> starts_with day month)
               ''scheduler budget period is invalid'') (\<lambda>_.
     and_then (ok_or (from_str_radix 10 (slice day 0 4) :: u16 option)
               ''scheduler budget year is invalid'') (\<lambda>year.
     and_then (ok_or (from_str_radix 10 (slice day 4 6) :: u8 option)
               ''scheduler budget month is invalid'') (\<lambda>parsed_month.
     and_then (ok_or (from_str_radix 10 (slice day 6 8) :: u8 option)
               ''scheduler budget day is invalid'') (\<lambda>parsed_day.
     and_then (reject (\<not> (1970 \<le> year \<and> year \<le> 9999) \<or> \<not> (1 \<le> parsed_month \<and> parsed_month \<le> 12))
               ''scheduler budget calendar date is invalid'') (\<lambda>_.
     reject (parsed_day = 0 \<or> parsed_day > maximum_day year parsed_month)
               ''scheduler budget calendar date is invalid'')))))"

subsection \<open>Ordered records\<close>

text \<open>\<open>OrderedRecord\<close> is the list of the lines not yet read.\<close>

type_synonym ordered_record = "string list"

definition ordered_record_new :: "string \<Rightarrow> string \<Rightarrow> ordered_record result" where
  "ordered_record_new input header =
     (if \<not> ends_with_char input LF \<or> CHR 0x00 \<in> set input
      then Err ''scheduler record is not a complete text record''
      else case lines input of
             l # ls \<Rightarrow> if l = header then Ok ls else Err ''scheduler record header is invalid''
           | [] \<Rightarrow> Err ''scheduler record header is invalid'')"

definition ordered_record_field :: "ordered_record \<Rightarrow> string \<Rightarrow> (string \<times> ordered_record) result" where
  "ordered_record_field record expected =
     (case record of
        [] \<Rightarrow> Err (''scheduler record field '' @ expected @ '' is missing'')
      | line # rest \<Rightarrow>
          (case split_once TAB line of
             None \<Rightarrow> Err (''scheduler record field '' @ expected @ '' is malformed'')
           | Some (name, value) \<Rightarrow>
               if name \<noteq> expected \<or> value = [] \<or> TAB \<in> set value
               then Err (''scheduler record field '' @ expected @ '' is invalid'')
               else Ok (value, rest)))"

definition ordered_record_finish :: "ordered_record \<Rightarrow> unit result" where
  "ordered_record_finish record = reject (record \<noteq> []) ''scheduler record has unexpected fields''"

text \<open>Reading a list of field names in order, as the decoders do one after the other.\<close>

fun ordered_record_fields :: "ordered_record \<Rightarrow> string list \<Rightarrow> (string list \<times> ordered_record) result" where
  "ordered_record_fields record [] = Ok ([], record)"
| "ordered_record_fields record (n # ns) =
     and_then (ordered_record_field record n) (\<lambda>(v, record).
     and_then (ordered_record_fields record ns) (\<lambda>(vs, record).
     Ok (v # vs, record)))"

text \<open>The text \<open>"{header}\n"\<close> followed by one \<open>"name\t{value}\n"\<close> per field, which is what the
  \<open>format!\<close> calls of the encoders spell out.\<close>

definition record_line :: "string \<times> string \<Rightarrow> string" where
  "record_line f = fst f @ [TAB] @ snd f @ [LF]"

definition record_text :: "string \<Rightarrow> (string \<times> string) list \<Rightarrow> string" where
  "record_text header fields = header @ [LF] @ concat (map record_line fields)"

section \<open>Reading back what was written\<close>

text \<open>Values that survive a record: not empty, with no separator and no NUL byte.\<close>

definition field_safe :: "string \<Rightarrow> bool" where
  "field_safe v = (v \<noteq> [] \<and> TAB \<notin> set v \<and> LF \<notin> set v \<and> CR \<notin> set v \<and> CHR 0x00 \<notin> set v)"

definition header_safe :: "string \<Rightarrow> bool" where
  "header_safe h = (LF \<notin> set h \<and> CR \<notin> set h \<and> CHR 0x00 \<notin> set h)"

lemma field_safeI:
  "v \<noteq> [] \<Longrightarrow> (\<And>c. c \<in> set v \<Longrightarrow> 32 \<le> byte c) \<Longrightarrow> field_safe v"
  unfolding field_safe_def by (force simp: byte_def)

lemma byte_of_digit: "is_ascii_digit c \<Longrightarrow> 32 \<le> byte c \<and> byte c < 128"
  by (auto simp: is_ascii_digit_def)

lemma byte_of_lower_hex: "is_lower_hex_digit c \<Longrightarrow> 32 \<le> byte c \<and> byte c < 128"
  by (auto simp: is_lower_hex_digit_def dest: byte_of_digit)

lemma byte_of_alphanumeric: "is_ascii_alphanumeric c \<Longrightarrow> 32 \<le> byte c \<and> byte c < 128"
  by (auto simp: is_ascii_alphanumeric_def is_ascii_lowercase_def is_ascii_uppercase_def
      dest: byte_of_digit)

lemma byte_of_identifier:
  "is_ascii_alphanumeric c \<or> c \<in> set ''_.:-'' \<Longrightarrow> 32 \<le> byte c \<and> byte c < 128"
  using byte_of_alphanumeric by (auto simp: byte_def)

lemma field_safe_word_string [simp]: "field_safe (word_string w)"
  by (rule field_safeI) (auto dest: word_string_digits byte_of_digit)

lemma field_safe_dash [simp]: "field_safe ''-''"
  by (simp add: field_safe_def)

lemma field_safe_optional [simp]: "field_safe (optional_u64 v)"
  by (simp add: optional_u64_def split: option.splits)

lemma field_safe_identifier: "require_identifier n v = Ok () \<Longrightarrow> field_safe v"
  using byte_of_identifier
  by (intro field_safeI) (auto simp: require_identifier_def list_all_iff)

lemma field_safe_lower_hex: "require_lower_hex n v k = Ok () \<Longrightarrow> 0 < k \<Longrightarrow> field_safe v"
  by (intro field_safeI)
    (auto simp: require_lower_hex_def list_all_iff dest: byte_of_lower_hex)

lemma field_safe_digits: "list_all is_ascii_digit v \<Longrightarrow> v \<noteq> [] \<Longrightarrow> field_safe v"
  by (intro field_safeI) (auto simp: list_all_iff dest: byte_of_digit)

lemma not_dash_word_string [simp]: "word_string w \<noteq> ''-''"
proof
  assume "word_string w = ''-''"
  then have "is_ascii_digit (CHR ''-'')"
    using word_string_digits [of "CHR ''-''" w] by simp
  then show False
    by (simp add: is_ascii_digit_def byte_def)
qed

lemma not_dash_lower_hex: "require_lower_hex n v k = Ok () \<Longrightarrow> v \<noteq> ''-''"
  by (auto simp: require_lower_hex_def is_lower_hex_digit_def is_ascii_digit_def byte_def)

lemma not_dash_digits: "list_all is_ascii_digit v \<Longrightarrow> v \<noteq> ''-''"
  by (auto simp: is_ascii_digit_def byte_def)

lemma parse_u64_word_string [simp]: "parse_u64 n (word_string w) = Ok w"
proof -
  have "\<not> (length (word_string w) > 1 \<and> starts_with (word_string w) ''0'')"
    using word_string_leading_zero [of w]
    by (cases "word_string w") (auto simp: starts_with_def)
  then show ?thesis
    by (simp add: parse_u64_def)
qed

lemma parse_optional_u64_optional [simp]: "parse_optional_u64 n (optional_u64 v) = Ok v"
  by (cases v) (simp_all add: parse_optional_u64_def optional_u64_def)

definition fields_safe :: "(string \<times> string) list \<Rightarrow> bool" where
  "fields_safe fs = list_all (\<lambda>f. field_safe (fst f) \<and> field_safe (snd f)) fs"

definition field_line :: "string \<Rightarrow> string \<Rightarrow> string" where
  "field_line n v = n @ TAB # v"

definition field_lines :: "(string \<times> string) list \<Rightarrow> string list" where
  "field_lines fs = map (\<lambda>f. field_line (fst f) (snd f)) fs"

lemma field_lines_simps [simp]:
  "field_lines [] = []"
  "field_lines ((n, v) # fs) = field_line n v # field_lines fs"
  "field_lines (a @ b) = field_lines a @ field_lines b"
  by (simp_all add: field_lines_def)

lemma fields_safe_simps [simp]:
  "fields_safe []"
  "fields_safe (f # fs) \<longleftrightarrow> field_safe (fst f) \<and> field_safe (snd f) \<and> fields_safe fs"
  by (simp_all add: fields_safe_def)

lemma lines_record_fields:
  "fields_safe fs \<Longrightarrow> lines (concat (map record_line fs)) = field_lines fs"
proof (induction fs)
  case (Cons f fs)
  have "lines ((fst f @ TAB # snd f) @ LF # concat (map record_line fs))
      = (fst f @ TAB # snd f) # lines (concat (map record_line fs))"
    using Cons.prems by (intro lines_line) (auto simp: field_safe_def)
  with Cons show ?case by (simp add: record_line_def [of f] field_lines_def field_line_def)
qed simp

lemma record_text_ends: "ends_with_char (record_text h fs) LF"
proof (cases fs rule: rev_cases)
  case (snoc gs g)
  have "record_text h fs = (h @ [LF] @ concat (map record_line gs) @ fst g @ [TAB] @ snd g) @ [LF]"
    by (simp add: snoc record_text_def record_line_def)
  then show ?thesis by (metis ends_with_char_snoc)
qed (simp add: record_text_def)

lemma record_text_no_nul:
  "header_safe h \<Longrightarrow> fields_safe fs \<Longrightarrow> CHR 0x00 \<notin> set (record_text h fs)"
  by (auto simp: record_text_def record_line_def header_safe_def field_safe_def fields_safe_def
      list_all_iff)

lemma ordered_record_new_text:
  assumes "header_safe h" and "fields_safe fs"
  shows "ordered_record_new (record_text h fs) h = Ok (field_lines fs)"
proof -
  have "lines (record_text h fs) = h # field_lines fs"
    using assms lines_record_fields by (simp add: record_text_def header_safe_def)
  then show ?thesis
    using record_text_ends record_text_no_nul assms by (simp add: ordered_record_new_def)
qed

lemma ordered_record_field_line [simp]:
  "field_safe n \<Longrightarrow> field_safe v \<Longrightarrow> ordered_record_field (field_line n v # r) n = Ok (v, r)"
  by (simp add: ordered_record_field_def field_line_def field_safe_def)

lemma fields_safe_zip:
  "list_all field_safe ns \<Longrightarrow> list_all field_safe vs \<Longrightarrow> fields_safe (zip ns vs)"
  by (auto simp: fields_safe_def list_all_iff dest: set_zip_leftD set_zip_rightD)

lemma ordered_record_fields_lines:
  "fields_safe fs \<Longrightarrow>
   ordered_record_fields (field_lines fs @ r) (map fst fs) = Ok (map snd fs, r)"
  by (induction fs) (simp_all add: field_lines_def)

lemma ordered_record_fields_zip:
  assumes "list_all field_safe ns" "list_all field_safe vs" "length ns = length vs"
  shows "ordered_record_fields (field_lines (zip ns vs)) ns = Ok (vs, [])"
  using ordered_record_fields_lines [OF fields_safe_zip [OF assms(1,2)], of "[]"] assms(3) by simp

section \<open>Byte arithmetic\<close>

lemma validate_accounted_bytes_Ok [simp]:
  "validate_accounted_bytes n v = Ok u \<longleftrightarrow> v \<le> MAX_EXACT_BYTES"
  by (auto simp: validate_accounted_bytes_def)

lemma checked_bytes_add_Ok_iff:
  "checked_bytes_add a b n = Ok c \<longleftrightarrow> unat a + unat b = unat c \<and> c \<le> MAX_EXACT_BYTES"
  by (auto simp: checked_bytes_add_def and_then_Inr_iff checked_add_Some_iff)

lemma replace_reservation_charge_Ok_iff:
  "replace_reservation_charge charged reserved consumed n = Ok c \<longleftrightarrow>
     reserved \<le> charged \<and> unat c = unat charged - unat reserved + unat consumed
     \<and> c \<le> MAX_EXACT_BYTES"
  unfolding replace_reservation_charge_def and_then_Inr_iff ok_or_Inr_iff checked_bytes_add_Ok_iff
    checked_sub_def
  by (auto simp: unat_sub_le)

section \<open>Dates\<close>

text \<open>The reference calendar, on naturals.\<close>

definition gregorian_leap :: "nat \<Rightarrow> bool" where
  "gregorian_leap y = (4 dvd y \<and> (100 dvd y \<longrightarrow> 400 dvd y))"

definition days_in_month :: "nat \<Rightarrow> nat \<Rightarrow> nat" where
  "days_in_month y m = [31, if gregorian_leap y then 29 else 28, 31, 30, 31, 30, 31, 31, 30, 31, 30, 31] ! (m - 1)"

definition gregorian_date :: "nat \<Rightarrow> nat \<Rightarrow> nat \<Rightarrow> bool" where
  "gregorian_date y m d = (1 \<le> m \<and> m \<le> 12 \<and> 1 \<le> d \<and> d \<le> days_in_month y m)"

fun fixed_digits :: "nat \<Rightarrow> nat \<Rightarrow> string" where
  "fixed_digits 0 n = []"
| "fixed_digits (Suc k) n = fixed_digits k (n div 10) @ [digit_char (n mod 10)]"

definition month_text :: "nat \<Rightarrow> nat \<Rightarrow> string" where
  "month_text y m = fixed_digits 4 y @ fixed_digits 2 m"

definition date_text :: "nat \<Rightarrow> nat \<Rightarrow> nat \<Rightarrow> string" where
  "date_text y m d = month_text y m @ fixed_digits 2 d"

fun dec_value :: "string \<Rightarrow> nat" where
  "dec_value [] = 0"
| "dec_value (c # s) = (byte c - 48) * 10 ^ length s + dec_value s"

lemma to_digit_is_ascii_digit: "is_ascii_digit c \<Longrightarrow> to_digit 10 c = Some (byte c - 48)"
  by (auto simp: to_digit_def is_ascii_digit_def Let_def)

lemma digits_value_dec:
  "list_all is_ascii_digit s \<Longrightarrow> digits_value 10 acc s = Some (acc * 10 ^ length s + dec_value s)"
  by (induction s arbitrary: acc) (simp_all add: to_digit_is_ascii_digit algebra_simps)

lemma dec_value_less: "list_all is_ascii_digit s \<Longrightarrow> dec_value s < 10 ^ length s"
proof (induction s)
  case (Cons c s)
  then have "byte c - 48 \<le> 9" "dec_value s < 10 ^ length s"
    by (auto simp: is_ascii_digit_def)
  then have "(byte c - 48) * 10 ^ length s \<le> 9 * 10 ^ length s"
    by (intro mult_le_mono1)
  with \<open>dec_value s < 10 ^ length s\<close> show ?case by (simp add: algebra_simps)
qed simp

lemma length_fixed_digits [simp]: "length (fixed_digits k n) = k"
  by (induction k arbitrary: n) auto

lemma fixed_digits_digits [simp]: "list_all is_ascii_digit (fixed_digits k n)"
  by (induction k arbitrary: n) auto

lemma dec_value_append: "dec_value (s @ t) = dec_value s * 10 ^ length t + dec_value t"
  by (induction s) (auto simp: algebra_simps power_add)

lemma dec_value_fixed_digits: "n < 10 ^ k \<Longrightarrow> dec_value (fixed_digits k n) = n"
proof (induction k arbitrary: n)
  case (Suc k)
  then have "n div 10 < 10 ^ k"
    by (simp add: less_mult_imp_div_less mult.commute)
  with Suc.IH show ?case
    by (simp add: dec_value_append)
qed simp

lemma fixed_digits_dec_value:
  "list_all is_ascii_digit s \<Longrightarrow> fixed_digits (length s) (dec_value s) = s"
proof (induction s rule: rev_induct)
  case (snoc c s)
  have "digit_char (byte c - 48) = c"
  proof -
    have "byte (digit_char (byte c - 48)) = byte c"
      using snoc.prems by (auto simp: is_ascii_digit_def)
    then show ?thesis by (simp add: byte_def)
  qed
  moreover have "byte c - 48 < 10"
    using snoc.prems by (auto simp: is_ascii_digit_def)
  ultimately show ?case
    using snoc by (simp add: dec_value_append)
qed simp

lemma dec_value_lex:
  assumes "list_all is_ascii_digit s" "list_all is_ascii_digit t" "length s = length t"
  shows "s < t \<longleftrightarrow> dec_value s < dec_value t"
  using assms(3,1,2)
proof (induction s t rule: list_induct2)
  case (Cons c s d t)
  then have bounds: "dec_value s < 10 ^ length s" "dec_value t < 10 ^ length s"
    using dec_value_less [of s] dec_value_less [of t] by auto
  have less: "(c < d) = (byte c - 48 < byte d - 48)" and eq: "(c = d) = (byte c - 48 = byte d - 48)"
    using Cons.prems unfolding is_ascii_digit_def byte_def less_char_def
    by (auto simp: of_char_eq_iff [symmetric, where 'a = nat] simp del: of_char_eq_iff)
  consider "byte c - 48 < byte d - 48" | "byte c - 48 = byte d - 48" | "byte d - 48 < byte c - 48"
    by linarith
  then show ?case
  proof cases
    case 1
    then obtain k where "byte d - 48 = Suc (byte c - 48) + k"
      using less_imp_Suc_add by fastforce
    with 1 bounds less Cons.hyps show ?thesis
      by (simp add: algebra_simps)
  next
    case 2
    with Cons eq less show ?thesis by simp
  next
    case 3
    then obtain k where "byte c - 48 = Suc (byte d - 48) + k"
      using less_imp_Suc_add by fastforce
    with 3 bounds less eq Cons.hyps show ?thesis
      by (auto simp: algebra_simps)
  qed
qed simp

lemma from_str_radix_digits:
  assumes "list_all is_ascii_digit s" and "s \<noteq> []" and "10 ^ length s \<le> (2 :: nat) ^ LENGTH('l)"
  shows "(from_str_radix 10 s :: 'l::len word option) = Some (of_nat (dec_value s))"
proof -
  obtain c t where ct: "s = c # t"
    using assms(2) by (cases s) auto
  with assms(1) have "c \<noteq> CHR ''+''"
    using is_ascii_digit_not_plus by auto
  moreover have "dec_value s < 2 ^ LENGTH('l)"
    using dec_value_less [OF assms(1)] assms(3) by simp
  ultimately show ?thesis
    using digits_value_dec [OF assms(1), of 0] ct by (simp add: from_str_radix_def)
qed

lemma unat_of_dec:
  assumes "list_all is_ascii_digit s" and "10 ^ length s \<le> (2 :: nat) ^ LENGTH('l)"
  shows "unat (of_nat (dec_value s) :: 'l::len word) = dec_value s"
  using dec_value_less [OF assms(1)] assms(2) by (simp add: unat_of_nat)

lemma unat_maximum_day:
  assumes "1 \<le> unat m" "unat m \<le> 12"
  shows "unat (maximum_day y m) = days_in_month (unat y) (unat m)"
proof -
  have leap: "gregorian_leap (unat y) \<longleftrightarrow> y mod 4 = 0 \<and> (y mod 100 \<noteq> 0 \<or> y mod 400 = 0)"
    by (auto simp: gregorian_leap_def word_unat_eq_iff unat_mod dvd_eq_mod_eq_0)
  have m: "m = of_nat (unat m)" by simp
  have "unat m \<in> set [1 ..< 13]"
    using assms by simp
  then have "unat m \<in> {1, 2, 3, 4, 5, 6, 7, 8, 9, 10, 11, 12}"
    by (auto simp: upt_rec)
  then show ?thesis
    by (elim insertE emptyE) (simp_all add: maximum_day_def days_in_month_def leap word_unat_eq_iff Let_def)
qed

definition period_numbers :: "string \<Rightarrow> nat \<times> nat \<times> nat" where
  "period_numbers day =
     (dec_value (slice day 0 4), dec_value (slice day 4 6), dec_value (slice day 6 8))"

lemma validate_period_numbers:
  "validate_period day month = Ok () \<longleftrightarrow>
     length day = 8 \<and> list_all is_ascii_digit day \<and> month = take 6 day
     \<and> (case period_numbers day of (y, m, d) \<Rightarrow> 1970 \<le> y \<and> gregorian_date y m d)"
proof (cases "length day = 8 \<and> list_all is_ascii_digit day")
  case True
  define Y M D where "Y = slice day 0 4" and "M = slice day 4 6" and "D = slice day 6 8"
  have len: "length Y = 4" "length M = 2" "length D = 2"
    using True by (simp_all add: Y_def M_def D_def slice_def)
  have dig: "list_all is_ascii_digit Y" "list_all is_ascii_digit M" "list_all is_ascii_digit D"
    using True by (auto simp: Y_def M_def D_def slice_def list_all_iff dest!: in_set_takeD in_set_dropD)
  have ne: "Y \<noteq> []" "M \<noteq> []" "D \<noteq> []"
    using len by auto
  have parsed: "(from_str_radix 10 Y :: u16 option) = Some (of_nat (dec_value Y))"
    "(from_str_radix 10 M :: u8 option) = Some (of_nat (dec_value M))"
    "(from_str_radix 10 D :: u8 option) = Some (of_nat (dec_value D))"
    using dig ne len by (simp_all add: from_str_radix_digits)
  have nums: "unat (of_nat (dec_value Y) :: u16) = dec_value Y"
    "unat (of_nat (dec_value M) :: u8) = dec_value M" "unat (of_nat (dec_value D) :: u8) = dec_value D"
    using dig len by (simp_all add: unat_of_dec)
  have small: "dec_value Y \<le> 9999"
    using dec_value_less [OF dig(1)] len by simp
  have month_eq: "length month = 6 \<and> list_all is_ascii_digit month \<and> starts_with day month
      \<longleftrightarrow> month = take 6 day"
    using True by (auto simp: starts_with_def list_all_iff dest: in_set_takeD)
  have "validate_period day month = Ok () \<longleftrightarrow> month = take 6 day \<and> 1970 \<le> dec_value Y
      \<and> gregorian_date (dec_value Y) (dec_value M) (dec_value D)"
    unfolding validate_period_def Y_def [symmetric] M_def [symmetric] D_def [symmetric]
    using True month_eq small unat_maximum_day [of "of_nat (dec_value M)" "of_nat (dec_value Y)"]
    by (auto simp: parsed and_then_Inr_iff gregorian_date_def nums word_to_nat not_less not_le)
  then show ?thesis
    using True by (simp add: period_numbers_def Y_def M_def D_def)
next
  case False
  then show ?thesis by (auto simp: validate_period_def and_then_Inr_iff)
qed

lemma period_numbers_date_text:
  assumes "y < 10000" "m < 100" "d < 100"
  shows "period_numbers (date_text y m d) = (y, m, d)"
  using assms
  by (simp add: period_numbers_def date_text_def month_text_def slice_def dec_value_fixed_digits)

lemma date_text_period_numbers:
  assumes "length day = 8" "list_all is_ascii_digit day" "period_numbers day = (y, m, d)"
  shows "day = date_text y m d" and "take 6 day = month_text y m"
proof -
  have parts: "slice day 0 4 @ slice day 4 6 = take 6 day" "take 6 day @ slice day 6 8 = day"
    using assms(1)
    by (simp_all add: slice_def take_add [of 4 2 day, symmetric] flip: take_add)
  have dig: "list_all is_ascii_digit (slice day 0 4)" "list_all is_ascii_digit (slice day 4 6)"
      "list_all is_ascii_digit (slice day 6 8)"
    using assms(2) by (auto simp: slice_def list_all_iff dest!: in_set_takeD in_set_dropD)
  have "fixed_digits 4 y = slice day 0 4" "fixed_digits 2 m = slice day 4 6"
      "fixed_digits 2 d = slice day 6 8"
    using dig [THEN fixed_digits_dec_value] assms(1,3)
    by (simp_all add: period_numbers_def slice_def)
  with parts show "day = date_text y m d" "take 6 day = month_text y m"
    by (simp_all add: date_text_def month_text_def)
qed

lemma gregorian_date_bounds: "gregorian_date y m d \<Longrightarrow> m < 100 \<and> d < 100"
proof -
  assume date: "gregorian_date y m d"
  then have "m \<in> set [1 ..< 13]"
    by (simp add: gregorian_date_def)
  then have "m \<in> {1, 2, 3, 4, 5, 6, 7, 8, 9, 10, 11, 12}"
    by (auto simp: upt_rec)
  with date show ?thesis
    by (elim insertE emptyE) (auto simp: gregorian_date_def days_in_month_def split: if_splits)
qed

lemma date_text_digits [simp]:
  "length (date_text y m d) = 8" "list_all is_ascii_digit (date_text y m d)"
  "take 6 (date_text y m d) = month_text y m"
  by (simp_all add: date_text_def month_text_def)

lemma dec_value_date_text:
  assumes "y < 10000" "gregorian_date y m d"
  shows "dec_value (date_text y m d) = y * 10000 + m * 100 + d"
  using assms gregorian_date_bounds [OF assms(2)]
  by (simp add: date_text_def month_text_def dec_value_append dec_value_fixed_digits)

lemma period_year_less:
  assumes "validate_period day month = Ok ()" and "period_numbers day = (y, m, d)"
  shows "y < 10000"
proof -
  have "length day = 8" "list_all is_ascii_digit (take 4 day)"
    using assms(1) by (auto simp: validate_period_numbers list_all_iff dest!: in_set_takeD)
  with assms(2) show ?thesis
    using dec_value_less [of "take 4 day"] by (auto simp: period_numbers_def slice_def)
qed

section \<open>Properties\<close>

text \<open>C16: the calendar check of the budget periods is the Gregorian calendar. It accepts a day and a
  month if and only if they are the texts YYYYMMDD and YYYYMM of one date between 1970 and 9999 that
  exists, leap years included; the two texts then belong to the same month.\<close>

theorem validate_period_gregorian:
  "validate_period day month = Ok () \<longleftrightarrow>
     (\<exists>y m d. 1970 \<le> y \<and> y \<le> 9999 \<and> gregorian_date y m d
        \<and> day = date_text y m d \<and> month = month_text y m)"
proof
  assume valid: "validate_period day month = Ok ()"
  obtain y m d where ymd: "period_numbers day = (y, m, d)"
    by (metis prod_cases3)
  with valid have day: "length day = 8" "list_all is_ascii_digit day" "month = take 6 day"
    and "1970 \<le> y" "gregorian_date y m d"
    by (simp_all add: validate_period_numbers)
  moreover have "y \<le> 9999"
    using period_year_less [OF valid ymd] by simp
  ultimately show "\<exists>y m d. 1970 \<le> y \<and> y \<le> 9999 \<and> gregorian_date y m d
      \<and> day = date_text y m d \<and> month = month_text y m"
    using date_text_period_numbers [OF day(1,2) ymd] by blast
next
  assume "\<exists>y m d. 1970 \<le> y \<and> y \<le> 9999 \<and> gregorian_date y m d
      \<and> day = date_text y m d \<and> month = month_text y m"
  then obtain y m d where date: "1970 \<le> y" "y \<le> 9999" "gregorian_date y m d"
    and texts: "day = date_text y m d" "month = month_text y m"
    by blast
  then show "validate_period day month = Ok ()"
    using gregorian_date_bounds [OF date(3)] period_numbers_date_text [of y m d]
    by (simp add: validate_period_numbers)
qed

text \<open>Comparing two accepted period texts as strings, as the ledger does when it rolls and when it
  validates a reservation, is comparing the dates: the byte order of the days is the chronological
  order, and the byte order of their months is the order of the months.\<close>

theorem period_order_chronological:
  assumes "validate_period day month = Ok ()" and "period_numbers day = (y, m, d)"
    and "validate_period day' month' = Ok ()" and "period_numbers day' = (y', m', d')"
  shows "(day < day' \<longleftrightarrow> y < y' \<or> y = y' \<and> (m < m' \<or> m = m' \<and> d < d'))
    \<and> (month < month' \<longleftrightarrow> y < y' \<or> y = y' \<and> m < m')"
proof -
  have dates: "gregorian_date y m d" "gregorian_date y' m' d'"
    and days: "day = date_text y m d" "day' = date_text y' m' d'"
    and months: "month = month_text y m" "month' = month_text y' m'"
    using assms date_text_period_numbers by (auto simp: validate_period_numbers)
  have years: "y < 10000" "y' < 10000"
    using assms period_year_less by blast+
  note bounds = gregorian_date_bounds [OF dates(1)] gregorian_date_bounds [OF dates(2)]
  have "day < day' \<longleftrightarrow> y * 10000 + m * 100 + d < y' * 10000 + m' * 100 + d'"
    using dec_value_lex [of day day'] years dates by (simp add: days dec_value_date_text)
  moreover have "month < month' \<longleftrightarrow> y * 100 + m < y' * 100 + m'"
    using dec_value_lex [of month month'] years bounds
    by (simp add: months month_text_def dec_value_append dec_value_fixed_digits)
  ultimately show ?thesis
    using bounds by auto
qed

theorem period_order_chronological_witness:
  "''20231231'' < ''20240229'' \<and> ''202312'' < ''202402''
   \<and> validate_period ''20231231'' ''202312'' = Ok () \<and> validate_period ''20240229'' ''202402'' = Ok ()"
proof -
  have valid: "validate_period ''20231231'' ''202312'' = Ok ()" "validate_period ''20240229'' ''202402'' = Ok ()"
    by code_simp+
  have "period_numbers ''20231231'' = (2023, 12, 31)" "period_numbers ''20240229'' = (2024, 2, 29)"
    by (simp_all add: period_numbers_def slice_def byte_def)
  from period_order_chronological [OF valid(1) this(1) valid(2) this(2)] valid show ?thesis
    by simp
qed

end
