(* ===== verification/Schedule_Cursor.thy ===== *)
theory Schedule_Cursor
  imports Scheduler_Text
begin

text \<open>
  The durable schedule cursor and the admission decision of \<open>operations/scheduler.rs\<close>:
  \<open>SchedulerGenerations\<close>, \<open>FailedAttemptFence\<close>, \<open>ScheduleCursor\<close> with its text codec, and
  \<open>evaluate_schedule\<close>. Times are unsigned 64-bit seconds. A method that takes \<open>&mut self\<close> and
  can fail after its first assignment returns the new cursor together with its result.
\<close>

section \<open>Data\<close>

record scheduler_generations =
  gen_config_fingerprint :: string
  gen_route_fingerprint :: string
  gen_runtime_sequence :: u64
  gen_coordinator_generation :: string

record failed_attempt_fence =
  fence_due_unix_s :: u64
  fence_interval_s :: u64
  fence_generations :: scheduler_generations
  fence_explicit_retry_sequence :: u64

record schedule_cursor =
  cursor_instance :: string
  cursor_sequence :: u64
  cursor_initial_due_unix_s :: u64
  cursor_last_success_unix_s :: "u64 option"
  cursor_failed_attempt :: "failed_attempt_fence option"

datatype scheduler_block =
    Disabled
  | ClockMovedBackwards
  | WindowClosed
  | ConfigurationPending
  | RecoveryPending
  | ManualJobPriority
  | CoordinatorBusy
  | RouteNotReady
  | RuntimeNotReady
  | QuietWindowPending
  | AccountingUnavailable
  | BudgetExhausted
  | UnchangedFailedAttempt

datatype scheduler_decision =
    Dormant scheduler_block
  | WakeAt u64
  | AwaitState scheduler_block
  | Coalesced
  | Admit (admit_due_unix_s: u64) (admit_traffic_budget: u64)

record scheduler_gates =
  configuration_committed :: bool
  recovery_clear :: bool
  manual_job_pending :: bool
  coordinator_idle :: bool
  route_ready :: bool
  runtime_ready :: bool
  quiet_window_ready :: bool
  accounting_healthy :: bool
  scheduled_job_active :: bool

record scheduler_observation =
  obs_now_unix_s :: u64
  obs_window_open :: bool
  obs_next_window_open_unix_s :: "u64 option"
  obs_generations :: scheduler_generations
  obs_explicit_retry_sequence :: u64
  obs_gates :: scheduler_gates

section \<open>Operations\<close>

definition CURSOR_HEADER :: string where
  "CURSOR_HEADER = ''cake-autorate-native-schedule'' @ [TAB] @ ''2''"

definition generations_validate :: "scheduler_generations \<Rightarrow> unit result" where
  "generations_validate g =
     and_then (require_lower_hex ''scheduler config fingerprint'' (gen_config_fingerprint g) 64) (\<lambda>_.
     and_then (require_lower_hex ''scheduler route fingerprint'' (gen_route_fingerprint g) 64) (\<lambda>_.
     and_then (reject (gen_runtime_sequence g = 0)
       ''scheduler runtime sequence must be non-zero'') (\<lambda>_.
     require_lower_hex ''scheduler coordinator generation'' (gen_coordinator_generation g) 32)))"

definition fence_validate :: "failed_attempt_fence \<Rightarrow> unit result" where
  "fence_validate f =
     and_then (reject (fence_due_unix_s f = 0 \<or> fence_interval_s f = 0)
       ''failed scheduler attempt is missing its due time or interval'') (\<lambda>_.
     generations_validate (fence_generations f))"

definition fence_blocks :: "failed_attempt_fence \<Rightarrow> u64 \<Rightarrow> scheduler_generations \<Rightarrow> u64 \<Rightarrow> bool" where
  "fence_blocks f due generations retry =
     (fence_due_unix_s f = due \<and> fence_generations f = generations
      \<and> fence_explicit_retry_sequence f = retry)"

definition cursor_validate :: "schedule_cursor \<Rightarrow> unit result" where
  "cursor_validate c =
     and_then (require_identifier ''scheduler instance'' (cursor_instance c)) (\<lambda>_.
     and_then (reject (cursor_sequence c = 0 \<or> cursor_initial_due_unix_s c = 0)
       ''scheduler cursor identity is incomplete'') (\<lambda>_.
     (case cursor_failed_attempt c of
        None \<Rightarrow> Ok ()
      | Some fence \<Rightarrow> fence_validate fence)))"

definition cursor_new :: "string \<Rightarrow> u64 \<Rightarrow> schedule_cursor result" where
  "cursor_new inst initial_due =
     (let cursor = \<lparr>cursor_instance = inst, cursor_sequence = 1,
            cursor_initial_due_unix_s = initial_due, cursor_last_success_unix_s = None,
            cursor_failed_attempt = None\<rparr>
      in and_then (cursor_validate cursor) (\<lambda>_. Ok cursor))"

definition cursor_due_unix_s :: "schedule_cursor \<Rightarrow> u64 \<Rightarrow> u64 result" where
  "cursor_due_unix_s c interval_s =
     (if interval_s = 0 then Err ''scheduler interval must be non-zero''
      else and_then
        (case cursor_last_success_unix_s c of
           Some last_s \<Rightarrow> ok_or (checked_add last_s interval_s) ''scheduler due time overflow''
         | None \<Rightarrow> Ok (cursor_initial_due_unix_s c))
        (\<lambda>interval_due. Ok (max interval_due (cursor_initial_due_unix_s c))))"

text \<open>The two recording methods assign to \<open>self\<close> before their final \<open>self.validate()\<close>, so
  the cursor after an error of that last call is the changed one.\<close>

definition cursor_record_failure ::
  "schedule_cursor \<Rightarrow> failed_attempt_fence \<Rightarrow> schedule_cursor \<times> unit result" where
  "cursor_record_failure c fence =
     (case and_then (fence_validate fence) (\<lambda>_.
           and_then (cursor_due_unix_s c (fence_interval_s fence)) (\<lambda>due.
           and_then (reject (fence_due_unix_s fence \<noteq> due)
             ''scheduler failure does not belong to the current due slot'') (\<lambda>_.
           ok_or (checked_add (cursor_sequence c) 1) ''scheduler cursor sequence overflow''))) of
        Inl e \<Rightarrow> (c, Err e)
      | Inr sequence \<Rightarrow>
          (let c' = c\<lparr>cursor_sequence := sequence, cursor_failed_attempt := Some fence\<rparr>
           in (c', cursor_validate c')))"

definition cursor_record_success ::
  "schedule_cursor \<Rightarrow> u64 \<Rightarrow> u64 \<Rightarrow> u64 \<Rightarrow> schedule_cursor \<times> unit result" where
  "cursor_record_success c interval_s due_unix_s completed_unix_s =
     (case and_then (cursor_due_unix_s c interval_s) (\<lambda>due.
           and_then (reject (due_unix_s \<noteq> due)
             ''scheduler completion does not belong to the current due slot'') (\<lambda>_.
           and_then (reject (due_unix_s = 0 \<or> completed_unix_s < due_unix_s)
             ''scheduler completion precedes its due calendar slot'') (\<lambda>_.
           and_then (reject (case cursor_last_success_unix_s c of
                               None \<Rightarrow> False | Some last_s \<Rightarrow> completed_unix_s < last_s)
             ''scheduler completion time moved backwards'') (\<lambda>_.
           ok_or (checked_add (cursor_sequence c) 1) ''scheduler cursor sequence overflow'')))) of
        Inl e \<Rightarrow> (c, Err e)
      | Inr sequence \<Rightarrow>
          (let c' = c\<lparr>cursor_sequence := sequence,
                      cursor_last_success_unix_s := Some completed_unix_s,
                      cursor_failed_attempt := None\<rparr>
           in (c', cursor_validate c')))"

subsection \<open>The text record\<close>

definition fence_values :: "failed_attempt_fence option \<Rightarrow> string list" where
  "fence_values fence =
     (case fence of
        Some f \<Rightarrow>
          [word_string (fence_due_unix_s f),
           word_string (fence_interval_s f),
           gen_config_fingerprint (fence_generations f),
           gen_route_fingerprint (fence_generations f),
           word_string (gen_runtime_sequence (fence_generations f)),
           gen_coordinator_generation (fence_generations f),
           word_string (fence_explicit_retry_sequence f)]
      | None \<Rightarrow> [''-'', ''-'', ''-'', ''-'', ''-'', ''-'', ''-''])"

definition failed_field_names :: "string list" where
  "failed_field_names =
     [''failed_due_unix_s'', ''failed_interval_s'', ''failed_config_fingerprint'',
      ''failed_route_fingerprint'', ''failed_runtime_sequence'', ''failed_coordinator_generation'',
      ''failed_explicit_retry_sequence'']"

definition cursor_fields :: "schedule_cursor \<Rightarrow> (string \<times> string) list" where
  "cursor_fields c =
     [(''instance'', cursor_instance c),
      (''sequence'', word_string (cursor_sequence c)),
      (''initial_due_unix_s'', word_string (cursor_initial_due_unix_s c)),
      (''last_success_unix_s'', optional_u64 (cursor_last_success_unix_s c))]
     @ zip failed_field_names (fence_values (cursor_failed_attempt c))"

definition cursor_encode :: "schedule_cursor \<Rightarrow> string result" where
  "cursor_encode c =
     and_then (cursor_validate c) (\<lambda>_. Ok (record_text CURSOR_HEADER (cursor_fields c)))"

definition fence_parse :: "string list \<Rightarrow> failed_attempt_fence option result" where
  "fence_parse vs =
     (case vs of
        [failed_due, failed_interval, failed_config, failed_route, failed_runtime,
         failed_coordinator, failed_retry] \<Rightarrow>
          if list_all (\<lambda>v. v = ''-'') vs then Ok None
          else if list_all (\<lambda>v. v \<noteq> ''-'') vs then
            and_then (parse_u64 ''failed scheduler due time'' failed_due) (\<lambda>due.
            and_then (parse_u64 ''failed scheduler interval'' failed_interval) (\<lambda>interval.
            and_then (parse_u64 ''failed scheduler runtime sequence'' failed_runtime) (\<lambda>runtime.
            and_then (parse_u64 ''failed scheduler retry sequence'' failed_retry) (\<lambda>retry.
            Ok (Some \<lparr>fence_due_unix_s = due, fence_interval_s = interval,
                      fence_generations = \<lparr>gen_config_fingerprint = failed_config,
                        gen_route_fingerprint = failed_route, gen_runtime_sequence = runtime,
                        gen_coordinator_generation = failed_coordinator\<rparr>,
                      fence_explicit_retry_sequence = retry\<rparr>)))))
          else Err ''scheduler failed-attempt fence is partial''
      | _ \<Rightarrow> Err ''scheduler failed-attempt fence is partial'')"

definition cursor_decode :: "string \<Rightarrow> schedule_cursor result" where
  "cursor_decode input =
     and_then (ordered_record_new input CURSOR_HEADER) (\<lambda>record.
     and_then (ordered_record_field record ''instance'') (\<lambda>(inst, record).
     and_then (ordered_record_field record ''sequence'') (\<lambda>(sequence, record).
     and_then (parse_u64 ''scheduler sequence'' sequence) (\<lambda>sequence.
     and_then (ordered_record_field record ''initial_due_unix_s'') (\<lambda>(initial_due, record).
     and_then (parse_u64 ''scheduler initial due time'' initial_due) (\<lambda>initial_due.
     and_then (ordered_record_field record ''last_success_unix_s'') (\<lambda>(last_success, record).
     and_then (parse_optional_u64 ''scheduler last success'' last_success) (\<lambda>last_success.
     and_then (ordered_record_fields record failed_field_names) (\<lambda>(failed, record).
     and_then (ordered_record_finish record) (\<lambda>_.
     and_then (fence_parse failed) (\<lambda>failed_attempt.
     let cursor = \<lparr>cursor_instance = inst, cursor_sequence = sequence,
           cursor_initial_due_unix_s = initial_due, cursor_last_success_unix_s = last_success,
           cursor_failed_attempt = failed_attempt\<rparr>
     in and_then (cursor_validate cursor) (\<lambda>_.
        and_then (cursor_encode cursor) (\<lambda>text.
        if text \<noteq> input then Err ''scheduler cursor record is not canonical''
        else Ok cursor)))))))))))))"

subsection \<open>The admission decision\<close>

definition gate_list :: "scheduler_gates \<Rightarrow> (bool \<times> scheduler_block) list" where
  "gate_list g =
     [(configuration_committed g, ConfigurationPending),
      (recovery_clear g, RecoveryPending),
      (\<not> manual_job_pending g, ManualJobPriority),
      (coordinator_idle g, CoordinatorBusy),
      (route_ready g, RouteNotReady),
      (runtime_ready g, RuntimeNotReady),
      (quiet_window_ready g, QuietWindowPending),
      (accounting_healthy g, AccountingUnavailable)]"

fun first_closed_gate :: "(bool \<times> scheduler_block) list \<Rightarrow> scheduler_block option" where
  "first_closed_gate [] = None"
| "first_closed_gate ((ready, reason) # gs) = (if \<not> ready then Some reason else first_closed_gate gs)"

definition evaluate_budget :: "u64 \<Rightarrow> u64 \<Rightarrow> u64 \<Rightarrow> scheduler_decision result" where
  "evaluate_budget maximum_job_traffic_bytes available_traffic_bytes due =
     (if maximum_job_traffic_bytes > MAX_EXACT_BYTES \<or> available_traffic_bytes > MAX_EXACT_BYTES
      then Err ''scheduler traffic budget exceeds the exact accounting range''
      else let traffic_budget = min maximum_job_traffic_bytes available_traffic_bytes
           in if traffic_budget = 0 then Ok (AwaitState BudgetExhausted)
              else Ok (Admit due traffic_budget))"

definition evaluate_schedule ::
  "bool \<Rightarrow> u64 \<Rightarrow> u64 \<Rightarrow> u64 \<Rightarrow> schedule_cursor \<Rightarrow> scheduler_observation \<Rightarrow> scheduler_decision result" where
  "evaluate_schedule enabled interval_s maximum_job_traffic_bytes available_traffic_bytes cursor observation =
     and_then (cursor_validate cursor) (\<lambda>_.
     and_then (generations_validate (obs_generations observation)) (\<lambda>_.
     if \<not> enabled then Ok (Dormant Disabled)
     else if (case cursor_last_success_unix_s cursor of
                None \<Rightarrow> False | Some last_s \<Rightarrow> obs_now_unix_s observation < last_s)
     then Ok (AwaitState ClockMovedBackwards)
     else and_then (cursor_due_unix_s cursor interval_s) (\<lambda>due.
     if obs_now_unix_s observation < due then Ok (WakeAt due)
     else if \<not> obs_window_open observation then
       (case obs_next_window_open_unix_s observation of
          Some next \<Rightarrow> if next > obs_now_unix_s observation then Ok (WakeAt next)
                       else Ok (AwaitState WindowClosed)
        | None \<Rightarrow> Ok (AwaitState WindowClosed))
     else if scheduled_job_active (obs_gates observation) then Ok Coalesced
     else case first_closed_gate (gate_list (obs_gates observation)) of
       Some reason \<Rightarrow> Ok (AwaitState reason)
     | None \<Rightarrow>
       (case cursor_failed_attempt cursor of
          None \<Rightarrow> evaluate_budget maximum_job_traffic_bytes available_traffic_bytes due
        | Some failure \<Rightarrow>
            if fence_generations failure = obs_generations observation
               \<and> fence_explicit_retry_sequence failure = obs_explicit_retry_sequence observation
               \<and> fence_due_unix_s failure \<noteq> due
            then Err ''scheduler due time changed without a configuration or retry generation''
            else if fence_blocks failure due (obs_generations observation)
                      (obs_explicit_retry_sequence observation)
            then Ok (AwaitState UnchangedFailedAttempt)
            else evaluate_budget maximum_job_traffic_bytes available_traffic_bytes due))))"

section \<open>Validity\<close>

lemma generations_validate_Ok_iff:
  "generations_validate g = Ok () \<longleftrightarrow>
     require_lower_hex ''scheduler config fingerprint'' (gen_config_fingerprint g) 64 = Ok ()
     \<and> require_lower_hex ''scheduler route fingerprint'' (gen_route_fingerprint g) 64 = Ok ()
     \<and> gen_runtime_sequence g \<noteq> 0
     \<and> require_lower_hex ''scheduler coordinator generation'' (gen_coordinator_generation g) 32 = Ok ()"
  by (auto simp: generations_validate_def and_then_Inr_iff)

lemma fence_validate_Ok_iff:
  "fence_validate f = Ok () \<longleftrightarrow>
     fence_due_unix_s f \<noteq> 0 \<and> fence_interval_s f \<noteq> 0
     \<and> generations_validate (fence_generations f) = Ok ()"
  by (auto simp: fence_validate_def and_then_Inr_iff)

lemma cursor_validate_Ok_iff:
  "cursor_validate c = Ok () \<longleftrightarrow>
     require_identifier ''scheduler instance'' (cursor_instance c) = Ok ()
     \<and> cursor_sequence c \<noteq> 0 \<and> cursor_initial_due_unix_s c \<noteq> 0
     \<and> (\<forall>f. cursor_failed_attempt c = Some f \<longrightarrow> fence_validate f = Ok ())"
  by (auto simp: cursor_validate_def and_then_Inr_iff split: option.splits)

lemma cursor_new_Ok_iff:
  "cursor_new inst due = Ok c \<longleftrightarrow>
     require_identifier ''scheduler instance'' inst = Ok () \<and> due \<noteq> 0
     \<and> c = \<lparr>cursor_instance = inst, cursor_sequence = 1, cursor_initial_due_unix_s = due,
           cursor_last_success_unix_s = None, cursor_failed_attempt = None\<rparr>"
  by (auto simp: cursor_new_def Let_def and_then_Inr_iff cursor_validate_Ok_iff)

lemma checked_add_one_nonzero: "checked_add (a :: 'l::len word) 1 = Some b \<Longrightarrow> b \<noteq> 0"
proof
  assume "checked_add a 1 = Some b" "b = 0"
  then have "unat a + 1 = 0"
    using checked_add_SomeD [of a 1 b] by simp
  then show False by simp
qed

lemma checked_add_one_unat: "checked_add (a :: 'l::len word) 1 = Some b \<Longrightarrow> unat b = Suc (unat a)"
  using checked_add_SomeD [of a 1 b] by simp

lemma cursor_record_failure_Ok:
  assumes "cursor_record_failure c f = (c', Ok u)"
  obtains n where "fence_validate f = Ok ()"
    and "cursor_due_unix_s c (fence_interval_s f) = Ok (fence_due_unix_s f)"
    and "checked_add (cursor_sequence c) 1 = Some n"
    and "c' = c\<lparr>cursor_sequence := n, cursor_failed_attempt := Some f\<rparr>"
    and "cursor_validate c' = Ok ()"
  using assms
  by (auto simp: cursor_record_failure_def Let_def and_then_Inr_iff split: sum.splits)

lemma cursor_record_success_Ok:
  assumes "cursor_record_success c iv due done = (c', Ok u)"
  obtains n where "cursor_due_unix_s c iv = Ok due"
    and "due \<noteq> 0" and "due \<le> done"
    and "\<And>l. cursor_last_success_unix_s c = Some l \<Longrightarrow> l \<le> done"
    and "checked_add (cursor_sequence c) 1 = Some n"
    and "c' = c\<lparr>cursor_sequence := n, cursor_last_success_unix_s := Some done,
                cursor_failed_attempt := None\<rparr>"
    and "cursor_validate c' = Ok ()"
  using assms
  by (auto simp: cursor_record_success_def Let_def and_then_Inr_iff split: sum.splits option.splits)

lemma cursor_record_failure_valid:
  "cursor_validate c = Ok () \<Longrightarrow> fence_validate f = Ok () \<Longrightarrow> n \<noteq> 0 \<Longrightarrow>
   cursor_validate (c\<lparr>cursor_sequence := n, cursor_failed_attempt := Some f\<rparr>) = Ok ()"
  by (simp add: cursor_validate_Ok_iff)

lemma cursor_record_success_valid:
  "cursor_validate c = Ok () \<Longrightarrow> n \<noteq> 0 \<Longrightarrow>
   cursor_validate (c\<lparr>cursor_sequence := n, cursor_last_success_unix_s := Some d,
                     cursor_failed_attempt := None\<rparr>) = Ok ()"
  by (simp add: cursor_validate_Ok_iff)

lemma cursor_due_Ok_iff:
  "cursor_due_unix_s c iv = Ok due \<longleftrightarrow> iv \<noteq> 0 \<and>
     (case cursor_last_success_unix_s c of
        None \<Rightarrow> due = cursor_initial_due_unix_s c
      | Some l \<Rightarrow> unat l + unat iv < 2 ^ 64
          \<and> unat due = max (unat l + unat iv) (unat (cursor_initial_due_unix_s c)))"
  by (auto simp: cursor_due_unix_s_def checked_add_def unat_word_ariths
      word_unat_eq_iff unat_max_word split: option.splits if_splits)

section \<open>The codec\<close>

lemma fence_values_safe:
  assumes "\<And>f. fa = Some f \<Longrightarrow> fence_validate f = Ok ()"
  shows "list_all field_safe (fence_values fa)"
  using assms
  by (cases fa)
    (auto simp: fence_values_def fence_validate_Ok_iff generations_validate_Ok_iff
      intro: field_safe_lower_hex)

lemma length_fence_values [simp]: "length (fence_values fa) = 7"
  by (simp add: fence_values_def split: option.splits)

lemma fence_parse_values:
  assumes "\<And>f. fa = Some f \<Longrightarrow> fence_validate f = Ok ()"
  shows "fence_parse (fence_values fa) = Ok fa"
  using assms
  by (cases fa)
    (auto simp: fence_values_def fence_parse_def fence_validate_Ok_iff generations_validate_Ok_iff
      dest: not_dash_lower_hex)

lemma failed_field_names_safe [simp]: "list_all field_safe failed_field_names"
  by (simp add: failed_field_names_def field_safe_def)

lemma CURSOR_HEADER_safe [simp]: "header_safe CURSOR_HEADER"
  by (simp add: CURSOR_HEADER_def header_safe_def)

lemma cursor_failed_valid:
  "cursor_validate c = Ok () \<Longrightarrow> cursor_failed_attempt c = Some f \<Longrightarrow> fence_validate f = Ok ()"
  by (simp add: cursor_validate_Ok_iff)

lemma cursor_fields_safe: "cursor_validate c = Ok () \<Longrightarrow> fields_safe (cursor_fields c)"
  using fields_safe_zip [OF failed_field_names_safe fence_values_safe]
  by (auto simp: cursor_fields_def cursor_validate_Ok_iff field_safe_def [of "[_]"]
      field_safe_def [of "_ # _"] intro: field_safe_identifier)

lemma cursor_encode_Ok_iff:
  "cursor_encode c = Ok s \<longleftrightarrow> cursor_validate c = Ok () \<and> s = record_text CURSOR_HEADER (cursor_fields c)"
  by (auto simp: cursor_encode_def and_then_Inr_iff)

lemma length_failed_field_names [simp]: "length failed_field_names = 7"
  by (simp add: failed_field_names_def)

lemma cursor_decode_encode:
  assumes valid: "cursor_validate c = Ok ()"
  shows "cursor_decode (record_text CURSOR_HEADER (cursor_fields c)) = Ok c"
proof -
  define s where "s = record_text CURSOR_HEADER (cursor_fields c)"
  have new: "ordered_record_new s CURSOR_HEADER = Ok (field_lines (cursor_fields c))"
    using valid unfolding s_def
    by (intro ordered_record_new_text) (simp_all add: cursor_fields_safe)
  have inst: "field_safe (cursor_instance c)"
    using valid by (auto simp: cursor_validate_Ok_iff intro: field_safe_identifier)
  have names: "field_safe ''instance''" "field_safe ''sequence''" "field_safe ''initial_due_unix_s''"
    "field_safe ''last_success_unix_s''"
    by (simp_all add: field_safe_def)
  have fence: "list_all field_safe (fence_values (cursor_failed_attempt c))"
    "fence_parse (fence_values (cursor_failed_attempt c)) = Ok (cursor_failed_attempt c)"
    using fence_values_safe fence_parse_values cursor_failed_valid [OF valid] by blast+
  have enc: "cursor_encode c = Ok s"
    using valid by (simp add: cursor_encode_Ok_iff s_def)
  have read: "ordered_record_fields (field_lines (zip failed_field_names (fence_values (cursor_failed_attempt c))))
      failed_field_names = Ok (fence_values (cursor_failed_attempt c), [])"
    using fence(1) by (intro ordered_record_fields_zip) simp_all
  have eta: "\<lparr>cursor_instance = cursor_instance c, cursor_sequence = cursor_sequence c,
      cursor_initial_due_unix_s = cursor_initial_due_unix_s c,
      cursor_last_success_unix_s = cursor_last_success_unix_s c,
      cursor_failed_attempt = cursor_failed_attempt c\<rparr> = c"
    by simp
  have "cursor_decode s = Ok c"
    unfolding cursor_decode_def new
    by (simp add: Let_def eta cursor_fields_def names inst read fence(2) valid enc ordered_record_finish_def)
  then show ?thesis by (simp only: s_def)
qed

lemma cursor_decode_Ok: "cursor_decode s = Ok c \<Longrightarrow> cursor_validate c = Ok () \<and> cursor_encode c = Ok s"
  by (auto simp: cursor_decode_def and_then_Inr_iff Let_def split: if_splits)

interpretation cursor_codec: codec cursor_encode cursor_decode "\<lambda>c. cursor_validate c = Ok ()"
proof unfold_locales
  show "cursor_validate x = Ok () \<Longrightarrow> \<exists>s. cursor_encode x = Ok s" for x
    by (simp add: cursor_encode_Ok_iff)
  show "cursor_validate x = Ok () \<Longrightarrow> cursor_encode x = Ok s \<Longrightarrow> cursor_decode s = Ok x" for x s
    by (simp add: cursor_encode_Ok_iff cursor_decode_encode)
  show "cursor_decode s = Ok x \<Longrightarrow> cursor_validate x = Ok () \<and> cursor_encode x = Ok s" for s x
    by (rule cursor_decode_Ok)
qed

section \<open>The decision\<close>

lemma first_closed_gate_None_iff:
  "first_closed_gate gs = None \<longleftrightarrow> list_all fst gs"
  by (induction gs rule: first_closed_gate.induct) auto

definition gates_open :: "scheduler_gates \<Rightarrow> bool" where
  "gates_open g = (configuration_committed g \<and> recovery_clear g \<and> \<not> manual_job_pending g
     \<and> coordinator_idle g \<and> route_ready g \<and> runtime_ready g \<and> quiet_window_ready g
     \<and> accounting_healthy g \<and> \<not> scheduled_job_active g)"

text \<open>The failed attempt was made under the authority (fingerprints, generations and explicit retry
  counter) that the observation shows.\<close>

definition same_authority :: "failed_attempt_fence \<Rightarrow> scheduler_observation \<Rightarrow> bool" where
  "same_authority f obs = (fence_generations f = obs_generations obs
     \<and> fence_explicit_retry_sequence f = obs_explicit_retry_sequence obs)"

lemma evaluate_budget_Admit_iff:
  "evaluate_budget mx av due = Ok (Admit d b) \<longleftrightarrow>
     mx \<le> MAX_EXACT_BYTES \<and> av \<le> MAX_EXACT_BYTES \<and> d = due \<and> b = min mx av \<and> b \<noteq> 0"
  by (auto simp: evaluate_budget_def Let_def)

lemma evaluate_schedule_Admit_iff:
  "evaluate_schedule enabled interval_s mx av c obs = Ok (Admit d b) \<longleftrightarrow>
     cursor_validate c = Ok () \<and> generations_validate (obs_generations obs) = Ok () \<and> enabled
     \<and> (\<forall>l. cursor_last_success_unix_s c = Some l \<longrightarrow> l \<le> obs_now_unix_s obs)
     \<and> cursor_due_unix_s c interval_s = Ok d \<and> d \<le> obs_now_unix_s obs
     \<and> obs_window_open obs \<and> gates_open (obs_gates obs)
     \<and> (\<forall>f. cursor_failed_attempt c = Some f \<longrightarrow> \<not> same_authority f obs)
     \<and> mx \<le> MAX_EXACT_BYTES \<and> av \<le> MAX_EXACT_BYTES \<and> b = min mx av \<and> b \<noteq> 0"
proof -
  have gates: "first_closed_gate (gate_list g) = None \<and> \<not> scheduled_job_active g \<longleftrightarrow> gates_open g" for g
    by (auto simp: first_closed_gate_None_iff gate_list_def gates_open_def)
  show ?thesis
    unfolding evaluate_schedule_def and_then_Inr_iff
    using gates [of "obs_gates obs"]
    by (auto simp: and_then_Inr_iff evaluate_budget_Admit_iff same_authority_def fence_blocks_def not_less
        split: option.splits if_splits)
qed

lemma evaluate_schedule_same_authority:
  assumes "cursor_failed_attempt c = Some f" and "same_authority f obs"
  shows "evaluate_schedule enabled interval_s mx av c obs \<noteq> Ok (Admit d b)"
  using assms by (simp add: evaluate_schedule_Admit_iff)

section \<open>Properties\<close>

text \<open>Data for the witnesses: a cursor that has succeeded once and an observation at a given time.\<close>

definition sample_generations :: scheduler_generations where
  "sample_generations = \<lparr>gen_config_fingerprint = replicate 64 (CHR ''a''),
     gen_route_fingerprint = replicate 64 (CHR ''b''), gen_runtime_sequence = 7,
     gen_coordinator_generation = replicate 32 (CHR ''c'')\<rparr>"

definition sample_cursor :: schedule_cursor where
  "sample_cursor = \<lparr>cursor_instance = ''wan'', cursor_sequence = 4, cursor_initial_due_unix_s = 1000,
     cursor_last_success_unix_s = Some 5000, cursor_failed_attempt = None\<rparr>"

definition sample_fence :: failed_attempt_fence where
  "sample_fence = \<lparr>fence_due_unix_s = 5600, fence_interval_s = 600,
     fence_generations = sample_generations, fence_explicit_retry_sequence = 2\<rparr>"

definition sample_observation :: "u64 \<Rightarrow> scheduler_observation" where
  "sample_observation now = \<lparr>obs_now_unix_s = now, obs_window_open = True,
     obs_next_window_open_unix_s = None, obs_generations = sample_generations,
     obs_explicit_retry_sequence = 2,
     obs_gates = \<lparr>configuration_committed = True, recovery_clear = True, manual_job_pending = False,
       coordinator_idle = True, route_ready = True, runtime_ready = True, quiet_window_ready = True,
       accounting_healthy = True, scheduled_job_active = False\<rparr>\<rparr>"

lemma sample_generations_valid [simp]: "generations_validate sample_generations = Ok ()"
  by (simp add: generations_validate_Ok_iff sample_generations_def require_lower_hex_def list_all_iff
      is_lower_hex_digit_def is_ascii_digit_def byte_def)

lemma sample_cursor_valid [simp]: "cursor_validate sample_cursor = Ok ()"
  by (simp add: cursor_validate_Ok_iff sample_cursor_def require_identifier_def
      is_ascii_alphanumeric_def is_ascii_lowercase_def byte_def)

lemma sample_fence_valid [simp]: "fence_validate sample_fence = Ok ()"
  by (simp add: fence_validate_Ok_iff) (simp add: sample_fence_def)

lemma sample_cursor_due [simp]: "cursor_due_unix_s sample_cursor 600 = Ok 5600"
  by (simp add: cursor_due_unix_s_def sample_cursor_def checked_add_def)

lemma sample_record_failure:
  "cursor_record_failure sample_cursor sample_fence =
     (sample_cursor\<lparr>cursor_sequence := 5, cursor_failed_attempt := Some sample_fence\<rparr>, Ok ())"
proof -
  have "fence_interval_s sample_fence = 600" "fence_due_unix_s sample_fence = 5600"
    "checked_add (cursor_sequence sample_cursor) 1 = Some 5"
    by (simp_all add: sample_fence_def sample_cursor_def checked_add_def)
  then show ?thesis
    by (simp add: cursor_record_failure_def Let_def cursor_record_failure_valid)
qed

lemma sample_record_success:
  "cursor_record_success sample_cursor 600 5600 5700 =
     (sample_cursor\<lparr>cursor_sequence := 5, cursor_last_success_unix_s := Some 5700,
                   cursor_failed_attempt := None\<rparr>, Ok ())"
proof -
  have "cursor_last_success_unix_s sample_cursor = Some 5000"
    "checked_add (cursor_sequence sample_cursor) 1 = Some 5"
    by (simp_all add: sample_cursor_def checked_add_def)
  then show ?thesis
    by (simp add: cursor_record_success_def Let_def cursor_record_success_valid)
qed

text \<open>The schedule cursor's text record is an exact codec. Decoding a text gives a cursor if and
  only if the text is that cursor's encoding, and exactly the cursors that pass validation can be
  encoded, so a stored cursor is read back unchanged and no other text is accepted for it.\<close>

theorem cursor_codec_exact:
  "(cursor_decode s = Ok c \<longleftrightarrow> cursor_encode c = Ok s)
   \<and> (is_ok (cursor_encode c) \<longleftrightarrow> cursor_validate c = Ok ())"
proof
  show "cursor_decode s = Ok c \<longleftrightarrow> cursor_encode c = Ok s"
    using cursor_codec.decode_iff [of s c] by (auto simp: cursor_encode_Ok_iff)
  show "is_ok (cursor_encode c) \<longleftrightarrow> cursor_validate c = Ok ()"
    by (auto simp: is_ok_iff cursor_encode_Ok_iff)
qed

text \<open>C13: \<open>evaluate_schedule\<close> admits a scheduled run exactly when the cursor and the observed
  generations are well formed, scheduling is enabled, the clock has not moved behind the last success,
  the slot is due, the window is open, every gate is open, no failed attempt stands under the same
  authority, and the traffic budget, the smaller of the two limits, is exact and not zero.\<close>

theorem evaluate_schedule_admits_exactly:
  "evaluate_schedule enabled interval_s mx av c obs = Ok (Admit d b) \<longleftrightarrow>
     cursor_validate c = Ok () \<and> generations_validate (obs_generations obs) = Ok () \<and> enabled
     \<and> (\<forall>l. cursor_last_success_unix_s c = Some l \<longrightarrow> l \<le> obs_now_unix_s obs)
     \<and> cursor_due_unix_s c interval_s = Ok d \<and> d \<le> obs_now_unix_s obs
     \<and> obs_window_open obs \<and> gates_open (obs_gates obs)
     \<and> (\<forall>f. cursor_failed_attempt c = Some f \<longrightarrow> \<not> same_authority f obs)
     \<and> mx \<le> MAX_EXACT_BYTES \<and> av \<le> MAX_EXACT_BYTES \<and> b = min mx av \<and> b \<noteq> 0"
  by (rule evaluate_schedule_Admit_iff)

theorem evaluate_schedule_admits_exactly_witness:
  "evaluate_schedule True 600 900 800 sample_cursor (sample_observation 5600) = Ok (Admit 5600 800)"
  unfolding evaluate_schedule_admits_exactly
  by (simp add: sample_observation_def gates_open_def MAX_EXACT_BYTES_def)
    (simp add: sample_cursor_def)

text \<open>C12: once a failed attempt has been recorded, no evaluation of that cursor under the same
  authority admits a run, whatever the time, the interval, the gates and the budget are: elapsed time
  alone never retries a failed slot.\<close>

theorem failed_slot_not_readmitted:
  assumes "cursor_record_failure c f = (c', Ok ())" and "same_authority f obs"
  shows "evaluate_schedule enabled interval_s mx av c' obs \<noteq> Ok (Admit d b)"
proof -
  from assms(1) have "cursor_failed_attempt c' = Some f"
    by (auto elim: cursor_record_failure_Ok)
  then show ?thesis
    using assms(2) by (rule evaluate_schedule_same_authority)
qed

theorem failed_slot_not_readmitted_witness:
  "evaluate_schedule True 600 900 800
     (sample_cursor\<lparr>cursor_sequence := 5, cursor_failed_attempt := Some sample_fence\<rparr>)
     (sample_observation 999999) \<noteq> Ok (Admit 5600 800)"
  by (rule failed_slot_not_readmitted [OF sample_record_failure])
    (simp add: same_authority_def sample_fence_def sample_observation_def)

text \<open>C14: after a success recorded at \<open>done\<close>, the next admitted run is due no earlier than
  \<open>done\<close> plus the interval, in unbounded arithmetic, and the clock has reached that due time: two
  scheduled runs are always at least one interval apart.\<close>

theorem success_spaces_admissions:
  assumes "cursor_record_success c interval_s due done = (c', Ok ())"
    and "evaluate_schedule enabled interval_s mx av c' obs = Ok (Admit d b)"
  shows "unat done + unat interval_s \<le> unat d \<and> unat d \<le> unat (obs_now_unix_s obs)"
proof -
  from assms(1) have "cursor_last_success_unix_s c' = Some done"
    by (auto elim: cursor_record_success_Ok)
  then show ?thesis
    using assms(2) by (auto simp: evaluate_schedule_Admit_iff cursor_due_Ok_iff word_le_nat_alt)
qed

theorem success_spaces_admissions_witness:
  "unat (5700 :: u64) + unat (600 :: u64) \<le> unat (6300 :: u64)
   \<and> unat (6300 :: u64) \<le> unat (obs_now_unix_s (sample_observation 6400))"
proof (rule success_spaces_admissions [OF sample_record_success])
  have "cursor_due_unix_s (sample_cursor\<lparr>cursor_sequence := 5, cursor_last_success_unix_s := Some 5700,
      cursor_failed_attempt := None\<rparr>) 600 = Ok 6300"
    by (simp add: cursor_due_unix_s_def checked_add_def sample_cursor_def)
  then show "evaluate_schedule True 600 900 800
      (sample_cursor\<lparr>cursor_sequence := 5, cursor_last_success_unix_s := Some 5700,
        cursor_failed_attempt := None\<rparr>) (sample_observation 6400) = Ok (Admit 6300 800)"
    unfolding evaluate_schedule_Admit_iff
    by (simp add: sample_observation_def gates_open_def MAX_EXACT_BYTES_def cursor_record_success_valid)
qed

text \<open>C17: recording a failure or a success on a valid cursor is atomic although both methods assign
  before their final validation: an error leaves the cursor as it was, and a success leaves a valid
  cursor whose sequence number is one higher.\<close>

theorem cursor_recording_atomic:
  assumes "cursor_validate c = Ok ()"
    and "step = cursor_record_failure c f \<or> step = cursor_record_success c interval_s due done"
  shows "case step of
      (c', Inl e) \<Rightarrow> c' = c
    | (c', Inr _) \<Rightarrow> cursor_validate c' = Ok () \<and> unat (cursor_sequence c') = Suc (unat (cursor_sequence c))"
  using assms(2)
proof
  assume "step = cursor_record_failure c f"
  then show ?thesis
    using assms(1)
    by (auto simp: cursor_record_failure_def Let_def and_then_Inr_iff cursor_record_failure_valid
        checked_add_one_nonzero checked_add_one_unat split: sum.splits)
next
  assume "step = cursor_record_success c interval_s due done"
  then show ?thesis
    using assms(1)
    by (auto simp: cursor_record_success_def Let_def and_then_Inr_iff cursor_record_success_valid
        checked_add_one_nonzero checked_add_one_unat split: sum.splits)
qed

theorem cursor_recording_atomic_witness:
  "unat (cursor_sequence (sample_cursor\<lparr>cursor_sequence := 5,
     cursor_failed_attempt := Some sample_fence\<rparr>)) = Suc (unat (cursor_sequence sample_cursor))"
  using cursor_recording_atomic
    [of sample_cursor "cursor_record_failure sample_cursor sample_fence" sample_fence 600 5600 5700]
  by (simp add: sample_record_failure)

end
