(* ===== verification/Budget_Ledger.thy ===== *)
theory Budget_Ledger
  imports Schedule_Cursor Machine
begin

text \<open>
  The conservative traffic ledger of \<open>operations/scheduler.rs\<close>: \<open>BudgetReservation\<close> and
  \<open>BudgetLedger\<close>. Every mutating method of the source works on a clone and assigns it to
  \<open>*self\<close> as its last action, so a method is modelled as a function to a result: an error leaves
  the ledger as it was, \<open>Ok l\<close> makes \<open>l\<close> the new ledger. Days and months are the strings
  \<open>YYYYMMDD\<close> and \<open>YYYYMM\<close>, compared as strings.
\<close>

section \<open>Data\<close>

record budget_reservation =
  res_reservation_id :: string
  res_job_id :: string
  res_day :: string
  res_month :: string
  res_reserved_bytes :: u64
  res_authority :: failed_attempt_fence

record budget_ledger =
  led_instance :: string
  led_sequence :: u64
  led_day :: string
  led_month :: string
  led_daily_limit_bytes :: u64
  led_monthly_limit_bytes :: u64
  led_daily_charged_bytes :: u64
  led_monthly_charged_bytes :: u64
  led_accounting_blocked :: bool
  led_reservation :: "budget_reservation option"

section \<open>Operations\<close>

definition BUDGET_HEADER :: string where
  "BUDGET_HEADER = ''cake-autorate-native-schedule-budget'' @ [TAB] @ ''2''"

definition reservation_validate :: "budget_reservation \<Rightarrow> unit result" where
  "reservation_validate r =
     and_then (require_lower_hex ''scheduler reservation id'' (res_reservation_id r) 32) (\<lambda>_.
     and_then (require_lower_hex ''scheduler reservation job id'' (res_job_id r) 32) (\<lambda>_.
     and_then (validate_period (res_day r) (res_month r)) (\<lambda>_.
     and_then (fence_validate (res_authority r)) (\<lambda>_.
     and_then (reject (res_reserved_bytes r = 0) ''scheduler reservation must be non-zero'') (\<lambda>_.
     validate_accounted_bytes ''scheduler reservation'' (res_reserved_bytes r))))))"

definition ledger_validate :: "budget_ledger \<Rightarrow> unit result" where
  "ledger_validate l =
     and_then (require_identifier ''scheduler budget instance'' (led_instance l)) (\<lambda>_.
     and_then (reject (led_sequence l = 0) ''scheduler budget sequence must be non-zero'') (\<lambda>_.
     and_then (validate_period (led_day l) (led_month l)) (\<lambda>_.
     and_then (validate_accounted_bytes ''daily scheduler limit'' (led_daily_limit_bytes l)) (\<lambda>_.
     and_then (validate_accounted_bytes ''monthly scheduler limit'' (led_monthly_limit_bytes l)) (\<lambda>_.
     and_then (validate_accounted_bytes ''daily scheduler charge'' (led_daily_charged_bytes l)) (\<lambda>_.
     and_then (validate_accounted_bytes ''monthly scheduler charge'' (led_monthly_charged_bytes l)) (\<lambda>_.
     and_then (reject (led_daily_limit_bytes l = 0 \<or> led_monthly_limit_bytes l = 0)
       ''scheduler traffic limits must be non-zero'') (\<lambda>_.
     (case led_reservation l of
        None \<Rightarrow> Ok ()
      | Some r \<Rightarrow>
          and_then (reservation_validate r) (\<lambda>_.
          reject (res_day r > led_day l \<or> res_month r > led_month l)
            ''scheduler reservation is dated in the future''))))))))))"

definition ledger_new :: "string \<Rightarrow> string \<Rightarrow> string \<Rightarrow> u64 \<Rightarrow> u64 \<Rightarrow> budget_ledger result" where
  "ledger_new inst day month daily_limit monthly_limit =
     (let ledger = \<lparr>led_instance = inst, led_sequence = 1, led_day = day, led_month = month,
            led_daily_limit_bytes = daily_limit, led_monthly_limit_bytes = monthly_limit,
            led_daily_charged_bytes = 0, led_monthly_charged_bytes = 0,
            led_accounting_blocked = False, led_reservation = None\<rparr>
      in and_then (ledger_validate ledger) (\<lambda>_. Ok ledger))"

definition ledger_available_bytes :: "budget_ledger \<Rightarrow> u64 result" where
  "ledger_available_bytes l =
     and_then (ledger_validate l) (\<lambda>_.
     if led_accounting_blocked l \<or> led_reservation l \<noteq> None then Ok 0
     else Ok (min (saturating_sub (led_daily_limit_bytes l) (led_daily_charged_bytes l))
                  (saturating_sub (led_monthly_limit_bytes l) (led_monthly_charged_bytes l))))"

definition ledger_bump_sequence :: "budget_ledger \<Rightarrow> budget_ledger result" where
  "ledger_bump_sequence l =
     and_then (ok_or (checked_add (led_sequence l) 1) ''scheduler budget sequence overflow'')
       (\<lambda>sequence. Ok (l\<lparr>led_sequence := sequence\<rparr>))"

text \<open>\<open>next.bump_sequence()?; next.validate()?; *self = next; Ok(())\<close>, the end of every
  mutating method.\<close>

definition ledger_commit :: "budget_ledger \<Rightarrow> budget_ledger result" where
  "ledger_commit next_l =
     and_then (ledger_bump_sequence next_l) (\<lambda>next_l.
     and_then (ledger_validate next_l) (\<lambda>_.
     Ok next_l))"

definition ledger_roll_period :: "budget_ledger \<Rightarrow> string \<Rightarrow> string \<Rightarrow> budget_ledger result" where
  "ledger_roll_period l day month =
     and_then (validate_period day month) (\<lambda>_.
     and_then (reject (day < led_day l \<or> month < led_month l)
       ''scheduler budget calendar moved backwards'') (\<lambda>_.
     if day = led_day l \<and> month = led_month l then Ok l
     else
       (let next_l = (if month \<noteq> led_month l
                      then l\<lparr>led_month := month, led_monthly_charged_bytes := 0\<rparr> else l);
            next_l = (if day \<noteq> led_day next_l
                      then next_l\<lparr>led_day := day, led_daily_charged_bytes := 0\<rparr> else next_l)
        in ledger_commit next_l)))"

definition ledger_reconfigure_limits ::
  "budget_ledger \<Rightarrow> string \<Rightarrow> string \<Rightarrow> u64 \<Rightarrow> u64 \<Rightarrow> budget_ledger result" where
  "ledger_reconfigure_limits l day month daily_limit monthly_limit =
     and_then (validate_accounted_bytes ''daily scheduler limit'' daily_limit) (\<lambda>_.
     and_then (validate_accounted_bytes ''monthly scheduler limit'' monthly_limit) (\<lambda>_.
     and_then (reject (daily_limit = 0 \<or> monthly_limit = 0)
       ''scheduler traffic limits must be non-zero'') (\<lambda>_.
     and_then (reject (led_reservation l \<noteq> None
                 \<and> (led_daily_limit_bytes l \<noteq> daily_limit \<or> led_monthly_limit_bytes l \<noteq> monthly_limit))
       ''scheduler traffic limits changed during an active reservation'') (\<lambda>_.
     and_then (ledger_roll_period l day month) (\<lambda>next_l.
     if led_daily_limit_bytes next_l = daily_limit \<and> led_monthly_limit_bytes next_l = monthly_limit
     then Ok next_l
     else ledger_commit (next_l\<lparr>led_daily_limit_bytes := daily_limit,
                                led_monthly_limit_bytes := monthly_limit\<rparr>))))))"

definition ledger_reserve ::
  "budget_ledger \<Rightarrow> string \<Rightarrow> string \<Rightarrow> string \<Rightarrow> string \<Rightarrow> failed_attempt_fence \<Rightarrow> u64 \<Rightarrow> budget_ledger result" where
  "ledger_reserve l reservation_id job_id day month authority reserved_bytes =
     and_then (ledger_roll_period l day month) (\<lambda>next_l.
     and_then (reject (led_accounting_blocked next_l \<or> led_reservation next_l \<noteq> None)
       ''scheduler traffic accounting is not available for reservation'') (\<lambda>_.
     let reservation = \<lparr>res_reservation_id = reservation_id, res_job_id = job_id, res_day = day,
           res_month = month, res_reserved_bytes = reserved_bytes, res_authority = authority\<rparr>
     in and_then (reservation_validate reservation) (\<lambda>_.
        and_then (ledger_available_bytes next_l) (\<lambda>available.
        and_then (reject (reserved_bytes > available)
          ''scheduler traffic reservation exceeds the remaining budget'') (\<lambda>_.
        and_then (checked_bytes_add (led_daily_charged_bytes next_l) reserved_bytes
          ''daily scheduler reservation'') (\<lambda>daily.
        and_then (checked_bytes_add (led_monthly_charged_bytes next_l) reserved_bytes
          ''monthly scheduler reservation'') (\<lambda>monthly.
        ledger_commit (next_l\<lparr>led_daily_charged_bytes := daily, led_monthly_charged_bytes := monthly,
                              led_reservation := Some reservation\<rparr>))))))))"

definition ledger_exact_reservation ::
  "budget_ledger \<Rightarrow> string \<Rightarrow> string \<Rightarrow> budget_reservation result" where
  "ledger_exact_reservation l reservation_id job_id =
     and_then (ok_or (led_reservation l) ''scheduler budget has no active reservation'') (\<lambda>r.
     and_then (reject (res_reservation_id r \<noteq> reservation_id \<or> res_job_id r \<noteq> job_id)
       ''scheduler budget reservation identity mismatch'') (\<lambda>_.
     Ok r))"

definition ledger_settle ::
  "budget_ledger \<Rightarrow> string \<Rightarrow> string \<Rightarrow> string \<Rightarrow> string \<Rightarrow> u64 \<Rightarrow> budget_ledger result" where
  "ledger_settle l reservation_id job_id day month consumed_bytes =
     and_then (validate_accounted_bytes ''scheduler consumed traffic'' consumed_bytes) (\<lambda>_.
     and_then (ledger_exact_reservation l reservation_id job_id) (\<lambda>reservation.
     and_then (ledger_roll_period l day month) (\<lambda>next_l.
     and_then
       (if res_day reservation = day
        then replace_reservation_charge (led_daily_charged_bytes next_l)
               (res_reserved_bytes reservation) consumed_bytes ''daily scheduler settlement''
        else checked_bytes_add (led_daily_charged_bytes next_l) consumed_bytes
               ''cross-day scheduler settlement'') (\<lambda>daily.
     and_then
       (if res_month reservation = month
        then replace_reservation_charge (led_monthly_charged_bytes next_l)
               (res_reserved_bytes reservation) consumed_bytes ''monthly scheduler settlement''
        else checked_bytes_add (led_monthly_charged_bytes next_l) consumed_bytes
               ''cross-month scheduler settlement'') (\<lambda>monthly.
     ledger_commit (next_l\<lparr>led_daily_charged_bytes := daily, led_monthly_charged_bytes := monthly,
                           led_reservation := None, led_accounting_blocked := False\<rparr>))))))"

definition ledger_mark_accounting_unknown ::
  "budget_ledger \<Rightarrow> string \<Rightarrow> string \<Rightarrow> budget_ledger result" where
  "ledger_mark_accounting_unknown l reservation_id job_id =
     and_then (ledger_exact_reservation l reservation_id job_id) (\<lambda>_.
     ledger_commit (l\<lparr>led_accounting_blocked := True\<rparr>))"

text \<open>The method returns the bytes that stay charged, beside the new ledger.\<close>

definition ledger_acknowledge_accounting_unknown ::
  "budget_ledger \<Rightarrow> (budget_ledger \<times> u64) result" where
  "ledger_acknowledge_accounting_unknown l =
     and_then (reject (\<not> led_accounting_blocked l) ''scheduler traffic accounting is not blocked'') (\<lambda>_.
     and_then (ok_or (led_reservation l) ''blocked scheduler accounting has no reservation'') (\<lambda>r.
     and_then (ledger_commit (l\<lparr>led_reservation := None, led_accounting_blocked := False\<rparr>)) (\<lambda>next_l.
     Ok (next_l, res_reserved_bytes r))))"

subsection \<open>The text record\<close>

definition reservation_values :: "budget_reservation option \<Rightarrow> string list" where
  "reservation_values reservation =
     (case reservation of
        Some r \<Rightarrow>
          [res_reservation_id r, res_job_id r, res_day r, res_month r,
           word_string (res_reserved_bytes r),
           word_string (fence_due_unix_s (res_authority r)),
           word_string (fence_interval_s (res_authority r)),
           gen_config_fingerprint (fence_generations (res_authority r)),
           gen_route_fingerprint (fence_generations (res_authority r)),
           word_string (gen_runtime_sequence (fence_generations (res_authority r))),
           gen_coordinator_generation (fence_generations (res_authority r)),
           word_string (fence_explicit_retry_sequence (res_authority r))]
      | None \<Rightarrow> [''-'', ''-'', ''-'', ''-'', ''-'', ''-'', ''-'', ''-'', ''-'', ''-'', ''-'', ''-''])"

definition reservation_field_names :: "string list" where
  "reservation_field_names =
     [''reservation_id'', ''reservation_job_id'', ''reservation_day'', ''reservation_month'',
      ''reservation_bytes'', ''reservation_due_unix_s'', ''reservation_interval_s'',
      ''reservation_config_fingerprint'', ''reservation_route_fingerprint'',
      ''reservation_runtime_sequence'', ''reservation_coordinator_generation'',
      ''reservation_explicit_retry_sequence'']"

definition ledger_fields :: "budget_ledger \<Rightarrow> (string \<times> string) list" where
  "ledger_fields l =
     [(''instance'', led_instance l),
      (''sequence'', word_string (led_sequence l)),
      (''day'', led_day l),
      (''month'', led_month l),
      (''daily_limit_bytes'', word_string (led_daily_limit_bytes l)),
      (''monthly_limit_bytes'', word_string (led_monthly_limit_bytes l)),
      (''daily_charged_bytes'', word_string (led_daily_charged_bytes l)),
      (''monthly_charged_bytes'', word_string (led_monthly_charged_bytes l)),
      (''accounting_blocked'', if led_accounting_blocked l then ''1'' else ''0'')]
     @ zip reservation_field_names (reservation_values (led_reservation l))"

definition ledger_encode :: "budget_ledger \<Rightarrow> string result" where
  "ledger_encode l =
     and_then (ledger_validate l) (\<lambda>_. Ok (record_text BUDGET_HEADER (ledger_fields l)))"

definition reservation_parse :: "string list \<Rightarrow> budget_reservation option result" where
  "reservation_parse vs =
     (case vs of
        [reservation_id, job_id, day, month, bytes, due, interval, config, route, runtime,
         coordinator, retry] \<Rightarrow>
          if list_all (\<lambda>v. v = ''-'') vs then Ok None
          else if list_all (\<lambda>v. v \<noteq> ''-'') vs then
            and_then (parse_u64 ''scheduler reservation'' bytes) (\<lambda>bytes.
            and_then (parse_u64 ''scheduler reservation due time'' due) (\<lambda>due.
            and_then (parse_u64 ''scheduler reservation interval'' interval) (\<lambda>interval.
            and_then (parse_u64 ''scheduler reservation runtime sequence'' runtime) (\<lambda>runtime.
            and_then (parse_u64 ''scheduler reservation retry sequence'' retry) (\<lambda>retry.
            Ok (Some \<lparr>res_reservation_id = reservation_id, res_job_id = job_id, res_day = day,
              res_month = month, res_reserved_bytes = bytes,
              res_authority = \<lparr>fence_due_unix_s = due, fence_interval_s = interval,
                fence_generations = \<lparr>gen_config_fingerprint = config, gen_route_fingerprint = route,
                  gen_runtime_sequence = runtime, gen_coordinator_generation = coordinator\<rparr>,
                fence_explicit_retry_sequence = retry\<rparr>\<rparr>))))))
          else Err ''scheduler budget reservation is partial''
      | _ \<Rightarrow> Err ''scheduler budget reservation is partial'')"

definition parse_accounting_blocked :: "string \<Rightarrow> bool result" where
  "parse_accounting_blocked v =
     (if v = ''0'' then Ok False else if v = ''1'' then Ok True
      else Err ''scheduler accounting flag is invalid'')"

definition ledger_decode :: "string \<Rightarrow> budget_ledger result" where
  "ledger_decode input =
     and_then (ordered_record_new input BUDGET_HEADER) (\<lambda>record.
     and_then (ordered_record_field record ''instance'') (\<lambda>(inst, record).
     and_then (ordered_record_field record ''sequence'') (\<lambda>(sequence, record).
     and_then (parse_u64 ''scheduler budget sequence'' sequence) (\<lambda>sequence.
     and_then (ordered_record_field record ''day'') (\<lambda>(day, record).
     and_then (ordered_record_field record ''month'') (\<lambda>(month, record).
     and_then (ordered_record_field record ''daily_limit_bytes'') (\<lambda>(daily_limit, record).
     and_then (parse_u64 ''daily scheduler limit'' daily_limit) (\<lambda>daily_limit.
     and_then (ordered_record_field record ''monthly_limit_bytes'') (\<lambda>(monthly_limit, record).
     and_then (parse_u64 ''monthly scheduler limit'' monthly_limit) (\<lambda>monthly_limit.
     and_then (ordered_record_field record ''daily_charged_bytes'') (\<lambda>(daily_charged, record).
     and_then (parse_u64 ''daily scheduler charge'' daily_charged) (\<lambda>daily_charged.
     and_then (ordered_record_field record ''monthly_charged_bytes'') (\<lambda>(monthly_charged, record).
     and_then (parse_u64 ''monthly scheduler charge'' monthly_charged) (\<lambda>monthly_charged.
     and_then (ordered_record_field record ''accounting_blocked'') (\<lambda>(blocked, record).
     and_then (parse_accounting_blocked blocked) (\<lambda>blocked.
     and_then (ordered_record_fields record reservation_field_names) (\<lambda>(vals, record).
     and_then (ordered_record_finish record) (\<lambda>_.
     and_then (reservation_parse vals) (\<lambda>reservation.
     let ledger = \<lparr>led_instance = inst, led_sequence = sequence, led_day = day, led_month = month,
           led_daily_limit_bytes = daily_limit, led_monthly_limit_bytes = monthly_limit,
           led_daily_charged_bytes = daily_charged, led_monthly_charged_bytes = monthly_charged,
           led_accounting_blocked = blocked, led_reservation = reservation\<rparr>
     in and_then (ledger_validate ledger) (\<lambda>_.
        and_then (ledger_encode ledger) (\<lambda>text.
        if text \<noteq> input then Err ''scheduler budget record is not canonical''
        else Ok ledger)))))))))))))))))))))"

section \<open>Validity\<close>

lemma reservation_validate_Ok_iff:
  "reservation_validate r = Ok () \<longleftrightarrow>
     require_lower_hex ''scheduler reservation id'' (res_reservation_id r) 32 = Ok ()
     \<and> require_lower_hex ''scheduler reservation job id'' (res_job_id r) 32 = Ok ()
     \<and> validate_period (res_day r) (res_month r) = Ok ()
     \<and> fence_validate (res_authority r) = Ok ()
     \<and> res_reserved_bytes r \<noteq> 0 \<and> res_reserved_bytes r \<le> MAX_EXACT_BYTES"
  by (auto simp: reservation_validate_def and_then_Inr_iff)

lemma ledger_validate_Ok_iff:
  "ledger_validate l = Ok () \<longleftrightarrow>
     require_identifier ''scheduler budget instance'' (led_instance l) = Ok ()
     \<and> led_sequence l \<noteq> 0 \<and> validate_period (led_day l) (led_month l) = Ok ()
     \<and> led_daily_limit_bytes l \<le> MAX_EXACT_BYTES \<and> led_monthly_limit_bytes l \<le> MAX_EXACT_BYTES
     \<and> led_daily_charged_bytes l \<le> MAX_EXACT_BYTES \<and> led_monthly_charged_bytes l \<le> MAX_EXACT_BYTES
     \<and> led_daily_limit_bytes l \<noteq> 0 \<and> led_monthly_limit_bytes l \<noteq> 0
     \<and> (\<forall>r. led_reservation l = Some r \<longrightarrow>
          reservation_validate r = Ok () \<and> res_day r \<le> led_day l \<and> res_month r \<le> led_month l)"
  by (auto simp: ledger_validate_def and_then_Inr_iff not_less split: option.splits)

section \<open>The codec\<close>

lemma validate_period_safe:
  assumes "validate_period day month = Ok ()"
  shows "field_safe day" "field_safe month" "day \<noteq> ''-''" "month \<noteq> ''-''"
proof -
  have "list_all is_ascii_digit day" "list_all is_ascii_digit month" "length day = 8" "length month = 6"
    using assms by (auto simp: validate_period_def and_then_Inr_iff)
  then show "field_safe day" "field_safe month" "day \<noteq> ''-''" "month \<noteq> ''-''"
    by (auto intro!: field_safe_digits)
qed

lemma reservation_values_safe:
  assumes "\<And>r. ra = Some r \<Longrightarrow> reservation_validate r = Ok ()"
  shows "list_all field_safe (reservation_values ra)"
  using assms
  by (cases ra)
    (auto simp: reservation_values_def reservation_validate_Ok_iff fence_validate_Ok_iff
      generations_validate_Ok_iff intro: field_safe_lower_hex validate_period_safe)

lemma reservation_parse_values:
  assumes "\<And>r. ra = Some r \<Longrightarrow> reservation_validate r = Ok ()"
  shows "reservation_parse (reservation_values ra) = Ok ra"
  using assms
  by (cases ra)
    (auto simp: reservation_values_def reservation_parse_def reservation_validate_Ok_iff
      fence_validate_Ok_iff generations_validate_Ok_iff
      dest: not_dash_lower_hex validate_period_safe(3,4))

lemma length_reservation [simp]:
  "length (reservation_values ra) = 12" "length reservation_field_names = 12"
  by (simp_all add: reservation_values_def reservation_field_names_def split: option.splits)

lemma reservation_field_names_safe [simp]: "list_all field_safe reservation_field_names"
  by (simp add: reservation_field_names_def field_safe_def)

lemma BUDGET_HEADER_safe [simp]: "header_safe BUDGET_HEADER"
  by (simp add: BUDGET_HEADER_def header_safe_def)

lemma ledger_reservation_valid:
  "ledger_validate l = Ok () \<Longrightarrow> led_reservation l = Some r \<Longrightarrow> reservation_validate r = Ok ()"
  by (simp add: ledger_validate_Ok_iff)

lemma ledger_field_names_safe:
  "field_safe ''instance''" "field_safe ''sequence''" "field_safe ''day''" "field_safe ''month''"
  "field_safe ''daily_limit_bytes''" "field_safe ''monthly_limit_bytes''"
  "field_safe ''daily_charged_bytes''" "field_safe ''monthly_charged_bytes''"
  "field_safe ''accounting_blocked''" "field_safe ''0''" "field_safe ''1''"
  by (simp_all add: field_safe_def)

lemma ledger_fields_safe: "ledger_validate l = Ok () \<Longrightarrow> fields_safe (ledger_fields l)"
  using fields_safe_zip [OF reservation_field_names_safe reservation_values_safe]
  by (auto simp: ledger_fields_def ledger_validate_Ok_iff ledger_field_names_safe
      intro: field_safe_identifier validate_period_safe)

lemma ledger_encode_Ok_iff:
  "ledger_encode l = Ok s \<longleftrightarrow> ledger_validate l = Ok () \<and> s = record_text BUDGET_HEADER (ledger_fields l)"
  by (auto simp: ledger_encode_def and_then_Inr_iff)

lemma ledger_decode_encode:
  assumes valid: "ledger_validate l = Ok ()"
  shows "ledger_decode (record_text BUDGET_HEADER (ledger_fields l)) = Ok l"
proof -
  define s where "s = record_text BUDGET_HEADER (ledger_fields l)"
  have new: "ordered_record_new s BUDGET_HEADER = Ok (field_lines (ledger_fields l))"
    using valid unfolding s_def
    by (intro ordered_record_new_text) (simp_all add: ledger_fields_safe)
  have strings: "field_safe (led_instance l)" "field_safe (led_day l)" "field_safe (led_month l)"
    using valid by (auto simp: ledger_validate_Ok_iff intro: field_safe_identifier validate_period_safe)
  have vals: "list_all field_safe (reservation_values (led_reservation l))"
    "reservation_parse (reservation_values (led_reservation l)) = Ok (led_reservation l)"
    using reservation_values_safe reservation_parse_values ledger_reservation_valid [OF valid] by blast+
  have read: "ordered_record_fields
      (field_lines (zip reservation_field_names (reservation_values (led_reservation l))))
      reservation_field_names = Ok (reservation_values (led_reservation l), [])"
    using vals(1) by (intro ordered_record_fields_zip) simp_all
  have flag: "field_safe (if led_accounting_blocked l then ''1'' else ''0'')"
    "parse_accounting_blocked (if led_accounting_blocked l then ''1'' else ''0'')
      = Ok (led_accounting_blocked l)"
    by (simp_all add: ledger_field_names_safe parse_accounting_blocked_def)
  have enc: "ledger_encode l = Ok s"
    using valid by (simp add: ledger_encode_Ok_iff s_def)
  have eta: "\<lparr>led_instance = led_instance l, led_sequence = led_sequence l, led_day = led_day l,
      led_month = led_month l, led_daily_limit_bytes = led_daily_limit_bytes l,
      led_monthly_limit_bytes = led_monthly_limit_bytes l,
      led_daily_charged_bytes = led_daily_charged_bytes l,
      led_monthly_charged_bytes = led_monthly_charged_bytes l,
      led_accounting_blocked = led_accounting_blocked l, led_reservation = led_reservation l\<rparr> = l"
    by simp
  have "ledger_decode s = Ok l"
    unfolding ledger_decode_def new
    by (simp add: Let_def eta ledger_fields_def ledger_field_names_safe strings flag read vals(2)
        valid enc ordered_record_finish_def del: if_split)
  then show ?thesis by (simp only: s_def)
qed

lemma ledger_decode_Ok: "ledger_decode s = Ok l \<Longrightarrow> ledger_validate l = Ok () \<and> ledger_encode l = Ok s"
  by (auto simp: ledger_decode_def and_then_Inr_iff Let_def split: if_splits)

interpretation ledger_codec: codec ledger_encode ledger_decode "\<lambda>l. ledger_validate l = Ok ()"
proof unfold_locales
  show "ledger_validate x = Ok () \<Longrightarrow> \<exists>s. ledger_encode x = Ok s" for x
    by (simp add: ledger_encode_Ok_iff)
  show "ledger_validate x = Ok () \<Longrightarrow> ledger_encode x = Ok s \<Longrightarrow> ledger_decode s = Ok x" for x s
    by (simp add: ledger_encode_Ok_iff ledger_decode_encode)
  show "ledger_decode s = Ok x \<Longrightarrow> ledger_validate x = Ok () \<and> ledger_encode x = Ok s" for s x
    by (rule ledger_decode_Ok)
qed

section \<open>The invariant of the ledger\<close>

text \<open>
  While a reservation is outstanding its bytes are part of the charge of its own day and month, and
  a day or month that began after it has no charge at all; accounting is blocked only while a
  reservation is outstanding.
\<close>

definition reservation_covered :: "budget_ledger \<Rightarrow> budget_reservation \<Rightarrow> bool" where
  "reservation_covered l r \<longleftrightarrow>
     (if res_day r = led_day l then res_reserved_bytes r \<le> led_daily_charged_bytes l
      else led_daily_charged_bytes l = 0)
     \<and> (if res_month r = led_month l then res_reserved_bytes r \<le> led_monthly_charged_bytes l
        else led_monthly_charged_bytes l = 0)"

definition ledger_inv :: "budget_ledger \<Rightarrow> bool" where
  "ledger_inv l \<longleftrightarrow> ledger_validate l = Ok ()
     \<and> (\<forall>r. led_reservation l = Some r \<longrightarrow> reservation_covered l r)
     \<and> (led_accounting_blocked l \<longrightarrow> led_reservation l \<noteq> None)"

inductive ledger_step :: "budget_ledger \<Rightarrow> budget_ledger \<Rightarrow> bool" where
  roll: "ledger_roll_period l day month = Ok l' \<Longrightarrow> ledger_step l l'"
| reconfigure: "ledger_reconfigure_limits l day month dl ml = Ok l' \<Longrightarrow> ledger_step l l'"
| reserve: "ledger_reserve l rid job day month auth bytes = Ok l' \<Longrightarrow> ledger_step l l'"
| settle: "ledger_settle l rid job day month consumed = Ok l' \<Longrightarrow> ledger_step l l'"
| mark_unknown: "ledger_mark_accounting_unknown l rid job = Ok l' \<Longrightarrow> ledger_step l l'"
| acknowledge: "ledger_acknowledge_accounting_unknown l = Ok (l', bytes) \<Longrightarrow> ledger_step l l'"

definition ledger_start :: "budget_ledger \<Rightarrow> bool" where
  "ledger_start l = (\<exists>inst day month dl ml. ledger_new inst day month dl ml = Ok l)"

lemma ledger_commit_Ok_iff:
  "ledger_commit l = Ok l' \<longleftrightarrow>
     (\<exists>n. checked_add (led_sequence l) 1 = Some n \<and> l' = l\<lparr>led_sequence := n\<rparr>
        \<and> ledger_validate l' = Ok ())"
  by (auto simp: ledger_commit_def ledger_bump_sequence_def and_then_Inr_iff)

lemma ledger_commit_fields:
  assumes "ledger_commit l = Ok l'"
  shows "led_day l' = led_day l" "led_month l' = led_month l"
    "led_daily_limit_bytes l' = led_daily_limit_bytes l"
    "led_monthly_limit_bytes l' = led_monthly_limit_bytes l"
    "led_daily_charged_bytes l' = led_daily_charged_bytes l"
    "led_monthly_charged_bytes l' = led_monthly_charged_bytes l"
    "led_accounting_blocked l' = led_accounting_blocked l"
    "led_reservation l' = led_reservation l" "led_instance l' = led_instance l"
    "ledger_validate l' = Ok ()"
    "unat (led_sequence l') = Suc (unat (led_sequence l))"
  using assms by (auto simp: ledger_commit_Ok_iff dest: checked_add_one_unat)

lemma ledger_commit_inv:
  assumes "ledger_commit l = Ok l'"
    and "\<And>r. led_reservation l = Some r \<Longrightarrow> reservation_covered l r"
    and "led_accounting_blocked l \<Longrightarrow> led_reservation l \<noteq> None"
  shows "ledger_inv l'"
  using assms ledger_commit_fields [OF assms(1)]
  by (simp add: ledger_inv_def reservation_covered_def)

lemma validate_period_month: "validate_period d m = Ok () \<Longrightarrow> m = take 6 d"
  by (simp add: validate_period_numbers)

text \<open>What a roll does, as one record: the charges of a day and of a month that are left behind are
  dropped, and the sequence number moves when something changed.\<close>

lemma ledger_roll_period_Ok:
  assumes "ledger_roll_period l day month = Ok l'" and "ledger_validate l = Ok ()"
  shows "validate_period day month = Ok ()" "led_day l \<le> day" "led_month l \<le> month"
    "led_day l' = day" "led_month l' = month"
    "led_daily_charged_bytes l' = (if day = led_day l then led_daily_charged_bytes l else 0)"
    "led_monthly_charged_bytes l' = (if month = led_month l then led_monthly_charged_bytes l else 0)"
    "led_daily_limit_bytes l' = led_daily_limit_bytes l"
    "led_monthly_limit_bytes l' = led_monthly_limit_bytes l"
    "led_accounting_blocked l' = led_accounting_blocked l"
    "led_reservation l' = led_reservation l" "led_instance l' = led_instance l"
    "ledger_validate l' = Ok ()"
    "l' = l \<or> unat (led_sequence l') = Suc (unat (led_sequence l))"
  using assms
  by (auto simp: ledger_roll_period_def and_then_Inr_iff Let_def not_less
      dest: ledger_commit_fields split: if_splits)

lemma ledger_roll_period_inv:
  assumes roll: "ledger_roll_period l day month = Ok l'" and inv: "ledger_inv l"
  shows "ledger_inv l'"
proof -
  have valid: "ledger_validate l = Ok ()"
    using inv by (simp add: ledger_inv_def)
  note facts = ledger_roll_period_Ok [OF roll valid]
  have "reservation_covered l' r" if res: "led_reservation l' = Some r" for r
  proof -
    have cov: "reservation_covered l r" and le: "res_day r \<le> led_day l" "res_month r \<le> led_month l"
      using inv valid res facts by (auto simp: ledger_inv_def ledger_validate_Ok_iff)
    have "res_day r \<noteq> day" if "day \<noteq> led_day l"
      using le(1) facts(2) that by auto
    moreover have "res_month r \<noteq> month" if "month \<noteq> led_month l"
      using le(2) facts(3) that by auto
    ultimately show ?thesis
      using cov facts by (auto simp: reservation_covered_def)
  qed
  then show ?thesis
    using facts inv by (auto simp: ledger_inv_def)
qed

lemma ledger_inv_valid: "ledger_inv l \<Longrightarrow> ledger_validate l = Ok ()"
  by (simp add: ledger_inv_def)

lemma ledger_exact_reservation_Ok_iff:
  "ledger_exact_reservation l rid job = Ok r \<longleftrightarrow>
     led_reservation l = Some r \<and> res_reservation_id r = rid \<and> res_job_id r = job"
  by (auto simp: ledger_exact_reservation_def and_then_Inr_iff)

lemma ledger_available_bytes_Ok_iff:
  "ledger_available_bytes l = Ok b \<longleftrightarrow> ledger_validate l = Ok ()
     \<and> b = (if led_accounting_blocked l \<or> led_reservation l \<noteq> None then 0
            else min (saturating_sub (led_daily_limit_bytes l) (led_daily_charged_bytes l))
                     (saturating_sub (led_monthly_limit_bytes l) (led_monthly_charged_bytes l)))"
  by (auto simp: ledger_available_bytes_def and_then_Inr_iff)

lemma ledger_reserve_Ok:
  assumes "ledger_reserve l rid job day month auth bytes = Ok l'" and "ledger_validate l = Ok ()"
  obtains m daily monthly r where
    "ledger_roll_period l day month = Ok m"
    "\<not> led_accounting_blocked m" "led_reservation m = None"
    "r = \<lparr>res_reservation_id = rid, res_job_id = job, res_day = day, res_month = month,
          res_reserved_bytes = bytes, res_authority = auth\<rparr>"
    "reservation_validate r = Ok ()"
    "unat bytes \<le> unat (led_daily_limit_bytes m) - unat (led_daily_charged_bytes m)"
    "unat bytes \<le> unat (led_monthly_limit_bytes m) - unat (led_monthly_charged_bytes m)"
    "unat daily = unat (led_daily_charged_bytes m) + unat bytes"
    "unat monthly = unat (led_monthly_charged_bytes m) + unat bytes"
    "ledger_commit (m\<lparr>led_daily_charged_bytes := daily, led_monthly_charged_bytes := monthly,
                      led_reservation := Some r\<rparr>) = Ok l'"
proof -
  from assms(1) obtain m daily monthly r available where m: "ledger_roll_period l day month = Ok m"
    and free: "\<not> led_accounting_blocked m" "led_reservation m = None"
    and r: "r = \<lparr>res_reservation_id = rid, res_job_id = job, res_day = day, res_month = month,
          res_reserved_bytes = bytes, res_authority = auth\<rparr>" "reservation_validate r = Ok ()"
    and avail: "ledger_available_bytes m = Ok available" "bytes \<le> available"
    and daily: "checked_bytes_add (led_daily_charged_bytes m) bytes ''daily scheduler reservation'' = Ok daily"
    and monthly: "checked_bytes_add (led_monthly_charged_bytes m) bytes ''monthly scheduler reservation''
      = Ok monthly"
    and commit: "ledger_commit (m\<lparr>led_daily_charged_bytes := daily, led_monthly_charged_bytes := monthly,
                      led_reservation := Some r\<rparr>) = Ok l'"
    by (auto simp: ledger_reserve_def and_then_Inr_iff Let_def not_less)
  have "unat bytes \<le> unat (led_daily_limit_bytes m) - unat (led_daily_charged_bytes m)"
    "unat bytes \<le> unat (led_monthly_limit_bytes m) - unat (led_monthly_charged_bytes m)"
    using avail free by (auto simp: ledger_available_bytes_Ok_iff word_to_nat)
  then show ?thesis
    using that m free r daily monthly commit by (auto simp: checked_bytes_add_Ok_iff)
qed

lemma settle_charge_Ok_iff:
  "(if same then replace_reservation_charge charged reserved consumed n
    else checked_bytes_add charged consumed n') = Ok d \<longleftrightarrow>
   (if same then reserved \<le> charged \<and> unat d = unat charged - unat reserved + unat consumed
    else unat d = unat charged + unat consumed) \<and> d \<le> MAX_EXACT_BYTES"
  by (auto simp: replace_reservation_charge_Ok_iff checked_bytes_add_Ok_iff)

lemma ledger_settle_Ok:
  assumes "ledger_settle l rid job day month consumed = Ok l'"
  obtains r m daily monthly where
    "led_reservation l = Some r" "res_reservation_id r = rid" "res_job_id r = job"
    "ledger_roll_period l day month = Ok m"
    "if res_day r = day
     then res_reserved_bytes r \<le> led_daily_charged_bytes m
       \<and> unat daily = unat (led_daily_charged_bytes m) - unat (res_reserved_bytes r) + unat consumed
     else unat daily = unat (led_daily_charged_bytes m) + unat consumed"
    "if res_month r = month
     then res_reserved_bytes r \<le> led_monthly_charged_bytes m
       \<and> unat monthly = unat (led_monthly_charged_bytes m) - unat (res_reserved_bytes r) + unat consumed
     else unat monthly = unat (led_monthly_charged_bytes m) + unat consumed"
    "ledger_commit (m\<lparr>led_daily_charged_bytes := daily, led_monthly_charged_bytes := monthly,
                      led_reservation := None, led_accounting_blocked := False\<rparr>) = Ok l'"
  using assms that
  unfolding ledger_settle_def and_then_Inr_iff ledger_exact_reservation_Ok_iff settle_charge_Ok_iff
  by blast

lemma ledger_acknowledge_Ok:
  assumes "ledger_acknowledge_accounting_unknown l = Ok (l', bytes)"
  obtains r where "led_accounting_blocked l" "led_reservation l = Some r"
    "bytes = res_reserved_bytes r"
    "ledger_commit (l\<lparr>led_reservation := None, led_accounting_blocked := False\<rparr>) = Ok l'"
  using assms by (auto simp: ledger_acknowledge_accounting_unknown_def and_then_Inr_iff)

lemma ledger_mark_Ok:
  assumes "ledger_mark_accounting_unknown l rid job = Ok l'"
  obtains r where "led_reservation l = Some r" "res_reservation_id r = rid" "res_job_id r = job"
    "ledger_commit (l\<lparr>led_accounting_blocked := True\<rparr>) = Ok l'"
  using assms
  by (auto simp: ledger_mark_accounting_unknown_def and_then_Inr_iff ledger_exact_reservation_Ok_iff)

lemma ledger_reconfigure_Ok:
  assumes "ledger_reconfigure_limits l day month dl ml = Ok l'"
  obtains m where "ledger_roll_period l day month = Ok m"
    "l' = m \<or> ledger_commit (m\<lparr>led_daily_limit_bytes := dl, led_monthly_limit_bytes := ml\<rparr>) = Ok l'"
    "led_reservation l \<noteq> None \<Longrightarrow> led_daily_limit_bytes l = dl \<and> led_monthly_limit_bytes l = ml"
  using assms by (auto simp: ledger_reconfigure_limits_def and_then_Inr_iff split: if_splits)

subsection \<open>Every operation keeps the invariant\<close>

lemma ledger_new_inv: "ledger_new inst day month dl ml = Ok l \<Longrightarrow> ledger_inv l"
  by (auto simp: ledger_new_def Let_def and_then_Inr_iff ledger_inv_def)

lemma ledger_reserve_inv:
  assumes "ledger_reserve l rid job day month auth bytes = Ok l'" and "ledger_inv l"
  shows "ledger_inv l'"
  using assms(1) ledger_inv_valid [OF assms(2)]
proof (rule ledger_reserve_Ok)
  fix m daily monthly r
  assume m: "ledger_roll_period l day month = Ok m" "\<not> led_accounting_blocked m"
    and r: "r = \<lparr>res_reservation_id = rid, res_job_id = job, res_day = day, res_month = month,
          res_reserved_bytes = bytes, res_authority = auth\<rparr>"
    and charge: "unat daily = unat (led_daily_charged_bytes m) + unat bytes"
      "unat monthly = unat (led_monthly_charged_bytes m) + unat bytes"
    and commit: "ledger_commit (m\<lparr>led_daily_charged_bytes := daily,
      led_monthly_charged_bytes := monthly, led_reservation := Some r\<rparr>) = Ok l'"
  have "led_day m = day" "led_month m = month"
    using ledger_roll_period_Ok [OF m(1) ledger_inv_valid [OF assms(2)]] by auto
  then show ?thesis
    by (intro ledger_commit_inv [OF commit])
      (auto simp: reservation_covered_def r charge word_le_nat_alt)
qed

lemma ledger_settle_inv:
  assumes "ledger_settle l rid job day month consumed = Ok l'"
  shows "ledger_inv l'"
  using assms by (rule ledger_settle_Ok) (erule ledger_commit_inv, auto)

lemma ledger_mark_inv:
  assumes "ledger_mark_accounting_unknown l rid job = Ok l'" and "ledger_inv l"
  shows "ledger_inv l'"
  using assms(1)
proof (rule ledger_mark_Ok)
  fix r
  assume "led_reservation l = Some r"
    and commit: "ledger_commit (l\<lparr>led_accounting_blocked := True\<rparr>) = Ok l'"
  with assms(2) show ?thesis
    by (intro ledger_commit_inv [OF commit]) (auto simp: ledger_inv_def reservation_covered_def)
qed

lemma ledger_acknowledge_inv:
  assumes "ledger_acknowledge_accounting_unknown l = Ok (l', bytes)"
  shows "ledger_inv l'"
  using assms by (rule ledger_acknowledge_Ok) (erule ledger_commit_inv, auto)

lemma ledger_reconfigure_inv:
  assumes "ledger_reconfigure_limits l day month dl ml = Ok l'" and "ledger_inv l"
  shows "ledger_inv l'"
  using assms(1)
proof (rule ledger_reconfigure_Ok)
  fix m
  assume m: "ledger_roll_period l day month = Ok m"
    and l': "l' = m \<or> ledger_commit (m\<lparr>led_daily_limit_bytes := dl, led_monthly_limit_bytes := ml\<rparr>) = Ok l'"
  have inv: "ledger_inv m"
    using m assms(2) by (rule ledger_roll_period_inv)
  from l' show ?thesis
  proof
    assume "l' = m"
    with inv show ?thesis by simp
  next
    assume "ledger_commit (m\<lparr>led_daily_limit_bytes := dl, led_monthly_limit_bytes := ml\<rparr>) = Ok l'"
    then show ?thesis
      using inv by (rule_tac ledger_commit_inv) (auto simp: ledger_inv_def reservation_covered_def)
  qed
qed

lemmas ledger_op_inv = ledger_roll_period_inv ledger_reconfigure_inv ledger_reserve_inv
  ledger_settle_inv ledger_mark_inv ledger_acknowledge_inv

lemma ledger_step_inv: "ledger_step l l' \<Longrightarrow> ledger_inv l \<Longrightarrow> ledger_inv l'"
  by (induction rule: ledger_step.induct) (auto intro: ledger_op_inv)

subsection \<open>Sequence numbers\<close>

lemma ledger_step_sequence:
  assumes "ledger_step l l'" and "ledger_inv l"
  shows "l' = l \<or> unat (led_sequence l) < unat (led_sequence l')"
  using assms(1)
proof cases
  case (roll day month)
  then show ?thesis
    using ledger_roll_period_Ok(14) ledger_inv_valid [OF assms(2)] by fastforce
next
  case (reconfigure day month dl ml)
  then show ?thesis
  proof (rule ledger_reconfigure_Ok)
    fix m
    assume "ledger_roll_period l day month = Ok m"
      and l': "l' = m \<or> ledger_commit (m\<lparr>led_daily_limit_bytes := dl, led_monthly_limit_bytes := ml\<rparr>) = Ok l'"
    then have "m = l \<or> unat (led_sequence m) = Suc (unat (led_sequence l))"
      using ledger_roll_period_Ok(14) ledger_inv_valid [OF assms(2)] by blast
    with l' show ?thesis
      using ledger_commit_fields(11) by fastforce
  qed
next
  case (reserve rid job day month auth bytes)
  then show ?thesis
    using ledger_inv_valid [OF assms(2)]
  proof (rule ledger_reserve_Ok)
    fix m daily monthly r
    assume "ledger_roll_period l day month = Ok m"
      and commit: "ledger_commit (m\<lparr>led_daily_charged_bytes := daily,
        led_monthly_charged_bytes := monthly, led_reservation := Some r\<rparr>) = Ok l'"
    then have "m = l \<or> unat (led_sequence m) = Suc (unat (led_sequence l))"
      using ledger_roll_period_Ok(14) ledger_inv_valid [OF assms(2)] by blast
    then show ?thesis
      using ledger_commit_fields(11) [OF commit] by auto
  qed
next
  case (settle rid job day month consumed)
  then show ?thesis
  proof (rule ledger_settle_Ok)
    fix r m daily monthly
    assume "ledger_roll_period l day month = Ok m"
      and commit: "ledger_commit (m\<lparr>led_daily_charged_bytes := daily, led_monthly_charged_bytes := monthly,
                      led_reservation := None, led_accounting_blocked := False\<rparr>) = Ok l'"
    then have "m = l \<or> unat (led_sequence m) = Suc (unat (led_sequence l))"
      using ledger_roll_period_Ok(14) ledger_inv_valid [OF assms(2)] by blast
    then show ?thesis
      using ledger_commit_fields(11) [OF commit] by auto
  qed
next
  case (mark_unknown rid job)
  then show ?thesis
    by (rule ledger_mark_Ok) (drule ledger_commit_fields(11), simp)
next
  case (acknowledge bytes)
  then show ?thesis
    by (rule ledger_acknowledge_Ok) (drule ledger_commit_fields(11), simp)
qed

interpretation ledger_machine: sequenced_machine ledger_start ledger_step ledger_inv
  "\<lambda>l. unat (led_sequence l)"
proof unfold_locales
  show "ledger_start s \<Longrightarrow> ledger_inv s" for s
    by (auto simp: ledger_start_def intro: ledger_new_inv)
  show "ledger_inv s \<Longrightarrow> ledger_step s t \<Longrightarrow> ledger_inv t" for s t
    by (blast intro: ledger_step_inv)
  show "ledger_inv s \<Longrightarrow> ledger_step s t \<Longrightarrow> t = s \<or> unat (led_sequence s) < unat (led_sequence t)" for s t
    by (blast dest: ledger_step_sequence)
qed

section \<open>The abstract account\<close>

text \<open>
  What the ledger promises, without machine integers and without the conservative charge: per period
  the bytes that have been settled, and apart from them the one outstanding reservation.
\<close>

record account =
  acc_day :: string
  acc_month :: string
  acc_daily_settled :: nat
  acc_monthly_settled :: nat
  acc_outstanding :: "budget_reservation option"

definition account_roll :: "string \<Rightarrow> string \<Rightarrow> account \<Rightarrow> account" where
  "account_roll day month a =
     a\<lparr>acc_day := day, acc_month := month,
       acc_daily_settled := (if day = acc_day a then acc_daily_settled a else 0),
       acc_monthly_settled := (if month = acc_month a then acc_monthly_settled a else 0)\<rparr>"

definition account_reserve :: "budget_reservation \<Rightarrow> account \<Rightarrow> account" where
  "account_reserve r a = (account_roll (res_day r) (res_month r) a)\<lparr>acc_outstanding := Some r\<rparr>"

definition account_settle :: "string \<Rightarrow> string \<Rightarrow> nat \<Rightarrow> account \<Rightarrow> account" where
  "account_settle day month consumed a =
     (let b = account_roll day month a
      in b\<lparr>acc_daily_settled := acc_daily_settled b + consumed,
           acc_monthly_settled := acc_monthly_settled b + consumed, acc_outstanding := None\<rparr>)"

text \<open>Acknowledging an unknown usage settles the whole reservation, in the periods it was made in.\<close>

definition account_acknowledge :: "account \<Rightarrow> account" where
  "account_acknowledge a =
     (case acc_outstanding a of
        None \<Rightarrow> a
      | Some r \<Rightarrow>
          a\<lparr>acc_daily_settled := acc_daily_settled a
              + (if res_day r = acc_day a then unat (res_reserved_bytes r) else 0),
            acc_monthly_settled := acc_monthly_settled a
              + (if res_month r = acc_month a then unat (res_reserved_bytes r) else 0),
            acc_outstanding := None\<rparr>)"

definition outstanding_daily :: "budget_ledger \<Rightarrow> nat" where
  "outstanding_daily l = (case led_reservation l of
     None \<Rightarrow> 0 | Some r \<Rightarrow> if res_day r = led_day l then unat (res_reserved_bytes r) else 0)"

definition outstanding_monthly :: "budget_ledger \<Rightarrow> nat" where
  "outstanding_monthly l = (case led_reservation l of
     None \<Rightarrow> 0 | Some r \<Rightarrow> if res_month r = led_month l then unat (res_reserved_bytes r) else 0)"

definition account_of :: "budget_ledger \<Rightarrow> account" where
  "account_of l = \<lparr>acc_day = led_day l, acc_month = led_month l,
     acc_daily_settled = unat (led_daily_charged_bytes l) - outstanding_daily l,
     acc_monthly_settled = unat (led_monthly_charged_bytes l) - outstanding_monthly l,
     acc_outstanding = led_reservation l\<rparr>"

lemma ledger_inv_reservation:
  assumes "ledger_inv l" and "led_reservation l = Some r"
  shows "reservation_covered l r" "res_day r \<le> led_day l" "res_month r \<le> led_month l"
  using assms by (auto simp: ledger_inv_def ledger_validate_Ok_iff)

lemma account_of_roll:
  assumes "ledger_roll_period l day month = Ok l'" and "ledger_inv l"
  shows "account_of l' = account_roll day month (account_of l)"
proof -
  note facts = ledger_roll_period_Ok [OF assms(1) ledger_inv_valid [OF assms(2)]]
  show ?thesis
  proof (cases "led_reservation l")
    case None
    then show ?thesis
      using facts by (simp add: account_of_def account_roll_def outstanding_daily_def outstanding_monthly_def)
  next
    case (Some r)
    then have "res_day r \<noteq> day" if "day \<noteq> led_day l"
      using ledger_inv_reservation(2) [OF assms(2)] facts(2) that by fastforce
    moreover have "res_month r \<noteq> month" if "month \<noteq> led_month l"
      using Some ledger_inv_reservation(3) [OF assms(2)] facts(3) that by fastforce
    ultimately show ?thesis
      using facts Some
      by (auto simp: account_of_def account_roll_def outstanding_daily_def outstanding_monthly_def)
  qed
qed

lemma account_of_commit:
  "ledger_commit l = Ok l' \<Longrightarrow> account_of l' = account_of l"
  by (auto simp: ledger_commit_Ok_iff account_of_def outstanding_daily_def outstanding_monthly_def
      split: option.splits)

lemma account_of_reserve:
  assumes "ledger_reserve l rid job day month auth bytes = Ok l'" and "ledger_inv l"
  shows "account_of l' = account_reserve \<lparr>res_reservation_id = rid, res_job_id = job, res_day = day,
    res_month = month, res_reserved_bytes = bytes, res_authority = auth\<rparr> (account_of l)"
  using assms(1) ledger_inv_valid [OF assms(2)]
proof (rule ledger_reserve_Ok)
  fix m daily monthly r
  assume m: "ledger_roll_period l day month = Ok m" "led_reservation m = None"
    and r: "r = \<lparr>res_reservation_id = rid, res_job_id = job, res_day = day, res_month = month,
          res_reserved_bytes = bytes, res_authority = auth\<rparr>"
    and charge: "unat daily = unat (led_daily_charged_bytes m) + unat bytes"
      "unat monthly = unat (led_monthly_charged_bytes m) + unat bytes"
    and commit: "ledger_commit (m\<lparr>led_daily_charged_bytes := daily,
      led_monthly_charged_bytes := monthly, led_reservation := Some r\<rparr>) = Ok l'"
  have dm: "led_day m = day" "led_month m = month"
    using ledger_roll_period_Ok [OF m(1) ledger_inv_valid [OF assms(2)]] by auto
  have "account_of l' = (account_of m)\<lparr>acc_outstanding := Some r\<rparr>"
    using dm charge m(2) r ledger_commit_fields [OF commit]
    by (simp add: account_of_def outstanding_daily_def outstanding_monthly_def)
  then show ?thesis
    using account_of_roll [OF m(1) assms(2)] r by (simp add: account_reserve_def)
qed

lemma account_of_settle:
  assumes "ledger_settle l rid job day month consumed = Ok l'" and "ledger_inv l"
  shows "account_of l' = account_settle day month (unat consumed) (account_of l)"
  using assms(1)
proof (rule ledger_settle_Ok)
  fix r m daily monthly
  assume r: "led_reservation l = Some r" and m: "ledger_roll_period l day month = Ok m"
    and daily: "if res_day r = day
      then res_reserved_bytes r \<le> led_daily_charged_bytes m
        \<and> unat daily = unat (led_daily_charged_bytes m) - unat (res_reserved_bytes r) + unat consumed
      else unat daily = unat (led_daily_charged_bytes m) + unat consumed"
    and monthly: "if res_month r = month
      then res_reserved_bytes r \<le> led_monthly_charged_bytes m
        \<and> unat monthly = unat (led_monthly_charged_bytes m) - unat (res_reserved_bytes r) + unat consumed
      else unat monthly = unat (led_monthly_charged_bytes m) + unat consumed"
    and commit: "ledger_commit (m\<lparr>led_daily_charged_bytes := daily, led_monthly_charged_bytes := monthly,
      led_reservation := None, led_accounting_blocked := False\<rparr>) = Ok l'"
  note roll = ledger_roll_period_Ok [OF m ledger_inv_valid [OF assms(2)]]
  have "account_of l' = (account_of m)\<lparr>acc_daily_settled := acc_daily_settled (account_of m) + unat consumed,
      acc_monthly_settled := acc_monthly_settled (account_of m) + unat consumed, acc_outstanding := None\<rparr>"
    using roll r daily monthly ledger_commit_fields [OF commit]
    by (auto simp: account_of_def outstanding_daily_def outstanding_monthly_def split: if_splits)
  then show ?thesis
    using account_of_roll [OF m assms(2)] by (simp add: account_settle_def Let_def)
qed

lemma account_of_acknowledge:
  assumes "ledger_acknowledge_accounting_unknown l = Ok (l', bytes)" and "ledger_inv l"
  shows "account_of l' = account_acknowledge (account_of l)"
  using assms(1)
proof (rule ledger_acknowledge_Ok)
  fix r
  assume r: "led_reservation l = Some r"
    and commit: "ledger_commit (l\<lparr>led_reservation := None, led_accounting_blocked := False\<rparr>) = Ok l'"
  have "reservation_covered l r"
    using assms(2) r by (rule ledger_inv_reservation)
  then show ?thesis
    using r ledger_commit_fields [OF commit]
    by (auto simp: account_of_def account_acknowledge_def outstanding_daily_def
        outstanding_monthly_def reservation_covered_def word_le_nat_alt split: if_splits)
qed

lemma account_of_blocked_flag [simp]: "account_of (l\<lparr>led_accounting_blocked := b\<rparr>) = account_of l"
  by (cases "led_reservation l") (simp_all add: account_of_def outstanding_daily_def outstanding_monthly_def)

lemma account_of_limits [simp]:
  "account_of (l\<lparr>led_daily_limit_bytes := dl, led_monthly_limit_bytes := ml\<rparr>) = account_of l"
  by (cases "led_reservation l") (simp_all add: account_of_def outstanding_daily_def outstanding_monthly_def)

lemma account_of_unchanged:
  "ledger_mark_accounting_unknown l rid job = Ok l' \<Longrightarrow> account_of l' = account_of l"
  by (erule ledger_mark_Ok, drule account_of_commit) simp

lemma account_of_reconfigure:
  assumes "ledger_reconfigure_limits l day month dl ml = Ok l'" and "ledger_inv l"
  shows "account_of l' = account_roll day month (account_of l)"
  using assms(1)
proof (rule ledger_reconfigure_Ok)
  fix m
  assume "ledger_roll_period l day month = Ok m"
    and l': "l' = m \<or> ledger_commit (m\<lparr>led_daily_limit_bytes := dl, led_monthly_limit_bytes := ml\<rparr>) = Ok l'"
  then have "account_of m = account_roll day month (account_of l)"
    using assms(2) by (rule_tac account_of_roll)
  with l' show ?thesis
    by (auto dest: account_of_commit)
qed

section \<open>Settlement succeeds\<close>

lemma ledger_roll_period_succeeds:
  assumes inv: "ledger_inv l" and period: "validate_period day month = Ok ()"
    and forward: "led_day l \<le> day" "led_month l \<le> month"
    and room: "unat (led_sequence l) + 1 < 2 ^ 64"
  obtains m where "ledger_roll_period l day month = Ok m" "unat (led_sequence m) \<le> unat (led_sequence l) + 1"
proof -
  obtain n where n: "checked_add (led_sequence l) 1 = Some n" "n \<noteq> 0"
    "unat n = unat (led_sequence l) + 1"
  proof
    show add: "checked_add (led_sequence l) 1 = Some (led_sequence l + 1)"
      using room by (simp add: checked_add_def)
    show "led_sequence l + 1 \<noteq> 0" "unat (led_sequence l + 1) = unat (led_sequence l) + 1"
      using checked_add_one_nonzero [OF add] checked_add_one_unat [OF add] by auto
  qed
  have valid: "ledger_validate (l\<lparr>led_month := month, led_monthly_charged_bytes := c, led_day := day,
      led_daily_charged_bytes := d, led_sequence := n\<rparr>) = Ok ()"
    if "c \<le> MAX_EXACT_BYTES" "d \<le> MAX_EXACT_BYTES" for c d
    using inv period forward n(2) that
    by (auto simp: ledger_inv_def ledger_validate_Ok_iff)
  have charges: "led_daily_charged_bytes l \<le> MAX_EXACT_BYTES" "led_monthly_charged_bytes l \<le> MAX_EXACT_BYTES"
    using inv by (auto simp: ledger_inv_def ledger_validate_Ok_iff)
  define c where "c = (if month = led_month l then led_monthly_charged_bytes l else 0)"
  define d where "d = (if day = led_day l then led_daily_charged_bytes l else 0)"
  define m where "m = (if day = led_day l \<and> month = led_month l then l
    else l\<lparr>led_month := month, led_monthly_charged_bytes := c, led_day := day,
           led_daily_charged_bytes := d, led_sequence := n\<rparr>)"
  have "ledger_roll_period l day month = Ok m"
    using period forward n(1) valid [of c d] charges
    by (auto simp: ledger_roll_period_def Let_def and_then_Inr_iff ledger_commit_Ok_iff m_def c_def d_def
        not_less)
  moreover have "unat (led_sequence m) \<le> unat (led_sequence l) + 1"
    using n(3) by (auto simp: m_def)
  ultimately show ?thesis by (rule that)
qed

lemma settle_charge_succeeds:
  assumes "same \<Longrightarrow> reserved \<le> charged \<and> consumed \<le> reserved"
    and "\<not> same \<Longrightarrow> charged = 0" and "charged \<le> MAX_EXACT_BYTES" and "consumed \<le> MAX_EXACT_BYTES"
  obtains d where "(if same then replace_reservation_charge charged reserved consumed n
      else checked_bytes_add charged consumed n') = Ok d"
proof -
  define v where "v = (if same then unat charged - unat reserved + unat consumed else unat consumed)"
  have bound: "v \<le> unat MAX_EXACT_BYTES"
    using assms by (auto simp: v_def word_le_nat_alt)
  then have "unat (of_nat v :: u64) = v"
    by (simp add: unat_of_nat MAX_EXACT_BYTES_def)
  then have "(if same then replace_reservation_charge charged reserved consumed n
      else checked_bytes_add charged consumed n') = Ok (of_nat v)"
    unfolding settle_charge_Ok_iff using assms bound by (auto simp: v_def word_le_nat_alt)
  then show ?thesis by (rule that)
qed

lemma ledger_settle_succeeds:
  assumes inv: "ledger_inv l" and res: "led_reservation l = Some r"
    and period: "validate_period day month = Ok ()" "led_day l \<le> day" "led_month l \<le> month"
    and consumed: "consumed \<le> res_reserved_bytes r"
    and room: "unat (led_sequence l) + 2 < 2 ^ 64"
  obtains l' where "ledger_settle l (res_reservation_id r) (res_job_id r) day month consumed = Ok l'"
proof -
  obtain m where m: "ledger_roll_period l day month = Ok m" "unat (led_sequence m) \<le> unat (led_sequence l) + 1"
    using ledger_roll_period_succeeds [OF inv period] room by auto
  note roll = ledger_roll_period_Ok [OF m(1) ledger_inv_valid [OF inv]]
  have inv_m: "ledger_inv m"
    using m(1) inv by (rule ledger_roll_period_inv)
  have res_m: "led_reservation m = Some r"
    using res roll by simp
  have cov: "reservation_covered m r"
    using inv_m res_m by (rule ledger_inv_reservation)
  have valid: "reservation_validate r = Ok ()" "ledger_validate m = Ok ()"
    using inv_m res_m by (auto simp: ledger_inv_def ledger_validate_Ok_iff)
  then have max: "consumed \<le> MAX_EXACT_BYTES" "led_daily_charged_bytes m \<le> MAX_EXACT_BYTES"
    "led_monthly_charged_bytes m \<le> MAX_EXACT_BYTES"
    using consumed by (auto simp: reservation_validate_Ok_iff ledger_validate_Ok_iff)
  have same: "res_day r = day \<Longrightarrow> res_reserved_bytes r \<le> led_daily_charged_bytes m \<and> consumed \<le> res_reserved_bytes r"
    "res_month r = month \<Longrightarrow> res_reserved_bytes r \<le> led_monthly_charged_bytes m \<and> consumed \<le> res_reserved_bytes r"
    and other: "res_day r \<noteq> day \<Longrightarrow> led_daily_charged_bytes m = 0"
    "res_month r \<noteq> month \<Longrightarrow> led_monthly_charged_bytes m = 0"
    using cov consumed roll(4,5) by (simp_all add: reservation_covered_def)
  obtain daily where daily: "(if res_day r = day
      then replace_reservation_charge (led_daily_charged_bytes m) (res_reserved_bytes r) consumed
             ''daily scheduler settlement''
      else checked_bytes_add (led_daily_charged_bytes m) consumed ''cross-day scheduler settlement'') = Ok daily"
    using settle_charge_succeeds [OF same(1) other(1) max(2,1)] by blast
  obtain monthly where monthly: "(if res_month r = month
      then replace_reservation_charge (led_monthly_charged_bytes m) (res_reserved_bytes r) consumed
             ''monthly scheduler settlement''
      else checked_bytes_add (led_monthly_charged_bytes m) consumed ''cross-month scheduler settlement'')
      = Ok monthly"
    using settle_charge_succeeds [OF same(2) other(2) max(3,1)] by blast
  let ?n = "led_sequence m + 1"
  have add: "checked_add (led_sequence m) 1 = Some ?n"
    using m(2) room by (simp add: checked_add_def)
  let ?l = "m\<lparr>led_daily_charged_bytes := daily, led_monthly_charged_bytes := monthly,
      led_reservation := None, led_accounting_blocked := False\<rparr>"
  have "ledger_validate (?l\<lparr>led_sequence := ?n\<rparr>) = Ok ()"
    using valid(2) checked_add_one_nonzero [OF add] daily [unfolded settle_charge_Ok_iff]
      monthly [unfolded settle_charge_Ok_iff]
    by (simp add: ledger_validate_Ok_iff)
  then have "ledger_commit ?l = Ok (?l\<lparr>led_sequence := ?n\<rparr>)"
    using add by (simp add: ledger_commit_Ok_iff)
  moreover have accounted: "validate_accounted_bytes ''scheduler consumed traffic'' consumed = Ok ()"
    using max(1) by simp
  ultimately have "ledger_settle l (res_reservation_id r) (res_job_id r) day month consumed
      = Ok (?l\<lparr>led_sequence := ?n\<rparr>)"
    using m(1) res unfolding ledger_settle_def
    by (simp add: accounted ledger_exact_reservation_def daily monthly del: if_split)
  then show ?thesis by (rule that)
qed

section \<open>Properties\<close>

text \<open>Data for the witnesses: a fresh ledger and the same ledger with 400 bytes reserved.\<close>

definition sample_ledger :: budget_ledger where
  "sample_ledger = \<lparr>led_instance = ''wan'', led_sequence = 1, led_day = ''20240229'',
     led_month = ''202402'', led_daily_limit_bytes = 1000, led_monthly_limit_bytes = 9000,
     led_daily_charged_bytes = 0, led_monthly_charged_bytes = 0, led_accounting_blocked = False,
     led_reservation = None\<rparr>"

definition sample_reservation :: budget_reservation where
  "sample_reservation = \<lparr>res_reservation_id = replicate 32 (CHR ''d''),
     res_job_id = replicate 32 (CHR ''e''), res_day = ''20240229'', res_month = ''202402'',
     res_reserved_bytes = 400, res_authority = sample_fence\<rparr>"

definition sample_reserved_ledger :: budget_ledger where
  "sample_reserved_ledger = sample_ledger\<lparr>led_sequence := 2, led_daily_charged_bytes := 400,
     led_monthly_charged_bytes := 400, led_reservation := Some sample_reservation\<rparr>"

lemma sample_period:
  "validate_period ''20240229'' ''202402'' = Ok ()" "validate_period ''20240301'' ''202403'' = Ok ()"
  by (simp_all add: validate_period_numbers period_numbers_def slice_def is_ascii_digit_def byte_def
      gregorian_date_def days_in_month_def gregorian_leap_def)

lemma sample_ledger_new: "ledger_new ''wan'' ''20240229'' ''202402'' 1000 9000 = Ok sample_ledger"
  by (simp add: ledger_new_def Let_def and_then_Inr_iff ledger_validate_Ok_iff sample_ledger_def
      sample_period require_identifier_def is_ascii_alphanumeric_def is_ascii_lowercase_def byte_def
      MAX_EXACT_BYTES_def)

lemma sample_reservation_valid: "reservation_validate sample_reservation = Ok ()"
  by (simp add: reservation_validate_Ok_iff sample_reservation_def sample_period require_lower_hex_def
      list_all_iff is_lower_hex_digit_def is_ascii_digit_def byte_def MAX_EXACT_BYTES_def)

lemma sample_reserve:
  "ledger_reserve sample_ledger (replicate 32 (CHR ''d'')) (replicate 32 (CHR ''e'')) ''20240229'' ''202402''
     sample_fence 400 = Ok sample_reserved_ledger"
proof -
  have valid: "ledger_validate sample_ledger = Ok ()"
    using ledger_new_inv [OF sample_ledger_new] by (simp add: ledger_inv_def)
  have roll: "ledger_roll_period sample_ledger ''20240229'' ''202402'' = Ok sample_ledger"
    by (simp add: ledger_roll_period_def sample_period) (simp add: sample_ledger_def)
  have avail: "ledger_available_bytes sample_ledger = Ok 1000"
    using valid by (simp add: ledger_available_bytes_Ok_iff sample_ledger_def saturating_sub_def)
  have res: "\<lparr>res_reservation_id = replicate 32 (CHR ''d''), res_job_id = replicate 32 (CHR ''e''),
      res_day = ''20240229'', res_month = ''202402'', res_reserved_bytes = 400,
      res_authority = sample_fence\<rparr> = sample_reservation"
    by (simp add: sample_reservation_def)
  have add: "checked_bytes_add 0 400 n = Ok 400" for n
    by (simp add: checked_bytes_add_Ok_iff MAX_EXACT_BYTES_def)
  have valid': "ledger_validate sample_reserved_ledger = Ok ()"
    using valid sample_reservation_valid
    by (simp add: ledger_validate_Ok_iff sample_reserved_ledger_def)
      (simp add: MAX_EXACT_BYTES_def sample_reservation_def sample_ledger_def)
  have commit: "ledger_commit (sample_ledger\<lparr>led_daily_charged_bytes := 400,
      led_monthly_charged_bytes := 400, led_reservation := Some sample_reservation\<rparr>)
      = Ok sample_reserved_ledger"
    using valid' by (simp add: ledger_commit_Ok_iff sample_reserved_ledger_def)
      (simp add: checked_add_def sample_ledger_def)
  have zero: "led_daily_charged_bytes sample_ledger = 0" "led_monthly_charged_bytes sample_ledger = 0"
    "\<not> led_accounting_blocked sample_ledger" "led_reservation sample_ledger = None"
    by (simp_all add: sample_ledger_def)
  show ?thesis
    by (simp add: ledger_reserve_def roll Let_def res sample_reservation_valid avail add commit zero)
qed

lemma sample_ledger_start: "ledger_start sample_ledger"
  unfolding ledger_start_def using sample_ledger_new by blast

lemma sample_reachable:
  "reachable_from ledger_start ledger_step sample_reserved_ledger"
proof (rule reachable_from_step)
  show "reachable_from ledger_start ledger_step sample_ledger"
    using sample_ledger_start by (rule reachable_from_start)
  show "ledger_step sample_ledger sample_reserved_ledger"
    using sample_reserve by (rule ledger_step.reserve)
qed

text \<open>The traffic ledger's text record is an exact codec, as the cursor's is: a text decodes to a
  ledger if and only if it is that ledger's encoding, and exactly the valid ledgers encode.\<close>

theorem ledger_codec_exact:
  "(ledger_decode s = Ok l \<longleftrightarrow> ledger_encode l = Ok s)
   \<and> (is_ok (ledger_encode l) \<longleftrightarrow> ledger_validate l = Ok ())"
proof
  show "ledger_decode s = Ok l \<longleftrightarrow> ledger_encode l = Ok s"
    using ledger_codec.decode_iff [of s l] by (auto simp: ledger_encode_Ok_iff)
  show "is_ok (ledger_encode l) \<longleftrightarrow> ledger_validate l = Ok ()"
    by (auto simp: is_ok_iff ledger_encode_Ok_iff)
qed

text \<open>C7: in every ledger that any sequence of the ledger's operations can produce from a new one, the
  ledger is valid, an outstanding reservation is contained in the charge of its own day and month,
  later periods are still uncharged, and accounting is blocked only while a reservation is outstanding.\<close>

theorem ledger_reachable_invariant:
  assumes "reachable_from ledger_start ledger_step l"
  shows "ledger_inv l"
  using assms by (rule ledger_machine.reachable_inv)

theorem ledger_reachable_invariant_witness: "ledger_inv sample_reserved_ledger"
  by (rule ledger_reachable_invariant [OF sample_reachable])

text \<open>C9: a reservation can always be settled. In a reachable ledger, settling with the reservation's
  own identity, on a valid day that is not before the ledger's and for no more bytes than were
  reserved, succeeds as long as the sequence counter has room; the reservation is gone, accounting is
  not blocked, and exactly the consumed bytes are settled in the abstract account.\<close>

theorem settlement_always_possible:
  assumes "reachable_from ledger_start ledger_step l" and "led_reservation l = Some r"
    and "validate_period day month = Ok ()" and "led_day l \<le> day" and "led_month l \<le> month"
    and "consumed \<le> res_reserved_bytes r" and "unat (led_sequence l) + 2 < 2 ^ 64"
  shows "\<exists>l'. ledger_settle l (res_reservation_id r) (res_job_id r) day month consumed = Ok l'
    \<and> led_reservation l' = None \<and> \<not> led_accounting_blocked l'
    \<and> account_of l' = account_settle day month (unat consumed) (account_of l)"
proof -
  have inv: "ledger_inv l"
    using assms(1) by (rule ledger_machine.reachable_inv)
  obtain l' where l': "ledger_settle l (res_reservation_id r) (res_job_id r) day month consumed = Ok l'"
    using ledger_settle_succeeds [OF inv assms(2-7)] .
  then have "led_reservation l' = None \<and> \<not> led_accounting_blocked l'"
    by (rule ledger_settle_Ok) (auto dest: ledger_commit_fields(7,8))
  then show ?thesis
    using l' account_of_settle [OF l' inv] by blast
qed

theorem settlement_always_possible_witness:
  "\<exists>l'. ledger_settle sample_reserved_ledger (res_reservation_id sample_reservation)
      (res_job_id sample_reservation) ''20240301'' ''202403'' 250 = Ok l'
    \<and> led_reservation l' = None \<and> \<not> led_accounting_blocked l'
    \<and> account_of l' = account_settle ''20240301'' ''202403'' (unat (250 :: u64))
        (account_of sample_reserved_ledger)"
  by (rule settlement_always_possible [OF sample_reachable _ sample_period(2)])
    (simp_all add: sample_reserved_ledger_def sample_ledger_def sample_reservation_def)

text \<open>C8: the ledger refines the abstract account. From a reachable ledger, rolling, reconfiguring,
  reserving, settling, marking and acknowledging change the account exactly as the abstract
  operations say: nothing is refunded, no reservation is counted twice, and a settlement after
  midnight is booked on the new day.\<close>

theorem ledger_refines_account:
  assumes "reachable_from ledger_start ledger_step l"
  shows "(ledger_roll_period l day month = Ok l' \<longrightarrow> account_of l' = account_roll day month (account_of l))
    \<and> (ledger_reconfigure_limits l day month dl ml = Ok l' \<longrightarrow>
         account_of l' = account_roll day month (account_of l))
    \<and> (ledger_reserve l rid job day month auth bytes = Ok l' \<longrightarrow>
         account_of l' = account_reserve \<lparr>res_reservation_id = rid, res_job_id = job, res_day = day,
           res_month = month, res_reserved_bytes = bytes, res_authority = auth\<rparr> (account_of l))
    \<and> (ledger_settle l rid job day month consumed = Ok l' \<longrightarrow>
         account_of l' = account_settle day month (unat consumed) (account_of l))
    \<and> (ledger_mark_accounting_unknown l rid job = Ok l' \<longrightarrow> account_of l' = account_of l)
    \<and> (ledger_acknowledge_accounting_unknown l = Ok (l', bytes) \<longrightarrow>
         account_of l' = account_acknowledge (account_of l))"
proof -
  have inv: "ledger_inv l"
    using assms by (rule ledger_machine.reachable_inv)
  show ?thesis
    by (intro conjI impI)
      (erule account_of_roll [OF _ inv] account_of_reconfigure [OF _ inv] account_of_reserve [OF _ inv]
        account_of_settle [OF _ inv] account_of_unchanged account_of_acknowledge [OF _ inv])+
qed

theorem ledger_refines_account_witness:
  "account_of sample_reserved_ledger = account_reserve sample_reservation (account_of sample_ledger)"
proof -
  have "reachable_from ledger_start ledger_step sample_ledger"
    using sample_ledger_start by (rule reachable_from_start)
  from ledger_refines_account [OF this] sample_reserve show ?thesis
    unfolding sample_reservation_def by blast
qed

lemma reserve_charges_within:
  assumes "ledger_validate l = Ok ()" and "ledger_reserve l rid job day month auth bytes = Ok l'"
  shows "\<not> led_accounting_blocked l \<and> led_reservation l = None
    \<and> led_daily_charged_bytes l' \<le> led_daily_limit_bytes l'
    \<and> led_monthly_charged_bytes l' \<le> led_monthly_limit_bytes l'
    \<and> ledger_available_bytes l' = Ok 0"
  using assms(2,1)
proof (rule ledger_reserve_Ok)
  fix m daily monthly r
  assume m: "ledger_roll_period l day month = Ok m" "\<not> led_accounting_blocked m" "led_reservation m = None"
    and r: "reservation_validate r = Ok ()"
      "r = \<lparr>res_reservation_id = rid, res_job_id = job, res_day = day, res_month = month,
          res_reserved_bytes = bytes, res_authority = auth\<rparr>"
    and room: "unat bytes \<le> unat (led_daily_limit_bytes m) - unat (led_daily_charged_bytes m)"
      "unat bytes \<le> unat (led_monthly_limit_bytes m) - unat (led_monthly_charged_bytes m)"
    and charge: "unat daily = unat (led_daily_charged_bytes m) + unat bytes"
      "unat monthly = unat (led_monthly_charged_bytes m) + unat bytes"
    and commit: "ledger_commit (m\<lparr>led_daily_charged_bytes := daily,
      led_monthly_charged_bytes := monthly, led_reservation := Some r\<rparr>) = Ok l'"
  have "0 < unat bytes"
    using r by (simp add: reservation_validate_Ok_iff word_unat_eq_iff)
  then show ?thesis
    using m room charge ledger_roll_period_Ok(10,11) [OF m(1) assms(1)] ledger_commit_fields [OF commit]
    by (simp add: word_le_nat_alt ledger_available_bytes_Ok_iff) linarith
qed

text \<open>C10: a reservation never exceeds a limit and never overlaps another one: when \<open>reserve\<close>
  succeeds on a valid ledger, accounting was not blocked and nothing was outstanding, and the new
  daily and monthly charges, which include the reservation, are within the daily and monthly limits.\<close>

theorem reserve_within_limits:
  assumes "ledger_validate l = Ok ()" and "ledger_reserve l rid job day month auth bytes = Ok l'"
  shows "\<not> led_accounting_blocked l \<and> led_reservation l = None
    \<and> led_daily_charged_bytes l' \<le> led_daily_limit_bytes l'
    \<and> led_monthly_charged_bytes l' \<le> led_monthly_limit_bytes l'
    \<and> ledger_available_bytes l' = Ok 0"
  using assms by (rule reserve_charges_within)

theorem reserve_within_limits_witness:
  "led_daily_charged_bytes sample_reserved_ledger \<le> led_daily_limit_bytes sample_reserved_ledger"
proof -
  have "ledger_validate sample_ledger = Ok ()"
    using ledger_new_inv [OF sample_ledger_new] by (simp add: ledger_inv_def)
  from reserve_within_limits [OF this sample_reserve] show ?thesis by blast
qed

text \<open>C11: blocked accounting stays blocked. A step of the ledger leaves the blocked state only by an
  exact settlement of the outstanding reservation under its own identity, or by the operator's
  acknowledgement; while it is blocked nothing is available.\<close>

theorem blocked_until_settled_or_acknowledged:
  assumes "ledger_inv l" and "led_accounting_blocked l" and "ledger_step l l'"
  shows "(led_accounting_blocked l' \<and> ledger_available_bytes l' = Ok 0)
    \<or> (\<exists>r day month consumed. led_reservation l = Some r
         \<and> ledger_settle l (res_reservation_id r) (res_job_id r) day month consumed = Ok l')
    \<or> (\<exists>bytes. ledger_acknowledge_accounting_unknown l = Ok (l', bytes))"
proof -
  have valid': "ledger_validate l' = Ok ()"
    using ledger_step_inv [OF assms(3,1)] by (rule ledger_inv_valid)
  have valid: "ledger_validate l = Ok ()"
    using assms(1) by (rule ledger_inv_valid)
  have "led_accounting_blocked l'
    \<or> (\<exists>r day month consumed. led_reservation l = Some r
         \<and> ledger_settle l (res_reservation_id r) (res_job_id r) day month consumed = Ok l')
    \<or> (\<exists>bytes. ledger_acknowledge_accounting_unknown l = Ok (l', bytes))"
    using assms(3)
  proof cases
    case (roll day month)
    then show ?thesis
      using ledger_roll_period_Ok(10) [OF _ valid] assms(2) by blast
  next
    case (reconfigure day month dl ml)
    then obtain m where "ledger_roll_period l day month = Ok m"
      "l' = m \<or> ledger_commit (m\<lparr>led_daily_limit_bytes := dl, led_monthly_limit_bytes := ml\<rparr>) = Ok l'"
      by (auto elim: ledger_reconfigure_Ok)
    then show ?thesis
      using ledger_roll_period_Ok(10) [OF _ valid] assms(2) ledger_commit_fields(7) by fastforce
  next
    case (reserve rid job day month auth bytes)
    then show ?thesis
      using valid ledger_roll_period_Ok(10) [OF _ valid] assms(2) by (auto elim!: ledger_reserve_Ok)
  next
    case (settle rid job day month consumed)
    then obtain r where "led_reservation l = Some r" "res_reservation_id r = rid" "res_job_id r = job"
      by (auto elim: ledger_settle_Ok)
    with settle show ?thesis by blast
  next
    case (mark_unknown rid job)
    then show ?thesis
      by (rule ledger_mark_Ok) (drule ledger_commit_fields(7), simp)
  next
    case (acknowledge bytes)
    then show ?thesis by blast
  qed
  then show ?thesis
    using valid' by (auto simp: ledger_available_bytes_Ok_iff)
qed

lemma sample_mark:
  "ledger_mark_accounting_unknown sample_reserved_ledger (replicate 32 (CHR ''d'')) (replicate 32 (CHR ''e''))
    = Ok (sample_reserved_ledger\<lparr>led_accounting_blocked := True, led_sequence := 3\<rparr>)"
proof -
  have "ledger_validate sample_reserved_ledger = Ok ()"
    using ledger_machine.reachable_inv [OF sample_reachable] by (simp add: ledger_inv_def)
  then have "ledger_validate (sample_reserved_ledger\<lparr>led_accounting_blocked := True, led_sequence := 3\<rparr>) = Ok ()"
    by (simp add: ledger_validate_Ok_iff)
  moreover have "led_reservation sample_reserved_ledger = Some sample_reservation"
    "res_reservation_id sample_reservation = replicate 32 (CHR ''d'')"
    "res_job_id sample_reservation = replicate 32 (CHR ''e'')"
    "checked_add (led_sequence sample_reserved_ledger) 1 = Some 3"
    by (simp_all add: sample_reserved_ledger_def sample_reservation_def checked_add_def)
  ultimately show ?thesis
    by (simp add: ledger_mark_accounting_unknown_def ledger_exact_reservation_def ledger_commit_Ok_iff)
qed

theorem blocked_until_settled_or_acknowledged_witness:
  "\<exists>l l'. led_accounting_blocked l \<and> ledger_step l l'
    \<and> ((led_accounting_blocked l' \<and> ledger_available_bytes l' = Ok 0)
      \<or> (\<exists>r day month consumed. led_reservation l = Some r
           \<and> ledger_settle l (res_reservation_id r) (res_job_id r) day month consumed = Ok l')
      \<or> (\<exists>bytes. ledger_acknowledge_accounting_unknown l = Ok (l', bytes)))"
proof -
  let ?l = "sample_reserved_ledger\<lparr>led_accounting_blocked := True, led_sequence := 3\<rparr>"
  have inv: "ledger_inv ?l"
    using ledger_mark_inv [OF sample_mark] ledger_machine.reachable_inv [OF sample_reachable] by blast
  have "led_reservation ?l = Some sample_reservation" "led_accounting_blocked ?l"
    by (simp_all add: sample_reserved_ledger_def)
  then obtain l' where "ledger_settle ?l (res_reservation_id sample_reservation)
      (res_job_id sample_reservation) ''20240301'' ''202403'' 250 = Ok l'"
    using ledger_settle_succeeds [OF inv _ sample_period(2), of sample_reservation 250]
    by (auto simp: sample_reserved_ledger_def sample_ledger_def sample_reservation_def)
  then have step: "ledger_step ?l l'"
    by (rule ledger_step.settle)
  show ?thesis
    using blocked_until_settled_or_acknowledged [OF inv _ step] step \<open>led_accounting_blocked ?l\<close> by blast
qed

text \<open>The sequence number identifies the state. Along any run of ledger operations from a
  reachable ledger, a later ledger with the same sequence number is the same ledger, so a stored
  sequence number is a valid staleness check.\<close>

theorem ledger_sequence_identifies_state:
  assumes "reachable_from ledger_start ledger_step l" and "rtranclp ledger_step l l'"
    and "led_sequence l' = led_sequence l"
  shows "l' = l"
  using ledger_machine.same_seq_same_state [OF assms(2) ledger_machine.reachable_inv [OF assms(1)]]
    assms(3) by simp

theorem ledger_sequence_identifies_state_witness:
  "\<exists>l'. ledger_step sample_reserved_ledger l' \<and> l' = sample_reserved_ledger"
proof -
  have roll: "ledger_roll_period sample_reserved_ledger ''20240229'' ''202402'' = Ok sample_reserved_ledger"
    by (simp add: ledger_roll_period_def sample_period) (simp add: sample_reserved_ledger_def sample_ledger_def)
  have "rtranclp ledger_step sample_reserved_ledger sample_reserved_ledger"
    using ledger_step.roll [OF roll] by blast
  then have "sample_reserved_ledger = sample_reserved_ledger"
    by (rule ledger_sequence_identifies_state [OF sample_reachable]) simp
  then show ?thesis
    using ledger_step.roll [OF roll] by blast
qed

end
