(* ===== verification/Scheduler_State.thy ===== *)
theory Scheduler_State
  imports Budget_Ledger
begin

text \<open>
  The per-instance scheduler state of \<open>operations/scheduler.rs\<close>: the pair of a cursor and a
  ledger with an optional operator warning, and the length-prefixed record that stores the three as
  one text. The largest \<open>usize\<close> of the target is an argument of the decoder, since the release
  builds for 32-bit and 64-bit routers; the codec is interpreted for both.
\<close>

section \<open>Definitions\<close>

record scheduler_instance_state =
  st_cursor :: schedule_cursor
  st_budget :: budget_ledger
  st_operator_warning :: "string option"

definition INSTANCE_STATE_HEADER_V2 :: string where
  "INSTANCE_STATE_HEADER_V2 = ''cake-autorate-native-scheduler-state'' @ [TAB] @ ''2''"

definition state_validate :: "scheduler_instance_state \<Rightarrow> unit result" where
  "state_validate st =
     and_then (cursor_validate (st_cursor st)) (\<lambda>_.
     and_then (ledger_validate (st_budget st)) (\<lambda>_.
     and_then (reject (cursor_instance (st_cursor st) \<noteq> led_instance (st_budget st))
       ''scheduler cursor and budget instances differ'') (\<lambda>_.
     (case st_operator_warning st of
        None \<Rightarrow> Ok ()
      | Some warning \<Rightarrow>
          reject (warning = [] \<or> length warning > 512
                  \<or> \<not> list_all (\<lambda>b. \<not> (byte b < 32 \<or> byte b = 127)) warning)
            ''scheduler operator warning is not a bounded visible string''))))"

definition state_new :: "schedule_cursor \<Rightarrow> budget_ledger \<Rightarrow> scheduler_instance_state result" where
  "state_new cursor budget =
     (let state = \<lparr>st_cursor = cursor, st_budget = budget, st_operator_warning = None\<rparr>
      in and_then (state_validate state) (\<lambda>_. Ok state))"

definition length_line :: "string \<Rightarrow> nat \<Rightarrow> string" where
  "length_line name n = name @ [TAB] @ nat_string n"

definition state_text :: "string \<Rightarrow> string \<Rightarrow> string \<Rightarrow> string" where
  "state_text cursor budget warning =
     INSTANCE_STATE_HEADER_V2 @ [LF]
     @ length_line ''cursor_bytes'' (length cursor) @ [LF]
     @ length_line ''budget_bytes'' (length budget) @ [LF]
     @ length_line ''warning_bytes'' (length warning) @ [LF]
     @ cursor @ budget @ warning"

definition state_encode :: "scheduler_instance_state \<Rightarrow> string result" where
  "state_encode st =
     and_then (state_validate st) (\<lambda>_.
     and_then (cursor_encode (st_cursor st)) (\<lambda>cursor.
     and_then (ledger_encode (st_budget st)) (\<lambda>budget.
     Ok (state_text cursor budget
           (case st_operator_warning st of None \<Rightarrow> [] | Some warning \<Rightarrow> warning)))))"

definition parse_length_field :: "nat \<Rightarrow> string \<Rightarrow> string \<Rightarrow> nat result" where
  "parse_length_field usize_max expected line =
     and_then (ok_or (split_once TAB line) ''scheduler instance state length field is malformed'')
       (\<lambda>(name, raw).
     and_then (reject (name \<noteq> expected)
       (''scheduler instance state expected '' @ expected @ '', found '' @ name)) (\<lambda>_.
     and_then (parse_u64 ''scheduler instance state payload length'' raw) (\<lambda>value.
     if unat value \<le> usize_max then Ok (unat value)
     else Err ''scheduler instance state payload length is too large'')))"

definition nth_opt :: "'a list \<Rightarrow> nat \<Rightarrow> 'a option" where
  "nth_opt xs i = (if i < length xs then Some (xs ! i) else None)"

definition decode_warning :: "string \<Rightarrow> string option result" where
  "decode_warning warning =
     (if warning = [] then Ok None
      else and_then (reject (\<not> utf8_valid warning) ''scheduler operator warning is not UTF-8'')
             (\<lambda>_. Ok (Some warning)))"

definition state_decode :: "nat \<Rightarrow> string \<Rightarrow> scheduler_instance_state result" where
  "state_decode usize_max input =
     (let ls = splitn 5 LF input in
     and_then (reject (nth_opt ls 0 \<noteq> Some INSTANCE_STATE_HEADER_V2)
       ''scheduler instance state header is invalid'') (\<lambda>_.
     and_then (ok_or (nth_opt ls 1) ''scheduler instance state is missing cursor length'') (\<lambda>line.
     and_then (parse_length_field usize_max ''cursor_bytes'' line) (\<lambda>cursor_bytes.
     and_then (ok_or (nth_opt ls 2) ''scheduler instance state is missing budget length'') (\<lambda>line.
     and_then (parse_length_field usize_max ''budget_bytes'' line) (\<lambda>budget_bytes.
     and_then (ok_or (nth_opt ls 3) ''scheduler instance state is missing warning length'') (\<lambda>line.
     and_then (parse_length_field usize_max ''warning_bytes'' line) (\<lambda>warning_bytes.
     and_then (ok_or (nth_opt ls 4) ''scheduler instance state is missing its payload'') (\<lambda>payload.
     and_then (reject (cursor_bytes + budget_bytes > usize_max
                       \<or> cursor_bytes + budget_bytes + warning_bytes > usize_max)
       ''scheduler instance state length overflow'') (\<lambda>_.
     and_then (reject (length payload \<noteq> cursor_bytes + budget_bytes + warning_bytes)
       ''scheduler instance state payload length mismatch'') (\<lambda>_.
     let cursor = take cursor_bytes payload;
         remainder = drop cursor_bytes payload;
         budget = take budget_bytes remainder;
         warning = drop budget_bytes remainder
     in
     and_then (reject (\<not> utf8_valid cursor) ''scheduler cursor state is not UTF-8'') (\<lambda>_.
     and_then (reject (\<not> utf8_valid budget) ''scheduler budget state is not UTF-8'') (\<lambda>_.
     and_then (cursor_decode cursor) (\<lambda>cursor.
     and_then (ledger_decode budget) (\<lambda>budget.
     and_then (state_new cursor budget) (\<lambda>state.
     and_then (decode_warning warning) (\<lambda>operator_warning.
     let state = state\<lparr>st_operator_warning := operator_warning\<rparr>
     in and_then (state_validate state) (\<lambda>_.
        and_then (state_encode state) (\<lambda>text.
        if text \<noteq> input then Err ''scheduler instance state is not canonical''
        else Ok state)))))))))))))))))))"

section \<open>The codec\<close>

lemma state_validate_Ok_iff:
  "state_validate st = Ok () \<longleftrightarrow>
     cursor_validate (st_cursor st) = Ok () \<and> ledger_validate (st_budget st) = Ok ()
     \<and> cursor_instance (st_cursor st) = led_instance (st_budget st)
     \<and> (\<forall>w. st_operator_warning st = Some w \<longrightarrow>
          w \<noteq> [] \<and> length w \<le> 512 \<and> list_all (\<lambda>b. 32 \<le> byte b \<and> byte b \<noteq> 127) w)"
  by (auto simp: state_validate_def and_then_Inr_iff not_less list_all_iff split: option.splits)

definition warning_text :: "scheduler_instance_state \<Rightarrow> string" where
  "warning_text st = (case st_operator_warning st of None \<Rightarrow> [] | Some warning \<Rightarrow> warning)"

definition payload_length :: "scheduler_instance_state \<Rightarrow> nat" where
  "payload_length st =
     length (record_text CURSOR_HEADER (cursor_fields (st_cursor st)))
     + length (record_text BUDGET_HEADER (ledger_fields (st_budget st))) + length (warning_text st)"

text \<open>What can be stored on a target: a valid state whose warning is UTF-8, as every Rust string is,
  and whose record fits the address space.\<close>

definition state_storable :: "nat \<Rightarrow> scheduler_instance_state \<Rightarrow> bool" where
  "state_storable usize_max st \<longleftrightarrow>
     state_validate st = Ok () \<and> utf8_valid (warning_text st) \<and> payload_length st \<le> usize_max"

lemma state_encode_Ok_iff:
  "state_encode st = Ok s \<longleftrightarrow> state_validate st = Ok ()
     \<and> s = state_text (record_text CURSOR_HEADER (cursor_fields (st_cursor st)))
             (record_text BUDGET_HEADER (ledger_fields (st_budget st))) (warning_text st)"
  by (auto simp: state_encode_def and_then_Inr_iff cursor_encode_Ok_iff ledger_encode_Ok_iff
      state_validate_Ok_iff warning_text_def)

lemma nat_string_eq_word_string: "n < 2 ^ 64 \<Longrightarrow> nat_string n = word_string (of_nat n :: u64)"
  by (simp add: word_string_def unat_of_nat)

lemma parse_length_field_line:
  assumes "TAB \<notin> set name" and "n \<le> usize_max" and "n < 2 ^ 64"
  shows "parse_length_field usize_max name (length_line name n) = Ok n"
proof -
  have "split_once TAB (length_line name n) = Some (name, nat_string n)"
    using assms(1) by (simp add: length_line_def)
  then show ?thesis
    using assms(2,3) by (simp add: parse_length_field_def nat_string_eq_word_string unat_of_nat)
qed

lemma LF_not_in_nat_string: "LF \<notin> set (nat_string n)"
  by (auto dest!: nat_string_digits simp: is_ascii_digit_def byte_def)

lemma LF_not_in_length_line: "LF \<notin> set name \<Longrightarrow> LF \<notin> set (length_line name n)"
  using LF_not_in_nat_string by (simp add: length_line_def)

lemma splitn_line:
  "LF \<notin> set a \<Longrightarrow> splitn (Suc (Suc n)) LF (a @ LF # b) = a # splitn (Suc n) LF b"
  by simp

lemma splitn_state_text:
  "splitn 5 LF (state_text c b w) =
     [INSTANCE_STATE_HEADER_V2, length_line ''cursor_bytes'' (length c),
      length_line ''budget_bytes'' (length b), length_line ''warning_bytes'' (length w), c @ b @ w]"
proof -
  have safe: "LF \<notin> set INSTANCE_STATE_HEADER_V2" "LF \<notin> set (length_line ''cursor_bytes'' n)"
    "LF \<notin> set (length_line ''budget_bytes'' n)" "LF \<notin> set (length_line ''warning_bytes'' n)" for n
    by (simp_all add: INSTANCE_STATE_HEADER_V2_def LF_not_in_length_line)
  have five: "(5 :: nat) = Suc (Suc (Suc (Suc (Suc 0))))" by simp
  show ?thesis
    unfolding state_text_def append_Cons append_Nil five
    by (simp only: splitn_line safe not_False_eq_True splitn.simps(2))
qed

lemma ascii_identifier: "require_identifier n v = Ok () \<Longrightarrow> ascii v"
  by (rule ascii_all [of "\<lambda>b. is_ascii_alphanumeric b \<or> b \<in> set ''_.:-''"])
    (simp_all add: require_identifier_def byte_of_identifier)

lemma ascii_lower_hex: "require_lower_hex n v k = Ok () \<Longrightarrow> ascii v"
  by (rule ascii_all [of is_lower_hex_digit]) (simp_all add: require_lower_hex_def byte_of_lower_hex)

lemma ascii_word_string [simp]: "ascii (word_string w)"
  by (rule ascii_all [of is_ascii_digit]) (auto simp: list_all_iff dest: word_string_digits byte_of_digit)

lemma byte_dash [simp]: "byte CHR ''-'' = 45"
  by (simp add: byte_def)

lemma ascii_optional [simp]: "ascii (optional_u64 v)"
  by (simp add: optional_u64_def split: option.splits)

lemma ascii_period:
  assumes "validate_period d m = Ok ()"
  shows "ascii d" "ascii m"
  using assms
  by (auto simp: validate_period_def and_then_Inr_iff intro!: ascii_all [of is_ascii_digit] dest: byte_of_digit)

lemma ascii_record_text:
  assumes "ascii h" and "list_all ascii (map fst fs)" and "list_all ascii (map snd fs)"
  shows "ascii (record_text h fs)"
  using assms by (auto simp: record_text_def record_line_def list_all_iff byte_def)

lemma ascii_fence:
  assumes "\<And>f. fa = Some f \<Longrightarrow> fence_validate f = Ok ()"
  shows "list_all ascii (fence_values fa)"
  using assms
  by (cases fa) (auto simp: fence_values_def fence_validate_Ok_iff generations_validate_Ok_iff
      intro: ascii_lower_hex)

lemma ascii_reservation:
  assumes "\<And>r. ra = Some r \<Longrightarrow> reservation_validate r = Ok ()"
  shows "list_all ascii (reservation_values ra)"
  using assms
  by (cases ra) (auto simp: reservation_values_def reservation_validate_Ok_iff fence_validate_Ok_iff
      generations_validate_Ok_iff intro: ascii_lower_hex ascii_identifier ascii_period)

lemma ascii_cursor:
  assumes "cursor_validate c = Ok ()"
  shows "ascii (record_text CURSOR_HEADER (cursor_fields c))"
proof (rule ascii_record_text)
  show "list_all ascii (map snd (cursor_fields c))"
    using assms ascii_fence [of "cursor_failed_attempt c"]
    by (auto simp: cursor_fields_def cursor_validate_Ok_iff intro: ascii_identifier)
qed (simp_all add: CURSOR_HEADER_def cursor_fields_def failed_field_names_def byte_def)

lemma ascii_ledger:
  assumes "ledger_validate l = Ok ()"
  shows "ascii (record_text BUDGET_HEADER (ledger_fields l))"
proof (rule ascii_record_text)
  show "list_all ascii (map snd (ledger_fields l))"
    using assms ascii_reservation [of "led_reservation l"]
    by (auto simp: ledger_fields_def ledger_validate_Ok_iff byte_def intro: ascii_identifier ascii_period)
qed (simp_all add: BUDGET_HEADER_def ledger_fields_def reservation_field_names_def byte_def)

lemma state_decode_text:
  assumes storable: "state_storable umax st" and small: "umax < 2 ^ 64"
  shows "state_decode umax (state_text (record_text CURSOR_HEADER (cursor_fields (st_cursor st)))
           (record_text BUDGET_HEADER (ledger_fields (st_budget st))) (warning_text st)) = Ok st"
proof -
  define C B W where "C = record_text CURSOR_HEADER (cursor_fields (st_cursor st))"
    and "B = record_text BUDGET_HEADER (ledger_fields (st_budget st))" and "W = warning_text st"
  have valid: "state_validate st = Ok ()" and fits: "length C + length B + length W \<le> umax"
    and utf8W: "utf8_valid W"
    using storable by (simp_all add: state_storable_def payload_length_def C_def B_def W_def)
  have parts: "cursor_validate (st_cursor st) = Ok ()" "ledger_validate (st_budget st) = Ok ()"
    using valid by (simp_all add: state_validate_Ok_iff)
  have utf8: "utf8_valid C" "utf8_valid B"
    using parts by (simp_all add: C_def B_def ascii_cursor ascii_ledger utf8_valid_of_ascii)
  have lengths: "parse_length_field umax ''cursor_bytes'' (length_line ''cursor_bytes'' (length C)) = Ok (length C)"
    "parse_length_field umax ''budget_bytes'' (length_line ''budget_bytes'' (length B)) = Ok (length B)"
    "parse_length_field umax ''warning_bytes'' (length_line ''warning_bytes'' (length W)) = Ok (length W)"
    using fits small by (intro parse_length_field_line; simp)+
  have decoded: "cursor_decode C = Ok (st_cursor st)" "ledger_decode B = Ok (st_budget st)"
    using parts by (simp_all add: C_def B_def cursor_decode_encode ledger_decode_encode)
  have new: "state_new (st_cursor st) (st_budget st) = Ok (st\<lparr>st_operator_warning := None\<rparr>)"
    using valid by (cases st) (simp add: state_new_def state_validate_Ok_iff Let_def and_then_Inr_iff)
  have warning: "decode_warning W = Ok (st_operator_warning st)"
    using valid utf8W
    by (cases "st_operator_warning st")
      (auto simp: W_def warning_text_def state_validate_Ok_iff decode_warning_def)
  have encoded: "state_encode st = Ok (state_text C B W)"
    using valid by (simp add: state_encode_Ok_iff C_def B_def W_def)
  show ?thesis
    unfolding C_def [symmetric] B_def [symmetric] W_def [symmetric]
    using fits
    by (simp add: state_decode_def splitn_state_text nth_opt_def lengths utf8 decoded new warning valid
        encoded Let_def)
qed

lemma nth_opt_Some_iff: "nth_opt xs i = Some x \<longleftrightarrow> i < length xs \<and> xs ! i = x"
  by (simp add: nth_opt_def)

lemma decode_warning_utf8:
  "decode_warning w = Ok ow \<Longrightarrow> utf8_valid (case ow of None \<Rightarrow> [] | Some warning \<Rightarrow> warning)"
  by (auto simp: decode_warning_def and_then_Inr_iff split: if_splits)

lemma state_decode_Ok:
  assumes "state_decode umax s = Ok st"
  shows "state_storable umax st \<and> state_encode st = Ok s"
proof -
  note inversion = assms [unfolded state_decode_def Let_def and_then_Inr_iff ok_or_Inr_iff reject_Inr_iff]
  have encoded: "state_encode st = Ok s" and "utf8_valid (warning_text st)"
    using inversion decode_warning_utf8 by (auto simp: warning_text_def split: if_splits)
  have "\<exists>payload k. nth_opt (splitn 5 LF s) 4 = Some payload \<and> length payload = k \<and> k \<le> umax"
    using inversion by (elim exE conjE) auto
  then obtain payload where payload: "nth_opt (splitn 5 LF s) 4 = Some payload" "length payload \<le> umax"
    by blast
  have shape: "s = state_text (record_text CURSOR_HEADER (cursor_fields (st_cursor st)))
             (record_text BUDGET_HEADER (ledger_fields (st_budget st))) (warning_text st)"
    using encoded by (simp add: state_encode_Ok_iff)
  have "payload_length st \<le> umax"
    using payload unfolding shape splitn_state_text by (auto simp: payload_length_def nth_opt_Some_iff)
  then show ?thesis
    using encoded \<open>utf8_valid (warning_text st)\<close>
    by (simp add: state_storable_def state_encode_Ok_iff [of st])
qed

text \<open>The codec on the 64-bit and on the 32-bit targets the package is built for.\<close>

interpretation state64_codec: codec state_encode "state_decode (2 ^ 64 - 1)" "state_storable (2 ^ 64 - 1)"
proof unfold_locales
  show "state_storable (2 ^ 64 - 1) x \<Longrightarrow> \<exists>s. state_encode x = Ok s" for x
    by (auto simp: state_storable_def state_encode_Ok_iff)
  show "state_storable (2 ^ 64 - 1) x \<Longrightarrow> state_encode x = Ok s \<Longrightarrow> state_decode (2 ^ 64 - 1) s = Ok x" for x s
    using state_decode_text [of "2 ^ 64 - 1" x] by (simp add: state_encode_Ok_iff)
  show "state_decode (2 ^ 64 - 1) s = Ok x \<Longrightarrow> state_storable (2 ^ 64 - 1) x \<and> state_encode x = Ok s" for s x
    by (rule state_decode_Ok)
qed

interpretation state32_codec: codec state_encode "state_decode (2 ^ 32 - 1)" "state_storable (2 ^ 32 - 1)"
proof unfold_locales
  show "state_storable (2 ^ 32 - 1) x \<Longrightarrow> \<exists>s. state_encode x = Ok s" for x
    by (auto simp: state_storable_def state_encode_Ok_iff)
  show "state_storable (2 ^ 32 - 1) x \<Longrightarrow> state_encode x = Ok s \<Longrightarrow> state_decode (2 ^ 32 - 1) s = Ok x" for x s
    using state_decode_text [of "2 ^ 32 - 1" x] by (simp add: state_encode_Ok_iff)
  show "state_decode (2 ^ 32 - 1) s = Ok x \<Longrightarrow> state_storable (2 ^ 32 - 1) x \<and> state_encode x = Ok s" for s x
    by (rule state_decode_Ok)
qed

section \<open>Properties\<close>

text \<open>C15: the stored scheduler state is an exact codec on 64-bit and on 32-bit targets: a text decodes
  to a state if and only if it is the encoding of that state, the state is valid, its warning is UTF-8
  and its three parts fit the address space. A state that is stored is read back unchanged, with the
  warning on any length boundary, and any other text is refused.\<close>

theorem state_codec_exact:
  "(state_decode (2 ^ 64 - 1) s = Ok st \<longleftrightarrow> state_storable (2 ^ 64 - 1) st \<and> state_encode st = Ok s)
   \<and> (state_decode (2 ^ 32 - 1) s = Ok st \<longleftrightarrow> state_storable (2 ^ 32 - 1) st \<and> state_encode st = Ok s)"
  using state64_codec.decode_iff state32_codec.decode_iff by blast

end
