(* ===== verification/Durable_File.thy ===== *)
theory Durable_File
  imports Rust_Prelude "HOL-Library.AList"
begin

text \<open>
  Files that the daemon replaces by renaming a temporary file over them. A file has its bytes and
  whether its metadata passes the check of the reader: a private regular file of the owner. What the
  system calls of one replacement do is an argument of the operations that write.
\<close>

record store_file =
  sf_private :: bool
  sf_bytes :: string

type_synonym directory = "(string \<times> store_file) list"

text \<open>What the system calls of one write do. \<open>CreateFailed\<close> covers the write and the sync of the
  temporary file and the rename; the temporary file is then removed again. \<open>DirectoryUnsynced\<close> is a
  failure after the rename.\<close>

datatype write_outcome = Published | CreateFailed string | DirectoryUnsynced string

definition private_file :: "string \<Rightarrow> store_file" where
  "private_file contents = \<lparr>sf_private = True, sf_bytes = contents\<rparr>"

lemma private_file_simps [simp]: "sf_private (private_file c)" "sf_bytes (private_file c) = c"
  by (simp_all add: private_file_def)

end
