(* ===== verification/Scheduler_Store.thy ===== *)
theory Scheduler_Store
  imports Scheduler_State Durable_File
begin

text \<open>
  The private store of the scheduler (\<open>operations/scheduler_store.rs\<close>). A directory is the list of its
  entries in the order \<open>read_dir\<close> returns them. The outcome of the system calls of a write is an
  argument: the record is published or not, and the final sync of the directory may fail after the
  rename. The lock of the store and the creation of its directory are system calls and not modelled.
\<close>

section \<open>Definitions\<close>

record scheduler_store =
  ss_root :: string
  ss_files :: directory
  ss_write_sequence :: u32

definition LOCK_FILE :: string where "LOCK_FILE = ''.scheduler.lock''"
definition STATE_PREFIX :: string where "STATE_PREFIX = ''instance-''"
definition RECORD_SUFFIX :: string where "RECORD_SUFFIX = ''.state''"
definition TEMP_PREFIX :: string where "TEMP_PREFIX = ''.scheduler-write.''"
definition TEMP_SUFFIX :: string where "TEMP_SUFFIX = ''.tmp''"
definition MAX_RECORD_BYTES :: nat where "MAX_RECORD_BYTES = 16 * 1024"

definition strip_suffix :: "string \<Rightarrow> string \<Rightarrow> string option" where
  "strip_suffix s p =
     (if length p \<le> length s \<and> drop (length s - length p) s = p then Some (take (length s - length p) s) else None)"

definition record_instance :: "string \<Rightarrow> string option" where
  "record_instance name =
     (case strip_prefix name STATE_PREFIX of Some rest \<Rightarrow> strip_suffix rest RECORD_SUFFIX | None \<Rightarrow> None)"

definition digits_field :: "string \<Rightarrow> bool" where
  "digits_field v \<longleftrightarrow> v \<noteq> [] \<and> list_all is_ascii_digit v"

definition is_exact_temp_name :: "string \<Rightarrow> bool" where
  "is_exact_temp_name name =
     (case strip_prefix name TEMP_PREFIX of
        None \<Rightarrow> False
      | Some rest \<Rightarrow>
          (case strip_suffix rest TEMP_SUFFIX of
             None \<Rightarrow> False
           | Some body \<Rightarrow>
               (case split_char CHR ''.'' body of
                  [kind, pid, sequence] \<Rightarrow> kind = ''state'' \<and> digits_field pid \<and> digits_field sequence
                | _ \<Rightarrow> False)))"

definition validate_private_file :: "string \<Rightarrow> string \<Rightarrow> store_file \<Rightarrow> unit result" where
  "validate_private_file root name f =
     reject (\<not> sf_private f) (root @ ''/'' @ name @ '' is not a private scheduler-owned regular file'')"

text \<open>\<open>clean_and_validate_entries\<close>: the directory after the scan and its result. \<open>unlink\<close> is the outcome of
  removing a stale temporary file.\<close>

fun clean_and_validate_entries ::
  "string \<Rightarrow> (string \<Rightarrow> unit result) \<Rightarrow> directory \<Rightarrow> directory \<times> unit result" where
  "clean_and_validate_entries root unlink [] = ([], Ok ())"
| "clean_and_validate_entries root unlink ((name, f) # es) =
     (let keep = (case clean_and_validate_entries root unlink es of (es', r) \<Rightarrow> ((name, f) # es', r));
          stop = (\<lambda>e. ((name, f) # es, Err e))
      in if name = LOCK_FILE then (case validate_private_file root name f of Inl e \<Rightarrow> stop e | Inr _ \<Rightarrow> keep)
         else case record_instance name of
           Some inst \<Rightarrow>
             (case and_then (validate_scheduler_instance inst) (\<lambda>_.
                   and_then (validate_private_file root name f) (\<lambda>_.
                   reject (length (sf_bytes f) > MAX_RECORD_BYTES) ''native scheduler record exceeds its size bound'')) of
                Inl e \<Rightarrow> stop e
              | Inr _ \<Rightarrow> keep)
         | None \<Rightarrow>
             if is_exact_temp_name name
             then (case and_then (validate_private_file root name f) (\<lambda>_. unlink name) of
                     Inl e \<Rightarrow> stop e
                   | Inr _ \<Rightarrow> clean_and_validate_entries root unlink es)
             else stop (''unexpected native scheduler store entry: '' @ name))"

text \<open>\<open>SchedulerStore::open\<close> on a directory it owns and holds the lock of.\<close>

definition store_open :: "string \<Rightarrow> (string \<Rightarrow> unit result) \<Rightarrow> directory \<Rightarrow> directory \<times> scheduler_store result" where
  "store_open root unlink dir =
     (case clean_and_validate_entries root unlink dir of
        (dir', Inl e) \<Rightarrow> (dir', Err e)
      | (dir', Inr _) \<Rightarrow> (dir', Ok \<lparr>ss_root = root, ss_files = dir', ss_write_sequence = 1\<rparr>))"

definition record_path :: "string \<Rightarrow> string result" where
  "record_path inst = and_then (validate_scheduler_instance inst) (\<lambda>_. Ok (STATE_PREFIX @ inst @ RECORD_SUFFIX))"

definition read_optional_record ::
  "scheduler_store \<Rightarrow> string \<Rightarrow> (string \<Rightarrow> 'a result) \<Rightarrow> 'a option result" where
  "read_optional_record store path decode =
     (case map_of (ss_files store) path of
        None \<Rightarrow> Ok None
      | Some f \<Rightarrow>
          and_then (validate_private_file (ss_root store) path f) (\<lambda>_.
          and_then (reject (length (sf_bytes f) > MAX_RECORD_BYTES) ''native scheduler record exceeds its size bound'') (\<lambda>_.
          and_then (reject (\<not> utf8_valid (sf_bytes f)) ''native scheduler record is not UTF-8'') (\<lambda>_.
          and_then (decode (sf_bytes f)) (\<lambda>v. Ok (Some v))))))"

definition load_state :: "nat \<Rightarrow> scheduler_store \<Rightarrow> string \<Rightarrow> scheduler_instance_state option result" where
  "load_state usize_max store inst =
     and_then (record_path inst) (\<lambda>path.
     and_then (read_optional_record store path (state_decode usize_max)) (\<lambda>loaded.
     and_then (reject (case loaded of Some st \<Rightarrow> cursor_instance (st_cursor st) \<noteq> inst | None \<Rightarrow> False)
       ''scheduler state filename and identity differ'') (\<lambda>_.
     Ok loaded)))"

definition atomic_write ::
  "scheduler_store \<Rightarrow> string \<Rightarrow> string \<Rightarrow> write_outcome \<Rightarrow> scheduler_store \<times> unit result" where
  "atomic_write store path contents outcome =
     (if length contents > MAX_RECORD_BYTES then (store, Err ''native scheduler record exceeds its size bound'')
      else case (case map_of (ss_files store) path of
                   None \<Rightarrow> Ok () | Some f \<Rightarrow> validate_private_file (ss_root store) path f) of
        Inl e \<Rightarrow> (store, Err e)
      | Inr _ \<Rightarrow>
          let sequence = ss_write_sequence store;
              store = store\<lparr>ss_write_sequence := sequence + 1\<rparr>;
              published = store\<lparr>ss_files :=
                AList.update path (private_file contents) (ss_files store)\<rparr>
          in if sequence = - 1 then (store, Err ''native scheduler store write sequence exhausted'')
             else case outcome of
               Published \<Rightarrow> (published, Ok ())
             | CreateFailed e \<Rightarrow> (store, Err e)
             | DirectoryUnsynced e \<Rightarrow> (published, Err e))"

definition persist_state ::
  "scheduler_store \<Rightarrow> scheduler_instance_state \<Rightarrow> write_outcome \<Rightarrow> scheduler_store \<times> unit result" where
  "persist_state store st outcome =
     (case and_then (state_encode st) (\<lambda>contents.
           and_then (record_path (cursor_instance (st_cursor st))) (\<lambda>path. Ok (path, contents))) of
        Inl e \<Rightarrow> (store, Err e)
      | Inr (path, contents) \<Rightarrow> atomic_write store path contents outcome)"

fun entry_instances :: "string \<Rightarrow> directory \<Rightarrow> string list result" where
  "entry_instances root [] = Ok []"
| "entry_instances root ((name, f) # es) =
     (if name = LOCK_FILE then entry_instances root es
      else and_then (ok_or (record_instance name)
             (''unexpected native scheduler store entry during enumeration: '' @ name)) (\<lambda>inst.
           and_then (validate_scheduler_instance inst) (\<lambda>_.
           and_then (validate_private_file root name f) (\<lambda>_.
           and_then (entry_instances root es) (\<lambda>rest. Ok (inst # rest))))))"

definition store_instances :: "scheduler_store \<Rightarrow> string list result" where
  "store_instances store =
     and_then (entry_instances (ss_root store) (ss_files store)) (\<lambda>names.
     and_then (reject (\<not> distinct names) ''native scheduler store contains duplicate instances'') (\<lambda>_.
     Ok (sort names)))"

section \<open>Names\<close>

definition path_of :: "string \<Rightarrow> string" where
  "path_of inst = STATE_PREFIX @ inst @ RECORD_SUFFIX"

lemma strip_suffix_append [simp]: "strip_suffix (s @ p) p = Some s"
  by (simp add: strip_suffix_def)

lemma record_instance_path [simp]: "record_instance (path_of inst) = Some inst"
  by (simp add: record_instance_def path_of_def strip_prefix_def starts_with_def)

lemma path_of_inject [simp]: "path_of a = path_of b \<longleftrightarrow> a = b"
  by (simp add: path_of_def)

lemma path_of_not_lock [simp]: "path_of inst \<noteq> LOCK_FILE" "LOCK_FILE \<noteq> path_of inst"
  by (simp_all add: path_of_def STATE_PREFIX_def LOCK_FILE_def)

lemma temp_name_shape: "is_exact_temp_name name \<Longrightarrow> starts_with name TEMP_PREFIX"
  by (auto simp: is_exact_temp_name_def strip_prefix_def split: option.splits if_splits)

lemma path_of_not_temp [simp]: "\<not> is_exact_temp_name (path_of inst)"
  using temp_name_shape [of "path_of inst"]
  by (auto simp: path_of_def STATE_PREFIX_def TEMP_PREFIX_def starts_with_def)

lemma LOCK_FILE_not_temp [simp]: "\<not> is_exact_temp_name LOCK_FILE"
  using temp_name_shape [of LOCK_FILE] by (auto simp: LOCK_FILE_def TEMP_PREFIX_def starts_with_def)

lemma record_instance_temp: "is_exact_temp_name name \<Longrightarrow> record_instance name = None"
  using temp_name_shape [of name]
  by (cases name) (auto simp: record_instance_def strip_prefix_def starts_with_def TEMP_PREFIX_def STATE_PREFIX_def)

lemma record_path_Ok_iff: "record_path inst = Ok path \<longleftrightarrow> validate_scheduler_instance inst = Ok () \<and> path = path_of inst"
  by (auto simp: record_path_def path_of_def and_then_Inr_iff)

section \<open>A directory of good records\<close>

text \<open>\<open>P\<close> is what the owner keeps of the stored states. A record is the encoding of a state of its own
  instance within the size bound.\<close>

definition record_ok :: "(scheduler_instance_state \<Rightarrow> bool) \<Rightarrow> string \<Rightarrow> string \<Rightarrow> bool" where
  "record_ok P inst bytes \<longleftrightarrow> (\<exists>st. validate_scheduler_instance inst = Ok () \<and> length bytes \<le> MAX_RECORD_BYTES
     \<and> state_encode st = Ok bytes \<and> utf8_valid (warning_text st) \<and> cursor_instance (st_cursor st) = inst \<and> P st)"

definition entry_ok :: "(scheduler_instance_state \<Rightarrow> bool) \<Rightarrow> string \<times> store_file \<Rightarrow> bool" where
  "entry_ok P e \<longleftrightarrow> sf_private (snd e)
     \<and> (fst e = LOCK_FILE \<or> is_exact_temp_name (fst e)
        \<or> (\<exists>inst. fst e = path_of inst \<and> record_ok P inst (sf_bytes (snd e))))"

definition directory_ok :: "(scheduler_instance_state \<Rightarrow> bool) \<Rightarrow> directory \<Rightarrow> bool" where
  "directory_ok P dir \<longleftrightarrow> distinct (map fst dir) \<and> list_all (entry_ok P) dir"

lemma directory_ok_lookup:
  assumes "directory_ok P dir" "map_of dir (path_of inst) = Some f"
  shows "sf_private f \<and> record_ok P inst (sf_bytes f)"
proof -
  have "entry_ok P (path_of inst, f)"
    using assms map_of_SomeD [OF assms(2)] by (auto simp: directory_ok_def list_all_iff)
  then show ?thesis by (auto simp: entry_ok_def)
qed

lemma utf8_valid_append_ascii: "ascii a \<Longrightarrow> utf8_valid b \<Longrightarrow> utf8_valid (a @ b)"
  by (induction a) (auto simp: ascii_def)

lemma ascii_state_head:
  "ascii (INSTANCE_STATE_HEADER_V2 @ [LF] @ length_line ''cursor_bytes'' a @ [LF] @ length_line ''budget_bytes'' b @ [LF]
     @ length_line ''warning_bytes'' c @ [LF])"
proof -
  have "ascii (nat_string n)" for n
    by (rule ascii_all [of is_ascii_digit]) (auto simp: list_all_iff dest: nat_string_digits byte_of_digit)
  then show ?thesis
    by (simp add: ascii_def INSTANCE_STATE_HEADER_V2_def length_line_def byte_def)
qed

lemma state_encode_utf8:
  assumes "state_encode st = Ok s" "utf8_valid (warning_text st)"
  shows "utf8_valid s"
proof -
  let ?c = "record_text CURSOR_HEADER (cursor_fields (st_cursor st))"
  let ?b = "record_text BUDGET_HEADER (ledger_fields (st_budget st))"
  have "cursor_validate (st_cursor st) = Ok ()" "ledger_validate (st_budget st) = Ok ()"
    using assms(1) by (simp_all add: state_encode_Ok_iff state_validate_Ok_iff)
  then have "utf8_valid (?c @ ?b @ warning_text st)"
    using assms(2) by (intro utf8_valid_append_ascii ascii_cursor ascii_ledger)
  from utf8_valid_append_ascii [OF ascii_state_head this] show ?thesis
    using assms(1) by (simp add: state_encode_Ok_iff state_text_def)
qed

lemma payload_le_text: "payload_length st \<le> length (state_text (record_text CURSOR_HEADER (cursor_fields (st_cursor st)))
             (record_text BUDGET_HEADER (ledger_fields (st_budget st))) (warning_text st))"
  by (simp add: payload_length_def state_text_def)

text \<open>A good record is read back as the state it encodes, on every target.\<close>

lemma read_record_ok:
  assumes "record_ok P inst bytes" "MAX_RECORD_BYTES \<le> umax" "umax < 2 ^ 64"
  obtains st where "utf8_valid bytes" "length bytes \<le> MAX_RECORD_BYTES" "state_decode umax bytes = Ok st"
    "cursor_instance (st_cursor st) = inst" "P st" "utf8_valid (warning_text st)" "state_encode st = Ok bytes"
proof -
  obtain st where st: "length bytes \<le> MAX_RECORD_BYTES" "state_encode st = Ok bytes" "utf8_valid (warning_text st)"
    "cursor_instance (st_cursor st) = inst" "P st"
    using assms(1) by (auto simp: record_ok_def)
  have shape: "bytes = state_text (record_text CURSOR_HEADER (cursor_fields (st_cursor st)))
             (record_text BUDGET_HEADER (ledger_fields (st_budget st))) (warning_text st)"
    using st(2) by (simp add: state_encode_Ok_iff)
  have "payload_length st \<le> umax"
    using payload_le_text [of st] st(1) assms(2) unfolding shape by simp
  then have "state_storable umax st"
    using st by (simp add: state_storable_def state_encode_Ok_iff)
  from state_decode_text [OF this assms(3)] have "state_decode umax bytes = Ok st"
    by (simp add: shape)
  with st state_encode_utf8 [OF st(2,3)] show thesis by (intro that)
qed

lemma load_state_cases:
  assumes "directory_ok P (ss_files s)" "validate_scheduler_instance inst = Ok ()"
    "MAX_RECORD_BYTES \<le> umax" "umax < 2 ^ 64"
  obtains "map_of (ss_files s) (path_of inst) = None" "load_state umax s inst = Ok None"
  | f st where "map_of (ss_files s) (path_of inst) = Some f" "load_state umax s inst = Ok (Some st)" "P st"
      "cursor_instance (st_cursor st) = inst" "utf8_valid (warning_text st)" "state_encode st = Ok (sf_bytes f)"
proof (cases "map_of (ss_files s) (path_of inst)")
  case None
  then show thesis
    using that(1) assms(2) by (simp add: load_state_def record_path_def path_of_def read_optional_record_def)
next
  case (Some f)
  with assms(1) have f: "sf_private f" "record_ok P inst (sf_bytes f)"
    by (auto dest: directory_ok_lookup)
  obtain st where st: "utf8_valid (sf_bytes f)" "length (sf_bytes f) \<le> MAX_RECORD_BYTES"
    "state_decode umax (sf_bytes f) = Ok st" "cursor_instance (st_cursor st) = inst" "P st"
    "utf8_valid (warning_text st)" "state_encode st = Ok (sf_bytes f)"
    by (rule read_record_ok [OF f(2) assms(3,4)])
  have "record_path inst = Ok (path_of inst)"
    using assms(2) by (simp add: record_path_Ok_iff)
  then have "load_state umax s inst = Ok (Some st)"
    using Some f st by (simp add: load_state_def read_optional_record_def validate_private_file_def)
  with that(2) Some st show thesis by blast
qed

section \<open>Writing\<close>

lemma directory_ok_update:
  assumes "directory_ok P dir" "entry_ok P (name, f)"
  shows "directory_ok P (AList.update name f dir)"
proof -
  have "list_all (entry_ok P) dir \<Longrightarrow> list_all (entry_ok P) (AList.update name f dir)"
    using assms(2) by (induction dir) auto
  then show ?thesis
    using assms(1) by (simp add: directory_ok_def distinct_update)
qed

text \<open>The three things a write can do to the record of an instance: nothing, or replace it as a whole;
  a reported success means that it was replaced.\<close>

lemma persist_state_cases:
  assumes "persist_state s st outcome = (s', r)"
  obtains "ss_files s' = ss_files s" "r \<noteq> Ok ()" "ss_root s' = ss_root s"
  | bytes where "state_encode st = Ok bytes" "validate_scheduler_instance (cursor_instance (st_cursor st)) = Ok ()"
      "length bytes \<le> MAX_RECORD_BYTES" "ss_root s' = ss_root s"
      "ss_files s' = AList.update (path_of (cursor_instance (st_cursor st))) (private_file bytes) (ss_files s)"
proof (cases "and_then (state_encode st) (\<lambda>contents.
      and_then (record_path (cursor_instance (st_cursor st))) (\<lambda>path. Ok (path, contents)))")
  case (Inl e)
  with assms that(1) show thesis by (auto simp: persist_state_def)
next
  case (Inr pc)
  then obtain bytes where b: "state_encode st = Ok bytes" "validate_scheduler_instance (cursor_instance (st_cursor st)) = Ok ()"
    "pc = (path_of (cursor_instance (st_cursor st)), bytes)"
    by (auto simp: and_then_Inr_iff record_path_Ok_iff)
  let ?path = "path_of (cursor_instance (st_cursor st))"
  have "atomic_write s ?path bytes outcome = (s', r)"
    using assms Inr b(3) by (simp add: persist_state_def)
  moreover obtain pre where pre: "(case map_of (ss_files s) ?path of None \<Rightarrow> Ok ()
      | Some f \<Rightarrow> validate_private_file (ss_root s) ?path f) = pre"
    by blast
  ultimately show thesis
    using that(1) that(2) [OF b(1,2)]
    unfolding atomic_write_def pre by (cases pre) (auto simp: Let_def split: if_splits write_outcome.splits)
qed

lemma persist_state_directory:
  assumes "persist_state s st outcome = (s', r)" "directory_ok P (ss_files s)" "state_validate st = Ok () \<Longrightarrow> P st"
    "utf8_valid (warning_text st)"
  shows "directory_ok P (ss_files s')"
  using assms(1)
proof (cases rule: persist_state_cases)
  case (2 bytes)
  have "entry_ok P (path_of (cursor_instance (st_cursor st)), private_file bytes)"
    using 2 assms(3,4) by (auto simp: entry_ok_def record_ok_def state_encode_Ok_iff)
  with 2 assms(2) show ?thesis by (simp add: directory_ok_update)
qed (use assms(2) in simp)

lemma load_state_cong:
  assumes "map_of (ss_files s') (path_of inst) = map_of (ss_files s) (path_of inst)" "ss_root s' = ss_root s"
  shows "load_state umax s' inst = load_state umax s inst"
proof (cases "validate_scheduler_instance inst")
  case (Inr u)
  then have "record_path inst = Ok (path_of inst)" by (simp add: record_path_Ok_iff)
  then show ?thesis
    using assms by (simp add: load_state_def read_optional_record_def split: option.split)
qed (simp add: load_state_def record_path_def)

text \<open>What a write does to the loads after it: other instances are untouched, the instance itself
  reads as before or as the new state, and as the new state if the write succeeded.\<close>

lemma persist_state_loads:
  assumes "persist_state s st outcome = (s', r)" "utf8_valid (warning_text st)" "MAX_RECORD_BYTES \<le> umax" "umax < 2 ^ 64"
  shows "inst \<noteq> cursor_instance (st_cursor st) \<Longrightarrow> load_state umax s' inst = load_state umax s inst"
    and "load_state umax s' (cursor_instance (st_cursor st)) = Ok (Some st)
       \<or> r \<noteq> Ok () \<and> load_state umax s' (cursor_instance (st_cursor st)) = load_state umax s (cursor_instance (st_cursor st))"
proof -
  note cases = persist_state_cases [OF assms(1)]
  show "inst \<noteq> cursor_instance (st_cursor st) \<Longrightarrow> load_state umax s' inst = load_state umax s inst"
    by (rule cases) (auto intro!: load_state_cong simp: update_conv)
  show "load_state umax s' (cursor_instance (st_cursor st)) = Ok (Some st)
      \<or> r \<noteq> Ok () \<and> load_state umax s' (cursor_instance (st_cursor st)) = load_state umax s (cursor_instance (st_cursor st))"
  proof (rule cases)
    fix bytes
    let ?i = "cursor_instance (st_cursor st)"
    assume b: "state_encode st = Ok bytes" "validate_scheduler_instance ?i = Ok ()" "length bytes \<le> MAX_RECORD_BYTES"
      "ss_files s' = AList.update (path_of ?i) (private_file bytes) (ss_files s)"
    have "record_ok (\<lambda>st'. st' = st) ?i bytes"
      using b assms(2) by (auto simp: record_ok_def)
    then obtain st' where "utf8_valid bytes" "state_decode umax bytes = Ok st'" "st' = st"
      by (rule read_record_ok [OF _ assms(3,4)])
    then show ?thesis
      using b by (simp add: load_state_def record_path_def path_of_def [symmetric] read_optional_record_def
          update_conv validate_private_file_def)
  qed (auto intro!: load_state_cong)
qed

section \<open>Opening\<close>

text \<open>Opening a directory of good records succeeds and only removes the stale temporary files.\<close>

lemma clean_and_validate_ok:
  assumes "list_all (entry_ok P) dir" "\<And>name. is_exact_temp_name name \<Longrightarrow> unlink name = Ok ()"
  shows "clean_and_validate_entries root unlink dir = (filter (\<lambda>e. \<not> is_exact_temp_name (fst e)) dir, Ok ())"
  using assms(1)
proof (induction dir)
  case (Cons e dir)
  then show ?case
    using assms(2)
    by (cases e) (auto simp: entry_ok_def record_ok_def validate_private_file_def record_instance_temp Let_def)
qed simp

lemma directory_ok_filter: "directory_ok P dir \<Longrightarrow> directory_ok P (filter Q dir)"
  by (auto simp: directory_ok_def list_all_iff distinct_map_filter)

lemma map_of_filter_key: "(\<And>f. Q (k, f)) \<Longrightarrow> map_of (filter Q dir) k = map_of dir k"
  by (induction dir) auto

end
