(* ===== verification/Launch_Route.thy ===== *)
theory Launch_Route
  imports Route_Identity
begin

text \<open>
  The route a launch may use: \<open>RouteSpec\<close> and \<open>RouteIdentity\<close> of \<open>routing.rs\<close>, the launch authority of
  \<open>operations/launch_route.rs\<close> and the route conversions of \<open>operations/autotune_request.rs\<close>. The argument
  \<open>full\<close> is the build feature \<open>calibration\<close>; whether the command \<open>mwan3\<close> is installed is an argument.
\<close>

section \<open>Definitions\<close>

subsection \<open>Configured routes\<close>

definition is_safe_identifier :: "string \<Rightarrow> bool" where
  "is_safe_identifier value =
     (value \<noteq> [] \<and> length value \<le> 64
      \<and> list_all (\<lambda>ch. is_ascii_alphanumeric ch \<or> ch \<in> set ''-_.:@'') value)"

record route_spec =
  rs_configured_mode :: string
  rs_member :: string
  rs_expected_device :: string
  rs_explicit_authority :: "explicit_route_authority option"

definition route_spec_new :: "string \<Rightarrow> string \<Rightarrow> string \<Rightarrow> route_spec" where
  "route_spec_new configured_mode member expected_device =
     \<lparr>rs_configured_mode = configured_mode, rs_member = member, rs_expected_device = expected_device,
      rs_explicit_authority = None\<rparr>"

definition route_spec_validate :: "bool \<Rightarrow> route_spec \<Rightarrow> unit result" where
  "route_spec_validate full spec =
     (if rs_configured_mode spec = ''explicit'' then
        and_then (reject (rs_member spec \<noteq> []) ''route_mode=explicit must not define mwan3_member'') (\<lambda>_.
        and_then (reject (rs_explicit_authority spec = None) ''explicit route authority is incomplete'') (\<lambda>_.
        and_then (reject (\<not> full) ''explicit PBR routing requires the Full package'') (\<lambda>_.
        reject (rs_expected_device spec = [] \<or> \<not> is_safe_identifier (rs_expected_device spec))
          ''route device contains unsupported characters'')))
      else
        and_then (reject (rs_explicit_authority spec \<noteq> None)
          ''explicit route authority fields require route_mode=explicit'') (\<lambda>_.
        and_then (reject (rs_configured_mode spec \<notin> {''auto'', ''main'', ''mwan3''})
          ''route_mode must be auto, main, or mwan3'') (\<lambda>_.
        and_then (reject (rs_member spec \<noteq> [] \<and> \<not> is_safe_identifier (rs_member spec))
          ''mwan3_member contains unsupported characters'') (\<lambda>_.
        and_then (reject (rs_configured_mode spec = ''mwan3'' \<and> rs_member spec = [])
          ''route_mode=mwan3 requires mwan3_member'') (\<lambda>_.
        and_then (reject (rs_configured_mode spec = ''main'' \<and> rs_member spec \<noteq> [])
          ''route_mode=main must not define mwan3_member'') (\<lambda>_.
        reject (rs_expected_device spec = [] \<or> \<not> is_safe_identifier (rs_expected_device spec))
          ''route device contains unsupported characters''))))))"

definition effective_mode :: "bool \<Rightarrow> bool \<Rightarrow> route_spec \<Rightarrow> operation_route_mode result" where
  "effective_mode full mwan3_available spec =
     and_then (route_spec_validate full spec) (\<lambda>_.
     if rs_configured_mode spec = ''main'' then Ok Main
     else if rs_configured_mode spec = ''mwan3'' then Ok Mwan3
     else if rs_configured_mode spec = ''explicit'' then Ok Explicit
     else if rs_member spec = [] then Ok Main
     else if mwan3_available then Ok Mwan3
     else Err (''mwan3_member='' @ rs_member spec @ '' is configured, but mwan3 is unavailable''))"

subsection \<open>Live routes\<close>

record route_identity =
  ri_device_ifindex :: "u32 option"
  ri_fwmark_mask :: "u32 option"
  ri_mode :: string
  ri_member :: string
  ri_device :: string
  ri_source_ip :: string
  ri_fwmark :: string
  ri_table :: string

definition stable_key :: "route_identity \<Rightarrow> string" where
  "stable_key i =
     (let key = ri_mode i @ ''|'' @ ri_member i @ ''|'' @ ri_device i @ ''|'' @ ri_source_ip i @ ''|''
                @ ri_fwmark i @ ''|'' @ ri_table i;
          key = (case ri_fwmark_mask i of Some m \<Rightarrow> key @ ''|mask='' @ word_string m | None \<Rightarrow> key)
      in case ri_device_ifindex i of Some index \<Rightarrow> key @ ''|ifindex='' @ word_string index | None \<Rightarrow> key)"

definition parse_u32_auto :: "string \<Rightarrow> string \<Rightarrow> u32 result" where
  "parse_u32_auto value label =
     (case strip_prefix value ''0x'' of
        Some hex \<Rightarrow> ok_or (from_str_radix 16 hex) (label @ '' is invalid'')
      | None \<Rightarrow> ok_or (from_str_radix 10 value) (label @ '' is invalid''))"

definition operation_route_identity_of :: "route_identity \<Rightarrow> operation_route_identity result" where
  "operation_route_identity_of i =
     and_then (reject (ri_device_ifindex i \<noteq> None \<and> ri_mode i \<noteq> ''explicit'')
       ''link-qualified route requests are not available in this build'') (\<lambda>_.
     and_then (ok_or (parse_ip (ri_source_ip i)) ''live route has no valid source IP'') (\<lambda>source_ip.
     if ri_mode i = ''explicit'' then
       and_then (reject (ri_member i \<noteq> []) ''explicit route must not carry an mwan3 member'') (\<lambda>_.
       and_then (parse_u32_auto (ri_fwmark i) ''explicit fwmark'') (\<lambda>fwmark.
       and_then (parse_u32_auto (ri_table i) ''explicit routing table'') (\<lambda>table.
       let route = \<lparr>rt_dns_server = None, rt_device_ifindex = ri_device_ifindex i, rt_mode = Explicit,
                    rt_mwan3_member = None, rt_l3_device = ri_device i, rt_source_ip = Some source_ip,
                    rt_fwmark = Some fwmark, rt_routing_table = Some table, rt_fwmark_mask = ri_fwmark_mask i\<rparr>
       in and_then (route_validate route) (\<lambda>_. Ok route))))
     else if ri_mode i = ''main'' then
       and_then (reject (ri_member i \<noteq> [] \<or> ri_fwmark i \<noteq> [] \<or> ri_fwmark_mask i \<noteq> None \<or> ri_table i \<noteq> ''main'')
         ''main route identity carries policy-routing fields'') (\<lambda>_.
       Ok \<lparr>rt_dns_server = None, rt_device_ifindex = None, rt_mode = Main, rt_mwan3_member = None,
          rt_l3_device = ri_device i, rt_source_ip = Some source_ip, rt_fwmark = None,
          rt_routing_table = None, rt_fwmark_mask = None\<rparr>)
     else if ri_mode i = ''mwan3'' then
       and_then (parse_u32_auto (ri_fwmark i) ''mwan3 fwmark'') (\<lambda>fwmark.
       and_then (parse_u32_auto (ri_table i) ''mwan3 routing table'') (\<lambda>table.
       Ok \<lparr>rt_dns_server = None, rt_device_ifindex = None, rt_mode = Mwan3, rt_mwan3_member = Some (ri_member i),
          rt_l3_device = ri_device i, rt_source_ip = Some source_ip, rt_fwmark = Some fwmark,
          rt_routing_table = Some table, rt_fwmark_mask = ri_fwmark_mask i\<rparr>))
     else Err ''live route mode is unsupported''))"

definition configured_route_selection :: "bool \<Rightarrow> string \<Rightarrow> string \<Rightarrow> (operation_route_mode \<times> string option) result" where
  "configured_route_selection full configured_mode configured_member =
     and_then (route_spec_validate full (route_spec_new configured_mode configured_member ''route-check'')) (\<lambda>_.
     if configured_mode = ''main'' then Ok (Main, None)
     else if configured_mode = ''mwan3'' then Ok (Mwan3, Some configured_member)
     else if configured_member = [] then Ok (Main, None)
     else Ok (Mwan3, Some configured_member))"

definition operation_route_matches_config ::
  "bool \<Rightarrow> string \<Rightarrow> string \<Rightarrow> operation_route_identity \<Rightarrow> unit result" where
  "operation_route_matches_config full configured_mode configured_member route =
     and_then (configured_route_selection full configured_mode configured_member) (\<lambda>(mode, mwan3_member).
     reject (rt_mode route \<noteq> mode \<or> rt_mwan3_member route \<noteq> mwan3_member)
       (''configured '' @ operation_route_mode_as_str mode @ '' route differs from requested ''
        @ operation_route_mode_as_str (rt_mode route) @ '' route''))"

subsection \<open>Launch authority\<close>

record explicit_launch_route =
  elr_authority :: explicit_route_authority
  elr_dns_server :: ipv4

type_synonym launch_route_fields = "string option list"

definition launch_fields_default :: launch_route_fields where
  "launch_fields_default = replicate 5 None"

definition launch_field_index :: "string \<Rightarrow> nat option" where
  "launch_field_index flag =
     map_of [(''--route-source-ipv4'', 0), (''--route-table'', 1), (''--route-fwmark'', 2),
             (''--route-fwmark-mask'', 3), (''--route-dns-ipv4'', 4)] flag"

definition launch_fields_set :: "launch_route_fields \<Rightarrow> string \<Rightarrow> string \<Rightarrow> launch_route_fields result" where
  "launch_fields_set fs flag value =
     and_then (ok_or (launch_field_index flag) (''unsupported route option: '' @ flag)) (\<lambda>index.
     and_then (reject (value = [] \<or> fs ! index \<noteq> None) (''empty or duplicate route option: '' @ flag)) (\<lambda>_.
     Ok (fs[index := Some value])))"

definition launch_fields_finish :: "launch_route_fields \<Rightarrow> string \<Rightarrow> explicit_launch_route option result" where
  "launch_fields_finish fs mode =
     (let v = (\<lambda>i. case fs ! i of None \<Rightarrow> [] | Some s \<Rightarrow> s)
      in and_then (authority_from_fields mode (v 0, v 1, v 2, v 3)) (\<lambda>authority.
         and_then (explicit_dns_server mode (v 4)) (\<lambda>dns.
         case authority of
           Some authority \<Rightarrow>
             and_then (ok_or dns ''explicit launch requires --route-dns-ipv4'') (\<lambda>dns_server.
             Ok (Some \<lparr>elr_authority = authority, elr_dns_server = dns_server\<rparr>))
         | None \<Rightarrow> Ok None)))"

definition launch_route_spec ::
  "bool \<Rightarrow> string \<Rightarrow> string \<Rightarrow> string \<Rightarrow> explicit_launch_route option \<Rightarrow> route_spec result" where
  "launch_route_spec full mode member target explicit =
     (let spec = route_spec_new mode member target
      in if mode = ''explicit'' then
           and_then (reject (member \<noteq> []) ''explicit launch must not carry an mwan3 member'') (\<lambda>_.
           and_then (ok_or explicit ''explicit launch authority is incomplete'') (\<lambda>selected.
           and_then (route_spec_validate full (route_spec_new ''main'' [] target)) (\<lambda>_.
           and_then (explicit_dns_server mode (ipv4_string (elr_dns_server selected))) (\<lambda>dns.
           and_then (ok_or dns ''explicit launch DNS is missing'') (\<lambda>_.
           Ok (spec\<lparr>rs_explicit_authority := Some (elr_authority selected)\<rparr>))))))
         else
           and_then (reject (explicit \<noteq> None) ''explicit launch authority conflicts with route mode'') (\<lambda>_.
           and_then (route_spec_validate full spec) (\<lambda>_. Ok spec)))"

definition match_launch_route ::
  "bool \<Rightarrow> string \<Rightarrow> string \<Rightarrow> string \<Rightarrow> explicit_launch_route option \<Rightarrow> operation_route_identity \<Rightarrow> unit result" where
  "match_launch_route full mode member target explicit route =
     and_then (launch_route_spec full mode member target explicit) (\<lambda>_.
     and_then (reject (rt_l3_device route \<noteq> target) ''launch route target differs from attested route'') (\<lambda>_.
     case explicit of
       Some selected \<Rightarrow>
         and_then (explicit_operation_authority route) (\<lambda>authority.
         reject (authority \<noteq> elr_authority selected \<or> rt_dns_server route \<noteq> Some (elr_dns_server selected))
           ''launch route authority or DNS differs from attested route'')
     | None \<Rightarrow>
         and_then (reject (rt_dns_server route \<noteq> None) ''legacy launch must not carry explicit DNS'') (\<lambda>_.
         operation_route_matches_config full mode member route)))"

section \<open>What a launch route is\<close>

text \<open>The device check of the route record is the one of the launch.\<close>

lemma safe_device_iff:
  "require_safe_identifier ''l3_device'' d 1 64 ''._:@-'' = Ok () \<longleftrightarrow> is_safe_identifier d"
  by (cases d) (auto simp: require_safe_identifier_def is_safe_identifier_def list_all_iff)

lemma route_spec_validate_Ok_iff:
  "route_spec_validate full (route_spec_new mode member dev) = Ok () \<longleftrightarrow>
     is_safe_identifier dev \<and> (mode = ''main'' \<and> member = [] \<or> mode = ''mwan3'' \<and> is_safe_identifier member
       \<or> mode = ''auto'' \<and> (member = [] \<or> is_safe_identifier member))"
  by (auto simp: route_spec_validate_def route_spec_new_def and_then_Inr_iff is_safe_identifier_def)

lemma explicit_dns_server_string:
  "explicit_dns_server ''explicit'' (ipv4_string a) = Ok dns \<longleftrightarrow>
     dns = Some a \<and> ipv4_octet0 a \<noteq> 0 \<and> ipv4_octet0 a < 224 \<and> \<not> ipv4_is_loopback a \<and> \<not> ipv4_is_link_local a"
proof -
  have "ipv4_string a \<noteq> []" by (cases a) (simp add: ipv4_string_def)
  then show ?thesis by (auto simp: explicit_dns_server_def and_then_Inr_iff not_le)
qed

lemma safe_route_check: "is_safe_identifier ''route-check''"
  by code_simp

lemma configured_route_selection_Ok_iff:
  "configured_route_selection full mode member = Ok sel \<longleftrightarrow>
     (member = [] \<and> mode \<in> {''main'', ''auto''} \<and> sel = (Main, None)
      \<or> is_safe_identifier member \<and> mode \<in> {''mwan3'', ''auto''} \<and> sel = (Mwan3, Some member))"
proof -
  have "is_safe_identifier [] = False" by (simp add: is_safe_identifier_def)
  then show ?thesis
    by (auto simp: configured_route_selection_def and_then_Inr_iff route_spec_validate_Ok_iff safe_route_check
        split: if_splits)
qed

lemma match_explicit_iff:
  "match_launch_route full mode member target (Some sel) r = Ok () \<longleftrightarrow>
     mode = ''explicit'' \<and> member = [] \<and> route_validate r = Ok () \<and> rt_mode r = Explicit \<and> rt_l3_device r = target
     \<and> rt_source_ip r = Some (V4 (era_source (elr_authority sel)))
     \<and> rt_routing_table r = Some (era_table (elr_authority sel)) \<and> rt_fwmark r = Some (era_mark (elr_authority sel))
     \<and> rt_fwmark_mask r = Some (era_mask (elr_authority sel)) \<and> rt_dns_server r = Some (elr_dns_server sel)"
proof -
  let ?dns = "elr_dns_server sel" and ?L = "match_launch_route full mode member target (Some sel) r = Ok ()"
  define good where "good a \<longleftrightarrow> ipv4_octet0 a \<noteq> 0 \<and> ipv4_octet0 a < 224 \<and> \<not> ipv4_is_loopback a \<and> \<not> ipv4_is_link_local a" for a
  have dns: "explicit_dns_server ''explicit'' (ipv4_string a) = Ok v \<longleftrightarrow> v = Some a \<and> good a" for a v
    by (simp add: explicit_dns_server_string good_def)
  have "?L \<longleftrightarrow> (mode = ''explicit'' \<and> member = [] \<and> is_safe_identifier target \<and> good ?dns)
      \<and> rt_l3_device r = target \<and> explicit_operation_authority r = Ok (elr_authority sel) \<and> rt_dns_server r = Some ?dns"
    unfolding match_launch_route_def launch_route_spec_def Let_def
    by (cases ?dns) (auto simp: and_then_Inr_iff route_spec_validate_Ok_iff dns)
  moreover have "route_validate r = Ok () \<Longrightarrow> is_safe_identifier (rt_l3_device r)"
    "route_validate r = Ok () \<Longrightarrow> rt_dns_server r = Some a \<Longrightarrow> good a" for a
    unfolding route_validate_Ok_iff safe_device_iff route_dns_validate_Ok_iff good_def by blast+
  ultimately show ?thesis
    unfolding explicit_operation_authority_Ok_iff by blast
qed

lemma match_configured_iff:
  "match_launch_route full mode member target None r = Ok () \<longleftrightarrow>
     is_safe_identifier target \<and> rt_l3_device r = target \<and> rt_dns_server r = None
     \<and> (member = [] \<and> mode \<in> {''main'', ''auto''} \<and> rt_mode r = Main \<and> rt_mwan3_member r = None
        \<or> is_safe_identifier member \<and> mode \<in> {''mwan3'', ''auto''} \<and> rt_mode r = Mwan3 \<and> rt_mwan3_member r = Some member)"
  by (auto simp: match_launch_route_def launch_route_spec_def operation_route_matches_config_def Let_def
      and_then_Inr_iff configured_route_selection_Ok_iff route_spec_validate_Ok_iff)

section \<open>Properties\<close>

text \<open>C39: the launch binding is exact. An explicit launch matches a live route exactly if it names no mwan3
  member and the route is a valid explicit route through the selected device with the selected source,
  table, mark, mask and DNS server; any other launch matches exactly if the route leaves through the
  selected device in the mode and with the member that the configured mode and member stand for, and
  carries no DNS server. So no field of the user's selection can change between the launch and the
  attested route.\<close>

theorem launch_binding_exact:
  "(match_launch_route full mode member target (Some sel) r = Ok () \<longleftrightarrow>
     mode = ''explicit'' \<and> member = [] \<and> route_validate r = Ok () \<and> rt_mode r = Explicit \<and> rt_l3_device r = target
     \<and> rt_source_ip r = Some (V4 (era_source (elr_authority sel)))
     \<and> rt_routing_table r = Some (era_table (elr_authority sel)) \<and> rt_fwmark r = Some (era_mark (elr_authority sel))
     \<and> rt_fwmark_mask r = Some (era_mask (elr_authority sel)) \<and> rt_dns_server r = Some (elr_dns_server sel))
   \<and> (match_launch_route full mode member target None r = Ok () \<longleftrightarrow>
     is_safe_identifier target \<and> rt_l3_device r = target \<and> rt_dns_server r = None
     \<and> (member = [] \<and> mode \<in> {''main'', ''auto''} \<and> rt_mode r = Main \<and> rt_mwan3_member r = None
        \<or> is_safe_identifier member \<and> mode \<in> {''mwan3'', ''auto''} \<and> rt_mode r = Mwan3 \<and> rt_mwan3_member r = Some member))"
  by (rule conjI [OF match_explicit_iff match_configured_iff])

end
