(* ===== verification/Launch_Intent.thy ===== *)
theory Launch_Intent
  imports Launch_Route Operation_Request
begin

text \<open>
  From a launch intent to a Full Auto-Tune request (\<open>operations/autotune_request.rs\<close>, the traffic checks of
  \<open>operations/full_autotune.rs\<close> and \<open>operations/speedtest.rs\<close>): the flags of the launcher, the checks of
  the intent and the pure builders. What is attested on the live router is the context argument.
\<close>

section \<open>Definitions\<close>

definition NATIVE_AUTOTUNE_DEADLINE_MS :: u64 where
  "NATIVE_AUTOTUNE_DEADLINE_MS = 45 * 60 * 1000"

record autotune_launch_intent =
  in_explicit_route :: "explicit_launch_route option"
  in_instance :: string
  in_expected_target_interface :: string
  in_backend :: string
  in_route_mode :: string
  in_mwan3_member :: string
  in_profile :: autotune_profile
  in_strategy :: calibration_strategy
  in_access_medium :: access_medium
  in_access_source :: access_evidence_source
  in_access_confidence_percent :: u8
  in_capacity_learning_policy :: capacity_learning_policy
  in_service_dl_cap_kbps :: "u64 option"
  in_service_ul_cap_kbps :: "u64 option"
  in_allow_sqm_disable :: bool
  in_allow_active_traffic :: bool
  in_traffic_budget :: traffic_policy
  in_traffic_policy_explicit :: bool
  in_traffic_plan :: "autotune_traffic_plan option"
  in_server_failure_retries :: "u8 option"

record live_request_context =
  ctx_target_interface :: string
  ctx_managed_sqm_section :: string
  ctx_configured_speedtest_backend :: string
  ctx_configured_dl_bound_kbps :: "u64 option"
  ctx_configured_ul_bound_kbps :: "u64 option"
  ctx_unshaped_dl_bound_kbps :: "u64 option"
  ctx_unshaped_ul_bound_kbps :: "u64 option"
  ctx_download_shaped :: bool
  ctx_upload_shaped :: bool
  ctx_route :: operation_route_identity
  ctx_route_fingerprint :: string
  ctx_config_fingerprint :: string
  ctx_sqm_fingerprint :: string

subsection \<open>Traffic a run needs\<close>

definition MIN_STABLE_SERVERS :: u64 where "MIN_STABLE_SERVERS = 2"
definition REPEATS :: u64 where "REPEATS = 3"
definition MIN_ROUTE_PROOF_BYTES :: u64 where "MIN_ROUTE_PROOF_BYTES = 64 * 1024"
definition MIN_DIRECTIONAL_LOAD_BYTES :: u64 where "MIN_DIRECTIONAL_LOAD_BYTES = 64 * 1024"

definition MIN_QUALIFICATION_TRAFFIC_BYTES :: u64 where
  "MIN_QUALIFICATION_TRAFFIC_BYTES = MIN_STABLE_SERVERS * REPEATS * 2 * MIN_ROUTE_PROOF_BYTES"

definition minimum_autotune_evidence_bytes :: u64 where
  "minimum_autotune_evidence_bytes = MIN_QUALIFICATION_TRAFFIC_BYTES + 4 * MIN_DIRECTIONAL_LOAD_BYTES"

definition validate_autotune_evidence_budget :: "traffic_policy \<Rightarrow> unit result" where
  "validate_autotune_evidence_budget policy =
     reject (\<not> traffic_allows policy minimum_autotune_evidence_bytes)
       (''Full Auto-Tune traffic allowance is insufficient: mandatory server comparison and initial control evidence alone require at least ''
        @ word_string minimum_autotune_evidence_bytes
        @ '' bytes total DL+UL. The complete run, retries and probes usually require more; choose a larger budget or Unlimited.'')"

text \<open>The 128-bit arithmetic of the stopping reserve.\<close>

definition traffic_stop_safety_reserve_bytes :: "u64 \<Rightarrow> u64 \<Rightarrow> u64" where
  "traffic_stop_safety_reserve_bytes download_bound_kbps upload_bound_kbps =
     (let aggregate_kbps = saturating_add (ucast download_bound_kbps :: 128 word) (ucast upload_bound_kbps);
          denominator = saturating_mul 8 100;
          variable = saturating_add (saturating_mul (saturating_mul aggregate_kbps 1000) 125) (denominator - 1)
                     div denominator;
          total = saturating_add variable (1024 * 1024)
      in if total < 2 ^ 64 then ucast total else - 1)"

definition validate_autotune_raw_traffic_authority ::
  "traffic_policy \<Rightarrow> calibration_strategy option \<Rightarrow> bool \<Rightarrow> u64 option \<Rightarrow> u64 option \<Rightarrow> unit result" where
  "validate_autotune_raw_traffic_authority policy strategy allow_sqm_disable download_cap upload_cap =
     (let missing = (\<lambda>c. case c of None \<Rightarrow> True | Some rate \<Rightarrow> \<not> rate > 0)
      in reject (policy \<noteq> Unlimited \<and> strategy = Some FullRaw \<and> allow_sqm_disable
                 \<and> (missing download_cap \<or> missing upload_cap))
           ''traffic-stop-authority-unavailable: capped raw Auto-Tune requires declared download and upload service ceilings to estimate its stopping reserve. The selected route has no verified physical rate bound. Configured shaping rates, observed throughput and planning-only estimates are not substitutes. Choose Unlimited explicitly, or provide actual service ceilings; do not invent ceilings to make the test start.'')"

definition validate_autotune_traffic_admission ::
  "traffic_policy \<Rightarrow> calibration_strategy option \<Rightarrow> bool \<Rightarrow> u64 option \<Rightarrow> u64 option \<Rightarrow> unit result" where
  "validate_autotune_traffic_admission policy strategy allow_sqm_disable download_cap upload_cap =
     and_then (validate_autotune_evidence_budget policy) (\<lambda>_.
     and_then (validate_autotune_raw_traffic_authority policy strategy allow_sqm_disable download_cap upload_cap) (\<lambda>_.
     if policy = Unlimited \<or> strategy \<noteq> Some FullRaw \<or> \<not> allow_sqm_disable then Ok ()
     else case (download_cap, upload_cap) of
       (Some download, Some upload) \<Rightarrow>
         let reserve = traffic_stop_safety_reserve_bytes download upload;
             minimum = checked_add reserve MIN_QUALIFICATION_TRAFFIC_BYTES;
             amount = (case minimum of None \<Rightarrow> ''more than the supported byte range'' | Some n \<Rightarrow> word_string n)
         in reject (case minimum of None \<Rightarrow> True | Some n \<Rightarrow> \<not> traffic_allows policy n)
              (''Full Auto-Tune traffic allowance is insufficient: raw server qualification alone requires at least ''
               @ amount @ '' bytes total DL+UL under the declared service ceilings, including '' @ word_string reserve
               @ '' bytes reserved for stopping and '' @ word_string MIN_QUALIFICATION_TRAFFIC_BYTES
               @ '' bytes of mandatory comparison evidence. The reserve is inside the selected total, not an additional quota or already-consumed traffic. Passing this lower bound does not guarantee that the full run fits. Choose a larger budget or Unlimited.'')
     | _ \<Rightarrow> Ok ()))"

definition planned_bytes :: "autotune_traffic_plan \<Rightarrow> u64" where
  "planned_bytes plan =
     (plan_download_kbps plan + plan_upload_kbps plan) * 15000 * (MIN_STABLE_SERVERS * REPEATS + 2) div 8"

definition validate_autotune_planning_budget :: "traffic_policy \<Rightarrow> autotune_traffic_plan \<Rightarrow> unit result" where
  "validate_autotune_planning_budget policy plan =
     and_then (plan_validate plan) (\<lambda>_.
     reject (\<not> traffic_allows policy (planned_bytes plan))
       (''Auto-Tune initial-stage planning allowance is '' @ word_string (planned_bytes plan)
        @ '' bytes total DL+UL at the supplied planning rates. Choose a larger budget or Unlimited. This planning estimate is not a physical lower bound and does not guarantee completion.''))"

subsection \<open>The intent\<close>

definition validate_intent :: "bool \<Rightarrow> autotune_launch_intent \<Rightarrow> unit result" where
  "validate_intent full intent =
     and_then (reject (in_backend intent \<noteq> ''speedtest-go'')
       ''native Full Auto-Tune currently requires speedtest-go'') (\<lambda>_.
     and_then (launch_route_spec full (in_route_mode intent) (in_mwan3_member intent)
                 (in_expected_target_interface intent) (in_explicit_route intent)) (\<lambda>_.
     and_then (traffic_validate (in_traffic_budget intent)) (\<lambda>_.
     and_then (case in_traffic_plan intent of
                 None \<Rightarrow> Ok ()
               | Some plan \<Rightarrow>
                   and_then (plan_validate plan) (\<lambda>_.
                   and_then (reject (\<not> in_traffic_policy_explicit intent)
                     ''planning rates require explicit traffic policy'') (\<lambda>_.
                   validate_autotune_planning_budget (in_traffic_budget intent) plan))) (\<lambda>_.
     and_then (reject (traffic_is_empty (in_traffic_budget intent))
       ''native Full Auto-Tune requires a non-zero traffic budget'') (\<lambda>_.
     and_then (reject (in_traffic_budget intent = Unlimited \<and> \<not> in_traffic_policy_explicit intent)
       ''unlimited launch requires explicit policy'') (\<lambda>_.
     and_then (validate_capacity_learning_service_caps (Some (in_capacity_learning_policy intent))
                 (in_service_dl_cap_kbps intent) (in_service_ul_cap_kbps intent)) (\<lambda>_.
     validate_autotune_traffic_admission (in_traffic_budget intent) (Some (in_strategy intent))
       (in_allow_sqm_disable intent) (in_service_dl_cap_kbps intent) (in_service_ul_cap_kbps intent))))))))"

definition parse_positive_u64 :: "string \<Rightarrow> string \<Rightarrow> u64 result" where
  "parse_positive_u64 value label =
     and_then (ok_or (from_str_radix 10 value) (label @ '' must be an unsigned integer'')) (\<lambda>parsed.
     and_then (reject (parsed = 0) (label @ '' must be positive'')) (\<lambda>_. Ok parsed))"

text \<open>The local variables of the flag parser.\<close>

record launch_args =
  la_instance :: "string option"
  la_expected_target :: "string option"
  la_backend :: "string option"
  la_route_mode :: "string option"
  la_mwan3_member :: "string option"
  la_explicit_route :: launch_route_fields
  la_profile :: "autotune_profile option"
  la_strategy :: "calibration_strategy option"
  la_access_medium :: "access_medium option"
  la_access_source :: "access_evidence_source option"
  la_access_confidence :: "u8 option"
  la_capacity_policy :: "capacity_learning_policy option"
  la_service_dl_cap :: "u64 option"
  la_service_ul_cap :: "u64 option"
  la_allow_sqm_disable :: bool
  la_allow_active_traffic :: bool
  la_traffic_budget :: "u64 option"
  la_traffic_policy :: "string option"
  la_planning_dl :: "u64 option"
  la_planning_ul :: "u64 option"
  la_retries :: "u8 option"

definition launch_args_default :: launch_args where
  "launch_args_default =
     \<lparr>la_instance = None, la_expected_target = None, la_backend = None, la_route_mode = None, la_mwan3_member = None,
      la_explicit_route = launch_fields_default, la_profile = None, la_strategy = None, la_access_medium = None,
      la_access_source = None, la_access_confidence = None, la_capacity_policy = None, la_service_dl_cap = None,
      la_service_ul_cap = None, la_allow_sqm_disable = False, la_allow_active_traffic = False,
      la_traffic_budget = None, la_traffic_policy = None, la_planning_dl = None, la_planning_ul = None,
      la_retries = None\<rparr>"

definition parse_confidence :: "string \<Rightarrow> u8 result" where
  "parse_confidence raw =
     and_then (ok_or (from_str_radix 10 raw) ''access confidence must be an integer'') (\<lambda>parsed.
     and_then (reject (parsed > 100) ''access confidence must be between 0 and 100'') (\<lambda>_. Ok parsed))"

definition parse_retries :: "string \<Rightarrow> u8 result" where
  "parse_retries raw =
     and_then (reject (raw = [] \<or> length raw > 2 \<or> \<not> list_all is_ascii_digit raw)
       ''--server-failure-retries must be a small integer'') (\<lambda>_.
     and_then (ok_or (from_str_radix 10 raw) ''--server-failure-retries must be a small integer'') (\<lambda>retries.
     and_then (reject (retries > MAX_SERVER_FAILURE_RETRIES)
       (''--server-failure-retries must be between 0 and '' @ word_string MAX_SERVER_FAILURE_RETRIES)) (\<lambda>_.
     Ok retries)))"

text \<open>The arms of the flag match that take a value: the action of the first arm that applies.\<close>

definition launch_flag :: "launch_args \<Rightarrow> string \<Rightarrow> (string \<Rightarrow> launch_args result) option" where
  "launch_flag a flag =
     (if flag = ''--instance'' \<and> la_instance a = None then Some (\<lambda>v. Ok (a\<lparr>la_instance := Some v\<rparr>))
      else if flag = ''--expected-target'' \<and> la_expected_target a = None
      then Some (\<lambda>v. Ok (a\<lparr>la_expected_target := Some v\<rparr>))
      else if flag = ''--backend'' \<and> la_backend a = None then Some (\<lambda>v. Ok (a\<lparr>la_backend := Some v\<rparr>))
      else if flag = ''--route-mode'' \<and> la_route_mode a = None then Some (\<lambda>v. Ok (a\<lparr>la_route_mode := Some v\<rparr>))
      else if flag = ''--mwan3-member'' \<and> la_mwan3_member a = None
      then Some (\<lambda>v. Ok (a\<lparr>la_mwan3_member := Some v\<rparr>))
      else if launch_field_index flag \<noteq> None
      then Some (\<lambda>v. and_then (launch_fields_set (la_explicit_route a) flag v) (\<lambda>fs.
                     Ok (a\<lparr>la_explicit_route := fs\<rparr>)))
      else if flag = ''--profile'' \<and> la_profile a = None
      then Some (\<lambda>v. and_then (ok_or (autotune_profile_parse v) ''unsupported native Auto-Tune profile'') (\<lambda>x.
                     Ok (a\<lparr>la_profile := Some x\<rparr>)))
      else if flag = ''--strategy'' \<and> la_strategy a = None
      then Some (\<lambda>v. and_then (ok_or (calibration_strategy_parse v) ''unsupported native calibration strategy'') (\<lambda>x.
                     Ok (a\<lparr>la_strategy := Some x\<rparr>)))
      else if flag = ''--access-medium'' \<and> la_access_medium a = None
      then Some (\<lambda>v. and_then (ok_or (access_medium_parse v) ''unsupported native access medium'') (\<lambda>x.
                     Ok (a\<lparr>la_access_medium := Some x\<rparr>)))
      else if flag = ''--access-source'' \<and> la_access_source a = None
      then Some (\<lambda>v. and_then (ok_or (access_evidence_source_parse v) ''unsupported native access evidence source'') (\<lambda>x.
                     Ok (a\<lparr>la_access_source := Some x\<rparr>)))
      else if flag = ''--access-confidence-percent'' \<and> la_access_confidence a = None
      then Some (\<lambda>v. and_then (parse_confidence v) (\<lambda>x. Ok (a\<lparr>la_access_confidence := Some x\<rparr>)))
      else if flag = ''--capacity-learning-policy'' \<and> la_capacity_policy a = None
      then Some (\<lambda>v. and_then (ok_or (capacity_learning_policy_parse v) ''unsupported capacity learning policy'') (\<lambda>x.
                     Ok (a\<lparr>la_capacity_policy := Some x\<rparr>)))
      else if flag = ''--service-dl-cap-kbps'' \<and> la_service_dl_cap a = None
      then Some (\<lambda>v. and_then (parse_positive_u64 v flag) (\<lambda>x. Ok (a\<lparr>la_service_dl_cap := Some x\<rparr>)))
      else if flag = ''--service-ul-cap-kbps'' \<and> la_service_ul_cap a = None
      then Some (\<lambda>v. and_then (parse_positive_u64 v flag) (\<lambda>x. Ok (a\<lparr>la_service_ul_cap := Some x\<rparr>)))
      else if flag = ''--planning-dl-kbps'' \<and> la_planning_dl a = None
      then Some (\<lambda>v. and_then (parse_positive_u64 v flag) (\<lambda>x. Ok (a\<lparr>la_planning_dl := Some x\<rparr>)))
      else if flag = ''--planning-ul-kbps'' \<and> la_planning_ul a = None
      then Some (\<lambda>v. and_then (parse_positive_u64 v flag) (\<lambda>x. Ok (a\<lparr>la_planning_ul := Some x\<rparr>)))
      else if flag = ''--server-failure-retries'' \<and> la_retries a = None
      then Some (\<lambda>v. and_then (parse_retries v) (\<lambda>x. Ok (a\<lparr>la_retries := Some x\<rparr>)))
      else if flag = ''--traffic-budget-bytes'' \<and> la_traffic_budget a = None
      then Some (\<lambda>v. and_then (parse_positive_u64 v flag) (\<lambda>x. Ok (a\<lparr>la_traffic_budget := Some x\<rparr>)))
      else if flag = ''--traffic-policy'' \<and> la_traffic_policy a = None
      then Some (\<lambda>v. and_then (reject (v \<noteq> ''capped'' \<and> v \<noteq> ''unlimited'')
                       ''--traffic-policy must be capped or unlimited'') (\<lambda>_.
                     Ok (a\<lparr>la_traffic_policy := Some v\<rparr>)))
      else None)"

fun parse_launch_flags :: "launch_args \<Rightarrow> string list \<Rightarrow> launch_args result" where
  "parse_launch_flags a [] = Ok a"
| "parse_launch_flags a (flag # args) =
     (case launch_flag a flag of
        Some action \<Rightarrow>
          (case args of
             [] \<Rightarrow> Err (flag @ '' requires a non-empty value'')
           | v # rest \<Rightarrow>
               if v = [] then Err (flag @ '' requires a non-empty value'')
               else and_then (action v) (\<lambda>a. parse_launch_flags a rest))
      | None \<Rightarrow>
          if flag = ''--allow-sqm-disable'' \<and> \<not> la_allow_sqm_disable a
          then parse_launch_flags (a\<lparr>la_allow_sqm_disable := True\<rparr>) args
          else if flag = ''--allow-active-traffic'' \<and> \<not> la_allow_active_traffic a
          then parse_launch_flags (a\<lparr>la_allow_active_traffic := True\<rparr>) args
          else Err (''unsupported or duplicate native launch option: '' @ flag))"

definition launch_budget :: "launch_args \<Rightarrow> traffic_policy result" where
  "launch_budget a =
     (if la_traffic_policy a = Some ''unlimited'' then
        (if la_traffic_budget a = None then Ok Unlimited
         else Err ''unlimited policy must not also set --traffic-budget-bytes'')
      else and_then (ok_or (la_traffic_budget a) ''--traffic-budget-bytes is required for capped traffic'') (\<lambda>b.
           Ok (Capped b)))"

definition launch_plan :: "launch_args \<Rightarrow> autotune_traffic_plan option result" where
  "launch_plan a =
     (case (la_planning_dl a, la_planning_ul a) of
        (None, None) \<Rightarrow> Ok None
      | (Some dl, Some ul) \<Rightarrow> Ok (Some \<lparr>plan_download_kbps = dl, plan_upload_kbps = ul\<rparr>)
      | _ \<Rightarrow> Err ''both planning download and upload rates are required'')"

definition launch_args_intent :: "launch_args \<Rightarrow> autotune_launch_intent result" where
  "launch_args_intent a =
     and_then (ok_or (la_instance a) ''--instance is required'') (\<lambda>instance_v.
     and_then (ok_or (la_expected_target a) ''--expected-target is required'') (\<lambda>target.
     and_then (ok_or (la_backend a) ''--backend is required'') (\<lambda>backend.
     and_then (ok_or (la_route_mode a) ''--route-mode is required'') (\<lambda>route_mode.
     and_then (launch_fields_finish (la_explicit_route a) route_mode) (\<lambda>explicit_route.
     and_then (ok_or (la_profile a) ''--profile is required'') (\<lambda>profile.
     and_then (ok_or (la_strategy a) ''--strategy is required'') (\<lambda>strategy.
     and_then (ok_or (la_access_medium a) ''--access-medium is required'') (\<lambda>medium.
     and_then (ok_or (la_access_source a) ''--access-source is required'') (\<lambda>source.
     and_then (ok_or (la_access_confidence a) ''--access-confidence-percent is required'') (\<lambda>confidence.
     and_then (ok_or (la_capacity_policy a) ''--capacity-learning-policy is required'') (\<lambda>policy.
     and_then (launch_budget a) (\<lambda>budget.
     and_then (launch_plan a) (\<lambda>plan.
     Ok \<lparr>in_explicit_route = explicit_route, in_instance = instance_v, in_expected_target_interface = target,
        in_backend = backend, in_route_mode = route_mode,
        in_mwan3_member = (case la_mwan3_member a of None \<Rightarrow> [] | Some m \<Rightarrow> m), in_profile = profile,
        in_strategy = strategy, in_access_medium = medium, in_access_source = source,
        in_access_confidence_percent = confidence, in_capacity_learning_policy = policy,
        in_service_dl_cap_kbps = la_service_dl_cap a, in_service_ul_cap_kbps = la_service_ul_cap a,
        in_allow_sqm_disable = la_allow_sqm_disable a, in_allow_active_traffic = la_allow_active_traffic a,
        in_traffic_budget = budget, in_traffic_policy_explicit = (la_traffic_policy a \<noteq> None),
        in_traffic_plan = plan, in_server_failure_retries = la_retries a\<rparr>)))))))))))))"

definition parse_launch_intent :: "bool \<Rightarrow> string list \<Rightarrow> autotune_launch_intent result" where
  "parse_launch_intent full args =
     and_then (parse_launch_flags launch_args_default args) (\<lambda>a.
     and_then (launch_args_intent a) (\<lambda>intent.
     and_then (validate_intent full intent) (\<lambda>_. Ok intent)))"

subsection \<open>The request\<close>

text \<open>The greater of two optional values, with no value below every value.\<close>

definition option_max :: "u64 option \<Rightarrow> u64 option \<Rightarrow> u64 option" where
  "option_max a b =
     (case (a, b) of (None, _) \<Rightarrow> b | (Some x, None) \<Rightarrow> Some x | (Some x, Some y) \<Rightarrow> Some (max x y))"

definition launch_traffic_plan ::
  "autotune_launch_intent \<Rightarrow> operation_origin \<Rightarrow> u64 option \<Rightarrow> u64 option \<Rightarrow> autotune_traffic_plan option result" where
  "launch_traffic_plan intent origin configured_dl_kbps configured_ul_kbps =
     (let plan =
            (if in_traffic_plan intent = None \<and> in_traffic_policy_explicit intent
                \<and> in_traffic_budget intent \<noteq> Unlimited \<and> origin \<noteq> Scheduler
             then case (option_max (in_service_dl_cap_kbps intent) configured_dl_kbps,
                        option_max (in_service_ul_cap_kbps intent) configured_ul_kbps) of
                    (Some dl, Some ul) \<Rightarrow> Some \<lparr>plan_download_kbps = dl, plan_upload_kbps = ul\<rparr>
                  | _ \<Rightarrow> in_traffic_plan intent
             else in_traffic_plan intent)
      in and_then (case plan of
                     None \<Rightarrow> Ok ()
                   | Some p \<Rightarrow> validate_autotune_planning_budget (in_traffic_budget intent) p) (\<lambda>_. Ok plan))"

definition request_of ::
  "autotune_launch_intent \<Rightarrow> live_request_context \<Rightarrow> string \<Rightarrow> string \<Rightarrow> u64 \<Rightarrow> u64 \<Rightarrow> operation_origin \<Rightarrow> bool
     \<Rightarrow> autotune_traffic_plan option \<Rightarrow> operation_request" where
  "request_of intent ctx job_id job_token created_unix_ms deadline_unix_ms origin auto_apply plan =
     \<lparr>rq_identity = \<lparr>id_job_id = job_id, id_job_token = job_token, id_instance = in_instance intent,
        id_operation = FullAutotune, id_target_interface = ctx_target_interface ctx,
        id_route_fingerprint = ctx_route_fingerprint ctx, id_config_fingerprint = ctx_config_fingerprint ctx,
        id_sqm_fingerprint = ctx_sqm_fingerprint ctx\<rparr>,
      rq_created_unix_ms = created_unix_ms, rq_deadline_unix_ms = deadline_unix_ms, rq_origin = origin,
      rq_backend = in_backend intent, rq_speedtest_direction = None, rq_speedtest_server_id = None,
      rq_speedtest_topology = None, rq_route = ctx_route ctx, rq_target_state = ExistingManaged,
      rq_capture_policy = None, rq_managed_sqm_section = Some (ctx_managed_sqm_section ctx),
      rq_profile = Some (in_profile intent), rq_strategy = Some (in_strategy intent),
      rq_access_medium = Some (in_access_medium intent), rq_access_source = Some (in_access_source intent),
      rq_access_confidence_percent = in_access_confidence_percent intent,
      rq_capacity_learning_policy = Some (in_capacity_learning_policy intent),
      rq_service_dl_cap_kbps = in_service_dl_cap_kbps intent, rq_service_ul_cap_kbps = in_service_ul_cap_kbps intent,
      rq_allow_sqm_disable = in_allow_sqm_disable intent, rq_allow_active_traffic = in_allow_active_traffic intent,
      rq_scheduled_auto_apply_requested = auto_apply, rq_traffic_budget = in_traffic_budget intent,
      rq_traffic_policy_explicit = in_traffic_policy_explicit intent, rq_traffic_plan = plan,
      rq_server_failure_retries = in_server_failure_retries intent\<rparr>"

definition build_request ::
  "bool \<Rightarrow> autotune_launch_intent \<Rightarrow> live_request_context \<Rightarrow> string \<Rightarrow> string \<Rightarrow> u64 \<Rightarrow> operation_origin \<Rightarrow> bool
     \<Rightarrow> operation_request result" where
  "build_request full intent ctx job_id job_token created_unix_ms origin auto_apply =
     and_then (launch_traffic_plan intent origin (ctx_configured_dl_bound_kbps ctx) (ctx_configured_ul_bound_kbps ctx))
       (\<lambda>plan.
     and_then (match_launch_route full (in_route_mode intent) (in_mwan3_member intent)
                 (in_expected_target_interface intent) (in_explicit_route intent) (ctx_route ctx)) (\<lambda>_.
     and_then (ok_or (checked_add created_unix_ms NATIVE_AUTOTUNE_DEADLINE_MS) ''native Auto-Tune deadline overflow'')
       (\<lambda>deadline_unix_ms.
     let request = request_of intent ctx job_id job_token created_unix_ms deadline_unix_ms origin auto_apply plan
     in and_then (request_validate request) (\<lambda>_. Ok request))))"

text \<open>\<open>build_live_autotune_request_for_origin\<close>: the attested context, the clock and the random identifiers are
  results of system calls.\<close>

definition build_live_request ::
  "bool \<Rightarrow> autotune_launch_intent \<Rightarrow> live_request_context result \<Rightarrow> u64 result \<Rightarrow> string result \<Rightarrow> string result
     \<Rightarrow> string result \<Rightarrow> operation_origin \<Rightarrow> bool \<Rightarrow> operation_request result" where
  "build_live_request full intent context clock job_id token_a token_b origin auto_apply =
     and_then (validate_intent full intent) (\<lambda>_.
     and_then context (\<lambda>ctx.
     and_then clock (\<lambda>created_unix_ms.
     and_then job_id (\<lambda>job_id.
     and_then token_a (\<lambda>token_a.
     and_then token_b (\<lambda>token_b.
     build_request full intent ctx job_id (token_a @ token_b) created_unix_ms origin auto_apply))))))"

end
