(* ===== verification/Scheduler_Config.thy ===== *)
theory Scheduler_Config
  imports Scheduler_Text Launch_Intent
begin

text \<open>
  The scheduler's policy (\<open>operations/scheduler_config.rs\<close>): the text of \<open>uci show\<close> is read into sections,
  every section of the right kind becomes a typed instance configuration or an issue, and the reader
  keeps the last policy while the files it was read from do not change. The output of \<open>uci\<close> and the
  identities of the files are arguments.
\<close>

section \<open>Definitions\<close>

subsection \<open>Typed configuration\<close>

record scheduled_instance_config =
  sc_instance :: string
  sc_instance_enabled :: bool
  sc_scheduled_enabled :: bool
  sc_interval_s :: u64
  sc_idle_window_s :: u64
  sc_window_start_hour :: u8
  sc_window_end_hour :: u8
  sc_daily_limit_bytes :: u64
  sc_monthly_limit_bytes :: u64
  sc_auto_apply :: bool
  sc_active_threshold_kbps :: u64
  sc_expected_target_interface :: string
  sc_backend :: string
  sc_route_mode :: string
  sc_explicit_route :: "explicit_launch_route option"
  sc_mwan3_member :: string
  sc_profile :: autotune_profile
  sc_strategy :: calibration_strategy
  sc_access_medium :: access_medium
  sc_access_source :: access_evidence_source
  sc_access_confidence_percent :: u8
  sc_capacity_learning_policy :: capacity_learning_policy
  sc_service_dl_cap_kbps :: "u64 option"
  sc_service_ul_cap_kbps :: "u64 option"

definition config_enabled :: "scheduled_instance_config \<Rightarrow> bool" where
  "config_enabled cfg = (sc_instance_enabled cfg \<and> sc_scheduled_enabled cfg)"

definition MAX_UCI_BYTES :: nat where "MAX_UCI_BYTES = 256 * 1024"
definition MAX_SCHEDULED_INSTANCES :: nat where "MAX_SCHEDULED_INSTANCES = 64"
definition MIB :: u64 where "MIB = 1024 * 1024"
definition MAX_OPERATION_TRAFFIC_BUDGET_BYTES :: u64 where "MAX_OPERATION_TRAFFIC_BUDGET_BYTES = 1099511627776"

definition launch_intent :: "scheduled_instance_config \<Rightarrow> u64 \<Rightarrow> autotune_launch_intent result" where
  "launch_intent cfg traffic_budget =
     and_then (reject (traffic_budget = 0 \<or> traffic_budget > MAX_OPERATION_TRAFFIC_BUDGET_BYTES)
       ''scheduled launch traffic budget is outside the exact range'') (\<lambda>_.
     Ok \<lparr>in_explicit_route = sc_explicit_route cfg, in_instance = sc_instance cfg,
        in_expected_target_interface = sc_expected_target_interface cfg, in_backend = sc_backend cfg,
        in_route_mode = sc_route_mode cfg, in_mwan3_member = sc_mwan3_member cfg, in_profile = sc_profile cfg,
        in_strategy = sc_strategy cfg, in_access_medium = sc_access_medium cfg,
        in_access_source = sc_access_source cfg,
        in_access_confidence_percent = sc_access_confidence_percent cfg,
        in_capacity_learning_policy = sc_capacity_learning_policy cfg,
        in_service_dl_cap_kbps = sc_service_dl_cap_kbps cfg, in_service_ul_cap_kbps = sc_service_ul_cap_kbps cfg,
        in_allow_sqm_disable = (sc_strategy cfg = FullRaw), in_allow_active_traffic = False,
        in_traffic_budget = Capped traffic_budget, in_traffic_policy_explicit = True,
        in_traffic_plan = None, in_server_failure_retries = None\<rparr>)"

record scheduler_config_issue =
  issue_instance :: string
  issue_message :: string

record scheduler_config_snapshot =
  snap_instances :: "scheduled_instance_config list"
  snap_issues :: "scheduler_config_issue list"

subsection \<open>Scalars\<close>

text \<open>The variables of the loop of \<open>parse_scalar\<close>; a character is given by its bytes.\<close>

record scalar_state =
  sca_value :: string
  sca_quoted :: bool
  sca_escaped :: bool
  sca_started :: bool
  sca_ended :: bool

definition scalar_char :: "scalar_state \<Rightarrow> string \<Rightarrow> scalar_state result" where
  "scalar_char s ch =
     (if sca_escaped s then Ok (s\<lparr>sca_value := sca_value s @ ch, sca_escaped := False, sca_started := True\<rparr>)
      else if ch = [CHR 0x5C] then Ok (s\<lparr>sca_escaped := True, sca_started := True\<rparr>)
      else if ch = [CHR 0x27] then Ok (s\<lparr>sca_quoted := \<not> sca_quoted s, sca_started := True\<rparr>)
      else if is_whitespace ch \<and> \<not> sca_quoted s
      then Ok (if sca_started s then s\<lparr>sca_ended := True\<rparr> else s)
      else if sca_ended s then Err ''scheduled UCI option contains multiple values''
      else Ok (s\<lparr>sca_value := sca_value s @ ch, sca_started := True\<rparr>))"

fun scalar_scan :: "scalar_state \<Rightarrow> string list \<Rightarrow> scalar_state result" where
  "scalar_scan s [] = Ok s"
| "scalar_scan s (ch # chs) = and_then (scalar_char s ch) (\<lambda>s. scalar_scan s chs)"

definition parse_scalar :: "string \<Rightarrow> string result" where
  "parse_scalar raw =
     and_then (scalar_scan \<lparr>sca_value = [], sca_quoted = False, sca_escaped = False, sca_started = False,
                            sca_ended = False\<rparr> (trim_chars raw)) (\<lambda>s.
     and_then (reject (\<not> sca_started s \<or> sca_quoted s \<or> sca_escaped s) ''scheduled UCI scalar is incomplete'') (\<lambda>_.
     Ok (sca_value s)))"

subsection \<open>Sections\<close>

text \<open>An ordered map as a list sorted by its keys: \<open>entry(k).or_default()\<close> followed by a change.\<close>

fun entry_update :: "'k::linorder \<Rightarrow> 'v \<Rightarrow> ('v \<Rightarrow> 'v) \<Rightarrow> ('k \<times> 'v) list \<Rightarrow> ('k \<times> 'v) list" where
  "entry_update k d f [] = [(k, f d)]"
| "entry_update k d f ((a, b) # ps) =
     (if k < a then (k, f d) # (a, b) # ps
      else if k = a then (a, f b) # ps
      else (a, b) # entry_update k d f ps)"

record raw_section =
  sec_kind :: "string option"
  sec_options :: "(string \<times> string list) list"
  sec_unknown_scheduler_options :: "string list"

definition raw_section_default :: raw_section where
  "raw_section_default = \<lparr>sec_kind = None, sec_options = [], sec_unknown_scheduler_options = []\<rparr>"

definition RELEVANT_OPTIONS :: "string list" where
  "RELEVANT_OPTIONS =
     [''enabled'', ''scheduled_autotune_enabled'', ''scheduled_autotune_interval_hours'',
      ''scheduled_autotune_idle_window_s'', ''scheduled_autotune_window_start_hour'',
      ''scheduled_autotune_window_end_hour'', ''scheduled_autotune_max_traffic_mb_day'',
      ''scheduled_autotune_max_traffic_mb_month'', ''scheduled_autotune_auto_apply'',
      ''connection_active_thr_kbps'', ''sqm_interface'', ''wan_if'', ''ul_if'', ''auto_interface_preset'',
      ''route_mode'', ''mwan3_member'', ''route_source_ipv4'', ''route_table'', ''route_fwmark'',
      ''route_fwmark_mask'', ''route_dns_ipv4'', ''autotune_profile'', ''autotune_calibration_strategy'',
      ''speedtest_backend'', ''access_medium'', ''access_medium_source'', ''access_medium_confidence_percent'',
      ''capacity_learning_policy'', ''runtime_learning_mode'', ''adaptive_ceiling_enabled'',
      ''service_dl_cap_kbps'', ''service_ul_cap_kbps'']"

type_synonym uci_sections = "(string \<times> raw_section) list"

definition uci_option ::
  "uci_sections \<Rightarrow> string \<Rightarrow> string option \<Rightarrow> string \<Rightarrow> uci_sections result" where
  "uci_option sections inst opt raw_value =
     (let current = (case map_of sections inst of None \<Rightarrow> raw_section_default | Some s \<Rightarrow> s);
          store = (\<lambda>f. Ok (entry_update inst raw_section_default f sections))
      in case opt of
           None \<Rightarrow>
             and_then (reject (sec_kind current \<noteq> None) (''UCI section '' @ inst @ '' has a duplicate type'')) (\<lambda>_.
             and_then (parse_scalar raw_value) (\<lambda>kind. store (\<lambda>s. s\<lparr>sec_kind := Some kind\<rparr>)))
         | Some opt \<Rightarrow>
             if opt \<in> set RELEVANT_OPTIONS then
               and_then (reject (\<not> list_all (\<lambda>b. is_ascii_alphanumeric b \<or> b = CHR ''_'') opt)
                 (''UCI option '' @ opt @ '' is invalid'')) (\<lambda>_.
               store (\<lambda>s. s\<lparr>sec_options := entry_update opt [] (\<lambda>vs. vs @ [raw_value]) (sec_options s)\<rparr>))
             else if starts_with opt ''scheduled_autotune_''
             then store (\<lambda>s. s\<lparr>sec_unknown_scheduler_options := sec_unknown_scheduler_options s @ [opt]\<rparr>)
             else store (\<lambda>s. s))"

definition uci_line :: "uci_sections \<Rightarrow> nat \<Rightarrow> string \<Rightarrow> uci_sections result" where
  "uci_line sections index line =
     (let at_line = ''UCI line '' @ nat_string (index + 1)
      in if line = [] then Ok sections
         else and_then (ok_or (split_once CHR ''='' line) (at_line @ '' has no value'')) (\<lambda>(left, raw_value).
              case split_char CHR ''.'' left of
                package # path \<Rightarrow>
                  and_then (reject (package \<noteq> ''cake-autorate'') (at_line @ '' belongs to another package'')) (\<lambda>_.
                  case path of
                    [] \<Rightarrow> Err (at_line @ '' has no section'')
                  | inst # opts \<Rightarrow>
                      and_then (validate_scheduler_instance inst) (\<lambda>_.
                      and_then (reject (length opts > 1) (at_line @ '' has an invalid path'')) (\<lambda>_.
                      uci_option sections inst (case opts of [] \<Rightarrow> None | opt # _ \<Rightarrow> Some opt) raw_value)))
              | [] \<Rightarrow> Err (at_line @ '' belongs to another package'')))"

fun uci_lines :: "uci_sections \<Rightarrow> nat \<Rightarrow> string list \<Rightarrow> uci_sections result" where
  "uci_lines sections index [] = Ok sections"
| "uci_lines sections index (line # ls) =
     and_then (uci_line sections index line) (\<lambda>sections. uci_lines sections (index + 1) ls)"

subsection \<open>One instance\<close>

type_synonym uci_values = "(string \<times> string) list"

fun scalar_options :: "(string \<times> string list) list \<Rightarrow> uci_values result" where
  "scalar_options [] = Ok []"
| "scalar_options ((name, raw_values) # opts) =
     (case raw_values of
        [raw] \<Rightarrow>
          and_then (parse_scalar raw) (\<lambda>v.
          and_then (scalar_options opts) (\<lambda>rest. Ok ((name, v) # rest)))
      | _ \<Rightarrow> Err (''scheduled UCI option '' @ name @ '' is duplicated''))"

definition uci_boolean :: "uci_values \<Rightarrow> string \<Rightarrow> bool \<Rightarrow> bool result" where
  "uci_boolean vals name dflt =
     (case map_of vals name of
        None \<Rightarrow> Ok dflt
      | Some v \<Rightarrow>
          if v = ''0'' then Ok False else if v = ''1'' then Ok True
          else Err (''scheduled UCI option '' @ name @ '' is not boolean''))"

definition uci_text :: "uci_values \<Rightarrow> string \<Rightarrow> string \<Rightarrow> string" where
  "uci_text vals name dflt = (case map_of vals name of None \<Rightarrow> dflt | Some v \<Rightarrow> v)"

definition bounded_u64 :: "uci_values \<Rightarrow> string \<Rightarrow> u64 \<Rightarrow> u64 \<Rightarrow> u64 \<Rightarrow> u64 result" where
  "bounded_u64 vals name dflt minimum maximum =
     (case map_of vals name of
        None \<Rightarrow> Ok dflt
      | Some raw \<Rightarrow>
          and_then (reject (raw = [] \<or> length raw > 1 \<and> starts_with raw ''0'')
            (''scheduled UCI option '' @ name @ '' is not canonical'')) (\<lambda>_.
          and_then (ok_or (from_str_radix 10 raw)
            (''scheduled UCI option '' @ name @ '' is not an unsigned integer'')) (\<lambda>v.
          and_then (reject (\<not> (minimum \<le> v \<and> v \<le> maximum))
            (''scheduled UCI option '' @ name @ '' is outside its bounds'')) (\<lambda>_.
          Ok v))))"

definition mb_limit :: "uci_values \<Rightarrow> string \<Rightarrow> u64 \<Rightarrow> u64 result" where
  "mb_limit vals name dflt =
     and_then (bounded_u64 vals name dflt 100 1048576) (\<lambda>v.
     ok_or (case checked_mul v MIB of
              Some b \<Rightarrow> if b \<le> MAX_EXACT_BYTES then Some b else None
            | None \<Rightarrow> None) (''scheduled UCI option '' @ name @ '' overflows bytes''))"

definition optional_rate :: "uci_values \<Rightarrow> string \<Rightarrow> u64 option result" where
  "optional_rate vals name =
     (if map_of vals name = None then Ok None
      else and_then (bounded_u64 vals name 0 100 100000000) (\<lambda>v. Ok (Some v)))"

definition resolve_capacity_policy :: "uci_values \<Rightarrow> capacity_learning_policy result" where
  "resolve_capacity_policy vals =
     and_then (ok_or (map_of vals ''capacity_learning_policy'') ''scheduled capacity learning policy is missing'') (\<lambda>v.
     ok_or (capacity_learning_policy_parse v) ''scheduled capacity learning policy is invalid'')"

text \<open>The launch fields of an explicit route, in the order of the loop.\<close>

fun explicit_fields :: "uci_values \<Rightarrow> (string \<times> string) list \<Rightarrow> launch_route_fields \<Rightarrow> launch_route_fields result" where
  "explicit_fields vals [] fs = Ok fs"
| "explicit_fields vals ((opt, flag) # rest) fs =
     (case map_of vals opt of
        None \<Rightarrow> explicit_fields vals rest fs
      | Some v \<Rightarrow>
          if v = [] then explicit_fields vals rest fs
          else and_then (launch_fields_set fs flag v) (\<lambda>fs. explicit_fields vals rest fs))"

definition scheduled_explicit_route :: "uci_values \<Rightarrow> string \<Rightarrow> explicit_launch_route option result" where
  "scheduled_explicit_route vals route_mode =
     (if route_mode = ''explicit'' then
        and_then (explicit_fields vals
          [(''route_source_ipv4'', ''--route-source-ipv4''), (''route_table'', ''--route-table''),
           (''route_fwmark'', ''--route-fwmark''), (''route_fwmark_mask'', ''--route-fwmark-mask''),
           (''route_dns_ipv4'', ''--route-dns-ipv4'')] launch_fields_default) (\<lambda>fs.
        and_then (launch_fields_finish fs route_mode) (\<lambda>finished.
        and_then (ok_or finished ''scheduled explicit route authority is incomplete'') (\<lambda>route.
        Ok (Some route))))
      else Ok None)"

definition scheduled_target :: "uci_values \<Rightarrow> bool \<Rightarrow> string" where
  "scheduled_target vals auto_interface =
     (let configured_target = uci_text vals ''sqm_interface'' ''''; wan_if = uci_text vals ''wan_if'' ''''
      in if configured_target \<noteq> [] then configured_target
         else if auto_interface \<and> wan_if \<noteq> [] then wan_if
         else uci_text vals ''ul_if'' ''wan'')"

text \<open>The numeric and boolean options that come first.\<close>

record scheduled_numbers =
  num_instance_enabled :: bool
  num_scheduled_enabled :: bool
  num_interval_s :: u64
  num_idle_window_s :: u64
  num_window_start_hour :: u8
  num_window_end_hour :: u8
  num_daily_limit_bytes :: u64
  num_monthly_limit_bytes :: u64
  num_auto_apply :: bool
  num_active_threshold_kbps :: u64

definition parse_numbers :: "uci_values \<Rightarrow> scheduled_numbers result" where
  "parse_numbers vals =
     and_then (uci_boolean vals ''enabled'' False) (\<lambda>instance_enabled.
     and_then (uci_boolean vals ''scheduled_autotune_enabled'' False) (\<lambda>scheduled_enabled.
     and_then (bounded_u64 vals ''scheduled_autotune_interval_hours'' 24 1 8760) (\<lambda>interval_hours.
     and_then (ok_or (checked_mul interval_hours 3600) ''scheduled interval overflows seconds'') (\<lambda>interval_s.
     and_then (bounded_u64 vals ''scheduled_autotune_idle_window_s'' 60 30 3600) (\<lambda>idle_window_s.
     and_then (bounded_u64 vals ''scheduled_autotune_window_start_hour'' 2 0 23) (\<lambda>window_start.
     and_then (bounded_u64 vals ''scheduled_autotune_window_end_hour'' 5 0 23) (\<lambda>window_end.
     and_then (mb_limit vals ''scheduled_autotune_max_traffic_mb_day'' 4096) (\<lambda>daily.
     and_then (mb_limit vals ''scheduled_autotune_max_traffic_mb_month'' 16384) (\<lambda>monthly.
     and_then (uci_boolean vals ''scheduled_autotune_auto_apply'' False) (\<lambda>auto_apply.
     and_then (bounded_u64 vals ''connection_active_thr_kbps'' 2000 1 100000000) (\<lambda>threshold.
     Ok \<lparr>num_instance_enabled = instance_enabled, num_scheduled_enabled = scheduled_enabled,
        num_interval_s = interval_s, num_idle_window_s = idle_window_s, num_window_start_hour = ucast window_start,
        num_window_end_hour = ucast window_end, num_daily_limit_bytes = daily, num_monthly_limit_bytes = monthly,
        num_auto_apply = auto_apply, num_active_threshold_kbps = threshold\<rparr>)))))))))))"

text \<open>The options of the calibration, after the route.\<close>

record scheduled_terms =
  trm_backend :: string
  trm_profile :: autotune_profile
  trm_strategy :: calibration_strategy
  trm_access_medium :: access_medium
  trm_access_source :: access_evidence_source
  trm_access_confidence_percent :: u8
  trm_capacity_learning_policy :: capacity_learning_policy
  trm_service_dl_cap_kbps :: "u64 option"
  trm_service_ul_cap_kbps :: "u64 option"

definition parse_terms :: "uci_values \<Rightarrow> bool \<Rightarrow> scheduled_terms result" where
  "parse_terms vals scheduled_enabled =
     (let backend = uci_text vals ''speedtest_backend'' ''auto''
      in and_then (reject (backend \<noteq> ''auto'' \<and> backend \<noteq> ''speedtest-go'')
           (''native scheduled Auto-Tune does not support backend '' @ backend)) (\<lambda>_.
         and_then (ok_or (autotune_profile_parse (uci_text vals ''autotune_profile'' ''best_overall''))
           ''scheduled Auto-Tune profile is invalid'') (\<lambda>profile.
         and_then (ok_or (calibration_strategy_parse (uci_text vals ''autotune_calibration_strategy'' ''shaped_only''))
           ''scheduled calibration strategy is invalid'') (\<lambda>strategy.
         and_then (ok_or (access_medium_parse (uci_text vals ''access_medium'' ''unknown''))
           ''scheduled access medium is invalid'') (\<lambda>medium.
         and_then (ok_or (access_evidence_source_parse (uci_text vals ''access_medium_source'' ''legacy_default''))
           ''scheduled access evidence source is invalid'') (\<lambda>source.
         and_then (bounded_u64 vals ''access_medium_confidence_percent'' 0 0 100) (\<lambda>confidence.
         and_then (resolve_capacity_policy vals) (\<lambda>policy.
         and_then (reject (scheduled_enabled \<and> policy \<noteq> ScheduledActive)
           ''scheduled calibration is enabled but runtime capacity policy is not scheduled_active'') (\<lambda>_.
         and_then (optional_rate vals ''service_dl_cap_kbps'') (\<lambda>dl.
         and_then (optional_rate vals ''service_ul_cap_kbps'') (\<lambda>ul.
         and_then (reject (policy = FixedCap \<and> (dl = None \<or> ul = None)) ''fixed_cap requires both service rate caps'') (\<lambda>_.
         Ok \<lparr>trm_backend = ''speedtest-go'', trm_profile = (if profile = GamingExtreme then Gaming else profile),
            trm_strategy = strategy, trm_access_medium = medium, trm_access_source = source,
            trm_access_confidence_percent = ucast confidence, trm_capacity_learning_policy = policy,
            trm_service_dl_cap_kbps = dl, trm_service_ul_cap_kbps = ul\<rparr>))))))))))))"

fun join_text :: "string list \<Rightarrow> string" where
  "join_text [] = []"
| "join_text [s] = s"
| "join_text (s # ss) = s @ '', '' @ join_text ss"

definition parse_instance :: "bool \<Rightarrow> string \<Rightarrow> raw_section \<Rightarrow> scheduled_instance_config result" where
  "parse_instance full inst section =
     and_then (reject (sec_unknown_scheduler_options section \<noteq> [])
       (''unknown scheduled Auto-Tune option(s): ''
        @ join_text (sec_unknown_scheduler_options section))) (\<lambda>_.
     and_then (scalar_options (sec_options section)) (\<lambda>vals.
     and_then (parse_numbers vals) (\<lambda>nums.
     and_then (uci_boolean vals ''auto_interface_preset'' True) (\<lambda>auto_interface.
     let target = scheduled_target vals auto_interface;
         route_mode = uci_text vals ''route_mode'' ''auto'';
         mwan3_member = uci_text vals ''mwan3_member'' ''''
     in and_then (route_spec_validate full (route_spec_new ''main'' [] target)) (\<lambda>_.
        and_then (scheduled_explicit_route vals route_mode) (\<lambda>explicit_route.
        and_then (launch_route_spec full route_mode mwan3_member target explicit_route) (\<lambda>spec.
        and_then (route_spec_validate full spec) (\<lambda>_.
        and_then (parse_terms vals (num_scheduled_enabled nums)) (\<lambda>terms.
        let cfg = \<lparr>sc_instance = inst, sc_instance_enabled = num_instance_enabled nums,
                   sc_scheduled_enabled = num_scheduled_enabled nums, sc_interval_s = num_interval_s nums,
                   sc_idle_window_s = num_idle_window_s nums, sc_window_start_hour = num_window_start_hour nums,
                   sc_window_end_hour = num_window_end_hour nums, sc_daily_limit_bytes = num_daily_limit_bytes nums,
                   sc_monthly_limit_bytes = num_monthly_limit_bytes nums, sc_auto_apply = num_auto_apply nums,
                   sc_active_threshold_kbps = num_active_threshold_kbps nums, sc_expected_target_interface = target,
                   sc_backend = trm_backend terms, sc_route_mode = route_mode, sc_explicit_route = explicit_route,
                   sc_mwan3_member = mwan3_member, sc_profile = trm_profile terms, sc_strategy = trm_strategy terms,
                   sc_access_medium = trm_access_medium terms, sc_access_source = trm_access_source terms,
                   sc_access_confidence_percent = trm_access_confidence_percent terms,
                   sc_capacity_learning_policy = trm_capacity_learning_policy terms,
                   sc_service_dl_cap_kbps = trm_service_dl_cap_kbps terms,
                   sc_service_ul_cap_kbps = trm_service_ul_cap_kbps terms\<rparr>
        in and_then (launch_intent cfg 1) (\<lambda>_. Ok cfg))))))))))"

subsection \<open>All instances\<close>

fun collect_instances ::
  "bool \<Rightarrow> scheduler_config_snapshot \<Rightarrow> uci_sections \<Rightarrow> scheduler_config_snapshot result" where
  "collect_instances full snapshot [] = Ok snapshot"
| "collect_instances full snapshot ((inst, section) # rest) =
     (if sec_kind section \<noteq> Some ''cake_autorate'' then collect_instances full snapshot rest
      else if length (snap_instances snapshot) + length (snap_issues snapshot) \<ge> MAX_SCHEDULED_INSTANCES
      then Err ''too many CAKE Autorate instances for the native scheduler''
      else case parse_instance full inst section of
        Inr cfg \<Rightarrow> collect_instances full (snapshot\<lparr>snap_instances := snap_instances snapshot @ [cfg]\<rparr>) rest
      | Inl e \<Rightarrow> collect_instances full (snapshot\<lparr>snap_issues := snap_issues snapshot
                    @ [\<lparr>issue_instance = inst, issue_message = e\<rparr>]\<rparr>) rest)"

definition parse_scheduled_instances :: "bool \<Rightarrow> string \<Rightarrow> scheduler_config_snapshot result" where
  "parse_scheduled_instances full input =
     and_then (reject (length input > MAX_UCI_BYTES \<or> CHR 0x00 \<in> set input)
       ''CAKE Autorate UCI snapshot exceeds its safe bound'') (\<lambda>_.
     and_then (uci_lines [] 0 (lines input)) (\<lambda>sections.
     collect_instances full \<lparr>snap_instances = [], snap_issues = []\<rparr> sections))"

subsection \<open>The reader\<close>

record file_identity =
  fi_device :: u64
  fi_inode :: u64
  fi_size :: u64
  fi_modified :: "int \<times> int"
  fi_changed :: "int \<times> int"

type_synonym policy_inputs = "file_identity option list"

record scheduler_config_reader =
  cr_last :: "(policy_inputs \<times> bool \<times> scheduler_config_snapshot) option"

definition POLICY_PACKAGES :: "string list" where
  "POLICY_PACKAGES = [''cake-autorate'', ''sqm'']"

text \<open>\<open>changes\<close> and \<open>policy\<close> are the answers of \<open>uci\<close>: the staged changes of a package and the committed policy.\<close>

fun packages_committed :: "(string \<Rightarrow> string result) \<Rightarrow> string list \<Rightarrow> bool result" where
  "packages_committed changes [] = Ok True"
| "packages_committed changes (package # packages) =
     and_then (changes package) (\<lambda>output.
     if trim_chars output \<noteq> [] then Ok False else packages_committed changes packages)"

definition configuration_committed :: "(string \<Rightarrow> string result) \<Rightarrow> bool result" where
  "configuration_committed changes = packages_committed changes POLICY_PACKAGES"

definition scheduled_instances :: "bool \<Rightarrow> string result \<Rightarrow> scheduler_config_snapshot result" where
  "scheduled_instances full policy = and_then policy (parse_scheduled_instances full)"

definition fresh_read ::
  "bool \<Rightarrow> (string \<Rightarrow> string result) \<Rightarrow> string result \<Rightarrow> (bool \<times> scheduler_config_snapshot) result" where
  "fresh_read full changes policy =
     and_then (configuration_committed changes) (\<lambda>committed.
     and_then (scheduled_instances full policy) (\<lambda>snapshot.
     Ok (committed, snapshot)))"

definition reader_read ::
  "bool \<Rightarrow> scheduler_config_reader \<Rightarrow> policy_inputs option \<Rightarrow> (string \<Rightarrow> string result) \<Rightarrow> string result
     \<Rightarrow> scheduler_config_reader \<times> (bool \<times> scheduler_config_snapshot) result" where
  "reader_read full reader inputs changes policy =
     (let fresh = (case fresh_read full changes policy of
                     Inl e \<Rightarrow> (reader\<lparr>cr_last := None\<rparr>, Err e)
                   | Inr (committed, snapshot) \<Rightarrow>
                       (reader\<lparr>cr_last := map_option (\<lambda>i. (i, committed, snapshot)) inputs\<rparr>, Ok (committed, snapshot)))
      in case (inputs, cr_last reader) of
           (Some i, Some (seen, committed, snapshot)) \<Rightarrow> if i = seen then (reader, Ok (committed, snapshot)) else fresh
         | _ \<Rightarrow> fresh)"

section \<open>Typed configurations\<close>

definition rate_typed :: "u64 option \<Rightarrow> bool" where
  "rate_typed r = (case r of None \<Rightarrow> True | Some v \<Rightarrow> 100 \<le> v \<and> v \<le> 100000000)"

text \<open>A configuration within the ranges its options promise, with a route that can be launched.\<close>

definition config_typed :: "bool \<Rightarrow> scheduled_instance_config \<Rightarrow> bool" where
  "config_typed full cfg \<longleftrightarrow>
     validate_scheduler_instance (sc_instance cfg) = Ok ()
     \<and> 3600 \<le> sc_interval_s cfg \<and> sc_interval_s cfg \<le> 31536000
     \<and> 30 \<le> sc_idle_window_s cfg \<and> sc_idle_window_s cfg \<le> 3600
     \<and> sc_window_start_hour cfg \<le> 23 \<and> sc_window_end_hour cfg \<le> 23
     \<and> 104857600 \<le> sc_daily_limit_bytes cfg \<and> sc_daily_limit_bytes cfg \<le> 1099511627776
     \<and> 104857600 \<le> sc_monthly_limit_bytes cfg \<and> sc_monthly_limit_bytes cfg \<le> 1099511627776
     \<and> 1 \<le> sc_active_threshold_kbps cfg \<and> sc_active_threshold_kbps cfg \<le> 100000000
     \<and> sc_backend cfg = ''speedtest-go'' \<and> sc_profile cfg \<noteq> GamingExtreme \<and> sc_access_confidence_percent cfg \<le> 100
     \<and> rate_typed (sc_service_dl_cap_kbps cfg) \<and> rate_typed (sc_service_ul_cap_kbps cfg)
     \<and> (sc_scheduled_enabled cfg \<longrightarrow> sc_capacity_learning_policy cfg = ScheduledActive)
     \<and> (sc_capacity_learning_policy cfg = FixedCap \<longrightarrow> sc_service_dl_cap_kbps cfg \<noteq> None \<and> sc_service_ul_cap_kbps cfg \<noteq> None)
     \<and> is_safe_identifier (sc_expected_target_interface cfg)
     \<and> is_ok (launch_route_spec full (sc_route_mode cfg) (sc_mwan3_member cfg) (sc_expected_target_interface cfg)
                (sc_explicit_route cfg))"

lemma bounded_u64_range:
  assumes "bounded_u64 vals name d lo hi = Ok v" "lo \<le> d \<and> d \<le> hi \<or> map_of vals name \<noteq> None"
  shows "lo \<le> v" "v \<le> hi"
  using assms by (auto simp: bounded_u64_def and_then_Inr_iff split: option.splits)

lemma mb_limit_range:
  assumes "mb_limit vals name d = Ok b" "100 \<le> d" "d \<le> 1048576"
  shows "104857600 \<le> b" "b \<le> 1099511627776"
proof -
  obtain v where v: "bounded_u64 vals name d 100 1048576 = Ok v" "checked_mul v MIB = Some b"
    using assms(1) by (auto simp: mb_limit_def and_then_Inr_iff split: option.splits if_splits)
  then have "unat b = unat v * 1048576" by (simp add: checked_mul_Some_iff MIB_def)
  moreover have "100 \<le> unat v" "unat v \<le> 1048576"
    using bounded_u64_range [OF v(1)] assms(2,3) by (simp_all add: word_le_nat_alt)
  ultimately show "104857600 \<le> b" "b \<le> 1099511627776" by (simp_all add: word_le_nat_alt)
qed

lemma optional_rate_typed: "optional_rate vals name = Ok r \<Longrightarrow> rate_typed r"
  using bounded_u64_range [of vals name 0 100 100000000]
  by (auto simp: optional_rate_def rate_typed_def and_then_Inr_iff split: if_splits option.splits)

lemma narrow_range: "v \<le> n \<Longrightarrow> n \<le> 255 \<Longrightarrow> (ucast v :: u8) \<le> ucast n" for v n :: u64
  by (simp add: word_le_nat_alt unsigned_ucast_eq take_bit_nat_eq_self)

lemma parse_numbers_typed:
  assumes "parse_numbers vals = Ok n"
  shows "3600 \<le> num_interval_s n" "num_interval_s n \<le> 31536000" "30 \<le> num_idle_window_s n" "num_idle_window_s n \<le> 3600"
    "num_window_start_hour n \<le> 23" "num_window_end_hour n \<le> 23"
    "104857600 \<le> num_daily_limit_bytes n" "num_daily_limit_bytes n \<le> 1099511627776"
    "104857600 \<le> num_monthly_limit_bytes n" "num_monthly_limit_bytes n \<le> 1099511627776"
    "1 \<le> num_active_threshold_kbps n" "num_active_threshold_kbps n \<le> 100000000"
proof -
  obtain h start stop where
    h: "bounded_u64 vals ''scheduled_autotune_interval_hours'' 24 1 8760 = Ok h" "checked_mul h 3600 = Some (num_interval_s n)"
    and idle: "bounded_u64 vals ''scheduled_autotune_idle_window_s'' 60 30 3600 = Ok (num_idle_window_s n)"
    and start: "bounded_u64 vals ''scheduled_autotune_window_start_hour'' 2 0 23 = Ok start" "num_window_start_hour n = ucast start"
    and stop: "bounded_u64 vals ''scheduled_autotune_window_end_hour'' 5 0 23 = Ok stop" "num_window_end_hour n = ucast stop"
    and day: "mb_limit vals ''scheduled_autotune_max_traffic_mb_day'' 4096 = Ok (num_daily_limit_bytes n)"
    and month: "mb_limit vals ''scheduled_autotune_max_traffic_mb_month'' 16384 = Ok (num_monthly_limit_bytes n)"
    and thr: "bounded_u64 vals ''connection_active_thr_kbps'' 2000 1 100000000 = Ok (num_active_threshold_kbps n)"
    using assms by (auto simp: parse_numbers_def and_then_Inr_iff)
  have "unat (num_interval_s n) = unat h * 3600" using h(2) by (simp add: checked_mul_Some_iff)
  moreover have "1 \<le> unat h" "unat h \<le> 8760" using bounded_u64_range [OF h(1)] by (simp_all add: word_le_nat_alt)
  ultimately show "3600 \<le> num_interval_s n" "num_interval_s n \<le> 31536000" by (simp_all add: word_le_nat_alt)
  show "30 \<le> num_idle_window_s n" "num_idle_window_s n \<le> 3600" using bounded_u64_range [OF idle] by simp_all
  show "num_window_start_hour n \<le> 23" "num_window_end_hour n \<le> 23"
    using bounded_u64_range(2) [OF start(1)] bounded_u64_range(2) [OF stop(1)] start(2) stop(2)
      narrow_range [of start 23] narrow_range [of stop 23] by simp_all
  show "104857600 \<le> num_daily_limit_bytes n" "num_daily_limit_bytes n \<le> 1099511627776"
    "104857600 \<le> num_monthly_limit_bytes n" "num_monthly_limit_bytes n \<le> 1099511627776"
    using mb_limit_range [OF day] mb_limit_range [OF month] by simp_all
  show "1 \<le> num_active_threshold_kbps n" "num_active_threshold_kbps n \<le> 100000000"
    using bounded_u64_range [OF thr] by simp_all
qed

lemma parse_terms_typed:
  assumes "parse_terms vals enabled = Ok n"
  shows "trm_backend n = ''speedtest-go''" "trm_profile n \<noteq> GamingExtreme" "trm_access_confidence_percent n \<le> 100"
    "rate_typed (trm_service_dl_cap_kbps n)" "rate_typed (trm_service_ul_cap_kbps n)"
    "enabled \<Longrightarrow> trm_capacity_learning_policy n = ScheduledActive"
    "trm_capacity_learning_policy n = FixedCap \<Longrightarrow> trm_service_dl_cap_kbps n \<noteq> None \<and> trm_service_ul_cap_kbps n \<noteq> None"
proof -
  obtain profile confidence where
    "trm_profile n = (if profile = GamingExtreme then Gaming else profile)" "trm_backend n = ''speedtest-go''"
    and c: "bounded_u64 vals ''access_medium_confidence_percent'' 0 0 100 = Ok confidence"
      "trm_access_confidence_percent n = ucast confidence"
    and dl: "optional_rate vals ''service_dl_cap_kbps'' = Ok (trm_service_dl_cap_kbps n)"
    and ul: "optional_rate vals ''service_ul_cap_kbps'' = Ok (trm_service_ul_cap_kbps n)"
    and p: "enabled \<longrightarrow> trm_capacity_learning_policy n = ScheduledActive"
      "trm_capacity_learning_policy n = FixedCap \<longrightarrow> trm_service_dl_cap_kbps n \<noteq> None \<and> trm_service_ul_cap_kbps n \<noteq> None"
    using assms by (auto simp: parse_terms_def Let_def and_then_Inr_iff)
  then show "trm_backend n = ''speedtest-go''" "trm_profile n \<noteq> GamingExtreme" by auto
  show "trm_access_confidence_percent n \<le> 100"
    using narrow_range [of confidence 100] bounded_u64_range(2) [OF c(1)] c(2) by simp
  show "rate_typed (trm_service_dl_cap_kbps n)" "rate_typed (trm_service_ul_cap_kbps n)"
    using dl ul optional_rate_typed by blast+
  show "enabled \<Longrightarrow> trm_capacity_learning_policy n = ScheduledActive"
    "trm_capacity_learning_policy n = FixedCap \<Longrightarrow> trm_service_dl_cap_kbps n \<noteq> None \<and> trm_service_ul_cap_kbps n \<noteq> None"
    using p by blast+
qed

lemma parse_instance_typed:
  assumes "parse_instance full inst sec = Ok cfg" "validate_scheduler_instance inst = Ok ()"
  shows "config_typed full cfg" "sc_instance cfg = inst"
proof -
  obtain vals n target terms where
    n: "parse_numbers vals = Ok n" and target: "route_spec_validate full (route_spec_new ''main'' [] target) = Ok ()"
    and spec: "is_ok (launch_route_spec full (sc_route_mode cfg) (sc_mwan3_member cfg) target (sc_explicit_route cfg))"
    and terms: "parse_terms vals (num_scheduled_enabled n) = Ok terms"
    and cfg: "sc_instance cfg = inst" "sc_scheduled_enabled cfg = num_scheduled_enabled n" "sc_interval_s cfg = num_interval_s n"
      "sc_idle_window_s cfg = num_idle_window_s n" "sc_window_start_hour cfg = num_window_start_hour n"
      "sc_window_end_hour cfg = num_window_end_hour n" "sc_daily_limit_bytes cfg = num_daily_limit_bytes n"
      "sc_monthly_limit_bytes cfg = num_monthly_limit_bytes n" "sc_active_threshold_kbps cfg = num_active_threshold_kbps n"
      "sc_expected_target_interface cfg = target" "sc_backend cfg = trm_backend terms" "sc_profile cfg = trm_profile terms"
      "sc_access_confidence_percent cfg = trm_access_confidence_percent terms"
      "sc_capacity_learning_policy cfg = trm_capacity_learning_policy terms"
      "sc_service_dl_cap_kbps cfg = trm_service_dl_cap_kbps terms" "sc_service_ul_cap_kbps cfg = trm_service_ul_cap_kbps terms"
    using assms(1) by (auto simp: parse_instance_def Let_def and_then_Inr_iff is_ok_iff launch_intent_def)
  show "config_typed full cfg"
    unfolding config_typed_def cfg
    using assms(2) parse_numbers_typed [OF n] parse_terms_typed [OF terms] target spec
    by (simp add: route_spec_validate_Ok_iff)
  show "sc_instance cfg = inst" by (rule cfg(1))
qed

section \<open>Sections\<close>

lemma entry_update_keys: "set (map fst (entry_update k d f ps)) = insert k (set (map fst ps))"
  by (induction k d f ps rule: entry_update.induct) (auto simp del: set_map)

lemma entry_update_sorted: "sorted_wrt (<) (map fst ps) \<Longrightarrow> sorted_wrt (<) (map fst (entry_update k d f ps))"
proof (induction ps)
  case (Cons p ps)
  then show ?case
    using entry_update_keys [of k d f ps] by (cases p) (auto simp: image_iff; fastforce)
qed simp

definition sections_ok :: "uci_sections \<Rightarrow> bool" where
  "sections_ok ss \<longleftrightarrow> sorted_wrt (<) (map fst ss) \<and> (\<forall>k\<in>set (map fst ss). validate_scheduler_instance k = Ok ())"

lemma sections_ok_update:
  "sections_ok ss \<Longrightarrow> validate_scheduler_instance k = Ok () \<Longrightarrow> sections_ok (entry_update k d f ss)"
  by (simp add: sections_ok_def entry_update_sorted entry_update_keys del: set_map)

lemma uci_option_update:
  assumes "uci_option ss inst opt raw = Ok ss'"
  obtains f where "ss' = entry_update inst raw_section_default f ss"
  using assms by (auto simp: uci_option_def Let_def and_then_Inr_iff split: option.splits if_splits)

lemma uci_line_ok:
  assumes "uci_line ss i line = Ok ss'" "sections_ok ss"
  shows "sections_ok ss'"
proof (cases "line = []")
  case False
  then obtain left raw where split: "split_once CHR ''='' line = Some (left, raw)"
    using assms(1) by (auto simp: uci_line_def Let_def and_then_Inr_iff)
  obtain pkg inst opts where "split_char CHR ''.'' left = pkg # inst # opts"
    using assms(1) False split
    by (cases "split_char CHR ''.'' left"; cases "tl (split_char CHR ''.'' left)")
      (auto simp: uci_line_def Let_def and_then_Inr_iff)
  then have "validate_scheduler_instance inst = Ok ()"
    "uci_option ss inst (case opts of [] \<Rightarrow> None | opt # _ \<Rightarrow> Some opt) raw = Ok ss'"
    using assms(1) False split by (auto simp: uci_line_def Let_def and_then_Inr_iff)
  then show ?thesis
    using assms(2) by (auto elim!: uci_option_update intro: sections_ok_update)
qed (use assms in \<open>simp add: uci_line_def\<close>)

lemma uci_lines_ok: "uci_lines ss i ls = Ok ss' \<Longrightarrow> sections_ok ss \<Longrightarrow> sections_ok ss'"
  by (induction ss i ls rule: uci_lines.induct) (auto simp: and_then_Inr_iff dest: uci_line_ok)

lemma collect_instances_typed:
  assumes "collect_instances full snap ss = Ok snap'" "sections_ok ss"
    "\<forall>cfg\<in>set (snap_instances snap). config_typed full cfg" "sorted_wrt (<) (map sc_instance (snap_instances snap) @ map fst ss)"
    "length (snap_instances snap) + length (snap_issues snap) \<le> MAX_SCHEDULED_INSTANCES"
  shows "(\<forall>cfg\<in>set (snap_instances snap'). config_typed full cfg) \<and> sorted_wrt (<) (map sc_instance (snap_instances snap'))
    \<and> length (snap_instances snap') + length (snap_issues snap') \<le> MAX_SCHEDULED_INSTANCES"
  using assms
proof (induction full snap ss arbitrary: snap' rule: collect_instances.induct)
  case (2 full snap inst sec rest)
  have ok: "validate_scheduler_instance inst = Ok ()" "sections_ok rest"
    using "2.prems"(2) by (auto simp: sections_ok_def)
  consider "sec_kind sec \<noteq> Some ''cake_autorate''"
    | e where "sec_kind sec = Some ''cake_autorate''" "length (snap_instances snap) + length (snap_issues snap) < MAX_SCHEDULED_INSTANCES"
      "parse_instance full inst sec = Inl e"
    | cfg where "sec_kind sec = Some ''cake_autorate''" "length (snap_instances snap) + length (snap_issues snap) < MAX_SCHEDULED_INSTANCES"
      "parse_instance full inst sec = Ok cfg"
    using "2.prems"(1) by (cases "parse_instance full inst sec") (auto split: if_splits simp: not_le)
  then show ?case
  proof cases
    case 1
    then show ?thesis using "2.IH"(1) "2.prems" ok by (auto simp: sorted_wrt_append)
  next
    case (2 e)
    then show ?thesis using "2.IH"(2) [of e] "2.prems" ok by (auto simp: sorted_wrt_append)
  next
    case (3 cfg)
    note typed = parse_instance_typed [OF 3(3) ok(1)]
    show ?thesis using "2.IH"(3) [of cfg] 3 typed "2.prems" ok by (auto simp: sorted_wrt_append)
  qed
qed simp

lemma parsed_sections:
  assumes "parse_scheduled_instances full input = Ok snap"
  obtains ss where "sections_ok ss" "collect_instances full \<lparr>snap_instances = [], snap_issues = []\<rparr> ss = Ok snap"
proof -
  obtain ss where ss: "uci_lines [] 0 (lines input) = Ok ss"
    and snap: "collect_instances full \<lparr>snap_instances = [], snap_issues = []\<rparr> ss = Ok snap"
    using assms by (auto simp: parse_scheduled_instances_def and_then_Inr_iff)
  have "sections_ok ss" using uci_lines_ok [OF ss] by (simp add: sections_ok_def)
  then show thesis using snap by (rule that)
qed

lemma collected_typed:
  assumes "sections_ok ss" "collect_instances full \<lparr>snap_instances = [], snap_issues = []\<rparr> ss = Ok snap"
  shows "(\<forall>cfg\<in>set (snap_instances snap). config_typed full cfg) \<and> sorted_wrt (<) (map sc_instance (snap_instances snap))
    \<and> length (snap_instances snap) + length (snap_issues snap) \<le> MAX_SCHEDULED_INSTANCES"
  by (rule collect_instances_typed [OF assms(2,1)]) (use assms(1) in \<open>simp_all add: sections_ok_def\<close>)

section \<open>Properties\<close>

text \<open>C19: what the scheduler accepts is typed. Whatever text \<open>uci show\<close> prints, if it is accepted, there are
  at most 64 instances and issues, the instances have distinct valid names in order, and every one of
  them has its numbers within the ranges of its options, hours of a day, byte limits the ledger can
  account exactly, a supported backend, rate caps in range, and a route that can be launched.\<close>

theorem scheduler_policy_typed:
  assumes "parse_scheduled_instances full input = Ok snap"
  shows "(\<forall>cfg\<in>set (snap_instances snap). config_typed full cfg) \<and> sorted_wrt (<) (map sc_instance (snap_instances snap))
    \<and> length (snap_instances snap) + length (snap_issues snap) \<le> MAX_SCHEDULED_INSTANCES"
  using assms by (rule parsed_sections) (rule collected_typed)

definition sample_policy_lines :: "string list" where
  "sample_policy_lines =
     [''cake-autorate.wan=cake_autorate'', ''cake-autorate.wan.enabled=1'',
      ''cake-autorate.wan.scheduled_autotune_enabled=1'', ''cake-autorate.wan.sqm_interface=pppoe-wan'',
      ''cake-autorate.wan.capacity_learning_policy=scheduled_active'']"

definition sample_policy_text :: string where
  "sample_policy_text = concat (map (\<lambda>l. l @ [LF]) sample_policy_lines)"

definition sample_policy :: scheduled_instance_config where
  "sample_policy =
     \<lparr>sc_instance = ''wan'', sc_instance_enabled = True, sc_scheduled_enabled = True, sc_interval_s = 86400,
      sc_idle_window_s = 60, sc_window_start_hour = 2, sc_window_end_hour = 5, sc_daily_limit_bytes = 4294967296,
      sc_monthly_limit_bytes = 17179869184, sc_auto_apply = False, sc_active_threshold_kbps = 2000,
      sc_expected_target_interface = ''pppoe-wan'', sc_backend = ''speedtest-go'', sc_route_mode = ''auto'',
      sc_explicit_route = None, sc_mwan3_member = [], sc_profile = BestOverall, sc_strategy = ShapedOnly,
      sc_access_medium = Unknown, sc_access_source = LegacyDefault, sc_access_confidence_percent = 0,
      sc_capacity_learning_policy = ScheduledActive, sc_service_dl_cap_kbps = None, sc_service_ul_cap_kbps = None\<rparr>"

lemma sample_policy_parsed:
  "parse_scheduled_instances True sample_policy_text = Ok \<lparr>snap_instances = [sample_policy], snap_issues = []\<rparr>"
proof -
  have "lines sample_policy_text = sample_policy_lines" by code_simp
  moreover have "\<not> MAX_UCI_BYTES < length sample_policy_text" "CHR 0x00 \<notin> set sample_policy_text"
    by (simp_all add: MAX_UCI_BYTES_def sample_policy_text_def sample_policy_lines_def)
  moreover have "and_then (uci_lines [] 0 sample_policy_lines) (collect_instances True \<lparr>snap_instances = [], snap_issues = []\<rparr>)
      = Ok \<lparr>snap_instances = [sample_policy], snap_issues = []\<rparr>"
    by code_simp
  ultimately show ?thesis by (simp add: parse_scheduled_instances_def)
qed

theorem scheduler_policy_typed_witness:
  "parse_scheduled_instances True sample_policy_text = Ok \<lparr>snap_instances = [sample_policy], snap_issues = []\<rparr>
   \<and> config_typed True sample_policy"
  using scheduler_policy_typed [OF sample_policy_parsed] sample_policy_parsed by simp

text \<open>An option with several values is read as one value when the next value starts with an escape, or is empty:
  the escape branch does not look at the end of the first value.\<close>

lemma scalar_joins_values:
  "parse_scalar (CHR 0x27 # ''a'' @ [CHR 0x27, CHR '' '', CHR 0x27, CHR 0x27, CHR 0x5C, CHR 0x27, CHR 0x27, CHR 0x27])
     = Ok [CHR ''a'', CHR 0x27]"
  "parse_scalar ''a b'' = Err ''scheduled UCI option contains multiple values''"
  by code_simp+

section \<open>The reader\<close>

text \<open>A sequence of reads from an empty reader; each read has the identities of the files and the answers of \<open>uci\<close>.\<close>

type_synonym policy_read = "policy_inputs option \<times> (string \<Rightarrow> string result) \<times> string result"

definition reader_after :: "bool \<Rightarrow> policy_read list \<Rightarrow> scheduler_config_reader" where
  "reader_after full reads =
     foldl (\<lambda>reader (inputs, changes, policy). fst (reader_read full reader inputs changes policy)) \<lparr>cr_last = None\<rparr> reads"

lemma reader_after_snoc:
  "reader_after full (reads @ [(inputs, changes, policy)]) = fst (reader_read full (reader_after full reads) inputs changes policy)"
  by (simp add: reader_after_def)

lemma reader_read_cases:
  obtains seen committed snapshot where "inputs = Some seen" "cr_last reader = Some (seen, committed, snapshot)"
    "reader_read full reader inputs changes policy = (reader, Ok (committed, snapshot))"
  | "reader_read full reader inputs changes policy = (case fresh_read full changes policy of
       Inl e \<Rightarrow> (reader\<lparr>cr_last := None\<rparr>, Err e)
     | Inr (committed, snapshot) \<Rightarrow>
         (reader\<lparr>cr_last := map_option (\<lambda>i. (i, committed, snapshot)) inputs\<rparr>, Ok (committed, snapshot)))"
proof (cases "\<exists>seen committed snapshot. inputs = Some seen \<and> cr_last reader = Some (seen, committed, snapshot)")
  case True
  with that(1) show thesis by (auto simp: reader_read_def)
next
  case False
  then show thesis by (intro that(2)) (auto simp: reader_read_def Let_def split: option.splits)
qed

text \<open>What the reader remembers was read fresh from the files it remembers.\<close>

lemma reader_remembers:
  assumes "cr_last (reader_after full reads) = Some (seen, committed, snapshot)"
  shows "\<exists>changes policy. (Some seen, changes, policy) \<in> set reads \<and> fresh_read full changes policy = Ok (committed, snapshot)"
  using assms
proof (induction reads arbitrary: seen committed snapshot rule: rev_induct)
  case Nil
  then show ?case by (simp add: reader_after_def)
next
  case (snoc r reads)
  obtain inputs changes policy where r: "r = (inputs, changes, policy)" by (cases r) auto
  show ?case
  proof (rule reader_read_cases [of inputs "reader_after full reads" full changes policy])
    assume "reader_read full (reader_after full reads) inputs changes policy = (case fresh_read full changes policy of
       Inl e \<Rightarrow> ((reader_after full reads)\<lparr>cr_last := None\<rparr>, Err e)
     | Inr (committed, snapshot) \<Rightarrow> ((reader_after full reads)\<lparr>cr_last := map_option (\<lambda>i. (i, committed, snapshot)) inputs\<rparr>,
         Ok (committed, snapshot)))"
    then show ?thesis
      using snoc.prems r by (auto simp: reader_after_snoc split: sum.splits)
  qed (use snoc r in \<open>auto simp: reader_after_snoc\<close>)
qed

text \<open>C20: caching the policy is invisible. If two reads that find the same files would get the same answers
  from \<open>uci\<close>, then after any sequence of reads, failed ones and unreadable files included, a read
  returns exactly what reading afresh would return.\<close>

theorem policy_cache_transparent:
  assumes "\<forall>seen changes1 policy1 changes2 policy2.
    (Some seen, changes1, policy1) \<in> set (reads @ [(inputs, changes, policy)])
    \<and> (Some seen, changes2, policy2) \<in> set (reads @ [(inputs, changes, policy)])
      \<longrightarrow> fresh_read full changes1 policy1 = fresh_read full changes2 policy2"
  shows "snd (reader_read full (reader_after full reads) inputs changes policy) = fresh_read full changes policy"
proof (rule reader_read_cases [of inputs "reader_after full reads" full changes policy])
  fix seen committed snapshot
  assume hit: "inputs = Some seen" "cr_last (reader_after full reads) = Some (seen, committed, snapshot)"
    "reader_read full (reader_after full reads) inputs changes policy = (reader_after full reads, Ok (committed, snapshot))"
  from reader_remembers [OF hit(2)] obtain changes1 policy1 where
    "(Some seen, changes1, policy1) \<in> set reads" "fresh_read full changes1 policy1 = Ok (committed, snapshot)"
    by blast
  moreover from this hit(1) have "fresh_read full changes1 policy1 = fresh_read full changes policy"
    using assms [rule_format, of seen changes1 policy1 changes policy] by simp
  ultimately show ?thesis using hit(3) by simp
qed (auto split: sum.splits)

definition sample_identity :: file_identity where
  "sample_identity = \<lparr>fi_device = 1, fi_inode = 7, fi_size = 200, fi_modified = (1767225600, 0), fi_changed = (1767225600, 0)\<rparr>"

theorem policy_cache_transparent_witness:
  "snd (reader_read True (reader_after True [(Some [Some sample_identity], \<lambda>_. Ok [], Ok sample_policy_text)])
     (Some [Some sample_identity]) (\<lambda>_. Ok []) (Ok sample_policy_text))
   = Ok (True, \<lparr>snap_instances = [sample_policy], snap_issues = []\<rparr>)"
proof -
  have "fresh_read True (\<lambda>_. Ok []) (Ok sample_policy_text) = Ok (True, \<lparr>snap_instances = [sample_policy], snap_issues = []\<rparr>)"
    by (simp add: fresh_read_def configuration_committed_def POLICY_PACKAGES_def trim_chars_def scheduled_instances_def
        sample_policy_parsed)
  then show ?thesis by (subst policy_cache_transparent) auto
qed

end
