(* ===== verification/Scheduled_Run.thy ===== *)
theory Scheduled_Run
  imports Scheduler_Store Scheduler_Config
begin

text \<open>
  The durable life of a scheduled calibration (\<open>operations/scheduler_runtime.rs\<close>): loading or creating
  the state of an instance, reserving traffic for an admitted request, and settling, marking or
  acknowledging it. Every operation works on a state in memory and publishes it in the store; the
  result has the store, the state in memory and the value or error, since a failed write leaves the
  two different.
\<close>

section \<open>Definitions\<close>

record scheduled_reservation =
  sr_reservation_id :: string
  sr_job_id :: string
  sr_due_unix_s :: u64
  sr_traffic_budget :: u64

datatype scheduled_settlement = Success | FailedRun

definition build_initial_scheduler_state ::
  "scheduled_instance_config \<Rightarrow> u64 \<Rightarrow> string \<Rightarrow> string \<Rightarrow> u64 \<Rightarrow> scheduler_instance_state result" where
  "build_initial_scheduler_state config now_unix_s day month monthly_charged_bytes =
     and_then (reject (now_unix_s = 0) ''scheduler cannot initialize from a zero wall clock'') (\<lambda>_.
     and_then (ledger_new (sc_instance config) day month (sc_daily_limit_bytes config) (sc_monthly_limit_bytes config))
       (\<lambda>budget.
     let budget = budget\<lparr>led_monthly_charged_bytes := monthly_charged_bytes\<rparr>
     in and_then (ledger_validate budget) (\<lambda>_.
        and_then (cursor_new (sc_instance config) now_unix_s) (\<lambda>cursor.
        state_new cursor budget))))"

definition load_or_initialize_state ::
  "nat \<Rightarrow> scheduler_store \<Rightarrow> scheduled_instance_config \<Rightarrow> u64 \<Rightarrow> string \<Rightarrow> string \<Rightarrow> write_outcome
     \<Rightarrow> scheduler_store \<times> scheduler_instance_state result" where
  "load_or_initialize_state usize_max store config now_unix_s day month outcome =
     (case and_then (reject (now_unix_s = 0) ''scheduler cannot initialize from a zero wall clock'') (\<lambda>_.
           and_then (load_state usize_max store (sc_instance config)) (\<lambda>existing.
           and_then (case existing of
                       Some state \<Rightarrow> Ok state
                     | None \<Rightarrow> build_initial_scheduler_state config now_unix_s day month 0) (\<lambda>before.
           and_then (ledger_reconfigure_limits (st_budget before) day month
                       (sc_daily_limit_bytes config) (sc_monthly_limit_bytes config)) (\<lambda>budget.
           let state = before\<lparr>st_budget := budget\<rparr>
           in Ok (state, state \<noteq> before \<or> existing = None))))) of
        Inl e \<Rightarrow> (store, Err e)
      | Inr (state, changed) \<Rightarrow>
          if changed
          then (case persist_state store state outcome of
                  (store, Inl e) \<Rightarrow> (store, Err e)
                | (store, Inr _) \<Rightarrow> (store, Ok state))
          else (store, Ok state))"

text \<open>The end of every operation: publish the state in memory, then return the value.\<close>

definition publish ::
  "scheduler_store \<Rightarrow> scheduler_instance_state \<Rightarrow> write_outcome \<Rightarrow> 'a
     \<Rightarrow> scheduler_store \<times> scheduler_instance_state \<times> 'a result" where
  "publish store state outcome v =
     (case persist_state store state outcome of
        (store, Inl e) \<Rightarrow> (store, state, Err e)
      | (store, Inr _) \<Rightarrow> (store, state, Ok v))"

definition reserve_decision ::
  "scheduled_instance_config \<Rightarrow> scheduler_instance_state \<Rightarrow> scheduler_observation \<Rightarrow> operation_request
     \<Rightarrow> (u64 \<times> scheduler_decision) result" where
  "reserve_decision config state observation request =
     and_then (state_validate state) (\<lambda>_.
     and_then (request_validate request) (\<lambda>_.
     and_then (reject (rq_origin request \<noteq> Scheduler)
       ''native scheduler request has an untrusted origin'') (\<lambda>_.
     and_then (reject (rq_scheduled_auto_apply_requested request \<noteq> sc_auto_apply config)
       ''native scheduler request Auto-Apply authority differs from committed policy'') (\<lambda>_.
     and_then (reject (id_instance (rq_identity request) \<noteq> sc_instance config
                       \<or> cursor_instance (st_cursor state) \<noteq> sc_instance config
                       \<or> id_config_fingerprint (rq_identity request) \<noteq> gen_config_fingerprint (obs_generations observation)
                       \<or> id_route_fingerprint (rq_identity request) \<noteq> gen_route_fingerprint (obs_generations observation))
       ''native scheduler request and observed authority differ'') (\<lambda>_.
     and_then (ledger_available_bytes (st_budget state)) (\<lambda>available.
     and_then (ok_or (traffic_limit_bytes (rq_traffic_budget request))
       ''scheduled requests require a finite traffic cap'') (\<lambda>request_budget.
     and_then (evaluate_schedule (config_enabled config) (sc_interval_s config) request_budget available
                 (st_cursor state) observation) (\<lambda>decision.
     Ok (request_budget, decision)))))))))"

definition reserve_scheduled_request ::
  "scheduler_store \<Rightarrow> scheduled_instance_config \<Rightarrow> scheduler_instance_state \<Rightarrow> scheduler_observation
     \<Rightarrow> operation_request \<Rightarrow> string \<Rightarrow> string \<Rightarrow> string \<Rightarrow> write_outcome
     \<Rightarrow> scheduler_store \<times> scheduler_instance_state \<times> (scheduler_decision \<times> scheduled_reservation option) result" where
  "reserve_scheduled_request store config state observation request reservation_id day month outcome =
     (case reserve_decision config state observation request of
        Inl e \<Rightarrow> (store, state, Err e)
      | Inr (request_budget, Admit due_unix_s traffic_budget) \<Rightarrow>
          if traffic_budget \<noteq> request_budget
          then (store, state, Err ''live scheduled request exceeds the admitted traffic budget'')
          else
            (case ledger_reserve (st_budget state) reservation_id (id_job_id (rq_identity request)) day month
                    \<lparr>fence_due_unix_s = due_unix_s, fence_interval_s = sc_interval_s config,
                     fence_generations = obs_generations observation,
                     fence_explicit_retry_sequence = obs_explicit_retry_sequence observation\<rparr> traffic_budget of
               Inl e \<Rightarrow> (store, state, Err e)
             | Inr budget \<Rightarrow>
                 publish store (state\<lparr>st_budget := budget\<rparr>) outcome
                   (Admit due_unix_s traffic_budget,
                    Some \<lparr>sr_reservation_id = reservation_id, sr_job_id = id_job_id (rq_identity request),
                          sr_due_unix_s = due_unix_s, sr_traffic_budget = traffic_budget\<rparr>))
      | Inr (request_budget, decision) \<Rightarrow> (store, state, Ok (decision, None)))"

text \<open>The cursor after a settlement: it changes in place, after the ledger.\<close>

definition settle_cursor ::
  "scheduled_settlement \<Rightarrow> failed_attempt_fence \<Rightarrow> u64 \<Rightarrow> schedule_cursor \<Rightarrow> schedule_cursor \<times> unit result" where
  "settle_cursor settlement authority completed_unix_s cursor =
     (case settlement of
        Success \<Rightarrow> cursor_record_success cursor (fence_interval_s authority) (fence_due_unix_s authority) completed_unix_s
      | FailedRun \<Rightarrow> cursor_record_failure cursor authority)"

text \<open>The common tail of settling and marking: record on the cursor, validate, publish.\<close>

definition record_and_publish ::
  "scheduler_store \<Rightarrow> scheduler_instance_state \<Rightarrow> budget_ledger \<Rightarrow> schedule_cursor \<times> unit result \<Rightarrow> write_outcome
     \<Rightarrow> scheduler_store \<times> scheduler_instance_state \<times> unit result" where
  "record_and_publish store state budget recorded outcome =
     (let state = state\<lparr>st_budget := budget, st_cursor := fst recorded\<rparr>
      in case and_then (snd recorded) (\<lambda>_. state_validate state) of
           Inl e \<Rightarrow> (store, state, Err e)
         | Inr _ \<Rightarrow> publish store state outcome ())"

definition settle_scheduled_request ::
  "scheduler_store \<Rightarrow> scheduler_instance_state \<Rightarrow> string \<Rightarrow> string \<Rightarrow> string \<Rightarrow> string \<Rightarrow> u64 \<Rightarrow> u64
     \<Rightarrow> scheduled_settlement \<Rightarrow> write_outcome \<Rightarrow> scheduler_store \<times> scheduler_instance_state \<times> unit result" where
  "settle_scheduled_request store state reservation_id job_id day month completed_unix_s consumed_traffic_bytes
     settlement outcome =
     (case and_then (ok_or (led_reservation (st_budget state)) ''scheduled settlement has no durable reservation'')
             (\<lambda>reservation.
           and_then (ledger_settle (st_budget state) reservation_id job_id day month consumed_traffic_bytes) (\<lambda>budget.
           Ok (res_authority reservation, budget))) of
        Inl e \<Rightarrow> (store, state, Err e)
      | Inr (authority, budget) \<Rightarrow>
          record_and_publish store state budget
            (settle_cursor settlement authority completed_unix_s (st_cursor state)) outcome)"

definition mark_scheduled_accounting_unknown ::
  "scheduler_store \<Rightarrow> scheduler_instance_state \<Rightarrow> string \<Rightarrow> string \<Rightarrow> write_outcome
     \<Rightarrow> scheduler_store \<times> scheduler_instance_state \<times> unit result" where
  "mark_scheduled_accounting_unknown store state reservation_id job_id outcome =
     (case and_then (ok_or (led_reservation (st_budget state))
             ''unknown scheduled accounting has no durable reservation'') (\<lambda>reservation.
           and_then (ledger_mark_accounting_unknown (st_budget state) reservation_id job_id) (\<lambda>budget.
           Ok (res_authority reservation, budget))) of
        Inl e \<Rightarrow> (store, state, Err e)
      | Inr (authority, budget) \<Rightarrow>
          record_and_publish store state budget (cursor_record_failure (st_cursor state) authority) outcome)"

definition acknowledge_scheduled_accounting_unknown ::
  "scheduler_store \<Rightarrow> scheduler_instance_state \<Rightarrow> write_outcome \<Rightarrow> scheduler_store \<times> scheduler_instance_state \<times> u64 result" where
  "acknowledge_scheduled_accounting_unknown store state outcome =
     (case ledger_acknowledge_accounting_unknown (st_budget state) of
        Inl e \<Rightarrow> (store, state, Err e)
      | Inr (budget, charged_bytes) \<Rightarrow>
          let state = state\<lparr>st_budget := budget\<rparr>
          in case state_validate state of
               Inl e \<Rightarrow> (store, state, Err e)
             | Inr _ \<Rightarrow> publish store state outcome charged_bytes)"

section \<open>The invariant of a stored state\<close>

text \<open>An outstanding reservation belongs to the due slot of the cursor: the cursor does not move while
  traffic is reserved.\<close>

definition slot_ok :: "scheduler_instance_state \<Rightarrow> bool" where
  "slot_ok st \<longleftrightarrow> (\<forall>r. led_reservation (st_budget st) = Some r \<longrightarrow>
     cursor_due_unix_s (st_cursor st) (fence_interval_s (res_authority r)) = Ok (fence_due_unix_s (res_authority r)))"

definition run_inv :: "scheduler_instance_state \<Rightarrow> bool" where
  "run_inv st \<longleftrightarrow> state_validate st = Ok () \<and> ledger_inv (st_budget st) \<and> slot_ok st"

lemma run_invI: "state_validate st = Ok () \<Longrightarrow> ledger_inv (st_budget st) \<Longrightarrow> slot_ok st \<Longrightarrow> run_inv st"
  by (simp add: run_inv_def)

lemma run_invD:
  assumes "run_inv st"
  shows "state_validate st = Ok ()" "ledger_inv (st_budget st)" "slot_ok st" "ledger_validate (st_budget st) = Ok ()"
  using assms by (simp_all add: run_inv_def ledger_inv_def)

lemma build_initial_inv:
  assumes "build_initial_scheduler_state config now day month 0 = Ok st"
  shows "run_inv st" "st_operator_warning st = None"
proof -
  obtain l where l: "ledger_new (sc_instance config) day month (sc_daily_limit_bytes config) (sc_monthly_limit_bytes config) = Ok l"
    "state_validate st = Ok ()" "st_budget st = l\<lparr>led_monthly_charged_bytes := 0\<rparr>" "st_operator_warning st = None"
    using assms by (auto simp: build_initial_scheduler_state_def state_new_def Let_def and_then_Inr_iff)
  moreover have "l\<lparr>led_monthly_charged_bytes := 0\<rparr> = l" "led_reservation l = None"
    using l(1) by (auto simp: ledger_new_def Let_def and_then_Inr_iff)
  ultimately show "run_inv st" "st_operator_warning st = None"
    using ledger_new_inv [OF l(1)] by (auto simp: run_inv_def slot_ok_def)
qed

lemma reconfigure_reservation:
  assumes "ledger_reconfigure_limits l day month dl ml = Ok l'" "ledger_validate l = Ok ()"
  shows "led_reservation l' = led_reservation l"
  using assms(1)
proof (rule ledger_reconfigure_Ok)
  fix m assume "ledger_roll_period l day month = Ok m"
    "l' = m \<or> ledger_commit (m\<lparr>led_daily_limit_bytes := dl, led_monthly_limit_bytes := ml\<rparr>) = Ok l'"
  then show ?thesis
    using assms(2) by (auto dest!: ledger_roll_period_Ok(11) ledger_commit_fields(8))
qed

lemma reconfigured_inv:
  assumes "run_inv st" "ledger_reconfigure_limits (st_budget st) day month dl ml = Ok budget"
    "state_validate (st\<lparr>st_budget := budget\<rparr>) = Ok ()"
  shows "run_inv (st\<lparr>st_budget := budget\<rparr>)"
proof (rule run_invI [OF assms(3)])
  note inv = run_invD [OF assms(1)]
  show "ledger_inv (st_budget (st\<lparr>st_budget := budget\<rparr>))"
    using ledger_reconfigure_inv [OF assms(2) inv(2)] by simp
  show "slot_ok (st\<lparr>st_budget := budget\<rparr>)"
    using inv(3) reconfigure_reservation [OF assms(2) inv(4)] by (simp add: slot_ok_def)
qed

lemma cursor_due_cong:
  "cursor_last_success_unix_s c' = cursor_last_success_unix_s c \<Longrightarrow>
   cursor_initial_due_unix_s c' = cursor_initial_due_unix_s c \<Longrightarrow> cursor_due_unix_s c' i = cursor_due_unix_s c i"
  by (simp add: cursor_due_unix_s_def split: option.split)

text \<open>What a reservation leaves: the ledger with exactly the admitted budget reserved for the due slot.\<close>

lemma reserve_decision_Admit:
  assumes "reserve_decision config st obs request = Ok (b, Admit due t)"
  shows "state_validate st = Ok ()" "traffic_limit_bytes (rq_traffic_budget request) = Some b"
    "cursor_instance (st_cursor st) = sc_instance config" "cursor_due_unix_s (st_cursor st) (sc_interval_s config) = Ok due"
    "led_reservation (st_budget st) = None" "\<not> led_accounting_blocked (st_budget st)"
  using assms
  by (auto simp: reserve_decision_def and_then_Inr_iff evaluate_schedule_Admit_iff ledger_available_bytes_Ok_iff
      min_def split: if_splits)

lemma ledger_reserve_reservation:
  assumes "ledger_reserve l rid job day month auth bytes = Ok l'" "ledger_validate l = Ok ()"
  shows "led_reservation l' = Some \<lparr>res_reservation_id = rid, res_job_id = job, res_day = day, res_month = month,
      res_reserved_bytes = bytes, res_authority = auth\<rparr>" "led_instance l' = led_instance l"
proof -
  obtain m daily monthly r where m: "ledger_roll_period l day month = Ok m"
    and r: "r = \<lparr>res_reservation_id = rid, res_job_id = job, res_day = day, res_month = month,
      res_reserved_bytes = bytes, res_authority = auth\<rparr>"
    and commit: "ledger_commit (m\<lparr>led_daily_charged_bytes := daily, led_monthly_charged_bytes := monthly,
      led_reservation := Some r\<rparr>) = Ok l'"
    by (rule ledger_reserve_Ok [OF assms])
  show "led_reservation l' = Some \<lparr>res_reservation_id = rid, res_job_id = job, res_day = day, res_month = month,
      res_reserved_bytes = bytes, res_authority = auth\<rparr>" "led_instance l' = led_instance l"
    using ledger_commit_fields(8,9) [OF commit] ledger_roll_period_Ok(12) [OF m assms(2)] r by simp_all
qed

lemma reserved_inv:
  assumes "run_inv st" "cursor_due_unix_s (st_cursor st) (fence_interval_s auth) = Ok (fence_due_unix_s auth)"
    "ledger_reserve (st_budget st) rid job day month auth bytes = Ok budget"
  shows "run_inv (st\<lparr>st_budget := budget\<rparr>)"
proof (rule run_invI)
  note inv = run_invD [OF assms(1)]
  note res = ledger_reserve_reservation [OF assms(3) inv(4)]
  show l: "ledger_inv (st_budget (st\<lparr>st_budget := budget\<rparr>))"
    using ledger_reserve_inv [OF assms(3) inv(2)] by simp
  then show "state_validate (st\<lparr>st_budget := budget\<rparr>) = Ok ()"
    using inv(1) res(2) by (simp add: state_validate_Ok_iff ledger_inv_def)
  show "slot_ok (st\<lparr>st_budget := budget\<rparr>)"
    using assms(2) res(1) by (simp add: slot_ok_def)
qed

text \<open>What an operation does to the store: nothing, or one write of the state it leaves in memory, which
  satisfies the invariant if it is valid; a returned value of a write means that it succeeded.\<close>

definition effect :: "scheduler_store \<Rightarrow> scheduler_instance_state \<Rightarrow> scheduler_instance_state \<Rightarrow> scheduler_store \<Rightarrow> bool \<Rightarrow> bool" where
  "effect s st st' s' written \<longleftrightarrow>
     (s' = s \<and> \<not> written
      \<or> (\<exists>outcome u. persist_state s st' outcome = (s', u) \<and> (written \<longrightarrow> u = Ok ())
           \<and> (state_validate st' = Ok () \<longrightarrow> run_inv st') \<and> warning_text st' = warning_text st))"

lemma warning_text_update [simp]: "warning_text (st\<lparr>st_budget := b\<rparr>) = warning_text st"
  "warning_text (st\<lparr>st_budget := b, st_cursor := c\<rparr>) = warning_text st"
  by (simp_all add: warning_text_def)

lemma publish_effect:
  assumes "publish s st' outcome v = (s', st'', r)" "state_validate st' = Ok () \<Longrightarrow> run_inv st'"
    "warning_text st' = warning_text st"
  shows "st'' = st'" "effect s st st' s' (r = Ok v)" "r = Ok v \<or> r \<noteq> Ok w"
proof -
  obtain u where u: "persist_state s st' outcome = (s', u)" "st'' = st'" "r = (case u of Inl e \<Rightarrow> Err e | Inr _ \<Rightarrow> Ok v)"
    using assms(1) by (cases "persist_state s st' outcome") (auto simp: publish_def split: sum.splits)
  then show "st'' = st'" "effect s st st' s' (r = Ok v)" "r = Ok v \<or> r \<noteq> Ok w"
    using assms(2,3) by (auto simp: effect_def split: sum.splits)
qed

text \<open>The outcome of an admitted reservation: exactly the requested budget is reserved for the due slot.\<close>

definition reservation_made ::
  "scheduled_instance_config \<Rightarrow> scheduler_instance_state \<Rightarrow> scheduler_observation \<Rightarrow> operation_request \<Rightarrow> string
     \<Rightarrow> string \<Rightarrow> string \<Rightarrow> scheduler_instance_state \<Rightarrow> scheduler_decision \<Rightarrow> scheduled_reservation \<Rightarrow> bool" where
  "reservation_made config st obs request rid day month st' d res \<longleftrightarrow>
     cursor_instance (st_cursor st) = sc_instance config \<and> st_cursor st' = st_cursor st
     \<and> led_reservation (st_budget st) = None \<and> \<not> led_accounting_blocked (st_budget st)
     \<and> d = Admit (sr_due_unix_s res) (sr_traffic_budget res)
     \<and> traffic_limit_bytes (rq_traffic_budget request) = Some (sr_traffic_budget res)
     \<and> ledger_reserve (st_budget st) rid (id_job_id (rq_identity request)) day month
         \<lparr>fence_due_unix_s = sr_due_unix_s res, fence_interval_s = sc_interval_s config,
          fence_generations = obs_generations obs, fence_explicit_retry_sequence = obs_explicit_retry_sequence obs\<rparr>
         (sr_traffic_budget res) = Ok (st_budget st')
     \<and> sr_reservation_id res = rid \<and> sr_job_id res = id_job_id (rq_identity request)"

lemma reserve_effect:
  assumes "reserve_scheduled_request s config st obs request rid day month outcome = (s', st', r)" "run_inv st"
  shows "effect s st st' s' (\<exists>d res. r = Ok (d, Some res))
     \<and> (\<forall>d res. r = Ok (d, Some res) \<longrightarrow> reservation_made config st obs request rid day month st' d res)"
proof -
  let ?job = "id_job_id (rq_identity request)"
  consider "s' = s" "st' = st" "\<forall>d res. r \<noteq> Ok (d, Some res)"
    | due b budget where "reserve_decision config st obs request = Ok (b, Admit due b)"
      "ledger_reserve (st_budget st) rid ?job day month
        \<lparr>fence_due_unix_s = due, fence_interval_s = sc_interval_s config,
         fence_generations = obs_generations obs, fence_explicit_retry_sequence = obs_explicit_retry_sequence obs\<rparr> b = Ok budget"
      "publish s (st\<lparr>st_budget := budget\<rparr>) outcome (Admit due b,
        Some \<lparr>sr_reservation_id = rid, sr_job_id = ?job, sr_due_unix_s = due, sr_traffic_budget = b\<rparr>) = (s', st', r)"
    using assms(1)
    by (auto simp: reserve_scheduled_request_def split: sum.splits prod.splits scheduler_decision.splits if_splits)
  then show ?thesis
  proof cases
    case 1
    then show ?thesis by (auto simp: effect_def)
  next
    case (2 due b budget)
    note admit = reserve_decision_Admit [OF 2(1)]
    have "run_inv (st\<lparr>st_budget := budget\<rparr>)"
      using reserved_inv [OF assms(2) _ 2(2)] admit(4) by simp
    note pub = publish_effect [OF 2(3) this warning_text_update(1)]
    consider e where "r = Err e" | "r = Ok (Admit due b,
        Some \<lparr>sr_reservation_id = rid, sr_job_id = ?job, sr_due_unix_s = due, sr_traffic_budget = b\<rparr>)"
      using pub(3) by (cases r) auto
    then show ?thesis
      using pub(1,2) admit 2(2) by cases (auto simp: reservation_made_def)
  qed
qed

lemma record_and_publish_effect:
  assumes "record_and_publish s st budget recorded outcome = (s', st', r)"
    and "snd recorded = Ok () \<Longrightarrow> ledger_inv budget \<and> slot_ok (st\<lparr>st_budget := budget, st_cursor := fst recorded\<rparr>)"
  shows "effect s st st' s' (r = Ok ())" "st' = st\<lparr>st_budget := budget, st_cursor := fst recorded\<rparr>"
    "r = Ok () \<Longrightarrow> snd recorded = Ok ()"
proof -
  let ?st = "st\<lparr>st_budget := budget, st_cursor := fst recorded\<rparr>"
  consider e where "s' = s" "st' = ?st" "r = Err e"
    | "snd recorded = Ok ()" "publish s ?st outcome () = (s', st', r)"
    using assms(1) by (auto simp: record_and_publish_def Let_def and_then_def split: sum.splits)
  then show "effect s st st' s' (r = Ok ())" "st' = ?st" "r = Ok () \<Longrightarrow> snd recorded = Ok ()"
  proof (atomize (full), cases)
    case 2
    have "state_validate ?st = Ok () \<Longrightarrow> run_inv ?st"
      using assms(2) [OF 2(1)] by (simp add: run_inv_def)
    from publish_effect(1,2) [OF 2(2) this warning_text_update(2)] 2(1)
    show "effect s st st' s' (r = Ok ()) \<and> st' = ?st \<and> (r = Ok () \<longrightarrow> snd recorded = Ok ())" by simp
  qed (simp add: effect_def)
qed

lemma settle_effect:
  assumes "settle_scheduled_request s st rid job day month completed consumed settlement outcome = (s', st', r)" "run_inv st"
  shows "effect s st st' s' (r = Ok ()) \<and> (r = Ok () \<longrightarrow> (\<exists>res. led_reservation (st_budget st) = Some res
     \<and> ledger_settle (st_budget st) rid job day month consumed = Ok (st_budget st')
     \<and> settle_cursor settlement (res_authority res) completed (st_cursor st) = (st_cursor st', Ok ())))"
proof -
  consider e where "s' = s" "r = Err e"
    | res budget where "led_reservation (st_budget st) = Some res"
      "ledger_settle (st_budget st) rid job day month consumed = Ok budget"
      "record_and_publish s st budget (settle_cursor settlement (res_authority res) completed (st_cursor st)) outcome = (s', st', r)"
    using assms(1)
    by (auto simp: settle_scheduled_request_def and_then_Inr_iff split: sum.splits prod.splits)
  then show ?thesis
  proof cases
    case (2 res budget)
    have "led_reservation budget = None"
      using 2(2) by (rule ledger_settle_Ok) (auto dest: ledger_commit_fields(8))
    then have "ledger_inv budget \<and> slot_ok (st\<lparr>st_budget := budget, st_cursor := c\<rparr>)" for c
      using ledger_settle_inv [OF 2(2)] run_invD(2) [OF assms(2)] by (simp add: slot_ok_def)
    from record_and_publish_effect [OF 2(3) this] 2(1,2) show ?thesis
      by (auto simp: prod_eq_iff)
  qed (simp add: effect_def)
qed

lemma mark_effect:
  assumes "mark_scheduled_accounting_unknown s st rid job outcome = (s', st', r)" "run_inv st"
  shows "effect s st st' s' (r = Ok ()) \<and> (r = Ok () \<longrightarrow> (\<exists>res. led_reservation (st_budget st) = Some res
     \<and> ledger_mark_accounting_unknown (st_budget st) rid job = Ok (st_budget st')
     \<and> cursor_record_failure (st_cursor st) (res_authority res) = (st_cursor st', Ok ())))"
proof -
  consider e where "s' = s" "r = Err e"
    | res budget where "led_reservation (st_budget st) = Some res"
      "ledger_mark_accounting_unknown (st_budget st) rid job = Ok budget"
      "record_and_publish s st budget (cursor_record_failure (st_cursor st) (res_authority res)) outcome = (s', st', r)"
    using assms(1)
    by (auto simp: mark_scheduled_accounting_unknown_def and_then_Inr_iff split: sum.splits prod.splits)
  then show ?thesis
  proof cases
    case (2 res budget)
    let ?rec = "cursor_record_failure (st_cursor st) (res_authority res)"
    have same: "led_reservation budget = led_reservation (st_budget st)"
      using 2(2) by (rule ledger_mark_Ok) (auto dest: ledger_commit_fields(8))
    have "ledger_inv budget \<and> slot_ok (st\<lparr>st_budget := budget, st_cursor := fst ?rec\<rparr>)" if ok: "snd ?rec = Ok ()"
    proof
      show "ledger_inv budget"
        using ledger_mark_inv [OF 2(2)] run_invD(2) [OF assms(2)] by simp
      obtain c' where rec: "?rec = (c', Ok ())" using ok by (cases ?rec) auto
      then obtain n where "c' = (st_cursor st)\<lparr>cursor_sequence := n, cursor_failed_attempt := Some (res_authority res)\<rparr>"
        by (rule cursor_record_failure_Ok)
      then have "cursor_due_unix_s c' i = cursor_due_unix_s (st_cursor st) i" for i
        by (intro cursor_due_cong) simp_all
      then show "slot_ok (st\<lparr>st_budget := budget, st_cursor := fst ?rec\<rparr>)"
        using run_invD(3) [OF assms(2)] same rec by (simp add: slot_ok_def)
    qed
    from record_and_publish_effect [OF 2(3) this] 2(1,2) show ?thesis
      by (auto simp: prod_eq_iff)
  qed (simp add: effect_def)
qed

lemma acknowledge_effect:
  assumes "acknowledge_scheduled_accounting_unknown s st outcome = (s', st', r)" "run_inv st"
  shows "effect s st st' s' (\<exists>b. r = Ok b)"
proof -
  consider e where "s' = s" "r = Err e"
    | budget b where "ledger_acknowledge_accounting_unknown (st_budget st) = Ok (budget, b)"
      "publish s (st\<lparr>st_budget := budget\<rparr>) outcome b = (s', st', r)"
    using assms(1)
    by (auto simp: acknowledge_scheduled_accounting_unknown_def Let_def split: sum.splits prod.splits)
  then show ?thesis
  proof cases
    case (2 budget b)
    have "led_reservation budget = None"
      using 2(1) by (rule ledger_acknowledge_Ok) (auto dest: ledger_commit_fields(8))
    then have "state_validate (st\<lparr>st_budget := budget\<rparr>) = Ok () \<Longrightarrow> run_inv (st\<lparr>st_budget := budget\<rparr>)"
      using ledger_acknowledge_inv [OF 2(1)] run_invD(2) [OF assms(2)] by (simp add: run_inv_def slot_ok_def)
    note pub = publish_effect [OF 2(2) this warning_text_update(1)]
    have "(\<exists>b'. r = Ok b') = (r = Ok b)" using pub(3) by (cases r) auto
    with pub(1,2) show ?thesis by simp
  qed (simp add: effect_def)
qed

lemma initialize_effect:
  assumes "load_or_initialize_state umax s config now day month outcome = (s', r)"
    and load: "\<And>st. load_state umax s (sc_instance config) = Ok (Some st) \<Longrightarrow> run_inv st \<and> utf8_valid (warning_text st)"
  shows "s' = s \<or> (\<exists>st u. persist_state s st outcome = (s', u) \<and> (state_validate st = Ok () \<longrightarrow> run_inv st)
     \<and> utf8_valid (warning_text st))"
proof -
  consider "s' = s"
    | before budget u where "load_state umax s (sc_instance config) = Ok (Some before)
        \<or> build_initial_scheduler_state config now day month 0 = Ok before"
      "ledger_reconfigure_limits (st_budget before) day month (sc_daily_limit_bytes config) (sc_monthly_limit_bytes config) = Ok budget"
      "persist_state s (before\<lparr>st_budget := budget\<rparr>) outcome = (s', u)"
    using assms(1)
    by (auto simp: load_or_initialize_state_def and_then_Inr_iff Let_def
        split: sum.splits prod.splits option.splits if_splits)
  then show ?thesis
  proof cases
    case (2 before budget u)
    have "run_inv before \<and> utf8_valid (warning_text before)"
      using 2(1) load build_initial_inv by (auto simp: warning_text_def)
    then show ?thesis
      using 2 reconfigured_inv by (intro disjI2 exI [of _ "before\<lparr>st_budget := budget\<rparr>"] exI [of _ u]) auto
  qed simp
qed

section \<open>Runs of the store\<close>

text \<open>
  What happens to the store over its life. The coordinator starts every operation from a state it has
  just loaded, or from the state a successful operation left, which is the one a load would return. A
  write may end in any outcome; a crash during a write leaves a private temporary file with any
  contents; the store is opened again, which may fail half way.
\<close>

text \<open>What \<open>reconcile_native_scheduler_reservation_with\<close> leaves in the warning of the loaded record before it settles it:
  nothing, or that Auto-Apply was skipped, for one of two reasons.\<close>

definition settlement_warnings :: "string option list" where
  "settlement_warnings =
     [None,
      Some ''scheduled Auto-Apply skipped: the preferred result requires explicit Review or changes SQM direction ownership'',
      Some ''scheduled Auto-Apply skipped: raw throughput fell below 50% of a verified previous same-route result; inspect the link and test sources before applying'']"

inductive run_step :: "nat \<Rightarrow> scheduler_store \<Rightarrow> scheduler_store \<Rightarrow> bool" for umax where
  initialize: "load_or_initialize_state umax s config now day month outcome = (s', r) \<Longrightarrow> run_step umax s s'"
| reserve: "load_state umax s inst = Ok (Some st) \<Longrightarrow>
    reserve_scheduled_request s config st obs request rid day month outcome = (s', st', r) \<Longrightarrow> run_step umax s s'"
| settle: "load_state umax s inst = Ok (Some st) \<Longrightarrow> warning \<in> set settlement_warnings \<Longrightarrow>
    settle_scheduled_request s (st\<lparr>st_operator_warning := warning\<rparr>) rid job day month completed consumed settlement outcome = (s', st', r) \<Longrightarrow> run_step umax s s'"
| mark: "load_state umax s inst = Ok (Some st) \<Longrightarrow>
    mark_scheduled_accounting_unknown s st rid job outcome = (s', st', r) \<Longrightarrow> run_step umax s s'"
| acknowledge: "load_state umax s inst = Ok (Some st) \<Longrightarrow>
    acknowledge_scheduled_accounting_unknown s st outcome = (s', st', r) \<Longrightarrow> run_step umax s s'"
| crash: "is_exact_temp_name name \<Longrightarrow>
    run_step umax s (s\<lparr>ss_files := AList.update name \<lparr>sf_private = True, sf_bytes = junk\<rparr> (ss_files s)\<rparr>)"
| reopen: "store_open (ss_root s) unlink (ss_files s) = (dir, r) \<Longrightarrow> run_step umax s (s\<lparr>ss_files := dir, ss_write_sequence := 1\<rparr>)"

definition run_start :: "scheduler_store \<Rightarrow> bool" where
  "run_start s \<longleftrightarrow> ss_files s = [(LOCK_FILE, \<lparr>sf_private = True, sf_bytes = []\<rparr>)]"

definition store_inv :: "scheduler_store \<Rightarrow> bool" where
  "store_inv s \<longleftrightarrow> directory_ok run_inv (ss_files s)"

definition target :: "nat \<Rightarrow> bool" where
  "target umax \<longleftrightarrow> MAX_RECORD_BYTES \<le> umax \<and> umax < 2 ^ 64"

lemma load_state_inv:
  assumes "load_state umax s inst = Ok (Some st)" "store_inv s" "target umax"
  shows "run_inv st" "utf8_valid (warning_text st)" "cursor_instance (st_cursor st) = inst"
proof -
  have "validate_scheduler_instance inst = Ok ()"
    using assms(1) by (auto simp: load_state_def and_then_Inr_iff record_path_Ok_iff)
  then show "run_inv st" "utf8_valid (warning_text st)" "cursor_instance (st_cursor st) = inst"
    using assms by (auto simp: store_inv_def target_def elim: load_state_cases [of run_inv s inst umax])
qed

lemma effect_inv:
  assumes "effect s st st' s' w" "store_inv s" "utf8_valid (warning_text st)"
  shows "store_inv s'"
  using assms by (auto simp: effect_def store_inv_def intro: persist_state_directory)

lemma clean_entries_sub:
  "clean_and_validate_entries root unlink dir = (dir', r) \<Longrightarrow>
   set dir' \<subseteq> set dir \<and> (distinct (map fst dir) \<longrightarrow> distinct (map fst dir'))"
proof (induction dir arbitrary: dir' r)
  case (Cons e dir)
  obtain name f where e: "e = (name, f)" by fastforce
  obtain es' r' where rest: "clean_and_validate_entries root unlink dir = (es', r')" by fastforce
  have "dir' \<in> {e # dir, e # es', es'}"
    using Cons.prems rest unfolding e
    by (auto simp: Let_def split: if_splits sum.splits option.splits)
  then show ?case
    using Cons.IH [OF rest] unfolding e by (auto simp: image_iff subset_iff) (metis fst_conv)+
qed simp

lemma settlement_warning_visible:
  "Some w \<in> set settlement_warnings \<Longrightarrow> w \<noteq> [] \<and> length w \<le> 512 \<and> list_all (\<lambda>b. 32 \<le> byte b \<and> byte b < 127) w"
  by (auto simp: settlement_warnings_def byte_def)

lemma settlement_warning_inv:
  assumes "warning \<in> set settlement_warnings" "run_inv st"
  shows "run_inv (st\<lparr>st_operator_warning := warning\<rparr>)" "utf8_valid (warning_text (st\<lparr>st_operator_warning := warning\<rparr>))"
proof -
  have visible: "w \<noteq> []" "length w \<le> 512" "visible w" if "warning = Some w" for w
    using settlement_warning_visible [of w] assms(1) that by (simp_all add: visible_def)
  then have "\<forall>w. warning = Some w \<longrightarrow> w \<noteq> [] \<and> length w \<le> 512 \<and> list_all (\<lambda>b. 32 \<le> byte b \<and> byte b \<noteq> 127) w"
    by (fastforce simp: visible_def list_all_iff)
  then show "run_inv (st\<lparr>st_operator_warning := warning\<rparr>)"
    using assms(2) by (simp add: run_inv_def slot_ok_def state_validate_Ok_iff)
  show "utf8_valid (warning_text (st\<lparr>st_operator_warning := warning\<rparr>))"
    using visible(3) by (cases warning) (simp_all add: warning_text_def utf8_valid_of_ascii visible_ascii)
qed

lemma run_step_inv:
  assumes "run_step umax s s'" "store_inv s" "target umax"
  shows "store_inv s'"
  using assms(1)
proof cases
  case (initialize config now day month outcome r)
  show ?thesis
    using initialize_effect [OF initialize] load_state_inv [OF _ assms(2,3)] assms(2)
    by (auto simp: store_inv_def intro: persist_state_directory)
next
  case (crash name junk)
  then show ?thesis
    using assms(2) by (auto simp: store_inv_def entry_ok_def intro!: directory_ok_update)
next
  case (reopen unlink dir r)
  obtain r' where "clean_and_validate_entries (ss_root s) unlink (ss_files s) = (dir, r')"
    using reopen(2) by (auto simp: store_open_def split: prod.splits sum.splits)
  from clean_entries_sub [OF this] show ?thesis
    using reopen(1) assms(2) by (auto simp: store_inv_def directory_ok_def list_all_iff)
next
  case (reserve inst st config obs request rid day month outcome st' r)
  note st = load_state_inv [OF reserve(1) assms(2,3)]
  show ?thesis using reserve_effect [OF reserve(2) st(1)] effect_inv [OF _ assms(2) st(2)] by blast
next
  case (settle inst st warning rid job day month completed consumed settlement outcome st' r)
  note st = settlement_warning_inv [OF settle(2) load_state_inv(1) [OF settle(1) assms(2,3)]]
  show ?thesis using settle_effect [OF settle(3) st(1)] effect_inv [OF _ assms(2) st(2)] by blast
next
  case (mark inst st rid job outcome st' r)
  note st = load_state_inv [OF mark(1) assms(2,3)]
  show ?thesis using mark_effect [OF mark(2) st(1)] effect_inv [OF _ assms(2) st(2)] by blast
next
  case (acknowledge inst st outcome st' r)
  note st = load_state_inv [OF acknowledge(1) assms(2,3)]
  show ?thesis using acknowledge_effect [OF acknowledge(2) st(1)] effect_inv [OF _ assms(2) st(2)] by blast
qed

lemma run_start_inv: "run_start s \<Longrightarrow> store_inv s"
  by (simp add: run_start_def store_inv_def directory_ok_def entry_ok_def)

interpretation store_machine: invariant_machine run_start "\<lambda>s t. target umax \<and> run_step umax s t" store_inv for umax
  by unfold_locales (auto intro: run_start_inv run_step_inv)

section \<open>The size of a record\<close>

lemma length_record_text: "length (record_text h fs) = length h + 1 + sum_list (map (\<lambda>f. length (fst f) + length (snd f) + 2) fs)"
  by (induction fs) (simp_all add: record_text_def record_line_def)

lemma length_identifier: "require_identifier n v = Ok () \<Longrightarrow> length v \<le> 64"
  by (simp add: require_identifier_def)

lemma length_fingerprint: "require_lower_hex n v k = Ok () \<Longrightarrow> length v = k"
  by (simp add: require_lower_hex_def)

lemma length_period: "validate_period d m = Ok () \<Longrightarrow> length d = 8 \<and> length m = 6"
  by (auto simp: validate_period_def and_then_Inr_iff)

lemma length_optional_scheduler: "length (optional_u64 v) \<le> 20"
  using length_u64_string by (cases v) (simp_all add: optional_u64_def)

lemma length_fence_fields:
  assumes "\<And>f. fa = Some f \<Longrightarrow> fence_validate f = Ok ()"
  shows "sum_list (map (\<lambda>f. length (fst f) + length (snd f) + 2) (zip failed_field_names (fence_values fa))) \<le> 500"
proof (cases fa)
  case (Some f)
  then have "length (gen_config_fingerprint (fence_generations f)) = 64" "length (gen_route_fingerprint (fence_generations f)) = 64"
    "length (gen_coordinator_generation (fence_generations f)) = 32"
    using assms [OF Some] by (auto simp: fence_validate_Ok_iff generations_validate_Ok_iff dest: length_fingerprint)
  then show ?thesis
    using Some length_u64_string [of "fence_due_unix_s f"] length_u64_string [of "fence_interval_s f"]
      length_u64_string [of "gen_runtime_sequence (fence_generations f)"] length_u64_string [of "fence_explicit_retry_sequence f"]
    by (simp add: failed_field_names_def fence_values_def)
qed (simp add: failed_field_names_def fence_values_def)

lemma length_reservation_fields:
  assumes "\<And>r. ra = Some r \<Longrightarrow> reservation_validate r = Ok ()"
  shows "sum_list (map (\<lambda>f. length (fst f) + length (snd f) + 2) (zip reservation_field_names (reservation_values ra))) \<le> 800"
proof (cases ra)
  case (Some r)
  let ?a = "res_authority r"
  have "length (gen_config_fingerprint (fence_generations ?a)) = 64" "length (gen_route_fingerprint (fence_generations ?a)) = 64"
    "length (gen_coordinator_generation (fence_generations ?a)) = 32" "length (res_reservation_id r) = 32"
    "length (res_job_id r) = 32" "length (res_day r) = 8" "length (res_month r) = 6"
    using assms [OF Some]
    by (auto simp: reservation_validate_Ok_iff fence_validate_Ok_iff generations_validate_Ok_iff dest: length_fingerprint length_period)
  then show ?thesis
    using Some length_u64_string [of "fence_due_unix_s ?a"] length_u64_string [of "fence_interval_s ?a"]
      length_u64_string [of "gen_runtime_sequence (fence_generations ?a)"] length_u64_string [of "fence_explicit_retry_sequence ?a"]
      length_u64_string [of "res_reserved_bytes r"]
    by (simp add: reservation_field_names_def reservation_values_def)
qed (simp add: reservation_field_names_def reservation_values_def)

lemma length_cursor_record:
  assumes "cursor_validate c = Ok ()"
  shows "length (record_text CURSOR_HEADER (cursor_fields c)) \<le> 1000"
proof -
  have "length (cursor_instance c) \<le> 64"
    using assms by (auto simp: cursor_validate_Ok_iff dest: length_identifier)
  moreover have "sum_list (map (\<lambda>f. length (fst f) + length (snd f) + 2)
      (zip failed_field_names (fence_values (cursor_failed_attempt c)))) \<le> 500"
    using assms by (intro length_fence_fields) (simp add: cursor_validate_Ok_iff)
  ultimately show ?thesis
    using length_u64_string [of "cursor_sequence c"] length_u64_string [of "cursor_initial_due_unix_s c"]
      length_optional_scheduler [of "cursor_last_success_unix_s c"]
    by (simp add: length_record_text cursor_fields_def CURSOR_HEADER_def)
qed

lemma length_ledger_record:
  assumes "ledger_validate l = Ok ()"
  shows "length (record_text BUDGET_HEADER (ledger_fields l)) \<le> 1500"
proof -
  have "length (led_instance l) \<le> 64" "length (led_day l) = 8" "length (led_month l) = 6"
    using assms by (auto simp: ledger_validate_Ok_iff dest: length_identifier length_period)
  moreover have "sum_list (map (\<lambda>f. length (fst f) + length (snd f) + 2)
      (zip reservation_field_names (reservation_values (led_reservation l)))) \<le> 800"
    using assms by (intro length_reservation_fields) (auto simp: ledger_validate_Ok_iff)
  ultimately show ?thesis
    using length_u64_string [of "led_sequence l"] length_u64_string [of "led_daily_limit_bytes l"]
      length_u64_string [of "led_monthly_limit_bytes l"] length_u64_string [of "led_daily_charged_bytes l"]
      length_u64_string [of "led_monthly_charged_bytes l"]
    by (simp add: length_record_text ledger_fields_def BUDGET_HEADER_def)
qed

text \<open>The record of a valid state always fits the bound of the store.\<close>

lemma state_record_fits:
  assumes "state_encode st = Ok bytes"
  shows "length bytes \<le> MAX_RECORD_BYTES"
proof -
  let ?c = "record_text CURSOR_HEADER (cursor_fields (st_cursor st))"
  let ?b = "record_text BUDGET_HEADER (ledger_fields (st_budget st))"
  have valid: "state_validate st = Ok ()" and bytes: "bytes = state_text ?c ?b (warning_text st)"
    using assms by (simp_all add: state_encode_Ok_iff)
  have c: "length ?c \<le> 1000" and b: "length ?b \<le> 1500"
    using valid by (auto simp: state_validate_Ok_iff intro: length_cursor_record length_ledger_record)
  have w: "length (warning_text st) \<le> 512"
    using valid by (auto simp: state_validate_Ok_iff warning_text_def split: option.splits)
  have "length (nat_string n) \<le> 4" if "n \<le> 1500" for n
    using that by (intro length_nat_string) simp_all
  then have "length (nat_string (length ?c)) \<le> 4" "length (nat_string (length ?b)) \<le> 4"
    "length (nat_string (length (warning_text st))) \<le> 4"
    using c b w by simp_all
  then show ?thesis
    using c b w by (simp add: bytes state_text_def length_line_def INSTANCE_STATE_HEADER_V2_def MAX_RECORD_BYTES_def)
qed

lemma persist_succeeds:
  assumes "run_inv st" "store_inv s" "ss_write_sequence s \<noteq> - 1"
  obtains s' where "persist_state s st Published = (s', Ok ())"
proof -
  let ?i = "cursor_instance (st_cursor st)"
  obtain bytes where bytes: "state_encode st = Ok bytes"
    using run_invD(1) [OF assms(1)] by (simp add: state_encode_Ok_iff)
  have inst: "validate_scheduler_instance ?i = Ok ()"
    using run_invD(1) [OF assms(1)]
    unfolding state_validate_Ok_iff cursor_validate_Ok_iff validate_scheduler_instance_def by blast
  have "(case map_of (ss_files s) (path_of ?i) of None \<Rightarrow> Ok () | Some f \<Rightarrow> validate_private_file (ss_root s) (path_of ?i) f) = Ok ()"
    using assms(2) by (auto simp: store_inv_def validate_private_file_def dest: directory_ok_lookup split: option.split)
  then show thesis
    using that bytes inst state_record_fits [OF bytes] assms(3)
    by (simp add: persist_state_def atomic_write_def record_path_def path_of_def [symmetric] Let_def)
qed

section \<open>Properties\<close>

lemma store_open_reopens:
  assumes "store_inv s" "\<And>name. is_exact_temp_name name \<Longrightarrow> unlink name = Ok ()"
  obtains s' where "store_open (ss_root s) unlink (ss_files s) = (ss_files s', Ok s')" "store_inv s'"
    "\<And>inst. load_state umax s' inst = load_state umax s inst"
proof -
  let ?dir = "filter (\<lambda>e. \<not> is_exact_temp_name (fst e)) (ss_files s)"
  let ?s = "\<lparr>ss_root = ss_root s, ss_files = ?dir, ss_write_sequence = 1\<rparr>"
  have "clean_and_validate_entries (ss_root s) unlink (ss_files s) = (?dir, Ok ())"
    using assms by (intro clean_and_validate_ok) (auto simp: store_inv_def directory_ok_def)
  then have "store_open (ss_root s) unlink (ss_files s) = (ss_files ?s, Ok ?s)"
    by (simp add: store_open_def)
  moreover have "store_inv ?s"
    using assms(1) by (simp add: store_inv_def directory_ok_filter)
  moreover have "load_state umax ?s inst = load_state umax s inst" for inst
    by (rule load_state_cong) (simp_all add: map_of_filter_key)
  ultimately show thesis by (rule that)
qed

lemma effect_loads:
  assumes "effect s st st' s' w" "load_state umax s inst = Ok (Some st)" "store_inv s" "target umax"
    "cursor_instance (st_cursor st') = inst"
  shows "load_state umax s' inst = Ok (Some st') \<or> \<not> w \<and> load_state umax s' inst = Ok (Some st)"
    and "other \<noteq> inst \<Longrightarrow> load_state umax s' other = load_state umax s other"
proof -
  note utf8 = load_state_inv(2) [OF assms(2-4)]
  consider "s' = s" "\<not> w" | oc u where "persist_state s st' oc = (s', u)" "w \<longrightarrow> u = Ok ()" "utf8_valid (warning_text st')"
    using assms(1) utf8 by (auto simp: effect_def)
  note cases = this
  have t: "MAX_RECORD_BYTES \<le> umax" "umax < 2 ^ 64" using assms(4) by (simp_all add: target_def)
  show "load_state umax s' inst = Ok (Some st') \<or> \<not> w \<and> load_state umax s' inst = Ok (Some st)"
    by (rule cases) (use assms(2,5) persist_state_loads(2) [OF _ _ t] in metis)+
  show "load_state umax s' other = load_state umax s other" if "other \<noteq> inst"
    by (rule cases) (use that assms(5) persist_state_loads(1) [OF _ _ t] in metis)+
qed

text \<open>Data for the witnesses: the store of a new device, the configuration and the first request of an
  instance, and the run that initialises the instance and admits the request.\<close>

definition sample_empty_store :: scheduler_store where
  "sample_empty_store = \<lparr>ss_root = ''/etc/cake'', ss_files = [(LOCK_FILE, \<lparr>sf_private = True, sf_bytes = []\<rparr>)],
     ss_write_sequence = 1\<rparr>"

definition sample_sched_config :: scheduled_instance_config where
  "sample_sched_config = sample_policy\<lparr>sc_interval_s := 600, sc_daily_limit_bytes := 1000, sc_monthly_limit_bytes := 9000\<rparr>"

definition sample_scheduled_request :: operation_request where
  "sample_scheduled_request =
     \<lparr>rq_identity = \<lparr>id_job_id = replicate 32 CHR ''e'', id_job_token = replicate 64 CHR ''a'', id_instance = ''wan'',
        id_operation = FullAutotune, id_target_interface = ''pppoe-wan'', id_route_fingerprint = replicate 64 CHR ''b'',
        id_config_fingerprint = replicate 64 CHR ''a'', id_sqm_fingerprint = replicate 64 CHR ''a''\<rparr>,
      rq_created_unix_ms = 1, rq_deadline_unix_ms = 60001, rq_origin = Scheduler, rq_backend = ''speedtest-go'',
      rq_speedtest_direction = None, rq_speedtest_server_id = None, rq_speedtest_topology = None,
      rq_route = \<lparr>rt_dns_server = None, rt_device_ifindex = None, rt_mode = Main, rt_mwan3_member = None,
        rt_l3_device = ''pppoe-wan'', rt_source_ip = Some (V4 (192, 0, 2, 1)), rt_fwmark = None,
        rt_routing_table = None, rt_fwmark_mask = None\<rparr>,
      rq_target_state = ExistingManaged, rq_capture_policy = None, rq_managed_sqm_section = Some ''wan'',
      rq_profile = Some BestOverall, rq_strategy = Some ShapedOnly, rq_access_medium = Some SharedWired,
      rq_access_source = Some UserSelected, rq_access_confidence_percent = 100,
      rq_capacity_learning_policy = Some VerifiedOnly, rq_service_dl_cap_kbps = None,
      rq_service_ul_cap_kbps = None, rq_allow_sqm_disable = False, rq_allow_active_traffic = False,
      rq_scheduled_auto_apply_requested = False, rq_traffic_budget = Capped 400,
      rq_traffic_policy_explicit = False, rq_traffic_plan = None, rq_server_failure_retries = None\<rparr>"

definition sample_initial_state :: scheduler_instance_state where
  "sample_initial_state = \<lparr>st_cursor = \<lparr>cursor_instance = ''wan'', cursor_sequence = 1, cursor_initial_due_unix_s = 5600,
     cursor_last_success_unix_s = None, cursor_failed_attempt = None\<rparr>, st_budget = sample_ledger,
     st_operator_warning = None\<rparr>"

lemma sample_scheduled_request_valid: "request_validate sample_scheduled_request = Ok ()"
  by code_simp

lemma sample_target: "target 65535"
  by (simp add: target_def MAX_RECORD_BYTES_def)

lemma sample_initial:
  "build_initial_scheduler_state sample_sched_config 5600 ''20240229'' ''202402'' 0 = Ok sample_initial_state"
  "ledger_reconfigure_limits sample_ledger ''20240229'' ''202402'' 1000 9000 = Ok sample_ledger"
proof -
  have valid: "ledger_validate sample_ledger = Ok ()"
    using ledger_new_inv [OF sample_ledger_new] by (simp add: ledger_inv_def)
  have roll: "ledger_roll_period sample_ledger ''20240229'' ''202402'' = Ok sample_ledger"
    by (simp add: ledger_roll_period_def sample_period) (simp add: sample_ledger_def)
  have cursor: "cursor_new ''wan'' 5600 = Ok (st_cursor sample_initial_state)"
    "cursor_validate (st_cursor sample_initial_state) = Ok ()"
    by (simp_all add: cursor_new_def Let_def and_then_Inr_iff cursor_validate_Ok_iff sample_initial_state_def require_identifier_def
        is_ascii_alphanumeric_def is_ascii_lowercase_def byte_def)
  have same: "sample_ledger\<lparr>led_monthly_charged_bytes := 0\<rparr> = sample_ledger"
    by (simp add: sample_ledger_def)
  show "build_initial_scheduler_state sample_sched_config 5600 ''20240229'' ''202402'' 0 = Ok sample_initial_state"
    using valid cursor same
    by (simp add: build_initial_scheduler_state_def sample_sched_config_def sample_policy_def sample_ledger_new state_new_def Let_def
        and_then_Inr_iff state_validate_Ok_iff)
      (simp add: sample_initial_state_def sample_ledger_def)
  show "ledger_reconfigure_limits sample_ledger ''20240229'' ''202402'' 1000 9000 = Ok sample_ledger"
    by (simp add: ledger_reconfigure_limits_def roll Let_def)
      (simp add: sample_ledger_def validate_accounted_bytes_def MAX_EXACT_BYTES_def)
qed

lemma sample_start: "run_start sample_empty_store"
  by (simp add: run_start_def sample_empty_store_def)

text \<open>The instance is initialised.\<close>

lemma sample_initialized:
  obtains s where "reachable_from run_start (\<lambda>s t. target 65535 \<and> run_step 65535 s t) s"
    "load_state 65535 s ''wan'' = Ok (Some sample_initial_state)" "ss_write_sequence s = 2"
proof -
  have inv: "store_inv sample_empty_store" using sample_start by (rule run_start_inv)
  have run: "run_inv sample_initial_state" "utf8_valid (warning_text sample_initial_state)"
    using build_initial_inv [OF sample_initial(1)] by (auto simp: warning_text_def)
  obtain s where s: "persist_state sample_empty_store sample_initial_state Published = (s, Ok ())"
    by (rule persist_succeeds [OF run(1) inv]) (simp add: sample_empty_store_def)
  have none: "load_state 65535 sample_empty_store ''wan'' = Ok None"
    by (simp add: load_state_def record_path_def validate_scheduler_instance_def require_identifier_def
        is_ascii_alphanumeric_def is_ascii_lowercase_def byte_def read_optional_record_def sample_empty_store_def
        LOCK_FILE_def STATE_PREFIX_def)
  have "load_or_initialize_state 65535 sample_empty_store sample_sched_config 5600 ''20240229'' ''202402'' Published
      = (s, Ok sample_initial_state)"
    using s none sample_initial
    by (simp add: load_or_initialize_state_def sample_sched_config_def sample_policy_def Let_def) (simp add: sample_initial_state_def)
  then have "run_step 65535 sample_empty_store s" by (rule run_step.initialize)
  with sample_start sample_target have "reachable_from run_start (\<lambda>s t. target 65535 \<and> run_step 65535 s t) s"
    by (intro reachable_from_step [OF reachable_from_start]) auto
  moreover have "load_state 65535 s ''wan'' = Ok (Some sample_initial_state)"
    using persist_state_loads(2) [OF s run(2), of 65535] by (simp add: MAX_RECORD_BYTES_def sample_initial_state_def)
  moreover have "ss_write_sequence s = 2"
    using s by (auto simp: persist_state_def atomic_write_def sample_empty_store_def Let_def split: sum.splits prod.splits if_splits option.splits)
  ultimately show thesis by (rule that)
qed

text \<open>The request is admitted from that state.\<close>

lemma sample_admission:
  "reserve_decision sample_sched_config sample_initial_state (sample_observation 5600) sample_scheduled_request
     = Ok (400, Admit 5600 400)"
proof -
  have state: "state_validate sample_initial_state = Ok ()"
    using build_initial_inv(1) [OF sample_initial(1)] by (simp add: run_inv_def)
  then have "ledger_available_bytes sample_ledger = Ok 1000"
    by (simp add: ledger_available_bytes_Ok_iff state_validate_Ok_iff sample_initial_state_def)
      (simp add: sample_ledger_def saturating_sub_def)
  then have avail: "ledger_available_bytes (st_budget sample_initial_state) = Ok 1000"
    by (simp add: sample_initial_state_def)
  have "evaluate_schedule True 600 400 1000 (st_cursor sample_initial_state) (sample_observation 5600) = Ok (Admit 5600 400)"
    using state
    by (simp add: evaluate_schedule_Admit_iff state_validate_Ok_iff)
      (simp add: sample_initial_state_def sample_observation_def gates_open_def cursor_due_unix_s_def MAX_EXACT_BYTES_def)
  with state avail show ?thesis
    by (simp add: reserve_decision_def sample_scheduled_request_valid)
      (simp add: sample_scheduled_request_def sample_sched_config_def sample_policy_def sample_initial_state_def sample_observation_def
        sample_generations_def config_enabled_def traffic_limit_bytes_def)
qed

abbreviation sample_admitted_state :: scheduler_instance_state where
  "sample_admitted_state \<equiv> sample_initial_state\<lparr>st_budget := sample_reserved_ledger\<rparr>"

lemma sample_admitted:
  assumes "load_state 65535 s ''wan'' = Ok (Some sample_initial_state)" "ss_write_sequence s = 2" "store_inv s"
  obtains s' res where
    "reserve_scheduled_request s sample_sched_config sample_initial_state (sample_observation 5600) sample_scheduled_request
       (replicate 32 CHR ''d'') ''20240229'' ''202402'' Published = (s', sample_admitted_state, Ok (Admit 5600 400, Some res))"
    "ss_write_sequence s' = 3"
proof -
  have auth: "\<lparr>fence_due_unix_s = 5600, fence_interval_s = sc_interval_s sample_sched_config,
      fence_generations = obs_generations (sample_observation 5600),
      fence_explicit_retry_sequence = obs_explicit_retry_sequence (sample_observation 5600)\<rparr> = sample_fence"
    by (simp add: sample_fence_def sample_sched_config_def sample_policy_def sample_observation_def)
  have parts: "st_budget sample_initial_state = sample_ledger"
    "id_job_id (rq_identity sample_scheduled_request) = replicate 32 CHR ''e''"
    by (simp_all only: sample_initial_state_def sample_scheduled_request_def scheduler_instance_state.simps
        operation_request.simps operation_identity.simps)
  have slot: "cursor_due_unix_s (st_cursor sample_initial_state) (fence_interval_s sample_fence)
      = Ok (fence_due_unix_s sample_fence)"
    by (simp add: sample_initial_state_def sample_fence_def cursor_due_unix_s_def)
  have "run_inv sample_admitted_state"
    using reserved_inv [OF build_initial_inv(1) [OF sample_initial(1)] slot] sample_reserve parts by simp
  from this assms(3) obtain s' where s': "persist_state s sample_admitted_state Published = (s', Ok ())"
    by (rule persist_succeeds) (simp add: assms(2))
  moreover have "ss_write_sequence s' = 3"
    using s' assms(2) by (auto simp: persist_state_def atomic_write_def Let_def split: sum.splits prod.splits if_splits option.splits)
  ultimately show thesis
    using that sample_reserve
    by (simp add: reserve_scheduled_request_def sample_admission auth parts publish_def)
qed

text \<open>C4: the store of the scheduler survives everything. In every store that initialisations,
  reservations, settlements, failed and half-finished writes, crashes and reopenings can produce, the
  record of an instance is absent or loads as a valid state of that instance, whose ledger satisfies
  its invariant and whose reservation belongs to the due slot of its cursor; the store can be opened
  again, and opening it changes no state.\<close>

theorem scheduler_store_survives:
  assumes "target umax" "reachable_from run_start (\<lambda>s t. target umax \<and> run_step umax s t) s"
    "validate_scheduler_instance inst = Ok ()" "\<forall>name. is_exact_temp_name name \<longrightarrow> unlink name = Ok ()"
  shows "\<exists>s'. store_open (ss_root s) unlink (ss_files s) = (ss_files s', Ok s')
    \<and> load_state umax s' inst = load_state umax s inst
    \<and> (load_state umax s inst = Ok None \<or> (\<exists>st. load_state umax s inst = Ok (Some st)
         \<and> cursor_instance (st_cursor st) = inst \<and> state_validate st = Ok () \<and> ledger_inv (st_budget st)
         \<and> (\<forall>r. led_reservation (st_budget st) = Some r \<longrightarrow>
              cursor_due_unix_s (st_cursor st) (fence_interval_s (res_authority r)) = Ok (fence_due_unix_s (res_authority r)))))"
proof -
  have inv: "store_inv s" by (rule store_machine.reachable_inv [OF assms(2)])
  obtain s' where "store_open (ss_root s) unlink (ss_files s) = (ss_files s', Ok s')"
    "load_state umax s' inst = load_state umax s inst"
    by (rule store_open_reopens [OF inv, of unlink umax]) (use assms(4) in auto)
  moreover have "load_state umax s inst = Ok None
      \<or> (\<exists>st. load_state umax s inst = Ok (Some st) \<and> cursor_instance (st_cursor st) = inst \<and> run_inv st)"
    by (rule load_state_cases [of run_inv s inst umax]) (use inv assms(1,3) in \<open>auto simp: store_inv_def target_def\<close>)
  ultimately show ?thesis
    by (auto simp: run_inv_def slot_ok_def)
qed

theorem scheduler_store_survives_witness:
  "\<exists>s s'. load_state 65535 s ''wan'' = Ok (Some sample_initial_state)
     \<and> store_open (ss_root s) (\<lambda>_. Ok ()) (ss_files s) = (ss_files s', Ok s')
     \<and> load_state 65535 s' ''wan'' = Ok (Some sample_initial_state)"
proof -
  obtain s where s: "reachable_from run_start (\<lambda>s t. target 65535 \<and> run_step 65535 s t) s"
    "load_state 65535 s ''wan'' = Ok (Some sample_initial_state)"
    by (rule sample_initialized)
  have "validate_scheduler_instance ''wan'' = Ok ()"
    using s(2) by (auto simp: load_state_def and_then_Inr_iff record_path_Ok_iff)
  from scheduler_store_survives [OF sample_target s(1) this, of "\<lambda>_. Ok ()"] s(2) show ?thesis by auto
qed

text \<open>C5: an admitted scheduled run is durable and exclusive. From a loaded state, a reservation request
  leaves the record of every other instance alone and its own record as it was or as the new state; if
  it admits the run, the new state is on disk, it reserves exactly the cap of the request under the
  identity of the request within the daily and monthly limits, and no further request of any kind is
  admitted from it.\<close>

theorem admitted_run_durable:
  assumes "target umax" "reachable_from run_start (\<lambda>s t. target umax \<and> run_step umax s t) s"
    and load: "load_state umax s inst = Ok (Some st)"
    and reserve: "reserve_scheduled_request s config st obs request rid day month outcome = (s', st', Ok (d, Some res))"
  shows "load_state umax s' inst = Ok (Some st')
    \<and> (\<forall>other. other \<noteq> inst \<longrightarrow> load_state umax s' other = load_state umax s other)
    \<and> (\<exists>r. led_reservation (st_budget st') = Some r \<and> res_reservation_id r = rid
         \<and> res_job_id r = id_job_id (rq_identity request)
         \<and> traffic_limit_bytes (rq_traffic_budget request) = Some (res_reserved_bytes r))
    \<and> led_daily_charged_bytes (st_budget st') \<le> led_daily_limit_bytes (st_budget st')
    \<and> led_monthly_charged_bytes (st_budget st') \<le> led_monthly_limit_bytes (st_budget st')
    \<and> (\<forall>config2 obs2 request2 rid2 day2 month2 outcome2 d2 res2.
         snd (snd (reserve_scheduled_request s' config2 st' obs2 request2 rid2 day2 month2 outcome2)) \<noteq> Ok (d2, Some res2))"
proof -
  have inv: "store_inv s" by (rule store_machine.reachable_inv [OF assms(2)])
  note st = load_state_inv [OF load inv assms(1)]
  have eff: "effect s st st' s' True" and made: "reservation_made config st obs request rid day month st' d res"
    using reserve_effect [OF reserve st(1)] by auto
  have cursor: "cursor_instance (st_cursor st') = inst"
    using made st(3) by (simp add: reservation_made_def)
  have res: "ledger_reserve (st_budget st) rid (id_job_id (rq_identity request)) day month
      \<lparr>fence_due_unix_s = sr_due_unix_s res, fence_interval_s = sc_interval_s config,
       fence_generations = obs_generations obs, fence_explicit_retry_sequence = obs_explicit_retry_sequence obs\<rparr>
      (sr_traffic_budget res) = Ok (st_budget st')"
    using made by (simp add: reservation_made_def)
  note reserved = ledger_reserve_reservation [OF res run_invD(4) [OF st(1)]]
  have "run_inv st'"
    using effect_inv [OF eff inv st(2)] effect_loads(1) [OF eff load inv assms(1) cursor] assms(1) load_state_inv(1) by blast
  then have again: "snd (snd (reserve_scheduled_request s' config2 st' obs2 request2 rid2 day2 month2 outcome2)) \<noteq> Ok (d2, Some res2)"
    for config2 obs2 request2 rid2 day2 month2 outcome2 d2 res2
    using reserve_effect [of s' config2 st' obs2 request2 rid2 day2 month2 outcome2] reserved(1)
    by (cases "reserve_scheduled_request s' config2 st' obs2 request2 rid2 day2 month2 outcome2")
      (auto simp: reservation_made_def)
  show ?thesis
    using effect_loads [OF eff load inv assms(1) cursor] reserved(1) made again
      reserve_charges_within [OF run_invD(4) [OF st(1)] res]
    by (auto simp: reservation_made_def)
qed

theorem admitted_run_durable_witness:
  "\<exists>s s' res. load_state 65535 s ''wan'' = Ok (Some sample_initial_state)
     \<and> reserve_scheduled_request s sample_sched_config sample_initial_state (sample_observation 5600) sample_scheduled_request
         (replicate 32 CHR ''d'') ''20240229'' ''202402'' Published = (s', sample_admitted_state, Ok (Admit 5600 400, Some res))
     \<and> load_state 65535 s' ''wan'' = Ok (Some sample_admitted_state)"
proof -
  obtain s where s: "reachable_from run_start (\<lambda>s t. target 65535 \<and> run_step 65535 s t) s"
    "load_state 65535 s ''wan'' = Ok (Some sample_initial_state)" "ss_write_sequence s = 2"
    by (rule sample_initialized)
  obtain s' res where op: "reserve_scheduled_request s sample_sched_config sample_initial_state (sample_observation 5600)
      sample_scheduled_request (replicate 32 CHR ''d'') ''20240229'' ''202402'' Published
      = (s', sample_admitted_state, Ok (Admit 5600 400, Some res))"
    by (rule sample_admitted [OF s(2,3) store_machine.reachable_inv [OF s(1)]])
  from admitted_run_durable [OF sample_target s(1,2) op] s(2) op show ?thesis by blast
qed

lemma record_failure_succeeds:
  assumes "run_inv st" "led_reservation (st_budget st) = Some r" "unat (cursor_sequence (st_cursor st)) + 1 < 2 ^ 64"
  obtains c where "cursor_record_failure (st_cursor st) (res_authority r) = (c, Ok ())"
proof -
  have cursor: "cursor_validate (st_cursor st) = Ok ()" and fence: "fence_validate (res_authority r) = Ok ()"
    using run_invD(1) [OF assms(1)] assms(2)
    by (auto simp: state_validate_Ok_iff ledger_validate_Ok_iff reservation_validate_Ok_iff)
  have due: "cursor_due_unix_s (st_cursor st) (fence_interval_s (res_authority r)) = Ok (fence_due_unix_s (res_authority r))"
    using run_invD(3) [OF assms(1)] assms(2) by (simp add: slot_ok_def)
  let ?n = "cursor_sequence (st_cursor st) + 1"
  have add: "checked_add (cursor_sequence (st_cursor st)) 1 = Some ?n"
    using assms(3) by (simp add: checked_add_def)
  have "cursor_validate ((st_cursor st)\<lparr>cursor_sequence := ?n, cursor_failed_attempt := Some (res_authority r)\<rparr>) = Ok ()"
    using cursor fence checked_add_one_nonzero [OF add] by (rule cursor_record_failure_valid)
  then show thesis
    using that fence due add by (simp add: cursor_record_failure_def Let_def)
qed

lemma ledger_settle_fields:
  assumes "ledger_settle l rid job day month consumed = Ok l'" "ledger_validate l = Ok ()"
  shows "led_reservation l' = None" "\<not> led_accounting_blocked l'" "led_instance l' = led_instance l"
proof -
  obtain m daily monthly where m: "ledger_roll_period l day month = Ok m"
    and commit: "ledger_commit (m\<lparr>led_daily_charged_bytes := daily, led_monthly_charged_bytes := monthly,
      led_reservation := None, led_accounting_blocked := False\<rparr>) = Ok l'"
    by (rule ledger_settle_Ok [OF assms(1)])
  show "led_reservation l' = None" "\<not> led_accounting_blocked l'" "led_instance l' = led_instance l"
    using ledger_commit_fields(7-9) [OF commit] ledger_roll_period_Ok(12) [OF m assms(2)] by simp_all
qed

text \<open>C6: a scheduled run can always be closed. In a reachable store, an outstanding reservation can be
  settled as failed on any valid day that is not before the ledger's, for no more traffic than was
  reserved, as long as the counters have room and the write is published: the record then has no
  reservation and no accounting block, and the slot is not admitted again under the same authority.\<close>

theorem scheduled_run_closable:
  assumes "target umax" "reachable_from run_start (\<lambda>s t. target umax \<and> run_step umax s t) s"
    and load: "load_state umax s inst = Ok (Some st)" and res: "led_reservation (st_budget st) = Some r"
    and period: "validate_period day month = Ok ()" "led_day (st_budget st) \<le> day" "led_month (st_budget st) \<le> month"
    and consumed: "consumed \<le> res_reserved_bytes r"
    and room: "unat (led_sequence (st_budget st)) + 2 < 2 ^ 64" "unat (cursor_sequence (st_cursor st)) + 1 < 2 ^ 64"
      "ss_write_sequence s \<noteq> - 1"
  shows "\<exists>s' st'. settle_scheduled_request s st (res_reservation_id r) (res_job_id r) day month completed consumed
       FailedRun Published = (s', st', Ok ())
    \<and> load_state umax s' inst = Ok (Some st') \<and> led_reservation (st_budget st') = None
    \<and> \<not> led_accounting_blocked (st_budget st')
    \<and> (\<forall>enabled interval_s mx av obs d b. same_authority (res_authority r) obs \<longrightarrow>
         evaluate_schedule enabled interval_s mx av (st_cursor st') obs \<noteq> Ok (Admit d b))"
proof -
  have inv: "store_inv s" by (rule store_machine.reachable_inv [OF assms(2)])
  note st = load_state_inv [OF load inv assms(1)]
  obtain l where l: "ledger_settle (st_budget st) (res_reservation_id r) (res_job_id r) day month consumed = Ok l"
    by (rule ledger_settle_succeeds [OF run_invD(2) [OF st(1)] res period consumed room(1)])
  obtain c where c: "cursor_record_failure (st_cursor st) (res_authority r) = (c, Ok ())"
    by (rule record_failure_succeeds [OF st(1) res room(2)])
  note settled = ledger_settle_fields [OF l run_invD(4) [OF st(1)]]
  from c obtain n where c': "c = (st_cursor st)\<lparr>cursor_sequence := n, cursor_failed_attempt := Some (res_authority r)\<rparr>"
    "cursor_validate c = Ok ()"
    by (rule cursor_record_failure_Ok)
  let ?st = "st\<lparr>st_budget := l, st_cursor := c\<rparr>"
  have ledger: "ledger_inv l" using ledger_settle_inv [OF l] run_invD(2) [OF st(1)] by simp
  then have valid: "state_validate ?st = Ok ()"
    using run_invD(1) [OF st(1)] c' settled(3) by (simp add: state_validate_Ok_iff ledger_inv_def)
  with ledger settled(1) have "run_inv ?st" by (simp add: run_inv_def slot_ok_def)
  then obtain s' where s': "persist_state s ?st Published = (s', Ok ())"
    using inv room(3) by (rule persist_succeeds)
  have op: "settle_scheduled_request s st (res_reservation_id r) (res_job_id r) day month completed consumed
      FailedRun Published = (s', ?st, Ok ())"
    using res l c valid s'
    by (simp add: settle_scheduled_request_def settle_cursor_def record_and_publish_def publish_def Let_def)
  then have eff: "effect s st ?st s' True" using settle_effect [OF op st(1)] by simp
  have "load_state umax s' inst = Ok (Some ?st)"
    using effect_loads(1) [OF eff load inv assms(1)] c'(1) st(3) by simp
  moreover have "evaluate_schedule enabled interval_s mx av (st_cursor ?st) obs \<noteq> Ok (Admit d b)"
    if "same_authority (res_authority r) obs" for enabled interval_s mx av obs d b
    using that c'(1) by (intro evaluate_schedule_same_authority) simp_all
  ultimately show ?thesis
    using op settled(1,2) by (intro exI [of _ s'] exI [of _ ?st]) simp
qed

theorem scheduled_run_closable_witness:
  "\<exists>s s' st'. load_state 65535 s ''wan'' = Ok (Some sample_admitted_state)
     \<and> settle_scheduled_request s sample_admitted_state (res_reservation_id sample_reservation)
         (res_job_id sample_reservation) ''20240301'' ''202403'' 5700 250 FailedRun Published = (s', st', Ok ())
     \<and> load_state 65535 s' ''wan'' = Ok (Some st') \<and> led_reservation (st_budget st') = None"
proof -
  obtain s where s: "reachable_from run_start (\<lambda>s t. target 65535 \<and> run_step 65535 s t) s"
    "load_state 65535 s ''wan'' = Ok (Some sample_initial_state)" "ss_write_sequence s = 2"
    by (rule sample_initialized)
  note inv = store_machine.reachable_inv [OF s(1)]
  obtain s' res where op: "reserve_scheduled_request s sample_sched_config sample_initial_state (sample_observation 5600)
      sample_scheduled_request (replicate 32 CHR ''d'') ''20240229'' ''202402'' Published
      = (s', sample_admitted_state, Ok (Admit 5600 400, Some res))" and seq: "ss_write_sequence s' = 3"
    by (rule sample_admitted [OF s(2,3) inv])
  have reach: "reachable_from run_start (\<lambda>s t. target 65535 \<and> run_step 65535 s t) s'"
    using s(1) sample_target run_step.reserve [OF s(2) op] by (intro reachable_from_step [OF s(1)]) simp
  have "effect s sample_initial_state sample_admitted_state s' True"
    using reserve_effect [OF op load_state_inv(1) [OF s(2) inv sample_target]] by auto
  from effect_loads(1) [OF this s(2) inv sample_target] have load: "load_state 65535 s' ''wan'' = Ok (Some sample_admitted_state)"
    by (simp add: sample_initial_state_def)
  have res: "led_reservation (st_budget sample_admitted_state) = Some sample_reservation"
    by (simp add: sample_reserved_ledger_def)
  show ?thesis
    using scheduled_run_closable [OF sample_target reach load res sample_period(2), of 250 5700] load seq
    by (simp add: sample_reserved_ledger_def sample_ledger_def sample_reservation_def sample_initial_state_def) blast
qed

end
