(* ===== verification/Scheduled_Launch.thy ===== *)
theory Scheduled_Launch
  imports Scheduled_Run Request_Codec
begin

text \<open>
  From the committed policy to an admitted request: what the scheduler reads from \<open>uci\<close>
  (\<^theory_text>\<open>Scheduler_Config\<close>), the launch it builds (\<^theory_text>\<open>Launch_Intent\<close>) and the admission rules of the protocol
  (\<^theory_text>\<open>Operation_Request\<close>) fit together.
\<close>

section \<open>What the live router attests\<close>

text \<open>The live context as \<open>attest_live_operation_context\<close> promises it for a configured instance: a valid route that
  matches the selected one, identifiers the protocol can carry and SHA-256 fingerprints. Only an
  explicit route has a link index.\<close>

definition attested :: "bool \<Rightarrow> scheduled_instance_config \<Rightarrow> live_request_context \<Rightarrow> bool" where
  "attested full cfg ctx \<longleftrightarrow>
     route_validate (ctx_route ctx) = Ok ()
     \<and> (rt_device_ifindex (ctx_route ctx) \<noteq> None \<longrightarrow> rt_mode (ctx_route ctx) = Explicit)
     \<and> match_launch_route full (sc_route_mode cfg) (sc_mwan3_member cfg) (sc_expected_target_interface cfg)
         (sc_explicit_route cfg) (ctx_route ctx) = Ok ()
     \<and> ctx_target_interface ctx = sc_expected_target_interface cfg
     \<and> require_safe_identifier ''managed_sqm_section'' (ctx_managed_sqm_section ctx) 1 64 ''_-'' = Ok ()
     \<and> wire_require_lower_hex ''route_fingerprint'' (ctx_route_fingerprint ctx) 64 = Ok ()
     \<and> wire_require_lower_hex ''config_fingerprint'' (ctx_config_fingerprint ctx) 64 = Ok ()
     \<and> wire_require_lower_hex ''sqm_fingerprint'' (ctx_sqm_fingerprint ctx) 64 = Ok ()"

lemma live_route_ifindex:
  assumes "operation_route_identity_of i = Ok r" "rt_device_ifindex r \<noteq> None"
  shows "rt_mode r = Explicit"
  using assms by (auto simp: operation_route_identity_of_def Let_def and_then_Inr_iff split: if_splits)

text \<open>The budgets with which a configuration can be launched.\<close>

definition fundable :: "scheduled_instance_config \<Rightarrow> u64 \<Rightarrow> bool" where
  "fundable cfg b \<longleftrightarrow> minimum_autotune_evidence_bytes \<le> b \<and> b \<le> MAX_OPERATION_TRAFFIC_BUDGET_BYTES
     \<and> (sc_strategy cfg = FullRaw \<longrightarrow> (\<exists>dl ul. sc_service_dl_cap_kbps cfg = Some dl \<and> sc_service_ul_cap_kbps cfg = Some ul
          \<and> unat (traffic_stop_safety_reserve_bytes dl ul) + unat MIN_QUALIFICATION_TRAFFIC_BYTES \<le> unat b))"

lemma traffic_admission_iff:
  assumes "rate_typed dl" "rate_typed ul" "raw \<longleftrightarrow> strategy = FullRaw"
  shows "validate_autotune_traffic_admission (Capped b) (Some strategy) raw dl ul = Ok () \<longleftrightarrow>
    minimum_autotune_evidence_bytes \<le> b \<and> (strategy = FullRaw \<longrightarrow> (\<exists>d u. dl = Some d \<and> ul = Some u
      \<and> unat (traffic_stop_safety_reserve_bytes d u) + unat MIN_QUALIFICATION_TRAFFIC_BYTES \<le> unat b))"
proof -
  have pos: "rate_typed (Some r) \<Longrightarrow> 0 < r" for r by (simp add: rate_typed_def word_less_nat_alt word_le_nat_alt)
  have sum: "(\<exists>n. checked_add x y = Some n \<and> n \<le> b) \<longleftrightarrow> unat x + unat y \<le> unat b" for x y
  proof
    assume "unat x + unat y \<le> unat b"
    then show "\<exists>n. checked_add x y = Some n \<and> n \<le> b"
      using unsigned_less [of b, where ?'a = nat]
      by (intro exI [of _ "x + y"]) (simp add: checked_add_def word_le_nat_alt unat_word_ariths)
  qed (auto simp: checked_add_Some_iff word_le_nat_alt)
  show ?thesis
    using assms pos
    by (cases dl; cases ul)
      (auto simp: validate_autotune_traffic_admission_def validate_autotune_evidence_budget_def Let_def
        validate_autotune_raw_traffic_authority_def traffic_allows_def and_then_Inr_iff not_le not_less
        simp flip: sum split: option.splits)
qed


lemma scheduled_intent_valid:
  assumes "config_typed full cfg" "launch_intent cfg b = Ok intent"
  shows "validate_intent full intent = Ok () \<longleftrightarrow> fundable cfg b"
proof -
  have b: "b \<noteq> 0" "b \<le> MAX_OPERATION_TRAFFIC_BUDGET_BYTES"
    using assms(2) by (auto simp: launch_intent_def and_then_Inr_iff not_less)
  note typed = assms(1) [unfolded config_typed_def]
  have caps: "validate_capacity_learning_service_caps (Some (sc_capacity_learning_policy cfg))
      (sc_service_dl_cap_kbps cfg) (sc_service_ul_cap_kbps cfg) = Ok ()"
    using typed by (auto simp: validate_capacity_learning_service_caps_def)
  have "validate_intent full intent = Ok () \<longleftrightarrow>
     validate_autotune_traffic_admission (Capped b) (Some (sc_strategy cfg)) (sc_strategy cfg = FullRaw)
       (sc_service_dl_cap_kbps cfg) (sc_service_ul_cap_kbps cfg) = Ok ()"
    using assms(2) typed b caps
    by (auto simp: launch_intent_def validate_intent_def and_then_Inr_iff is_ok_iff traffic_validate_def
        traffic_limit_bytes_def traffic_is_empty_def MAX_OPERATION_TRAFFIC_BUDGET_BYTES_def MAX_TRAFFIC_BUDGET_BYTES_def)
  also have "\<dots> \<longleftrightarrow> fundable cfg b"
    using b typed by (subst traffic_admission_iff) (auto simp: fundable_def)
  finally show ?thesis .
qed

lemma attested_admission_route:
  assumes "attested full cfg ctx" "rq_route r = ctx_route ctx"
  shows "request_admission_route True r = Ok ()"
proof (cases "sc_explicit_route cfg")
  case None
  then have "rt_mode (ctx_route ctx) \<noteq> Explicit"
    using assms(1) unfolding attested_def by (auto simp: match_configured_iff)
  then show ?thesis using assms by (auto simp: attested_def request_admission_route_def)
next
  case (Some sel)
  then have m: "match_launch_route full (sc_route_mode cfg) (sc_mwan3_member cfg) (sc_expected_target_interface cfg)
      (Some sel) (rq_route r) = Ok ()"
    using assms by (simp add: attested_def)
  then have "explicit_operation_authority (rq_route r) = Ok (elr_authority sel)"
    by (auto simp: match_explicit_iff explicit_operation_authority_Ok_iff)
  with m show ?thesis
    by (auto simp: request_admission_route_def and_then_Inr_iff match_explicit_iff)
qed

text \<open>The launch of an instance: its intent for the available budget, then the request.\<close>

definition scheduled_request ::
  "bool \<Rightarrow> scheduled_instance_config \<Rightarrow> u64 \<Rightarrow> live_request_context \<Rightarrow> u64 \<Rightarrow> string \<Rightarrow> string \<Rightarrow> string
     \<Rightarrow> operation_request result" where
  "scheduled_request full cfg b ctx created job token_a token_b =
     and_then (launch_intent cfg b) (\<lambda>intent.
     build_live_request full intent (Ok ctx) (Ok created) (Ok job) (Ok token_a) (Ok token_b) Scheduler (sc_auto_apply cfg))"

lemma scheduled_request_valid:
  assumes "config_typed full cfg" "attested full cfg ctx" "launch_intent cfg b = Ok intent"
    "wire_require_lower_hex ''job_id'' job 32 = Ok ()" "wire_require_lower_hex ''job_token'' job_token 64 = Ok ()"
    "created \<noteq> 0" "created \<le> deadline"
  shows "request_validate (request_of intent ctx job job_token created deadline Scheduler auto None) = Ok () \<longleftrightarrow>
     require_safe_identifier ''instance'' (sc_instance cfg) 1 64 ''_-'' = Ok ()"
proof -
  let ?r = "request_of intent ctx job job_token created deadline Scheduler auto None"
  have b: "b \<noteq> 0" "b \<le> MAX_OPERATION_TRAFFIC_BUDGET_BYTES"
    using assms(3) by (auto simp: launch_intent_def and_then_Inr_iff not_less)
  have intent: "in_backend intent = ''speedtest-go''" "in_instance intent = sc_instance cfg"
    "in_traffic_budget intent = Capped b" "in_server_failure_retries intent = None"
    "in_service_dl_cap_kbps intent = sc_service_dl_cap_kbps cfg" "in_service_ul_cap_kbps intent = sc_service_ul_cap_kbps cfg"
    "in_access_confidence_percent intent = sc_access_confidence_percent cfg"
    using assms(1,3) by (auto simp: launch_intent_def and_then_Inr_iff config_typed_def)
  have backend: "require_safe_identifier ''backend'' ''speedtest-go'' 1 32 ''_-'' = Ok ()" by code_simp
  have target: "require_safe_identifier ''target_interface'' v 1 64 ''._:@-'' = Ok () \<longleftrightarrow> is_safe_identifier v" for v
    by (cases v) (auto simp: require_safe_identifier_def is_safe_identifier_def list_all_iff)
  have "identity_validate (rq_identity ?r) = Ok () \<longleftrightarrow> require_safe_identifier ''instance'' (sc_instance cfg) 1 64 ''_-'' = Ok ()"
    using assms(1,2,4,5) by (simp add: request_of_def identity_validate_Ok_iff target attested_def intent config_typed_def del: One_nat_def)
  moreover have "request_validate_operation ?r = Ok ()"
    using assms(1,2) b by (auto simp: request_of_def request_validate_operation_def request_validate_full_autotune_def
        and_then_Inr_iff attested_def intent config_typed_def traffic_is_empty_def)
  moreover have "service_cap_validate n (sc_service_dl_cap_kbps cfg) = Ok ()" "service_cap_validate n (sc_service_ul_cap_kbps cfg) = Ok ()" for n
    using assms(1) by (auto simp: config_typed_def rate_typed_def service_cap_validate_def MAX_RATE_KBPS_def split: option.splits)
  ultimately show ?thesis
    using assms(2,6,7) b
    by (simp add: request_validate_Ok_iff request_of_def intent backend attested_def request_validate_retries_def
        request_validate_plan_def request_validate_target_def traffic_validate_def traffic_limit_bytes_def
        MAX_OPERATION_TRAFFIC_BUDGET_BYTES_def MAX_TRAFFIC_BUDGET_BYTES_def not_less del: One_nat_def)
qed

section \<open>Properties\<close>

text \<open>C18: the scheduler launches what its policy allows, and nothing else. Take any text of \<open>uci show\<close> that is
  accepted, an instance of it and the attested live context of this instance. With fresh identifiers
  and a clock that leaves room for the deadline, a request can be built for a traffic budget exactly if
  the instance has a name the protocol carries and the budget pays for the mandatory evidence, is at most
  a tebibyte and, for a raw calibration, the service ceilings are declared and the budget also pays for
  the stopping reserve under them. The request then passes admission as a scheduler request, with the
  instance, the budget, the Auto-Apply authority and the fingerprints of policy and context.\<close>

theorem scheduled_config_launches:
  assumes "parse_scheduled_instances full input = Ok snap" "cfg \<in> set (snap_instances snap)" "attested full cfg ctx"
    "wire_require_lower_hex ''job_id'' job 32 = Ok ()" "wire_require_lower_hex ''job_token'' (token_a @ token_b) 64 = Ok ()"
    "created \<noteq> 0" "unat created + unat NATIVE_AUTOTUNE_DEADLINE_MS < 2 ^ 64"
  shows "((\<exists>r. scheduled_request full cfg b ctx created job token_a token_b = Ok r) \<longleftrightarrow>
      fundable cfg b \<and> require_safe_identifier ''instance'' (sc_instance cfg) 1 64 ''_-'' = Ok ())
    \<and> (\<forall>r. scheduled_request full cfg b ctx created job token_a token_b = Ok r \<longrightarrow>
      validate_admission_policy True r = Ok () \<and> rq_origin r = Scheduler
      \<and> rq_scheduled_auto_apply_requested r = sc_auto_apply cfg \<and> rq_traffic_budget r = Capped b
      \<and> rq_deadline_unix_ms r = created + NATIVE_AUTOTUNE_DEADLINE_MS \<and> id_instance (rq_identity r) = sc_instance cfg
      \<and> id_config_fingerprint (rq_identity r) = ctx_config_fingerprint ctx
      \<and> id_route_fingerprint (rq_identity r) = ctx_route_fingerprint ctx)"
proof -
  let ?deadline = "created + NATIVE_AUTOTUNE_DEADLINE_MS"
    and ?safe = "require_safe_identifier ''instance'' (sc_instance cfg) 1 64 ''_-'' = Ok ()"
  have typed: "config_typed full cfg"
    using assms(1) by (rule parsed_sections) (use collected_typed assms(2) in blast)
  have deadline: "checked_add created NATIVE_AUTOTUNE_DEADLINE_MS = Some ?deadline" "created \<le> ?deadline"
    using assms(7) by (simp_all add: checked_add_def word_le_nat_alt unat_word_ariths)
  have iff: "scheduled_request full cfg b ctx created job token_a token_b = Ok r \<longleftrightarrow>
      fundable cfg b \<and> ?safe \<and> (\<exists>intent. launch_intent cfg b = Ok intent
        \<and> r = request_of intent ctx job (token_a @ token_b) created ?deadline Scheduler (sc_auto_apply cfg) None)" for r
  proof (cases "launch_intent cfg b")
    case (Inr intent)
    have "launch_traffic_plan intent Scheduler dl ul = Ok None" for dl ul
      using Inr by (auto simp: launch_intent_def and_then_Inr_iff launch_traffic_plan_def)
    moreover have "match_launch_route full (in_route_mode intent) (in_mwan3_member intent)
        (in_expected_target_interface intent) (in_explicit_route intent) (ctx_route ctx) = Ok ()"
      using Inr assms(3) by (auto simp: launch_intent_def and_then_Inr_iff attested_def)
    ultimately show ?thesis
      using scheduled_intent_valid [OF typed Inr] scheduled_request_valid [OF typed assms(3) Inr assms(4,5,6) deadline(2)]
      by (auto simp: scheduled_request_def Inr build_live_request_def build_request_def deadline(1) Let_def and_then_Inr_iff)
  qed (simp add: scheduled_request_def)
  have "\<exists>intent. launch_intent cfg b = Ok intent" if "fundable cfg b"
    using that by (auto simp: fundable_def launch_intent_def and_then_Inr_iff minimum_autotune_evidence_bytes_def
        MIN_QUALIFICATION_TRAFFIC_BYTES_def MIN_STABLE_SERVERS_def REPEATS_def MIN_ROUTE_PROOF_BYTES_def MIN_DIRECTIONAL_LOAD_BYTES_def)
  then have "(\<exists>r. scheduled_request full cfg b ctx created job token_a token_b = Ok r) \<longleftrightarrow> fundable cfg b \<and> ?safe"
    unfolding iff by blast
  moreover have "validate_admission_policy True r = Ok () \<and> rq_origin r = Scheduler
      \<and> rq_scheduled_auto_apply_requested r = sc_auto_apply cfg \<and> rq_traffic_budget r = Capped b
      \<and> rq_deadline_unix_ms r = ?deadline \<and> id_instance (rq_identity r) = sc_instance cfg
      \<and> id_config_fingerprint (rq_identity r) = ctx_config_fingerprint ctx
      \<and> id_route_fingerprint (rq_identity r) = ctx_route_fingerprint ctx"
    if r: "scheduled_request full cfg b ctx created job token_a token_b = Ok r" for r
  proof -
    from r iff obtain intent where i: "launch_intent cfg b = Ok intent" and safe: ?safe
      and r: "r = request_of intent ctx job (token_a @ token_b) created ?deadline Scheduler (sc_auto_apply cfg) None"
      by blast
    have "request_validate r = Ok ()"
      using scheduled_request_valid [OF typed assms(3) i assms(4,5,6) deadline(2)] safe r by blast
    moreover have "request_admission_route True r = Ok ()"
      by (rule attested_admission_route [OF assms(3)]) (simp add: r request_of_def)
    moreover have "validate_capacity_learning_service_caps (rq_capacity_learning_policy r) (rq_service_dl_cap_kbps r)
        (rq_service_ul_cap_kbps r) = Ok ()"
      using i typed by (auto simp: r request_of_def launch_intent_def and_then_Inr_iff config_typed_def
          validate_capacity_learning_service_caps_def)
    ultimately show ?thesis
      using i by (auto simp: validate_admission_policy_def and_then_Inr_iff r request_of_def launch_intent_def)
  qed
  ultimately show ?thesis by blast
qed

definition sample_context :: live_request_context where
  "sample_context =
     \<lparr>ctx_target_interface = ''pppoe-wan'', ctx_managed_sqm_section = ''wan_sqm'',
      ctx_configured_speedtest_backend = ''auto'', ctx_configured_dl_bound_kbps = Some 100000,
      ctx_configured_ul_bound_kbps = Some 20000, ctx_unshaped_dl_bound_kbps = Some 100000,
      ctx_unshaped_ul_bound_kbps = Some 20000, ctx_download_shaped = True, ctx_upload_shaped = True,
      ctx_route = \<lparr>rt_dns_server = None, rt_device_ifindex = None, rt_mode = Main, rt_mwan3_member = None,
        rt_l3_device = ''pppoe-wan'', rt_source_ip = Some (V4 (192, 0, 2, 10)), rt_fwmark = None, rt_routing_table = None,
        rt_fwmark_mask = None\<rparr>,
      ctx_route_fingerprint = replicate 64 CHR ''a'', ctx_config_fingerprint = replicate 64 CHR ''b'',
      ctx_sqm_fingerprint = replicate 64 CHR ''c''\<rparr>"

lemma sample_attested: "attested True sample_policy sample_context"
  unfolding attested_def by code_simp

theorem scheduled_config_launches_witness:
  "\<exists>r. scheduled_request True sample_policy 4294967296 sample_context 1767225600000 (replicate 32 CHR ''1'')
     (replicate 32 CHR ''2'') (replicate 32 CHR ''3'') = Ok r \<and> rq_traffic_budget r = Capped 4294967296"
proof -
  have "wire_require_lower_hex ''job_id'' (replicate 32 CHR ''1'') 32 = Ok ()"
    "wire_require_lower_hex ''job_token'' (replicate 32 CHR ''2'' @ replicate 32 CHR ''3'') 64 = Ok ()"
    "require_safe_identifier ''instance'' (sc_instance sample_policy) 1 64 ''_-'' = Ok ()"
    by code_simp+
  moreover have "fundable sample_policy 4294967296"
    by (simp add: fundable_def sample_policy_def minimum_autotune_evidence_bytes_def MIN_QUALIFICATION_TRAFFIC_BYTES_def
        MIN_STABLE_SERVERS_def REPEATS_def MIN_ROUTE_PROOF_BYTES_def MIN_DIRECTIONAL_LOAD_BYTES_def
        MAX_OPERATION_TRAFFIC_BUDGET_BYTES_def)
  ultimately show ?thesis
    using scheduled_config_launches [OF sample_policy_parsed, of sample_policy sample_context "replicate 32 CHR ''1''"
        "replicate 32 CHR ''2''" "replicate 32 CHR ''3''" 1767225600000 4294967296] sample_attested
    by (simp add: NATIVE_AUTOTUNE_DEADLINE_MS_def) blast
qed

text \<open>A raw schedule without declared service ceilings is accepted as a policy, and no budget launches it: the
  check of the policy only looks at the budget.\<close>

lemma raw_schedule_never_launches:
  assumes "sc_strategy cfg = FullRaw" "sc_service_dl_cap_kbps cfg = None \<or> sc_service_ul_cap_kbps cfg = None"
  shows "\<not> fundable cfg b" "is_ok (launch_intent cfg 1)"
  using assms by (auto simp: fundable_def launch_intent_def MAX_OPERATION_TRAFFIC_BUDGET_BYTES_def)

end
