(* ===== verification/Quiet_Window.thy ===== *)
theory Quiet_Window
  imports Float64
begin

text \<open>
  The quiet-window evidence of the scheduler (\<open>QuietEvidence\<close> in \<open>operations/scheduler_runtime.rs\<close>): an
  instance is quiet when its published snapshots show a low traffic rate without a gap over the
  required window. The snapshot record has the fields of \<open>RatingRuntimeSnapshot\<close> that are read here.
\<close>

section \<open>Definitions\<close>

record rating_runtime_snapshot =
  snap_updated_unix_ms :: u64
  snap_runtime_generation :: u64
  snap_dl_achieved_kbps :: f64
  snap_ul_achieved_kbps :: f64

record quiet_evidence =
  quiet_runtime_generation :: "u64 option"
  quiet_first_snapshot_unix_ms :: "u64 option"
  quiet_last_snapshot_unix_ms :: "u64 option"

definition SCHEDULER_RUNTIME_FRESHNESS_MS :: u64 where
  "SCHEDULER_RUNTIME_FRESHNESS_MS = 5000"

definition quiet_default :: quiet_evidence where
  "quiet_default = \<lparr>quiet_runtime_generation = None, quiet_first_snapshot_unix_ms = None,
     quiet_last_snapshot_unix_ms = None\<rparr>"

definition quiet_eligible :: "rating_runtime_snapshot \<Rightarrow> u64 \<Rightarrow> bool" where
  "quiet_eligible snapshot active_threshold_kbps =
     (let rate = fadd (snap_dl_achieved_kbps snapshot) (snap_ul_achieved_kbps snapshot)
      in snap_runtime_generation snapshot \<noteq> 0 \<and> snap_updated_unix_ms snapshot \<noteq> 0
         \<and> is_finite rate \<and> fle (Fin 0) rate \<and> fle rate (u64_as_f64 active_threshold_kbps))"

definition quiet_observe ::
  "quiet_evidence \<Rightarrow> rating_runtime_snapshot \<Rightarrow> u64 \<Rightarrow> u64 \<Rightarrow> quiet_evidence \<times> bool" where
  "quiet_observe ev snapshot active_threshold_kbps required_window_s =
     (let eligible = quiet_eligible snapshot active_threshold_kbps;
          now = snap_updated_unix_ms snapshot;
          then_some = (\<lambda>v. if eligible then Some v else None);
          some_and = (\<lambda>v P. case v of None \<Rightarrow> False | Some w \<Rightarrow> P w);
          required_ms = saturating_mul required_window_s 1000;
          long_enough = some_and (quiet_first_snapshot_unix_ms ev) (\<lambda>first. saturating_sub now first \<ge> required_ms)
      in if \<not> eligible \<or> quiet_runtime_generation ev \<noteq> Some (snap_runtime_generation snapshot)
         then (\<lparr>quiet_runtime_generation = then_some (snap_runtime_generation snapshot),
                quiet_first_snapshot_unix_ms = then_some now, quiet_last_snapshot_unix_ms = then_some now\<rparr>, False)
         else if some_and (quiet_last_snapshot_unix_ms ev) (\<lambda>seen. now < seen)
         then (quiet_default, False)
         else if some_and (quiet_last_snapshot_unix_ms ev)
                (\<lambda>seen. saturating_sub now seen > SCHEDULER_RUNTIME_FRESHNESS_MS)
         then (\<lparr>quiet_runtime_generation = Some (snap_runtime_generation snapshot),
                quiet_first_snapshot_unix_ms = Some now, quiet_last_snapshot_unix_ms = Some now\<rparr>, False)
         else if some_and (quiet_last_snapshot_unix_ms ev) (\<lambda>seen. now = seen)
         then (ev, long_enough)
         else (ev\<lparr>quiet_last_snapshot_unix_ms := Some now\<rparr>, long_enough))"

section \<open>Runs of observations\<close>

text \<open>One call: the snapshot, the threshold and the required window.\<close>

type_synonym quiet_call = "rating_runtime_snapshot \<times> u64 \<times> u64"

definition quiet_step :: "quiet_evidence \<Rightarrow> quiet_call \<Rightarrow> quiet_evidence" where
  "quiet_step ev call = fst (quiet_observe ev (fst call) (fst (snd call)) (snd (snd call)))"

definition quiet_run :: "quiet_call list \<Rightarrow> quiet_evidence" where
  "quiet_run calls = foldl quiet_step quiet_default calls"

text \<open>The answer to the last call of a sequence that starts with no evidence.\<close>

definition quiet_answer :: "quiet_call list \<Rightarrow> quiet_call \<Rightarrow> bool" where
  "quiet_answer calls call = snd (quiet_observe (quiet_run calls) (fst call) (fst (snd call)) (snd (snd call)))"

abbreviation call_ms :: "quiet_call \<Rightarrow> u64" where
  "call_ms call \<equiv> snap_updated_unix_ms (fst call)"

text \<open>What the evidence stands for: consecutive quiet snapshots of one runtime, none of them more than the
  freshness bound after the one before.\<close>

fun quiet_interval :: "quiet_call list \<Rightarrow> bool" where
  "quiet_interval [] = True"
| "quiet_interval [c] = quiet_eligible (fst c) (fst (snd c))"
| "quiet_interval (c # d # cs) \<longleftrightarrow> quiet_eligible (fst c) (fst (snd c))
     \<and> snap_runtime_generation (fst c) = snap_runtime_generation (fst d)
     \<and> call_ms c \<le> call_ms d \<and> call_ms d - call_ms c \<le> SCHEDULER_RUNTIME_FRESHNESS_MS
     \<and> quiet_interval (d # cs)"

text \<open>The evidence of a sequence of calls, read off the calls: nothing, or an interval at the end.\<close>

definition evidence_of :: "quiet_evidence \<Rightarrow> quiet_call list \<Rightarrow> bool" where
  "evidence_of ev cs \<longleftrightarrow> cs \<noteq> [] \<and> quiet_interval cs
     \<and> ev = \<lparr>quiet_runtime_generation = Some (snap_runtime_generation (fst (last cs))),
             quiet_first_snapshot_unix_ms = Some (call_ms (hd cs)), quiet_last_snapshot_unix_ms = Some (call_ms (last cs))\<rparr>"

lemma quiet_interval_snoc:
  "cs \<noteq> [] \<Longrightarrow> quiet_interval (cs @ [c]) \<longleftrightarrow> quiet_interval cs \<and> quiet_eligible (fst c) (fst (snd c))
     \<and> snap_runtime_generation (fst (last cs)) = snap_runtime_generation (fst c)
     \<and> call_ms (last cs) \<le> call_ms c \<and> call_ms c - call_ms (last cs) \<le> SCHEDULER_RUNTIME_FRESHNESS_MS"
  by (induction cs rule: quiet_interval.induct) auto

lemma quiet_interval_eligible: "quiet_interval (c # cs) \<Longrightarrow> quiet_eligible (fst c) (fst (snd c))"
  by (cases cs) auto

lemma quiet_interval_last:
  assumes "quiet_interval (cs @ [c])" "cs \<noteq> []"
  shows "quiet_interval cs" "quiet_interval [last cs, c]"
proof -
  have "quiet_interval cs \<Longrightarrow> cs \<noteq> [] \<Longrightarrow> quiet_eligible (fst (last cs)) (fst (snd (last cs)))"
    by (induction cs rule: quiet_interval.induct) auto
  then show "quiet_interval cs" "quiet_interval [last cs, c]"
    using assms by (simp_all add: quiet_interval_snoc)
qed

lemma quiet_interval_order: "quiet_interval (d # ds @ [c]) \<Longrightarrow> call_ms d \<le> call_ms c"
proof (induction ds arbitrary: d)
  case (Cons e ds)
  then have "call_ms d \<le> call_ms e" "call_ms e \<le> call_ms c" by auto
  then show ?case by (rule order_trans)
qed simp

lemma quiet_step_snoc: "quiet_run (calls @ [c]) = quiet_step (quiet_run calls) c"
  by (simp add: quiet_run_def)

text \<open>A call starts a new interval, drops the evidence, or extends the interval.\<close>

lemma quiet_step_cases:
  assumes "ev = quiet_default \<or> evidence_of ev cs"
  shows "quiet_step ev c = quiet_default \<or> evidence_of (quiet_step ev c) [c]
    \<or> evidence_of ev cs \<and> evidence_of (quiet_step ev c) (cs @ [c])"
  using assms
  by (auto simp: quiet_step_def quiet_observe_def quiet_default_def evidence_of_def quiet_interval_snoc Let_def
      saturating_sub_def not_less split: option.splits)

lemma quiet_run_evidence:
  "quiet_run calls = quiet_default \<or> (\<exists>before cs. calls = before @ cs \<and> evidence_of (quiet_run calls) cs)"
proof (induction calls rule: rev_induct)
  case Nil
  then show ?case by (simp add: quiet_run_def)
next
  case (snoc c calls)
  then obtain before cs where cs: "quiet_run calls = quiet_default \<or> calls = before @ cs \<and> evidence_of (quiet_run calls) cs"
    by blast
  then have "quiet_run calls = quiet_default \<or> evidence_of (quiet_run calls) cs" by blast
  from quiet_step_cases [OF this, of c] cs show ?case
    unfolding quiet_step_snoc
    by (metis append.assoc evidence_of_def quiet_default_def quiet_evidence.iffs option.distinct(1))
qed

text \<open>When an answer is given: the interval with the new call is long enough.\<close>

lemma quiet_answer_evidence:
  assumes "evidence_of (quiet_run calls) cs"
  shows "quiet_answer calls c \<longleftrightarrow> quiet_interval (cs @ [c])
     \<and> unat (call_ms (hd cs)) + 1000 * unat (snd (snd c)) \<le> unat (call_ms c)"
proof -
  have ne: "cs \<noteq> []" and qi: "quiet_interval cs" using assms by (auto simp: evidence_of_def)
  then obtain d ds where cs: "cs = d # ds" by (cases cs) auto
  have pos: "0 < unat (call_ms (hd cs))"
    using quiet_interval_eligible qi unfolding cs by (auto simp: quiet_eligible_def Let_def unat_gt_0)
  have span: "saturating_sub (call_ms c) (call_ms (hd cs)) \<ge> saturating_mul (snd (snd c)) 1000
      \<longleftrightarrow> unat (call_ms (hd cs)) + 1000 * unat (snd (snd c)) \<le> unat (call_ms c)" if "call_ms (hd cs) \<le> call_ms c"
  proof -
    have "unat (call_ms c) < 2 ^ 64" by (rule order_less_le_trans [OF unsigned_less]) simp
    with pos that show ?thesis
      by (simp add: word_le_nat_alt unat_saturating_sub unat_saturating_mul min_def) linarith
  qed
  let ?long = "saturating_sub (call_ms c) (call_ms (hd cs)) \<ge> saturating_mul (snd (snd c)) 1000"
  have "quiet_answer calls c \<longleftrightarrow> quiet_interval (cs @ [c]) \<and> ?long"
    using assms
    by (auto simp: quiet_answer_def quiet_observe_def evidence_of_def quiet_interval_snoc Let_def saturating_sub_def [of _ "call_ms (last cs)"] not_less)
  then show ?thesis
    using span quiet_interval_order [of d ds c] by (auto simp: cs)
qed

lemma quiet_answer_default: "quiet_run calls = quiet_default \<Longrightarrow> \<not> quiet_answer calls c"
  by (simp add: quiet_answer_def quiet_observe_def quiet_default_def Let_def)

text \<open>An unbroken sequence of quiet calls accumulates: its second call at the latest starts the interval.\<close>

lemma quiet_step_extends:
  assumes "evidence_of ev cs" "quiet_interval (cs @ [c])"
  shows "evidence_of (quiet_step ev c) (cs @ [c])"
  using assms
  by (auto simp: quiet_step_def quiet_observe_def evidence_of_def quiet_interval_snoc Let_def
      saturating_sub_def not_less split: option.splits)

lemma quiet_step_starts:
  "quiet_eligible (fst c) (fst (snd c)) \<Longrightarrow> evidence_of (quiet_step quiet_default c) [c]"
  by (simp add: quiet_step_def quiet_observe_def quiet_default_def evidence_of_def Let_def)

lemma quiet_interval_link:
  assumes "evidence_of ev cs" "last cs = c" "quiet_interval (c # ds)"
  shows "quiet_interval (cs @ ds)"
proof -
  have "quiet_interval (cs @ c # ds)" if "quiet_interval (cs @ [c])" "quiet_interval (c # ds)" for cs
    using that by (induction cs rule: quiet_interval.induct) auto
  from this [of "butlast cs"] assms show ?thesis
    by (simp add: evidence_of_def snoc_eq_iff_butlast) (metis append.assoc append_Cons append_Nil append_butlast_last_id)
qed

lemma quiet_run_reaches:
  assumes "quiet_interval (y # d # ds)"
  obtains cs where "evidence_of (quiet_run (before @ y # d # ds)) cs" "last cs = last (d # ds)" "call_ms (hd cs) \<le> call_ms d"
  using assms
proof (induction ds arbitrary: thesis rule: rev_induct)
  case Nil
  obtain cs where "quiet_run (before @ [y]) = quiet_default \<or> evidence_of (quiet_run (before @ [y])) cs \<and> last cs = y"
    using quiet_run_evidence [of "before @ [y]"] by (metis append_is_Nil_conv evidence_of_def last_appendR last_snoc)
  then show ?case
  proof
    assume "quiet_run (before @ [y]) = quiet_default"
    then have "evidence_of (quiet_run (before @ [y] @ [d])) [d]"
      using Nil.prems(2) quiet_step_starts [of d] quiet_step_snoc [of "before @ [y]" d] by simp
    then show ?case using Nil.prems(1) by simp
  next
    assume cs: "evidence_of (quiet_run (before @ [y])) cs \<and> last cs = y"
    then have link: "quiet_interval (cs @ [d])" using Nil.prems(2) by (intro quiet_interval_link) auto
    with cs have ev: "evidence_of (quiet_run (before @ [y, d])) (cs @ [d])"
      using quiet_step_snoc [of "before @ [y]" d] quiet_step_extends by simp
    moreover have "call_ms (hd (cs @ [d])) \<le> call_ms d"
      using cs link quiet_interval_order [of "hd cs" "tl cs" d] by (cases cs) (simp_all add: evidence_of_def)
    ultimately show ?case using Nil.prems(1) [of "cs @ [d]"] by simp
  qed
next
  case (snoc c ds)
  have run: "quiet_interval (y # d # ds)" "quiet_interval (last (d # ds) # [c])"
    using snoc.prems(2) quiet_interval_last [of "y # d # ds" c] by simp_all
  from run(1) obtain cs where cs: "evidence_of (quiet_run (before @ y # d # ds)) cs" "last cs = last (d # ds)" "call_ms (hd cs) \<le> call_ms d"
    by (rule snoc.IH [rotated])
  have "quiet_interval (cs @ [c])" by (rule quiet_interval_link [OF cs(1,2) run(2)])
  then have "evidence_of (quiet_run (before @ y # d # ds @ [c])) (cs @ [c])"
    using quiet_step_extends [OF cs(1)] quiet_step_snoc [of "before @ y # d # ds" c] by simp
  with snoc.prems(1) [of "cs @ [c]"] cs show ?case by (auto simp: evidence_of_def)
qed

section \<open>Properties\<close>

text \<open>C34: the quiet-window evidence means what it says. Whatever was observed before, an instance is called
  quiet only if the last observations, the present one included, are snapshots of one runtime with an
  eligible rate, in order, no more than five seconds apart, and span the required window; conversely,
  as soon as such a sequence spans the window from its second snapshot on, the instance is called
  quiet: duplicates, a restart, a stall or a clock that went back cost at most the first snapshot.\<close>

theorem quiet_window_evidence:
  "(quiet_answer calls c \<longrightarrow> (\<exists>before d ds. calls = before @ d # ds \<and> quiet_interval (d # ds @ [c])
      \<and> unat (call_ms d) + 1000 * unat (snd (snd c)) \<le> unat (call_ms c)))
   \<and> (\<forall>before y d ds. calls = before @ y # d # ds \<and> quiet_interval (y # d # ds @ [c])
      \<and> unat (call_ms d) + 1000 * unat (snd (snd c)) \<le> unat (call_ms c) \<longrightarrow> quiet_answer calls c)"
proof (intro conjI impI allI, goal_cases)
  case 1
  then obtain before cs where cs: "calls = before @ cs" "evidence_of (quiet_run calls) cs"
    using quiet_run_evidence [of calls] quiet_answer_default by blast
  moreover obtain d ds where "cs = d # ds" using cs(2) by (cases cs) (auto simp: evidence_of_def)
  ultimately show ?case using 1 quiet_answer_evidence [OF cs(2), of c]
    by (intro exI [of _ before] exI [of _ d] exI [of _ ds]) simp
next
  case (2 before y d ds)
  then have run: "quiet_interval (y # d # ds)" "quiet_interval (last (d # ds) # [c])"
    using quiet_interval_last [of "y # d # ds" c] by simp_all
  obtain cs where cs: "evidence_of (quiet_run calls) cs" "last cs = last (d # ds)" "call_ms (hd cs) \<le> call_ms d"
    using quiet_run_reaches [OF run(1), of before] 2 by blast
  have "quiet_interval (cs @ [c])" by (rule quiet_interval_link [OF cs(1,2) run(2)])
  moreover have "unat (call_ms (hd cs)) \<le> unat (call_ms d)" using cs(3) by (simp add: word_le_nat_alt)
  ultimately show ?case using 2 quiet_answer_evidence [OF cs(1)] by simp
qed

definition sample_snapshot :: "u64 \<Rightarrow> rating_runtime_snapshot" where
  "sample_snapshot ms = \<lparr>snap_updated_unix_ms = ms, snap_runtime_generation = 3,
     snap_dl_achieved_kbps = Fin 200, snap_ul_achieved_kbps = Fin 100\<rparr>"

theorem quiet_window_evidence_witness:
  "quiet_answer [(sample_snapshot 1000, 500, 4), (sample_snapshot 3000, 500, 4)] (sample_snapshot 7000, 500, 4)"
proof -
  have "f64_ok (Fin 300)" "f64_ok (Fin 500)" by (rule f64_ok_numeral; simp)+
  then have "quiet_interval [(sample_snapshot 1000, 500, 4), (sample_snapshot 3000, 500, 4), (sample_snapshot 7000, 500, 4)]"
    by (simp add: quiet_eligible_def sample_snapshot_def rnd_exact u64_as_f64_def SCHEDULER_RUNTIME_FRESHNESS_MS_def)
  moreover have "unat (call_ms (sample_snapshot 3000, 500, 4)) + 1000 * unat (4 :: u64)
      \<le> unat (call_ms (sample_snapshot 7000, 500, 4))"
    by (simp add: sample_snapshot_def)
  ultimately show ?thesis
    using conjunct2 [OF quiet_window_evidence, rule_format, of _ "[]" "(sample_snapshot 1000, 500, 4)"
        "(sample_snapshot 3000, 500, 4)" "[]" "(sample_snapshot 7000, 500, 4)"] by simp
qed

end
