(* ===== verification/Local_Calendar.thy ===== *)
theory Local_Calendar
  imports Scheduler_Text
begin

text \<open>
  The wall clock of the scheduler (\<open>operations/scheduler_runtime.rs\<close>): the plausibility check, the hour
  window and the local calendar. The functions \<open>localtime_r\<close> and \<open>mktime\<close> of the C library are
  arguments; \<open>localtime_r\<close> may fail, and \<open>mktime\<close> returns a \<open>time_t\<close>, whose largest value is an
  argument too. Integer overflow panics in this program: the result is then \<open>None\<close>.
\<close>

section \<open>Definitions\<close>

definition MIN_PLAUSIBLE_WALL_CLOCK_UNIX_S :: u64 where
  "MIN_PLAUSIBLE_WALL_CLOCK_UNIX_S = 1767225600"

definition require_plausible_wall_clock :: "u64 \<Rightarrow> unit result" where
  "require_plausible_wall_clock now_unix_s =
     reject (now_unix_s < MIN_PLAUSIBLE_WALL_CLOCK_UNIX_S)
       ''the system clock has not been set; scheduled calibration waits for a valid time''"

text \<open>The fields of \<open>struct tm\<close> that are read or written, as C integers.\<close>

record tm =
  tm_sec :: int
  tm_min :: int
  tm_hour :: int
  tm_mday :: int
  tm_mon :: int
  tm_year :: int
  tm_isdst :: int

record calendar =
  cal_now_unix_s :: u64
  cal_day :: string
  cal_month :: string
  cal_hour :: u8
  cal_window_open :: bool
  cal_next_window_open_unix_s :: "u64 option"

definition window_contains_hour :: "u8 \<Rightarrow> u8 \<Rightarrow> u8 \<Rightarrow> bool" where
  "window_contains_hour hour start stop =
     (if start = stop then True
      else if start < stop then start \<le> hour \<and> hour < stop
      else start \<le> hour \<or> hour < stop)"

text \<open>The format \<open>{n:0width}\<close> of an integer.\<close>

definition zero_padded :: "nat \<Rightarrow> int \<Rightarrow> string" where
  "zero_padded width n =
     (let sign = (if n < 0 then ''-'' else ''''); digits = nat_string (nat \<bar>n\<bar>)
      in sign @ replicate (width - length sign - length digits) CHR ''0'' @ digits)"

text \<open>The start of the window on the day of \<open>t\<close>.\<close>

definition at_window_start :: "tm \<Rightarrow> u8 \<Rightarrow> tm" where
  "at_window_start t window_start_hour =
     t\<lparr>tm_hour := int (unat window_start_hour), tm_min := 0, tm_sec := 0, tm_isdst := - 1\<rparr>"

definition next_window :: "(tm \<Rightarrow> int) \<Rightarrow> u64 \<Rightarrow> tm \<Rightarrow> u8 \<Rightarrow> u64 result" where
  "next_window mktime now_unix_s t window_start_hour =
     (let today = mktime (at_window_start t window_start_hour)
      in and_then (reject (today < 0) ''scheduler could not resolve the next local window'') (\<lambda>_.
         and_then
           (if today \<le> int (unat now_unix_s)
            then and_then (reject (tm_mday t \<ge> 2 ^ 31 - 1) ''scheduler next local day overflow'') (\<lambda>_.
                 let tomorrow = mktime (at_window_start (t\<lparr>tm_mday := tm_mday t + 1\<rparr>) window_start_hour)
                 in and_then (reject (tomorrow < 0) ''scheduler could not resolve the next local day window'') (\<lambda>_.
                    Ok tomorrow))
            else Ok today) (\<lambda>upcoming.
         and_then (reject (upcoming \<le> int (unat now_unix_s)) ''scheduler next local window did not advance'') (\<lambda>_.
         Ok (of_int upcoming)))))"

definition local_calendar ::
  "int \<Rightarrow> (int \<Rightarrow> tm option) \<Rightarrow> (tm \<Rightarrow> int) \<Rightarrow> u64 \<Rightarrow> u8 \<Rightarrow> u8 \<Rightarrow> calendar result option" where
  "local_calendar time_t_max localtime_r mktime now_unix_s window_start_hour window_end_hour =
     (case and_then (reject (now_unix_s = 0 \<or> window_start_hour > 23 \<or> window_end_hour > 23)
             ''scheduler local calendar input is invalid'') (\<lambda>_.
           and_then (reject (int (unat now_unix_s) > time_t_max) ''scheduler wall clock is outside time_t'') (\<lambda>_.
           and_then (ok_or (localtime_r (int (unat now_unix_s))) ''scheduler could not resolve the local calendar'') (\<lambda>t.
           and_then (reject (\<not> (0 \<le> tm_hour t \<and> tm_hour t \<le> 23) \<or> \<not> (0 \<le> tm_mon t \<and> tm_mon t \<le> 11)
                             \<or> \<not> (1 \<le> tm_mday t \<and> tm_mday t \<le> 31) \<or> tm_year t < 70)
             ''scheduler local calendar fields are invalid'') (\<lambda>_.
           let hour = of_int (tm_hour t);
               window_open = window_contains_hour hour window_start_hour window_end_hour
           in and_then (if window_open \<or> window_start_hour = window_end_hour then Ok None
                        else and_then (next_window mktime now_unix_s t window_start_hour) (\<lambda>n. Ok (Some n)))
                (\<lambda>next_open. Ok (t, hour, window_open, next_open)))))) of
        Inl e \<Rightarrow> Some (Err e)
      | Inr (t, hour, window_open, next_open) \<Rightarrow>
          if tm_year t + 1900 \<ge> 2 ^ 31 then None
          else
            let month = zero_padded 4 (tm_year t + 1900) @ zero_padded 2 (tm_mon t + 1)
            in Some (Ok \<lparr>cal_now_unix_s = now_unix_s, cal_day = month @ zero_padded 2 (tm_mday t), cal_month = month,
                 cal_hour = hour, cal_window_open = window_open, cal_next_window_open_unix_s = next_open\<rparr>))"

section \<open>Properties\<close>

lemma fixed_digits_0: "fixed_digits k 0 = replicate k CHR ''0''"
  by (induction k) (simp_all add: digit_char_def replicate_append_same)

lemma zero_padded_fixed:
  assumes "n < 10 ^ k" "0 < k"
  shows "zero_padded k (int n) = fixed_digits k n"
proof -
  have "replicate (k - length (nat_string n)) CHR ''0'' @ nat_string n = fixed_digits k n"
    using assms
  proof (induction k arbitrary: n)
    case (Suc k)
    show ?case
    proof (cases "n < 10")
      case True
      then show ?thesis by (simp add: nat_string.simps [of n] fixed_digits_0)
    next
      case False
      with Suc.prems have "0 < k" "n div 10 < 10 ^ k" by (cases k; simp)+
      then show ?thesis using Suc.IH [of "n div 10"] False by (simp add: nat_string.simps [of n])
    qed
  qed simp
  then show ?thesis by (simp add: zero_padded_def)
qed

lemma calendar_text:
  assumes "gregorian_date y m d" "y \<le> 9999"
  shows "zero_padded 4 (int y) @ zero_padded 2 (int m) = month_text y m"
    "month_text y m @ zero_padded 2 (int d) = date_text y m d"
  using gregorian_date_bounds [OF assms(1)] assms(2)
  by (simp_all add: zero_padded_fixed month_text_def date_text_def)

lemma gregorian_day_le: "gregorian_date y m d \<Longrightarrow> d \<le> 31"
  by (auto simp: gregorian_date_def days_in_month_def less_Suc_eq numeral_eq_Suc nth_Cons' split: if_splits)

text \<open>The window in the arithmetic of the clock.\<close>

lemma window_contains_hour_cyclic:
  assumes "hour \<le> 23" "start \<le> 23" "stop \<le> 23"
  shows "window_contains_hour hour start stop \<longleftrightarrow>
    start = stop \<or> (unat hour + 24 - unat start) mod 24 < (unat stop + 24 - unat start) mod 24"
proof -
  have wrap: "(a + 24 - b) mod 24 = (if b \<le> a then a - b else a + 24 - b)" if "a \<le> 23" "b \<le> 23" for a b :: nat
    using that by (auto simp: mod_if)
  show ?thesis
    using assms by (auto simp: window_contains_hour_def word_to_nat wrap)
qed

lemma next_window_advances:
  assumes "0 \<le> mktime (at_window_start t start)" "mktime (at_window_start t start) < 2 ^ 63"
      "int (unat now) < mktime (at_window_start (t\<lparr>tm_mday := tm_mday t + 1\<rparr>) start)"
      "mktime (at_window_start (t\<lparr>tm_mday := tm_mday t + 1\<rparr>) start) < 2 ^ 63" "tm_mday t < 2 ^ 31 - 1"
  obtains n where "next_window mktime now t start = Ok n" "now < n"
    "int (unat n) \<in> {mktime (at_window_start t start), mktime (at_window_start (t\<lparr>tm_mday := tm_mday t + 1\<rparr>) start)}"
proof -
  let ?today = "mktime (at_window_start t start)" and ?tomorrow = "mktime (at_window_start (t\<lparr>tm_mday := tm_mday t + 1\<rparr>) start)"
  define n where "n = (if ?today \<le> int (unat now) then ?tomorrow else ?today)"
  have n: "int (unat now) < n" "n < 2 ^ 63" "n \<in> {?today, ?tomorrow}" using assms by (simp_all add: n_def)
  have nonneg: "0 \<le> n"
    using n(1) of_nat_0_le_iff [of "unat now", where 'a = int] by (simp only: le_less_trans less_imp_le)
  then have "int (unat (of_int n :: u64)) = n" using n(2) by (simp add: unsigned_of_int take_bit_int_eq_self)
  moreover from this n(1) have "now < of_int n" by (simp add: word_less_def)
  moreover have "next_window mktime now t start = Ok (of_int n)"
    using assms n(1) nonneg by (simp add: next_window_def n_def Let_def not_le split: if_splits)
  ultimately show thesis using n(3) by (intro that [of "of_int n"]) simp_all
qed

text \<open>C35: the calendar of the scheduler serves its ledger. When the C library resolves a time between 1970
  and 9999 to a civil date and the start of tomorrow's window to a later time, the calendar succeeds
  without overflow: its day and month are a period that the ledger accepts, the window is open exactly
  in its hours on the 24-hour clock, also across midnight, and a closed window comes with a time of its
  next start after now.\<close>

theorem local_calendar_serves_ledger:
  assumes input: "now \<noteq> 0" "start \<le> 23" "stop \<le> 23" "int (unat now) \<le> time_t_max"
    and local: "localtime_r (int (unat now)) = Some t" "tm_hour t = int h" "h \<le> 23"
      "tm_year t + 1900 = int y" "tm_mon t + 1 = int m" "tm_mday t = int d" "1970 \<le> y" "y \<le> 9999" "gregorian_date y m d"
    and mktime: "0 \<le> mktime (at_window_start t start)" "mktime (at_window_start t start) < 2 ^ 63"
      "int (unat now) < mktime (at_window_start (t\<lparr>tm_mday := tm_mday t + 1\<rparr>) start)"
      "mktime (at_window_start (t\<lparr>tm_mday := tm_mday t + 1\<rparr>) start) < 2 ^ 63"
  shows "\<exists>cal. local_calendar time_t_max localtime_r mktime now start stop = Some (Ok cal)
    \<and> validate_period (cal_day cal) (cal_month cal) = Ok ()
    \<and> (cal_window_open cal \<longleftrightarrow> start = stop \<or> (h + 24 - unat start) mod 24 < (unat stop + 24 - unat start) mod 24)
    \<and> (if cal_window_open cal then cal_next_window_open_unix_s cal = None
       else \<exists>n. cal_next_window_open_unix_s cal = Some n \<and> now < n
         \<and> int (unat n) \<in> {mktime (at_window_start t start), mktime (at_window_start (t\<lparr>tm_mday := tm_mday t + 1\<rparr>) start)})"
proof -
  let ?open = "window_contains_hour (of_nat h) start stop"
  have hour: "unat (of_nat h :: u8) = h" "(of_int (int h) :: u8) = of_nat h" using local(3) by (simp_all add: unat_of_nat)
  have days: "1 \<le> d" "d \<le> 31" "1 \<le> m" "m \<le> 12"
    using local(9) gregorian_day_le by (auto simp: gregorian_date_def)
  obtain n where n: "next_window mktime now t start = Ok n" "now < n"
    "int (unat n) \<in> {mktime (at_window_start t start), mktime (at_window_start (t\<lparr>tm_mday := tm_mday t + 1\<rparr>) start)}"
    by (rule next_window_advances [OF mktime]) (use days local(6) in simp)
  have "validate_period (date_text y m d) (month_text y m) = Ok ()"
    using local(7-9) by (simp add: validate_period_numbers period_numbers_date_text gregorian_date_bounds)
  moreover have "?open \<longleftrightarrow> start = stop \<or> (h + 24 - unat start) mod 24 < (unat stop + 24 - unat start) mod 24"
    using window_contains_hour_cyclic [of "of_nat h" start stop] input(2,3) local(3) hour(1) by (simp add: word_le_nat_alt)
  moreover have "local_calendar time_t_max localtime_r mktime now start stop = Some (Ok \<lparr>cal_now_unix_s = now,
      cal_day = date_text y m d, cal_month = month_text y m, cal_hour = of_nat h, cal_window_open = ?open,
      cal_next_window_open_unix_s = (if ?open then None else Some n)\<rparr>)"
  proof -
    have "\<not> 23 < start" "\<not> 23 < stop" "start = stop \<Longrightarrow> ?open"
      using input(2,3) by (simp_all add: not_less window_contains_hour_def)
    then show ?thesis
      using input(1,4) local days n(1) hour(2) calendar_text [OF local(9,8)]
      by (cases ?open) (auto simp: local_calendar_def Let_def)
  qed
  ultimately show ?thesis using n(2,3) by auto
qed

text \<open>The first day of 2026, in UTC.\<close>

definition sample_tm :: tm where
  "sample_tm = \<lparr>tm_sec = 0, tm_min = 0, tm_hour = 0, tm_mday = 1, tm_mon = 0, tm_year = 126, tm_isdst = 0\<rparr>"

definition sample_mktime :: "tm \<Rightarrow> int" where
  "sample_mktime t = 1767225600 + 86400 * (tm_mday t - 1) + 3600 * tm_hour t + 60 * tm_min t + tm_sec t"

theorem local_calendar_serves_ledger_witness:
  "\<exists>cal. local_calendar (2 ^ 63 - 1) (\<lambda>_. Some sample_tm) sample_mktime MIN_PLAUSIBLE_WALL_CLOCK_UNIX_S 22 6 = Some (Ok cal)
     \<and> validate_period (cal_day cal) (cal_month cal) = Ok () \<and> cal_window_open cal"
proof -
  have date: "gregorian_date 2026 1 1" by (simp add: gregorian_date_def days_in_month_def)
  show ?thesis
    using local_calendar_serves_ledger [of MIN_PLAUSIBLE_WALL_CLOCK_UNIX_S 22 6 "2 ^ 63 - 1" "\<lambda>_. Some sample_tm" sample_tm
        0 2026 1 1 sample_mktime] date
    by (auto simp: MIN_PLAUSIBLE_WALL_CLOCK_UNIX_S_def sample_tm_def sample_mktime_def at_window_start_def)
qed

end
