(* ===== verification/Job_Journal.thy ===== *)
theory Job_Journal
  imports Operation_State Request_Codec
begin

text \<open>
  The durable journal of a calibration job (\<open>JobJournal\<close> in \<open>operations/journal.rs\<close>): its record, its
  validation, every operation the coordinator performs on it, and its text in four schemas. An
  operation changes the journal in place and may fail after it did, so it returns the journal and a
  result; the coordinator works on a copy and keeps it only after a success.
\<close>

section \<open>Definitions\<close>

record process_identity =
  pi_pid :: u32
  pi_process_group :: u32
  pi_starttime_ticks :: u64

record coordinator_identity =
  ci_boot_id :: string
  ci_generation :: string
  ci_process :: process_identity

record job_journal =
  jj_job_id :: string
  jj_boot_id :: string
  jj_coordinator_generation :: string
  jj_state :: operation_state
  jj_sequence :: u64
  jj_heavy_traffic :: bool
  jj_heavy_lease_acquired :: bool
  jj_instance :: string
  jj_target_interface :: string
  jj_sqm_fingerprint :: string
  jj_process :: "process_identity option"
  jj_runtime_owner_process :: "process_identity option"
  jj_worker_run_id :: "string option"
  jj_terminal_kind :: "string option"
  jj_terminal_state :: "string option"
  jj_publication_boot_id :: "string option"
  jj_publication_generation :: "string option"
  jj_diagnostic_code :: "string option"
  jj_reconcile_attempts :: u32
  jj_runtime_mutated :: bool
  jj_recovery_required :: bool
  jj_history_decision_required :: bool

definition journal_lower_hex :: "string \<Rightarrow> string \<Rightarrow> nat \<Rightarrow> unit result" where
  "journal_lower_hex name value len =
     reject (length value \<noteq> len \<or> \<not> list_all is_lower_hex_digit value)
       (''journal '' @ name @ '' must be '' @ nat_string len @ '' lowercase hex bytes'')"

definition journal_identifier :: "string \<Rightarrow> string \<Rightarrow> string \<Rightarrow> unit result" where
  "journal_identifier name value extra =
     reject (value = [] \<or> length value > 64
             \<or> \<not> list_all (\<lambda>b. is_ascii_alphanumeric b \<or> b \<in> set extra) value)
       (''journal '' @ name @ '' is unsafe'')"

subsection \<open>Validation\<close>

definition process_is_zero :: "process_identity \<Rightarrow> bool" where
  "process_is_zero p = (pi_pid p = 0 \<or> pi_process_group p = 0 \<or> pi_starttime_ticks p = 0)"

definition journal_validate_owner :: "job_journal \<Rightarrow> unit result" where
  "journal_validate_owner j =
     (case jj_runtime_owner_process j of
        None \<Rightarrow> Ok ()
      | Some owner \<Rightarrow>
          and_then (reject (process_is_zero owner) ''runtime owner process identity must be non-zero'') (\<lambda>_.
          and_then (reject (jj_worker_run_id j = None \<or> \<not> jj_heavy_traffic j \<or> terminal (jj_state j))
            ''runtime owner requires a live, armed heavy-traffic job'') (\<lambda>_.
          reject (case jj_process j of
                    None \<Rightarrow> False
                  | Some worker \<Rightarrow> worker = owner \<or> pi_process_group worker = pi_process_group owner)
            ''runtime owner must be isolated from the operation worker process group'')))"

definition journal_validate_publication :: "job_journal \<Rightarrow> unit result" where
  "journal_validate_publication j =
     (case (jj_publication_boot_id j, jj_publication_generation j) of
        (None, None) \<Rightarrow> Ok ()
      | (Some boot_id, Some generation) \<Rightarrow>
          and_then (journal_lower_hex ''publication_boot_id'' boot_id 32) (\<lambda>_.
          and_then (journal_lower_hex ''publication_generation'' generation 32) (\<lambda>_.
          reject (\<not> (jj_state j = ReviewReady \<or> jj_state j = Completed) \<or> jj_terminal_kind j \<noteq> Some ''result''
                  \<or> jj_terminal_state j \<noteq> Some ''complete'' \<or> jj_runtime_mutated j \<or> jj_recovery_required j
                  \<or> jj_process j \<noteq> None \<or> jj_runtime_owner_process j \<noteq> None)
            ''native publication identity requires an inert completed Review''))
      | _ \<Rightarrow> Err ''native publication identity is partial'')"

definition journal_validate_terminal :: "job_journal \<Rightarrow> unit result" where
  "journal_validate_terminal j =
     and_then (case jj_worker_run_id j of
                 None \<Rightarrow> Ok () | Some run_id \<Rightarrow> journal_lower_hex ''worker_run_id'' run_id 32) (\<lambda>_.
     and_then (case jj_terminal_kind j of
                 None \<Rightarrow> Ok ()
               | Some kind \<Rightarrow> reject (kind \<noteq> ''result'' \<and> kind \<noteq> ''error'') ''journal terminal kind is unsupported'') (\<lambda>_.
     and_then (case jj_terminal_state j of
                 None \<Rightarrow> Ok () | Some s \<Rightarrow> journal_identifier ''terminal_state'' s ''_-'') (\<lambda>_.
     and_then (case jj_diagnostic_code j of
                 None \<Rightarrow> Ok () | Some code \<Rightarrow> journal_identifier ''diagnostic_code'' code ''_-'') (\<lambda>_.
     and_then (reject (jj_reconcile_attempts j > 1000000)
       ''journal reconciliation attempt count is unreasonable'') (\<lambda>_.
     and_then (reject (jj_process j \<noteq> None \<and> jj_worker_run_id j = None)
       ''journal process requires an attached worker run identity'') (\<lambda>_.
     and_then (reject ((jj_terminal_kind j \<noteq> None) \<noteq> (jj_terminal_state j \<noteq> None))
       ''journal terminal evidence is partial'') (\<lambda>_.
     reject (jj_terminal_kind j \<noteq> None \<and> \<not> terminal (jj_state j))
       ''journal terminal evidence requires a terminal state'')))))))"

definition journal_validate :: "job_journal \<Rightarrow> unit result" where
  "journal_validate j =
     and_then (journal_lower_hex ''job_id'' (jj_job_id j) 32) (\<lambda>_.
     and_then (journal_lower_hex ''boot_id'' (jj_boot_id j) 32) (\<lambda>_.
     and_then (journal_lower_hex ''coordinator_generation'' (jj_coordinator_generation j) 32) (\<lambda>_.
     and_then (journal_identifier ''instance'' (jj_instance j) ''_-'') (\<lambda>_.
     and_then (journal_identifier ''target_interface'' (jj_target_interface j) ''._:@-'') (\<lambda>_.
     and_then (journal_lower_hex ''sqm_fingerprint'' (jj_sqm_fingerprint j) 64) (\<lambda>_.
     and_then (reject (jj_sequence j = 0) ''journal sequence must be non-zero'') (\<lambda>_.
     and_then (reject (jj_recovery_required j \<and> \<not> jj_runtime_mutated j)
       ''recovery cannot be required without a runtime mutation'') (\<lambda>_.
     and_then (reject (jj_heavy_lease_acquired j \<and> \<not> jj_heavy_traffic j)
       ''light operation cannot own the heavy-traffic lease'') (\<lambda>_.
     and_then (case jj_process j of
                 None \<Rightarrow> Ok ()
               | Some p \<Rightarrow> reject (process_is_zero p) ''journal process identity must be non-zero'') (\<lambda>_.
     and_then (journal_validate_owner j) (\<lambda>_.
     and_then (journal_validate_terminal j) (\<lambda>_.
     journal_validate_publication j))))))))))))"

subsection \<open>Operations\<close>

definition journal_queued :: "operation_request \<Rightarrow> coordinator_identity \<Rightarrow> bool \<Rightarrow> job_journal result" where
  "journal_queued request coordinator heavy_traffic =
     and_then (request_validate request) (\<lambda>_.
     let journal =
           \<lparr>jj_job_id = id_job_id (rq_identity request), jj_boot_id = ci_boot_id coordinator,
            jj_coordinator_generation = ci_generation coordinator, jj_state = Queued, jj_sequence = 1,
            jj_heavy_traffic = heavy_traffic, jj_heavy_lease_acquired = False,
            jj_instance = id_instance (rq_identity request),
            jj_target_interface = id_target_interface (rq_identity request),
            jj_sqm_fingerprint = id_sqm_fingerprint (rq_identity request), jj_process = None,
            jj_runtime_owner_process = None, jj_worker_run_id = None, jj_terminal_kind = None,
            jj_terminal_state = None, jj_publication_boot_id = None, jj_publication_generation = None,
            jj_diagnostic_code = None, jj_reconcile_attempts = 0, jj_runtime_mutated = False,
            jj_recovery_required = False,
            jj_history_decision_required =
              (rq_traffic_policy_explicit request \<and> rq_operation request = FullAutotune
               \<and> rq_strategy request = Some FullRaw \<and> rq_allow_sqm_disable request)\<rparr>
     in and_then (journal_validate journal) (\<lambda>_. Ok journal))"

definition publication_identity :: "job_journal \<Rightarrow> (string \<times> string) result" where
  "publication_identity j =
     (case (jj_publication_boot_id j, jj_publication_generation j) of
        (Some boot_id, Some generation) \<Rightarrow> Ok (boot_id, generation)
      | _ \<Rightarrow> Err ''native Review has no immutable publication identity'')"

text \<open>A change in place with its result, the early return of an operation and the end of most of them.\<close>

type_synonym journal_change = "job_journal \<times> unit result"

definition guarded :: "bool \<Rightarrow> string \<Rightarrow> job_journal \<Rightarrow> journal_change \<Rightarrow> journal_change" where
  "guarded refused message j change = (if refused then (j, Err message) else change)"

definition and_change :: "journal_change \<Rightarrow> (job_journal \<Rightarrow> journal_change) \<Rightarrow> journal_change" where
  "and_change change f = (case change of (j, Inl e) \<Rightarrow> (j, Err e) | (j, Inr _) \<Rightarrow> f j)"

definition checked :: "unit result \<Rightarrow> job_journal \<Rightarrow> journal_change" where
  "checked r j = (j, r)"

definition validated :: "job_journal \<Rightarrow> journal_change" where
  "validated j = (j, journal_validate j)"

definition next_sequence :: "job_journal \<Rightarrow> journal_change" where
  "next_sequence j =
     (case checked_add (jj_sequence j) 1 of
        None \<Rightarrow> (j, Err ''journal sequence overflow'')
      | Some n \<Rightarrow> (j\<lparr>jj_sequence := n\<rparr>, Ok ()))"

definition journal_transition :: "operation_state \<Rightarrow> job_journal \<Rightarrow> journal_change" where
  "journal_transition next_state j =
     and_change (checked (validate_transition (jj_state j) next_state) j) (\<lambda>j.
     and_change (next_sequence j) (\<lambda>j.
     validated (j\<lparr>jj_state := next_state\<rparr>)))"

definition fail_before_runtime_mutation :: "string \<Rightarrow> job_journal \<Rightarrow> journal_change" where
  "fail_before_runtime_mutation diagnostic_code j =
     guarded (jj_runtime_mutated j \<or> jj_recovery_required j \<or> jj_process j \<noteq> None)
       ''preflight failure cannot settle a runtime-owning journal'' j
       (and_change (journal_transition Failed j) (\<lambda>j.
        and_change (checked (journal_identifier ''diagnostic_code'' diagnostic_code ''_-'') j) (\<lambda>j.
        validated (j\<lparr>jj_diagnostic_code := Some diagnostic_code, jj_heavy_lease_acquired := False\<rparr>))))"

definition mark_heavy_lease_acquired :: "job_journal \<Rightarrow> journal_change" where
  "mark_heavy_lease_acquired j =
     guarded (\<not> jj_heavy_traffic j \<or> jj_heavy_lease_acquired j)
       ''heavy lease is not required or is already journalled'' j
       (guarded (jj_state j \<noteq> Queued \<or> jj_runtime_mutated j \<or> jj_recovery_required j \<or> jj_process j \<noteq> None)
          ''heavy lease can be armed only before runtime mutation'' j
          (and_change (next_sequence j) (\<lambda>j.
           validated (j\<lparr>jj_heavy_lease_acquired := True\<rparr>))))"

definition mark_bootstrap_heavy_lease_acquired :: "job_journal \<Rightarrow> journal_change" where
  "mark_bootstrap_heavy_lease_acquired j =
     guarded (\<not> jj_heavy_traffic j \<or> jj_heavy_lease_acquired j)
       ''bootstrap heavy lease is not required or is already journalled'' j
       (guarded (jj_state j \<noteq> Running \<or> jj_runtime_mutated j \<or> jj_recovery_required j \<or> jj_process j = None
                 \<or> jj_runtime_owner_process j = None \<or> jj_worker_run_id j = None)
          ''bootstrap heavy lease requires an attached parked worker and runtime owner'' j
          (and_change (next_sequence j) (\<lambda>j.
           validated (j\<lparr>jj_heavy_lease_acquired := True\<rparr>))))"

definition release_heavy_lease_during_recovery :: "job_journal \<Rightarrow> journal_change" where
  "release_heavy_lease_during_recovery j =
     guarded (\<not> jj_heavy_traffic j \<or> \<not> jj_heavy_lease_acquired j \<or> jj_state j \<noteq> Recovering
              \<or> \<not> jj_runtime_mutated j \<or> \<not> jj_recovery_required j)
       ''heavy lease can be detached only from an exact runtime recovery'' j
       (and_change (next_sequence j) (\<lambda>j.
        validated (j\<lparr>jj_heavy_lease_acquired := False\<rparr>)))"

definition arm_native_worker :: "string \<Rightarrow> job_journal \<Rightarrow> journal_change" where
  "arm_native_worker worker_run_id j =
     guarded (jj_runtime_mutated j \<or> jj_recovery_required j \<or> jj_process j \<noteq> None)
       ''native worker cannot arm a runtime-owning journal'' j
       (and_change (journal_transition Starting j) (\<lambda>j.
        and_change (checked (journal_lower_hex ''worker_run_id'' worker_run_id 32) j) (\<lambda>j.
        validated (j\<lparr>jj_worker_run_id := Some worker_run_id\<rparr>))))"

definition attach_native_running :: "process_identity \<Rightarrow> string \<Rightarrow> job_journal \<Rightarrow> journal_change" where
  "attach_native_running process worker_run_id j =
     guarded (jj_state j \<noteq> Starting \<or> jj_runtime_mutated j \<or> jj_recovery_required j \<or> jj_process j \<noteq> None)
       ''native worker can attach only to an armed non-mutating journal'' j
       (guarded (jj_worker_run_id j \<noteq> Some worker_run_id)
          ''native worker identity differs from the armed journal'' j
          (and_change (journal_transition Running j) (\<lambda>j.
           validated (j\<lparr>jj_process := Some process\<rparr>))))"

definition arm_attached_runtime_mutation :: "job_journal \<Rightarrow> journal_change" where
  "arm_attached_runtime_mutation j =
     guarded (jj_state j \<noteq> Running \<or> jj_runtime_mutated j \<or> jj_recovery_required j \<or> jj_process j = None
              \<or> jj_worker_run_id j = None \<or> \<not> jj_heavy_traffic j \<or> \<not> jj_heavy_lease_acquired j)
       ''runtime mutation can arm only for an attached, leased native worker'' j
       (and_change (next_sequence j) (\<lambda>j.
        validated (j\<lparr>jj_runtime_mutated := True, jj_recovery_required := True\<rparr>)))"

text \<open>The operations that stage a copy: the journal changes only when the copy is valid.\<close>

definition staged :: "(job_journal \<Rightarrow> job_journal) \<Rightarrow> job_journal \<Rightarrow> journal_change" where
  "staged f j =
     (case and_change (next_sequence j) (\<lambda>j. validated (f j)) of
        (_, Inl e) \<Rightarrow> (j, Err e)
      | (j', Inr _) \<Rightarrow> (j', Ok ()))"

definition attach_bootstrap_runtime_owner :: "process_identity \<Rightarrow> job_journal \<Rightarrow> journal_change" where
  "attach_bootstrap_runtime_owner process j =
     guarded (jj_state j \<noteq> Running \<or> jj_runtime_mutated j \<or> jj_recovery_required j \<or> jj_process j = None
              \<or> jj_worker_run_id j = None \<or> \<not> jj_heavy_traffic j \<or> jj_runtime_owner_process j \<noteq> None)
       ''bootstrap runtime owner can attach only to a parked heavy-traffic worker'' j
       (staged (\<lambda>j. j\<lparr>jj_runtime_owner_process := Some process\<rparr>) j)"

definition arm_attached_bootstrap_runtime_mutation :: "job_journal \<Rightarrow> journal_change" where
  "arm_attached_bootstrap_runtime_mutation j =
     guarded (jj_runtime_owner_process j = None)
       ''bootstrap runtime mutation requires an attached runtime owner'' j
       (arm_attached_runtime_mutation j)"

definition clear_bootstrap_runtime_owner :: "job_journal \<Rightarrow> journal_change" where
  "clear_bootstrap_runtime_owner j =
     guarded (jj_runtime_owner_process j = None \<or> terminal (jj_state j))
       ''bootstrap runtime owner is not attached to a live job'' j
       (staged (\<lambda>j. j\<lparr>jj_runtime_owner_process := None\<rparr>) j)"

definition replace_bootstrap_runtime_owner_during_recovery :: "process_identity \<Rightarrow> job_journal \<Rightarrow> journal_change" where
  "replace_bootstrap_runtime_owner_during_recovery process j =
     guarded (jj_state j \<noteq> Recovering \<or> \<not> jj_runtime_mutated j \<or> \<not> jj_recovery_required j
              \<or> jj_worker_run_id j = None \<or> \<not> jj_heavy_traffic j)
       ''bootstrap runtime owner can be replaced only during exact recovery'' j
       (staged (\<lambda>j. j\<lparr>jj_runtime_owner_process := Some process\<rparr>) j)"

definition stop_attached_before_runtime_mutation :: "string \<Rightarrow> job_journal \<Rightarrow> journal_change" where
  "stop_attached_before_runtime_mutation diagnostic_code j =
     guarded (jj_state j \<noteq> Running \<or> jj_runtime_mutated j \<or> jj_recovery_required j \<or> jj_process j = None
              \<or> jj_worker_run_id j = None)
       ''only an attached parked worker can stop before mutation'' j
       (and_change (checked (journal_identifier ''diagnostic_code'' diagnostic_code ''_-'') j) (\<lambda>j.
        and_change (journal_transition Cancelling j) (\<lambda>j.
        validated (j\<lparr>jj_diagnostic_code := Some diagnostic_code\<rparr>))))"

text \<open>The outcome tables of the three settlements: the next state and the kind of the terminal evidence.\<close>

definition native_outcome :: "string \<Rightarrow> (operation_state \<times> string) option" where
  "native_outcome terminal_state =
     (if terminal_state = ''complete'' then Some (Completed, ''result'')
      else if terminal_state = ''cancelled'' then Some (Cancelled, ''error'')
      else if terminal_state = ''incomplete'' \<or> terminal_state = ''failed'' then Some (Failed, ''error'')
      else None)"

definition runtime_outcome :: "string \<Rightarrow> string option \<Rightarrow> (operation_state \<times> string) option" where
  "runtime_outcome terminal_state diagnostic_code =
     (if terminal_state = ''complete'' \<and> diagnostic_code = None then Some (ReviewReady, ''result'')
      else if terminal_state = ''cancelled'' then Some (Cancelled, ''error'')
      else if terminal_state = ''inconclusive'' \<or> terminal_state = ''failed'' then Some (Failed, ''error'')
      else None)"

definition speedtest_outcome :: "string \<Rightarrow> string option \<Rightarrow> (operation_state \<times> string) option" where
  "speedtest_outcome terminal_state diagnostic_code =
     (if terminal_state = ''complete'' \<and> diagnostic_code = None then Some (Completed, ''result'')
      else if terminal_state = ''cancelled'' then Some (Cancelled, ''error'')
      else if terminal_state = ''failed'' then Some (Failed, ''error'')
      else None)"

definition settle_native_terminal :: "string \<Rightarrow> string option \<Rightarrow> job_journal \<Rightarrow> journal_change" where
  "settle_native_terminal terminal_state diagnostic_code j =
     guarded (jj_runtime_mutated j \<or> jj_recovery_required j \<or> jj_worker_run_id j = None)
       ''native terminal cannot settle a runtime-owning or unarmed journal'' j
       (case native_outcome terminal_state of
          None \<Rightarrow> (j, Err ''native terminal state is unsupported'')
        | Some (next_state, kind) \<Rightarrow>
            and_change (checked (validate_transition (jj_state j) next_state) j) (\<lambda>j.
            and_change (next_sequence j) (\<lambda>j.
            validated (j\<lparr>jj_state := next_state, jj_process := None, jj_runtime_owner_process := None,
                         jj_terminal_kind := Some kind, jj_terminal_state := Some terminal_state,
                         jj_heavy_lease_acquired := False, jj_diagnostic_code := diagnostic_code\<rparr>))))"

text \<open>The guard of both settlements of a restored runtime.\<close>

definition not_restored :: "job_journal \<Rightarrow> bool" where
  "not_restored j = (jj_state j \<noteq> Recovering \<or> \<not> jj_runtime_mutated j \<or> \<not> jj_recovery_required j
     \<or> jj_worker_run_id j = None \<or> jj_process j \<noteq> None)"

definition settle_native_runtime_terminal :: "string \<Rightarrow> string option \<Rightarrow> job_journal \<Rightarrow> journal_change" where
  "settle_native_runtime_terminal terminal_state diagnostic_code j =
     guarded (not_restored j) ''native runtime terminal requires an exactly restored recovering journal'' j
       (case runtime_outcome terminal_state diagnostic_code of
          None \<Rightarrow> (j, Err ''native runtime terminal state is unsupported'')
        | Some (next_state, kind) \<Rightarrow>
            and_change (journal_transition next_state j) (\<lambda>j.
            let published = (terminal_state = ''complete'' \<and> diagnostic_code = None)
            in validated (j\<lparr>jj_terminal_kind := Some kind, jj_terminal_state := Some terminal_state,
                 jj_publication_boot_id := (if published then Some (jj_boot_id j) else None),
                 jj_publication_generation := (if published then Some (jj_coordinator_generation j) else None),
                 jj_runtime_mutated := False, jj_recovery_required := False, jj_heavy_lease_acquired := False,
                 jj_diagnostic_code := diagnostic_code\<rparr>)))"

definition settle_native_speedtest_runtime_terminal :: "string \<Rightarrow> string option \<Rightarrow> job_journal \<Rightarrow> journal_change" where
  "settle_native_speedtest_runtime_terminal terminal_state diagnostic_code j =
     guarded (not_restored j)
       ''native Speed Test runtime terminal requires an exactly restored recovering journal'' j
       (case speedtest_outcome terminal_state diagnostic_code of
          None \<Rightarrow> (j, Err ''native Speed Test runtime terminal state is unsupported'')
        | Some (next_state, kind) \<Rightarrow>
            and_change (journal_transition next_state j) (\<lambda>j.
            validated (j\<lparr>jj_terminal_kind := Some kind, jj_terminal_state := Some terminal_state,
                         jj_runtime_mutated := False, jj_recovery_required := False,
                         jj_heavy_lease_acquired := False, jj_diagnostic_code := diagnostic_code\<rparr>)))"

definition require_recovery :: "string \<Rightarrow> job_journal \<Rightarrow> journal_change" where
  "require_recovery diagnostic_code j =
     and_change (if jj_state j \<noteq> Recovering then journal_transition Recovering j else next_sequence j) (\<lambda>j.
     validated (j\<lparr>jj_process := None, jj_runtime_mutated := True, jj_recovery_required := True,
                  jj_diagnostic_code := Some diagnostic_code\<rparr>))"

subsection \<open>What the coordinator does with a journal\<close>

text \<open>\<open>cancel_job\<close> and the monitor of owned traffic use the bare transition; the monitor looks at armed jobs
  that are starting or running.\<close>

definition cancel_change :: "job_journal \<Rightarrow> journal_change" where
  "cancel_change j =
     guarded (terminal (jj_state j) \<or> jj_state j = Recovering \<or> jj_state j = Cancelling) ''already settling'' j
       (let next_state = (if jj_state j = Queued then Cancelled else Cancelling)
        in and_change (journal_transition next_state j) (\<lambda>j.
           validated (if next_state = Cancelled then j\<lparr>jj_heavy_lease_acquired := False\<rparr> else j)))"

definition stop_owned_traffic :: "string \<Rightarrow> job_journal \<Rightarrow> journal_change" where
  "stop_owned_traffic stop j =
     guarded (jj_state j \<notin> {Starting, Running} \<or> jj_worker_run_id j = None) ''not eligible'' j
       (and_change (journal_transition Cancelling j) (\<lambda>j.
        validated (j\<lparr>jj_diagnostic_code := Some stop\<rparr>)))"

text \<open>The change of \<open>adopt_generation\<close>, with its checks; the write is the store's.\<close>

definition adopt_change :: "coordinator_identity \<Rightarrow> job_journal \<Rightarrow> job_journal result" where
  "adopt_change coordinator j =
     and_then (journal_validate j) (\<lambda>_.
     and_then (reject (jj_boot_id j \<noteq> ci_boot_id coordinator) ''journal from another boot cannot be adopted'') (\<lambda>_.
     and_then (ok_or (checked_add (jj_sequence j) 1) ''journal sequence overflow during adoption'') (\<lambda>n.
     let adopted = j\<lparr>jj_coordinator_generation := ci_generation coordinator, jj_sequence := n\<rparr>
     in and_then (journal_validate adopted) (\<lambda>_. Ok adopted))))"

datatype journal_event =
    CancelJob | StopTraffic string | FailBefore string | MarkHeavy | MarkBootstrapHeavy | ReleaseHeavy
  | ArmWorker string | AttachWorker process_identity string | ArmMutation | AttachOwner process_identity
  | ArmBootstrapMutation | ClearOwner | ReplaceOwner process_identity | StopBefore string
  | SettleTerminal string "string option" | SettleRuntime string "string option"
  | SettleSpeedtest string "string option" | RequireRecovery string | Adopt coordinator_identity

fun journal_apply :: "journal_event \<Rightarrow> job_journal \<Rightarrow> journal_change" where
  "journal_apply CancelJob j = cancel_change j"
| "journal_apply (StopTraffic stop) j = stop_owned_traffic stop j"
| "journal_apply (FailBefore code) j = fail_before_runtime_mutation code j"
| "journal_apply MarkHeavy j = mark_heavy_lease_acquired j"
| "journal_apply MarkBootstrapHeavy j = mark_bootstrap_heavy_lease_acquired j"
| "journal_apply ReleaseHeavy j = release_heavy_lease_during_recovery j"
| "journal_apply (ArmWorker run_id) j = arm_native_worker run_id j"
| "journal_apply (AttachWorker p run_id) j = attach_native_running p run_id j"
| "journal_apply ArmMutation j = arm_attached_runtime_mutation j"
| "journal_apply (AttachOwner p) j = attach_bootstrap_runtime_owner p j"
| "journal_apply ArmBootstrapMutation j = arm_attached_bootstrap_runtime_mutation j"
| "journal_apply ClearOwner j = clear_bootstrap_runtime_owner j"
| "journal_apply (ReplaceOwner p) j = replace_bootstrap_runtime_owner_during_recovery p j"
| "journal_apply (StopBefore code) j = stop_attached_before_runtime_mutation code j"
| "journal_apply (SettleTerminal s code) j = settle_native_terminal s code j"
| "journal_apply (SettleRuntime s code) j = settle_native_runtime_terminal s code j"
| "journal_apply (SettleSpeedtest s code) j = settle_native_speedtest_runtime_terminal s code j"
| "journal_apply (RequireRecovery code) j = require_recovery code j"
| "journal_apply (Adopt coordinator) j =
     (case adopt_change coordinator j of Inl e \<Rightarrow> (j, Err e) | Inr j' \<Rightarrow> (j', Ok ()))"

section \<open>The life of a journal\<close>

text \<open>A journal starts queued; a change counts only when it succeeds.\<close>

definition journal_start :: "job_journal \<Rightarrow> bool" where
  "journal_start j \<longleftrightarrow> (\<exists>request coordinator heavy. journal_queued request coordinator heavy = Ok j)"

inductive journal_step :: "job_journal \<Rightarrow> job_journal \<Rightarrow> bool" where
  "journal_apply e j = (j', Ok ()) \<Longrightarrow> journal_step j j'"

inductive_simps journal_step_simps: "journal_step j j'"

lemma and_change_Ok_iff [simp]:
  "and_change c f = (j', Inr u) \<longleftrightarrow> (\<exists>j1 v. c = (j1, Inr v) \<and> f j1 = (j', Inr u))"
  by (cases c; cases "snd c") (auto simp: and_change_def)

lemma guarded_Ok_iff [simp]: "guarded refused e j c = (j', Inr u) \<longleftrightarrow> \<not> refused \<and> c = (j', Inr u)"
  by (auto simp: guarded_def)

lemma checked_Ok_iff [simp]: "checked r j = (j', Inr u) \<longleftrightarrow> r = Inr u \<and> j' = j"
  by (auto simp: checked_def)

lemma validated_Ok_iff [simp]: "validated j = (j', Inr u) \<longleftrightarrow> j' = j \<and> journal_validate j = Inr u"
  by (auto simp: validated_def)

lemma next_sequence_Ok_iff [simp]:
  "next_sequence j = (j', Inr u) \<longleftrightarrow> (\<exists>n. checked_add (jj_sequence j) 1 = Some n \<and> j' = j\<lparr>jj_sequence := n\<rparr>)"
  by (auto simp: next_sequence_def split: option.splits)

lemma staged_Ok_iff [simp]:
  "staged f j = (j', Inr u) \<longleftrightarrow> (\<exists>n. checked_add (jj_sequence j) 1 = Some n \<and> j' = f (j\<lparr>jj_sequence := n\<rparr>)
     \<and> journal_validate j' = Ok ())"
  by (auto simp: staged_def and_change_def next_sequence_def validated_def split: option.splits sum.splits)

lemma journal_transition_Ok_iff [simp]:
  "journal_transition s j = (j', Inr u) \<longleftrightarrow> s \<in> set (allowed_targets (jj_state j))
     \<and> (\<exists>n. checked_add (jj_sequence j) 1 = Some n \<and> j' = j\<lparr>jj_sequence := n, jj_state := s\<rparr> \<and> journal_validate j' = Ok ())"
  by (auto simp: journal_transition_def validate_transition_Ok_iff)

lemmas journal_ops = cancel_change_def stop_owned_traffic_def fail_before_runtime_mutation_def mark_heavy_lease_acquired_def
  mark_bootstrap_heavy_lease_acquired_def release_heavy_lease_during_recovery_def arm_native_worker_def
  attach_native_running_def arm_attached_runtime_mutation_def attach_bootstrap_runtime_owner_def
  arm_attached_bootstrap_runtime_mutation_def clear_bootstrap_runtime_owner_def
  replace_bootstrap_runtime_owner_during_recovery_def stop_attached_before_runtime_mutation_def settle_native_terminal_def
  settle_native_runtime_terminal_def settle_native_speedtest_runtime_terminal_def require_recovery_def adopt_change_def
  not_restored_def Let_def and_then_Inr_iff ok_or_Inr_iff

text \<open>Which resources a journal may name in which state.\<close>

definition journal_shape :: "job_journal \<Rightarrow> bool" where
  "journal_shape j \<longleftrightarrow>
     (jj_runtime_mutated j \<longleftrightarrow> jj_recovery_required j)
     \<and> (jj_state j = ReviewReady \<longleftrightarrow> jj_publication_boot_id j \<noteq> None)
     \<and> (case jj_state j of
          Queued \<Rightarrow> jj_process j = None \<and> jj_worker_run_id j = None \<and> \<not> jj_runtime_mutated j
        | Starting \<Rightarrow> jj_process j = None \<and> jj_worker_run_id j \<noteq> None \<and> \<not> jj_runtime_mutated j
        | Running \<Rightarrow> jj_process j \<noteq> None \<and> jj_worker_run_id j \<noteq> None \<and> (jj_runtime_mutated j \<longrightarrow> jj_heavy_lease_acquired j)
        | Cancelling \<Rightarrow> jj_worker_run_id j \<noteq> None \<and> (jj_runtime_mutated j \<longrightarrow> jj_process j \<noteq> None \<and> jj_heavy_lease_acquired j)
        | Recovering \<Rightarrow> jj_worker_run_id j \<noteq> None \<and> jj_process j = None \<and> jj_runtime_mutated j
        | _ \<Rightarrow> jj_process j = None \<and> \<not> jj_runtime_mutated j \<and> \<not> jj_heavy_lease_acquired j)"

definition journal_inv :: "job_journal \<Rightarrow> bool" where
  "journal_inv j \<longleftrightarrow> journal_validate j = Ok () \<and> journal_shape j"

lemma journal_step_valid:
  assumes "journal_step j j'"
  shows "journal_validate j' = Ok ()"
proof -
  obtain e where "journal_apply e j = (j', Ok ())" using assms by (auto simp: journal_step_simps)
  then show ?thesis
    by (cases e) (auto simp: journal_ops split: option.splits if_splits prod.splits sum.splits)
qed

lemma native_outcome_cases:
  "native_outcome s = Some (t, k) \<Longrightarrow> t \<in> {Completed, Cancelled, Failed}"
  by (auto simp: native_outcome_def split: if_splits)

lemma runtime_outcome_cases:
  "runtime_outcome s d = Some (t, k) \<Longrightarrow> t \<in> {ReviewReady, Cancelled, Failed} \<and> (t = ReviewReady \<longleftrightarrow> s = ''complete'' \<and> d = None)"
  by (auto simp: runtime_outcome_def split: if_splits)

lemma speedtest_outcome_cases:
  "speedtest_outcome s d = Some (t, k) \<Longrightarrow> t \<in> {Completed, Cancelled, Failed}"
  by (auto simp: speedtest_outcome_def split: if_splits)

lemma journal_shape_cong:
  assumes "journal_shape j" "jj_state j' = jj_state j" "jj_process j' = jj_process j" "jj_worker_run_id j' = jj_worker_run_id j"
    "jj_publication_boot_id j' = jj_publication_boot_id j" "jj_runtime_mutated j' = jj_runtime_mutated j"
    "jj_recovery_required j' = jj_recovery_required j" "jj_heavy_lease_acquired j' = jj_heavy_lease_acquired j"
  shows "journal_shape j'"
  using assms(1) unfolding journal_shape_def assms(2-) .

lemma settle_runtime_shape:
  assumes "settle_native_runtime_terminal s d j = (j', Ok ())" "journal_shape j"
  shows "journal_shape j'"
proof -
  obtain t k where t: "runtime_outcome s d = Some (t, k)" and state: "jj_state j = Recovering"
    using assms(1) by (auto simp: settle_native_runtime_terminal_def not_restored_def split: option.splits)
  then show ?thesis
    using assms runtime_outcome_cases [OF t]
    by (cases "t = ReviewReady") (auto simp: settle_native_runtime_terminal_def journal_shape_def Let_def)
qed

lemma settle_speedtest_shape:
  assumes "settle_native_speedtest_runtime_terminal s d j = (j', Ok ())" "journal_shape j"
  shows "journal_shape j'"
proof -
  obtain t k where t: "speedtest_outcome s d = Some (t, k)" and state: "jj_state j = Recovering"
    using assms(1) by (auto simp: settle_native_speedtest_runtime_terminal_def not_restored_def split: option.splits)
  then show ?thesis
    using assms speedtest_outcome_cases [OF t]
    by (auto simp: settle_native_speedtest_runtime_terminal_def journal_shape_def)
qed

lemma settle_native_shape:
  assumes "settle_native_terminal s d j = (j', Ok ())" "journal_shape j"
  shows "journal_shape j'"
proof -
  obtain t k where t: "native_outcome s = Some (t, k)"
    using assms(1) by (auto simp: settle_native_terminal_def split: option.splits)
  then show ?thesis
    using assms native_outcome_cases [OF t]
    by (cases "jj_state j") (auto simp: settle_native_terminal_def journal_shape_def validate_transition_Ok_iff allowed_targets_def)
qed

lemma transition_shape:
  assumes "journal_shape j"
  shows "cancel_change j = (j', Ok ()) \<Longrightarrow> journal_shape j'" "stop_owned_traffic code j = (j', Ok ()) \<Longrightarrow> journal_shape j'"
    "fail_before_runtime_mutation code j = (j', Ok ()) \<Longrightarrow> journal_shape j'"
    "arm_native_worker code j = (j', Ok ()) \<Longrightarrow> journal_shape j'" "require_recovery code j = (j', Ok ()) \<Longrightarrow> journal_shape j'"
  using assms
  by (cases "jj_state j"; auto simp: cancel_change_def stop_owned_traffic_def fail_before_runtime_mutation_def
      arm_native_worker_def require_recovery_def journal_shape_def allowed_targets_def terminal_def split: if_splits)+

lemma attached_shape:
  assumes "journal_shape j"
  shows "mark_heavy_lease_acquired j = (j', Ok ()) \<Longrightarrow> journal_shape j'"
    "mark_bootstrap_heavy_lease_acquired j = (j', Ok ()) \<Longrightarrow> journal_shape j'"
    "release_heavy_lease_during_recovery j = (j', Ok ()) \<Longrightarrow> journal_shape j'"
    "attach_native_running p run_id j = (j', Ok ()) \<Longrightarrow> journal_shape j'"
    "arm_attached_runtime_mutation j = (j', Ok ()) \<Longrightarrow> journal_shape j'"
    "attach_bootstrap_runtime_owner p j = (j', Ok ()) \<Longrightarrow> journal_shape j'"
    "replace_bootstrap_runtime_owner_during_recovery p j = (j', Ok ()) \<Longrightarrow> journal_shape j'"
    "stop_attached_before_runtime_mutation code j = (j', Ok ()) \<Longrightarrow> journal_shape j'"
  using assms
  by (auto simp: mark_heavy_lease_acquired_def mark_bootstrap_heavy_lease_acquired_def
      release_heavy_lease_during_recovery_def attach_native_running_def arm_attached_runtime_mutation_def
      attach_bootstrap_runtime_owner_def replace_bootstrap_runtime_owner_during_recovery_def
      stop_attached_before_runtime_mutation_def journal_shape_def)

lemma renamed_shape:
  assumes "journal_shape j"
  shows "clear_bootstrap_runtime_owner j = (j', Ok ()) \<Longrightarrow> journal_shape j'"
    "adopt_change c j = Ok j' \<Longrightarrow> journal_shape j'"
  using assms
  by (auto simp: clear_bootstrap_runtime_owner_def adopt_change_def Let_def and_then_Inr_iff intro: journal_shape_cong)

lemmas shape_rules = settle_runtime_shape settle_speedtest_shape settle_native_shape transition_shape [rotated]
  attached_shape [rotated] renamed_shape [rotated]

lemma journal_step_shape: "journal_apply e j = (j', Ok ()) \<Longrightarrow> journal_shape j \<Longrightarrow> journal_shape j'"
  by (cases e) (auto simp: arm_attached_bootstrap_runtime_mutation_def split: sum.splits dest: shape_rules)

lemma journal_start_inv: "journal_start j \<Longrightarrow> journal_inv j"
  by (auto simp: journal_start_def journal_queued_def journal_inv_def journal_shape_def Let_def and_then_Inr_iff)

text \<open>What never changes, and the sequence number that counts the changes.\<close>

lemma journal_step_frame:
  assumes "journal_step j j'"
  shows "jj_job_id j' = jj_job_id j" "jj_boot_id j' = jj_boot_id j" "jj_instance j' = jj_instance j"
    "jj_target_interface j' = jj_target_interface j" "jj_sqm_fingerprint j' = jj_sqm_fingerprint j"
    "jj_heavy_traffic j' = jj_heavy_traffic j" "jj_history_decision_required j' = jj_history_decision_required j"
    "unat (jj_sequence j') = unat (jj_sequence j) + 1"
proof -
  obtain e where e: "journal_apply e j = (j', Ok ())" using assms by (auto simp: journal_step_simps)
  show "jj_job_id j' = jj_job_id j" "jj_boot_id j' = jj_boot_id j" "jj_instance j' = jj_instance j"
    "jj_target_interface j' = jj_target_interface j" "jj_sqm_fingerprint j' = jj_sqm_fingerprint j"
    "jj_heavy_traffic j' = jj_heavy_traffic j" "jj_history_decision_required j' = jj_history_decision_required j"
    "unat (jj_sequence j') = unat (jj_sequence j) + 1"
    using e by (cases e; auto simp: journal_ops checked_add_Some_iff split: option.splits if_splits prod.splits sum.splits)+
qed

interpretation journal_machine: sequenced_machine journal_start journal_step journal_inv "\<lambda>j. unat (jj_sequence j)"
proof
  show "journal_inv j" if "journal_start j" for j using that by (rule journal_start_inv)
  show "journal_inv j'" if "journal_inv j" "journal_step j j'" for j j'
    using that journal_step_valid journal_step_shape by (auto simp: journal_inv_def journal_step_simps)
  show "j' = j \<or> unat (jj_sequence j) < unat (jj_sequence j')" if "journal_step j j'" for j j'
    using journal_step_frame(8) [OF that] by simp
qed

text \<open>Settling is always possible while the sequence number has room.\<close>

lemma journal_validate_Ok_iff:
  "journal_validate j = Ok () \<longleftrightarrow>
     journal_lower_hex ''job_id'' (jj_job_id j) 32 = Ok () \<and> journal_lower_hex ''boot_id'' (jj_boot_id j) 32 = Ok ()
     \<and> journal_lower_hex ''coordinator_generation'' (jj_coordinator_generation j) 32 = Ok ()
     \<and> journal_identifier ''instance'' (jj_instance j) ''_-'' = Ok ()
     \<and> journal_identifier ''target_interface'' (jj_target_interface j) ''._:@-'' = Ok ()
     \<and> journal_lower_hex ''sqm_fingerprint'' (jj_sqm_fingerprint j) 64 = Ok () \<and> jj_sequence j \<noteq> 0
     \<and> (jj_recovery_required j \<longrightarrow> jj_runtime_mutated j) \<and> (jj_heavy_lease_acquired j \<longrightarrow> jj_heavy_traffic j)
     \<and> (\<forall>p. jj_process j = Some p \<longrightarrow> \<not> process_is_zero p) \<and> journal_validate_owner j = Ok ()
     \<and> journal_validate_terminal j = Ok () \<and> journal_validate_publication j = Ok ()"
  by (auto simp: journal_validate_def and_then_Inr_iff split: option.splits)

lemma next_sequence_room:
  assumes "unat (jj_sequence j) + 1 < 2 ^ 64"
  obtains n where "checked_add (jj_sequence j) 1 = Some n" "unat n = unat (jj_sequence j) + 1" "n \<noteq> 0"
proof -
  have "checked_add (jj_sequence j) 1 = Some (jj_sequence j + 1)" "unat (jj_sequence j + 1) = unat (jj_sequence j) + 1"
    using assms by (simp_all add: checked_add_def unat_word_ariths)
  moreover from this(2) have "jj_sequence j + 1 \<noteq> 0" by (metis add_eq_0_iff_both_eq_0 unat_eq_zero zero_neq_one)
  ultimately show thesis using that by blast
qed

lemma no_publication:
  assumes "journal_inv j" "jj_state j \<noteq> ReviewReady"
  shows "jj_publication_boot_id j = None" "jj_publication_generation j = None"
  using assms by (auto simp: journal_inv_def journal_shape_def journal_validate_Ok_iff journal_validate_publication_def
      split: option.splits)

lemma settle_queued:
  assumes "journal_inv j" "jj_state j = Queued" "unat (jj_sequence j) + 1 < 2 ^ 64"
  shows "\<exists>j'. journal_step j j' \<and> terminal (jj_state j')"
proof -
  obtain n where n: "checked_add (jj_sequence j) 1 = Some n" "n \<noteq> 0" by (rule next_sequence_room [OF assms(3)])
  have flags: "jj_process j = None" "jj_worker_run_id j = None" "\<not> jj_runtime_mutated j" "\<not> jj_recovery_required j"
    "jj_terminal_kind j = None" "jj_runtime_owner_process j = None"
    using assms(1,2) by (auto simp: journal_inv_def journal_shape_def journal_validate_Ok_iff journal_validate_terminal_def
        journal_validate_owner_def terminal_def and_then_Inr_iff split: option.splits)
  note valid = assms(1) [unfolded journal_inv_def, THEN conjunct1]
  let ?j = "j\<lparr>jj_sequence := n, jj_state := Failed, jj_diagnostic_code := Some ''cancelled'', jj_heavy_lease_acquired := False\<rparr>"
  have code: "journal_identifier ''diagnostic_code'' ''cancelled'' ''_-'' = Ok ()" by code_simp
  have "fail_before_runtime_mutation ''cancelled'' j = (?j, Ok ())"
    using valid flags n code assms(2) no_publication [OF assms(1)]
    by (auto simp: fail_before_runtime_mutation_def allowed_targets_def journal_validate_Ok_iff journal_validate_owner_def
        journal_validate_terminal_def journal_validate_publication_def and_then_Inr_iff split: option.splits)
  then have "journal_step j ?j"
    unfolding journal_step_simps by (intro exI [of _ "FailBefore ''cancelled''"]) simp
  then show ?thesis by (intro exI [of _ ?j]) (simp add: terminal_def)
qed

lemma settle_unmutated_succeeds:
  assumes "journal_inv j" "jj_state j \<in> {Starting, Running, Cancelling}" "\<not> jj_runtime_mutated j" "unat (jj_sequence j) + 1 < 2 ^ 64"
    "\<And>c. code = Some c \<Longrightarrow> journal_identifier ''diagnostic_code'' c ''_-'' = Ok ()"
  shows "\<exists>j'. settle_native_terminal ''failed'' code j = (j', Ok ()) \<and> jj_state j' = Failed"
proof -
  obtain n where n: "checked_add (jj_sequence j) 1 = Some n" "n \<noteq> 0" by (rule next_sequence_room [OF assms(4)])
  have flags: "jj_worker_run_id j \<noteq> None" "\<not> jj_recovery_required j"
    using assms by (auto simp: journal_inv_def journal_shape_def)
  note valid = assms(1) [unfolded journal_inv_def, THEN conjunct1]
  let ?j = "j\<lparr>jj_sequence := n, jj_state := Failed, jj_process := None, jj_runtime_owner_process := None,
     jj_terminal_kind := Some ''error'', jj_terminal_state := Some ''failed'', jj_heavy_lease_acquired := False,
     jj_diagnostic_code := code\<rparr>"
  have "journal_identifier ''terminal_state'' ''failed'' ''_-'' = Ok ()" by code_simp
  then have "journal_validate_terminal ?j = Ok ()"
    using valid assms(5)
    by (cases code) (auto simp: journal_validate_Ok_iff journal_validate_terminal_def terminal_def and_then_Inr_iff)
  moreover have "journal_validate_owner ?j = Ok ()" by (simp add: journal_validate_owner_def)
  moreover have "journal_validate_publication ?j = Ok ()"
    using no_publication [OF assms(1)] assms(2) by (auto simp: journal_validate_publication_def)
  ultimately have "journal_validate ?j = Ok ()"
    using valid n assms(3) flags(2) by (simp add: journal_validate_Ok_iff)
  moreover have "Failed \<in> set (allowed_targets (jj_state j))"
    using assms(2) by (auto simp: allowed_targets_def)
  ultimately have "settle_native_terminal ''failed'' code j = (?j, Ok ())"
    using flags n assms(3)
    by (simp add: settle_native_terminal_def native_outcome_def validate_transition_Ok_iff)
  then show ?thesis by simp
qed

lemma settle_unmutated:
  assumes "journal_inv j" "jj_state j \<in> {Starting, Running, Cancelling}" "\<not> jj_runtime_mutated j" "unat (jj_sequence j) + 1 < 2 ^ 64"
  shows "\<exists>j'. journal_step j j' \<and> terminal (jj_state j')"
proof -
  obtain j' where j': "settle_native_terminal ''failed'' None j = (j', Ok ())" "jj_state j' = Failed"
    using settle_unmutated_succeeds [OF assms, of None] by auto
  then have "journal_step j j'"
    unfolding journal_step_simps by (intro exI [of _ "SettleTerminal ''failed'' None"]) simp
  then show ?thesis using j'(2) by (auto simp: terminal_def)
qed

lemma settle_restored:
  assumes "journal_inv j" "jj_state j = Recovering" "jj_runtime_owner_process j = None" "unat (jj_sequence j) + 1 < 2 ^ 64"
  shows "\<exists>j'. journal_step j j' \<and> terminal (jj_state j')"
proof -
  obtain n where n: "checked_add (jj_sequence j) 1 = Some n" "n \<noteq> 0" by (rule next_sequence_room [OF assms(4)])
  have flags: "jj_worker_run_id j \<noteq> None" "jj_recovery_required j" "jj_runtime_mutated j" "jj_process j = None"
    using assms by (auto simp: journal_inv_def journal_shape_def)
  note valid = assms(1) [unfolded journal_inv_def, THEN conjunct1]
  let ?t = "j\<lparr>jj_sequence := n, jj_state := Failed\<rparr>"
  let ?j = "?t\<lparr>jj_terminal_kind := Some ''error'', jj_terminal_state := Some ''failed'', jj_publication_boot_id := None,
     jj_publication_generation := None, jj_runtime_mutated := False, jj_recovery_required := False,
     jj_heavy_lease_acquired := False, jj_diagnostic_code := None\<rparr>"
  have code: "journal_identifier ''terminal_state'' ''failed'' ''_-'' = Ok ()" by code_simp
  have "journal_validate_terminal ?t = Ok ()" "journal_validate_terminal ?j = Ok ()"
    using valid code by (auto simp: journal_validate_Ok_iff journal_validate_terminal_def terminal_def and_then_Inr_iff)
  moreover have "journal_validate_publication ?t = Ok ()" "journal_validate_publication ?j = Ok ()"
    using no_publication [OF assms(1)] assms(2) by (auto simp: journal_validate_publication_def)
  ultimately have "journal_validate ?t = Ok ()" "journal_validate ?j = Ok ()"
    using valid n assms(3) flags by (simp_all add: journal_validate_Ok_iff journal_validate_owner_def)
  then have "settle_native_runtime_terminal ''failed'' None j = (?j, Ok ())"
    using flags n assms(2)
    by (simp add: settle_native_runtime_terminal_def runtime_outcome_def not_restored_def allowed_targets_def)
  then have "journal_step j ?j"
    unfolding journal_step_simps by (intro exI [of _ "SettleRuntime ''failed'' None"]) simp
  then show ?thesis by (intro exI [of _ ?j]) (simp add: terminal_def)
qed

lemma clear_owner_possible:
  assumes "journal_inv j" "jj_state j = Recovering" "jj_runtime_owner_process j \<noteq> None" "unat (jj_sequence j) + 1 < 2 ^ 64"
  shows "\<exists>j'. journal_step j j' \<and> jj_state j' = Recovering \<and> jj_runtime_owner_process j' = None"
proof -
  obtain n where n: "checked_add (jj_sequence j) 1 = Some n" "n \<noteq> 0" by (rule next_sequence_room [OF assms(4)])
  let ?j = "j\<lparr>jj_sequence := n, jj_runtime_owner_process := None\<rparr>"
  have "journal_validate j = Ok ()" using assms(1) by (simp add: journal_inv_def)
  moreover have "journal_validate_terminal ?j = journal_validate_terminal j" by (simp add: journal_validate_terminal_def)
  moreover have "journal_validate_publication ?j = Ok ()"
    using no_publication [OF assms(1)] assms(2) by (auto simp: journal_validate_publication_def)
  ultimately have "journal_validate ?j = Ok ()"
    using n by (simp add: journal_validate_Ok_iff journal_validate_owner_def)
  then have "clear_bootstrap_runtime_owner j = (?j, Ok ())"
    using n assms(2,3) by (simp add: clear_bootstrap_runtime_owner_def terminal_def)
  then have "journal_step j ?j" unfolding journal_step_simps by (intro exI [of _ ClearOwner]) simp
  then show ?thesis using assms(2) by (intro exI [of _ ?j]) simp
qed

lemma require_recovery_succeeds:
  assumes "journal_inv j" "jj_state j \<in> {Running, Cancelling}" "unat (jj_sequence j) + 1 < 2 ^ 64"
    "journal_identifier ''diagnostic_code'' code ''_-'' = Ok ()"
  shows "\<exists>j'. require_recovery code j = (j', Ok ()) \<and> jj_state j' = Recovering"
proof -
  obtain n where n: "checked_add (jj_sequence j) 1 = Some n" "n \<noteq> 0" by (rule next_sequence_room [OF assms(3)])
  note valid = assms(1) [unfolded journal_inv_def, THEN conjunct1]
  let ?t = "j\<lparr>jj_sequence := n, jj_state := Recovering\<rparr>"
  let ?j = "?t\<lparr>jj_process := None, jj_runtime_mutated := True, jj_recovery_required := True,
     jj_diagnostic_code := Some code\<rparr>"
  have live: "\<not> terminal (jj_state j)" using assms(2) by (auto simp: terminal_def)
  have "journal_validate_owner ?t = Ok ()" "journal_validate_owner ?j = Ok ()"
    using valid by (auto simp: journal_validate_Ok_iff journal_validate_owner_def terminal_def and_then_Inr_iff split: option.splits)
  moreover have "journal_validate_terminal ?t = Ok ()" "journal_validate_terminal ?j = Ok ()"
    using valid assms(4) live by (auto simp: journal_validate_Ok_iff journal_validate_terminal_def terminal_def and_then_Inr_iff)
  moreover have "journal_validate_publication ?t = Ok ()" "journal_validate_publication ?j = Ok ()"
    using no_publication [OF assms(1)] assms(2) by (auto simp: journal_validate_publication_def)
  ultimately have "journal_validate ?t = Ok ()" "journal_validate ?j = Ok ()"
    using valid n by (simp_all add: journal_validate_Ok_iff)
  moreover have "Recovering \<in> set (allowed_targets (jj_state j))" "jj_state j \<noteq> Recovering"
    using assms(2) by (auto simp: allowed_targets_def)
  ultimately have "require_recovery code j = (?j, Ok ())" using n by (simp add: require_recovery_def)
  then show ?thesis by simp
qed

lemma recovery_possible:
  assumes "journal_inv j" "jj_state j \<in> {Running, Cancelling}" "unat (jj_sequence j) + 1 < 2 ^ 64"
  shows "\<exists>j'. journal_step j j' \<and> jj_state j' = Recovering"
proof -
  have "journal_identifier ''diagnostic_code'' ''recover'' ''_-'' = Ok ()" by code_simp
  then obtain j' where j': "require_recovery ''recover'' j = (j', Ok ())" "jj_state j' = Recovering"
    using require_recovery_succeeds [OF assms] by blast
  then have "journal_step j j'" unfolding journal_step_simps by (intro exI [of _ "RequireRecovery ''recover''"]) simp
  then show ?thesis using j'(2) by blast
qed

lemma settle_recovering:
  assumes "journal_inv j" "jj_state j = Recovering" "unat (jj_sequence j) + 2 < 2 ^ 64"
  shows "\<exists>j'. journal_step\<^sup>*\<^sup>* j j' \<and> terminal (jj_state j')"
proof (cases "jj_runtime_owner_process j")
  case None
  then show ?thesis using settle_restored [OF assms(1,2) None] assms(3) by (auto intro: r_into_rtranclp)
next
  case (Some p)
  then obtain i where i: "journal_step j i" "jj_state i = Recovering" "jj_runtime_owner_process i = None"
    using clear_owner_possible [OF assms(1,2)] assms(3) by auto
  have "journal_inv i" using journal_machine.step_inv [OF assms(1) i(1)] .
  moreover have "unat (jj_sequence i) + 1 < 2 ^ 64" using journal_step_frame(8) [OF i(1)] assms(3) by simp
  ultimately obtain j' where "journal_step i j'" "terminal (jj_state j')"
    using settle_restored [OF _ i(2,3)] by blast
  then show ?thesis using i(1) by (meson converse_rtranclp_into_rtranclp r_into_rtranclp)
qed

lemma journal_terminal_stays:
  assumes "journal_step k l" "terminal (jj_state k)"
  shows "jj_state l = jj_state k"
proof -
  obtain e where e: "journal_apply e k = (l, Ok ())" using assms(1) by (auto simp: journal_step_simps)
  have "allowed_targets (jj_state k) = []" "jj_state k \<notin> {Queued, Starting, Running, Recovering}"
    using assms(2) by (auto simp: terminal_def allowed_targets_def)
  then show ?thesis
    using e assms(2)
    by (cases e) (auto simp: journal_ops validate_transition_Ok_iff split: option.splits sum.splits)
qed

text \<open>A concrete job up to the armed mutation.\<close>

definition sample_coordinator :: coordinator_identity where
  "sample_coordinator = \<lparr>ci_boot_id = sample_hex 32, ci_generation = sample_hex 32,
     ci_process = \<lparr>pi_pid = 7, pi_process_group = 7, pi_starttime_ticks = 100\<rparr>\<rparr>"

definition sample_worker :: process_identity where
  "sample_worker = \<lparr>pi_pid = 21, pi_process_group = 21, pi_starttime_ticks = 4000\<rparr>"

definition sample_queued :: job_journal where
  "sample_queued =
     \<lparr>jj_job_id = sample_hex 32, jj_boot_id = sample_hex 32, jj_coordinator_generation = sample_hex 32, jj_state = Queued,
      jj_sequence = 1, jj_heavy_traffic = True, jj_heavy_lease_acquired = False, jj_instance = ''wan'',
      jj_target_interface = ''pppoe-wan'', jj_sqm_fingerprint = sample_hex 64, jj_process = None,
      jj_runtime_owner_process = None, jj_worker_run_id = None, jj_terminal_kind = None, jj_terminal_state = None,
      jj_publication_boot_id = None, jj_publication_generation = None, jj_diagnostic_code = None,
      jj_reconcile_attempts = 0, jj_runtime_mutated = False, jj_recovery_required = False,
      jj_history_decision_required = False\<rparr>"

definition sample_mutated :: job_journal where
  "sample_mutated = sample_queued\<lparr>jj_state := Running, jj_sequence := 5, jj_heavy_lease_acquired := True,
     jj_process := Some sample_worker, jj_worker_run_id := Some (sample_hex 32), jj_runtime_mutated := True,
     jj_recovery_required := True\<rparr>"

fun journal_run :: "journal_event list \<Rightarrow> job_journal \<Rightarrow> job_journal option" where
  "journal_run [] j = Some j"
| "journal_run (e # es) j =
     (case journal_apply e j of (j', Inr _) \<Rightarrow> journal_run es j' | (_, Inl _) \<Rightarrow> None)"

lemma journal_run_steps: "journal_run es j = Some j' \<Longrightarrow> journal_step\<^sup>*\<^sup>* j j'"
proof (induction es j rule: journal_run.induct)
  case (2 e es j)
  then obtain i where "journal_apply e j = (i, Ok ())" "journal_run es i = Some j'"
    by (auto split: prod.splits sum.splits)
  with 2 show ?case by (auto intro: converse_rtranclp_into_rtranclp journal_step.intros)
qed simp

lemma sample_queued_created: "journal_queued sample_request sample_coordinator True = Ok sample_queued"
proof -
  have "journal_queued sample_request sample_coordinator True = and_then (journal_validate sample_queued) (\<lambda>_. Ok sample_queued)"
    unfolding journal_queued_def sample_request_valid
    by (simp add: sample_queued_def sample_request_def sample_coordinator_def Let_def)
  moreover have "journal_validate sample_queued = Ok ()"
    by (simp add: sample_queued_def journal_validate_def journal_lower_hex_def journal_identifier_def sample_hex_def
        journal_validate_owner_def journal_validate_terminal_def journal_validate_publication_def list_all_iff
        is_lower_hex_digit_def is_ascii_alphanumeric_def is_ascii_lowercase_def is_ascii_digit_def byte_def)
  ultimately show ?thesis by simp
qed

lemma sample_mutated_reachable: "reachable_from journal_start journal_step sample_mutated"
proof -
  have "journal_start sample_queued" unfolding journal_start_def using sample_queued_created by blast
  moreover have "journal_run [MarkHeavy, ArmWorker (sample_hex 32), AttachWorker sample_worker (sample_hex 32), ArmMutation]
     sample_queued = Some sample_mutated"
    by code_simp
  then have "journal_step\<^sup>*\<^sup>* sample_queued sample_mutated" by (rule journal_run_steps)
  ultimately show ?thesis unfolding reachable_from_def by blast
qed

section \<open>Properties\<close>

text \<open>C23: a journal never loses a mutated runtime. In every journal that the coordinator can write, a runtime
  mutation and the duty to recover it are recorded together; they name the worker run, and outside
  recovery also the attached process and the heavy-traffic lease under which they were armed. A
  terminal journal owns nothing: no process, no runtime owner, no lease, no mutation. Exactly the
  journals in Review carry the identity under which their result was published.\<close>

theorem journal_never_abandons_runtime:
  assumes "reachable_from journal_start journal_step j"
  shows "journal_validate j = Ok () \<and> (jj_runtime_mutated j \<longleftrightarrow> jj_recovery_required j)
    \<and> (jj_runtime_mutated j \<longrightarrow> \<not> terminal (jj_state j) \<and> jj_worker_run_id j \<noteq> None
        \<and> (jj_state j \<noteq> Recovering \<longrightarrow> jj_process j \<noteq> None \<and> jj_heavy_lease_acquired j))
    \<and> (terminal (jj_state j) \<longrightarrow> jj_process j = None \<and> jj_runtime_owner_process j = None \<and> \<not> jj_heavy_lease_acquired j
        \<and> \<not> jj_runtime_mutated j \<and> \<not> jj_recovery_required j)
    \<and> (jj_state j = ReviewReady \<longleftrightarrow> is_ok (publication_identity j))"
proof -
  have inv: "journal_validate j = Ok ()" "journal_shape j"
    using journal_machine.reachable_inv [OF assms] by (simp_all add: journal_inv_def)
  have owner: "terminal (jj_state j) \<Longrightarrow> jj_runtime_owner_process j = None"
    using inv(1) by (auto simp: journal_validate_Ok_iff journal_validate_owner_def and_then_Inr_iff split: option.splits)
  have "jj_publication_boot_id j \<noteq> None \<longleftrightarrow> is_ok (publication_identity j)"
    using inv(1) by (auto simp: journal_validate_Ok_iff journal_validate_publication_def publication_identity_def
        split: option.splits)
  with inv owner show ?thesis
    by (cases "jj_state j") (auto simp: journal_shape_def terminal_def)
qed

theorem journal_never_abandons_runtime_witness:
  "jj_runtime_mutated sample_mutated \<and> jj_process sample_mutated \<noteq> None \<and> jj_heavy_lease_acquired sample_mutated"
proof -
  have "jj_runtime_mutated sample_mutated" "jj_state sample_mutated \<noteq> Recovering" by (simp_all add: sample_mutated_def)
  then show ?thesis using journal_never_abandons_runtime [OF sample_mutated_reachable] by blast
qed

text \<open>C24: every job can be settled, and stays settled. From every journal that the coordinator can write, as
  long as the sequence number has room for three changes, some sequence of journal operations reaches
  a terminal state; and from a terminal state no operation leaves it.\<close>

theorem journal_always_settles:
  assumes "reachable_from journal_start journal_step j"
  shows "(unat (jj_sequence j) + 3 < 2 ^ 64 \<longrightarrow> (\<exists>j'. journal_step\<^sup>*\<^sup>* j j' \<and> terminal (jj_state j')))
    \<and> (\<forall>j'. terminal (jj_state j) \<and> journal_step\<^sup>*\<^sup>* j j' \<longrightarrow> jj_state j' = jj_state j)"
proof -
  have inv: "journal_inv j" by (rule journal_machine.reachable_inv [OF assms])
  have "\<exists>j'. journal_step\<^sup>*\<^sup>* j j' \<and> terminal (jj_state j')" if room: "unat (jj_sequence j) + 3 < 2 ^ 64"
  proof -
    consider "terminal (jj_state j)" | "jj_state j = Queued" | "jj_state j \<in> {Starting, Running, Cancelling}" "\<not> jj_runtime_mutated j"
      | "jj_state j \<in> {Running, Cancelling}" "jj_runtime_mutated j" | "jj_state j = Recovering"
      using inv by (cases "jj_state j") (auto simp: terminal_def journal_inv_def journal_shape_def)
    then show ?thesis
    proof cases
      case 4
      then obtain i where i: "journal_step j i" "jj_state i = Recovering" using recovery_possible [OF inv] room by auto
      have "journal_inv i" "unat (jj_sequence i) + 2 < 2 ^ 64"
        using journal_machine.step_inv [OF inv i(1)] journal_step_frame(8) [OF i(1)] room by simp_all
      then show ?thesis using settle_recovering [OF _ i(2)] i(1) by (meson converse_rtranclp_into_rtranclp)
    qed (use settle_queued [OF inv] settle_unmutated [OF inv] settle_recovering [OF inv] room in auto)
  qed
  moreover have "jj_state j' = jj_state j" if "terminal (jj_state j)" "journal_step\<^sup>*\<^sup>* j j'" for j'
    using that(2,1)
  proof (induction rule: rtranclp_induct)
    case (step k l)
    then show ?case by (auto simp: journal_terminal_stays)
  qed simp
  ultimately show ?thesis by blast
qed

theorem journal_always_settles_witness:
  "\<exists>j'. journal_step\<^sup>*\<^sup>* sample_mutated j' \<and> terminal (jj_state j')"
proof -
  have "unat (jj_sequence sample_mutated) + 3 < 2 ^ 64" by (simp add: sample_mutated_def)
  then show ?thesis using journal_always_settles [OF sample_mutated_reachable] by blast
qed

end
