(* ===== verification/Journal_Codec.thy ===== *)
theory Journal_Codec
  imports Job_Journal Codec
begin

text \<open>
  The text of a job journal (\<open>operations/journal.rs\<close>): one line per field under a header that names the
  schema. Schema 2 is the plain journal, 3 adds a runtime owner, 4 the published identity, and 5 is a
  prefix before one of them. The decoder accepts only what the encoder writes.
\<close>

section \<open>Definitions\<close>

definition schema_header :: "string \<Rightarrow> string" where
  "schema_header digit = ''cake-autorate-calibration'' @ [TAB] @ digit @ [TAB] @ ''journal''"

definition JOURNAL_HEADER :: string where "JOURNAL_HEADER = schema_header ''2''"
definition RUNTIME_OWNER_JOURNAL_HEADER :: string where "RUNTIME_OWNER_JOURNAL_HEADER = schema_header ''3''"
definition PUBLICATION_JOURNAL_HEADER :: string where "PUBLICATION_JOURNAL_HEADER = schema_header ''4''"

definition HISTORY_JOURNAL_PREFIX :: string where
  "HISTORY_JOURNAL_PREFIX = schema_header ''5'' @ [LF] @ ''history_decision_required=1'' @ [LF]"

definition journal_bool_text :: "bool \<Rightarrow> string" where
  "journal_bool_text v = (if v then ''1'' else ''0'')"

definition journal_parse_bool :: "string \<Rightarrow> bool result" where
  "journal_parse_bool v =
     (if v = ''0'' then Ok False else if v = ''1'' then Ok True else Err ''journal boolean is not canonical'')"

definition journal_optional_field :: "string \<Rightarrow> string option" where
  "journal_optional_field v = (if v = [] then None else Some v)"

definition journal_parse_uint :: "string \<Rightarrow> string \<Rightarrow> 'l::len word result" where
  "journal_parse_uint name v =
     ok_or (from_str_radix 10 v) (''journal field '' @ name @ '' is not an unsigned integer'')"

definition journal_field :: "string list \<Rightarrow> string \<Rightarrow> (string \<times> string list) result" where
  "journal_field ls expected =
     (case ls of
        [] \<Rightarrow> Err (''journal is missing field '' @ expected)
      | line # rest \<Rightarrow>
          (case split_once CHR ''='' line of
             None \<Rightarrow> Err (''journal field '' @ expected @ '' is malformed'')
           | Some (name, v) \<Rightarrow>
               if name \<noteq> expected \<or> (\<exists>c\<in>set v. c \<in> {CR, LF, CHR ''=''})
               then Err (''journal expected field '' @ expected)
               else Ok (v, rest)))"

definition text_of :: "string option \<Rightarrow> string" where
  "text_of v = (case v of None \<Rightarrow> [] | Some s \<Rightarrow> s)"

definition process_texts :: "process_identity option \<Rightarrow> string \<times> string \<times> string" where
  "process_texts p =
     (case p of
        None \<Rightarrow> ([], [], [])
      | Some p \<Rightarrow> (word_string (pi_pid p), word_string (pi_process_group p), word_string (pi_starttime_ticks p)))"

definition journal_fields :: "job_journal \<Rightarrow> (string \<times> string) list" where
  "journal_fields j =
     (let (pid, process_group, starttime) = process_texts (jj_process j)
      in [(''job_id'', jj_job_id j), (''boot_id'', jj_boot_id j),
          (''coordinator_generation'', jj_coordinator_generation j),
          (''state'', operation_state_as_str (jj_state j)), (''sequence'', word_string (jj_sequence j)),
          (''heavy_traffic'', journal_bool_text (jj_heavy_traffic j)),
          (''heavy_lease_acquired'', journal_bool_text (jj_heavy_lease_acquired j)),
          (''instance'', jj_instance j), (''target_interface'', jj_target_interface j),
          (''sqm_fingerprint'', jj_sqm_fingerprint j), (''process_pid'', pid), (''process_group'', process_group),
          (''process_starttime'', starttime), (''worker_run_id'', text_of (jj_worker_run_id j)),
          (''terminal_kind'', text_of (jj_terminal_kind j)), (''terminal_state'', text_of (jj_terminal_state j)),
          (''diagnostic_code'', text_of (jj_diagnostic_code j)),
          (''reconcile_attempts'', word_string (jj_reconcile_attempts j)),
          (''runtime_mutated'', journal_bool_text (jj_runtime_mutated j)),
          (''recovery_required'', journal_bool_text (jj_recovery_required j))])"

definition schema_fields :: "nat \<Rightarrow> job_journal \<Rightarrow> (string \<times> string) list" where
  "schema_fields schema j =
     (if schema = 3 then
        (case jj_runtime_owner_process j of
           None \<Rightarrow> []
         | Some owner \<Rightarrow>
             [(''runtime_owner_pid'', word_string (pi_pid owner)),
              (''runtime_owner_group'', word_string (pi_process_group owner)),
              (''runtime_owner_starttime'', word_string (pi_starttime_ticks owner))])
      else if schema = 4 then
        [(''publication_boot_id'', text_of (jj_publication_boot_id j)),
         (''publication_generation'', text_of (jj_publication_generation j))]
      else [])"

definition journal_line :: "string \<times> string \<Rightarrow> string" where
  "journal_line f = fst f @ ''='' @ snd f @ [LF]"

definition journal_encode_for_schema :: "job_journal \<Rightarrow> nat \<Rightarrow> string result" where
  "journal_encode_for_schema j schema =
     and_then (journal_validate j) (\<lambda>_.
     and_then (reject (jj_history_decision_required j) ''history-required journal cannot use a legacy schema'') (\<lambda>_.
     and_then (reject (\<not> (2 \<le> schema \<and> schema \<le> 4)) ''unsupported journal encoding schema'') (\<lambda>_.
     and_then (reject (schema = 2 \<and> jj_runtime_owner_process j \<noteq> None)
       ''journal schema 2 cannot encode a runtime owner'') (\<lambda>_.
     and_then (reject (schema = 3 \<and> jj_runtime_owner_process j = None)
       ''journal schema 3 requires a runtime owner'') (\<lambda>_.
     and_then (reject (schema = 4 \<and> (jj_runtime_owner_process j \<noteq> None \<or> jj_publication_boot_id j = None
                                    \<or> jj_publication_generation j = None))
       ''journal schema 4 requires an inert native publication identity'') (\<lambda>_.
     and_then (reject (schema \<noteq> 4 \<and> (jj_publication_boot_id j \<noteq> None \<or> jj_publication_generation j \<noteq> None))
       ''journal schema 2/3 cannot encode native publication identity'') (\<lambda>_.
     let header = (if schema = 2 then JOURNAL_HEADER else if schema = 3 then RUNTIME_OWNER_JOURNAL_HEADER
                   else PUBLICATION_JOURNAL_HEADER);
         output = header @ [LF] @ concat (map journal_line (journal_fields j @ schema_fields schema j))
     in and_then (reject (length output > MAX_OPERATION_RECORD_BYTES) ''journal record exceeds its size bound'') (\<lambda>_.
        Ok output))))))))"

text \<open>The encoder calls itself once, for the journal without the history mark.\<close>

definition journal_encode_legacy :: "job_journal \<Rightarrow> string result" where
  "journal_encode_legacy j =
     journal_encode_for_schema j
       (if jj_publication_boot_id j \<noteq> None then 4 else if jj_runtime_owner_process j \<noteq> None then 3 else 2)"

definition journal_encode :: "job_journal \<Rightarrow> string result" where
  "journal_encode j =
     (if jj_history_decision_required j then
        and_then (journal_encode_legacy (j\<lparr>jj_history_decision_required := False\<rparr>)) (\<lambda>inner.
        let encoded = HISTORY_JOURNAL_PREFIX @ inner
        in and_then (reject (length encoded > MAX_OPERATION_RECORD_BYTES) ''journal record exceeds its size bound'') (\<lambda>_.
           Ok encoded))
      else journal_encode_legacy j)"

definition read_schema :: "string \<Rightarrow> nat result" where
  "read_schema header =
     (if header = JOURNAL_HEADER then Ok 2 else if header = RUNTIME_OWNER_JOURNAL_HEADER then Ok 3
      else if header = PUBLICATION_JOURNAL_HEADER then Ok 4 else Err ''unsupported journal record header'')"

definition read_owner :: "nat \<Rightarrow> string list \<Rightarrow> (process_identity option \<times> string list) result" where
  "read_owner schema ls =
     (if schema = 3 then
        and_then (journal_field ls ''runtime_owner_pid'') (\<lambda>(pid, ls).
        and_then (journal_field ls ''runtime_owner_group'') (\<lambda>(process_group, ls).
        and_then (journal_field ls ''runtime_owner_starttime'') (\<lambda>(starttime, ls).
        and_then (journal_parse_uint ''runtime_owner_pid'' pid) (\<lambda>pid.
        and_then (journal_parse_uint ''runtime_owner_group'' process_group) (\<lambda>process_group.
        and_then (journal_parse_uint ''runtime_owner_starttime'' starttime) (\<lambda>starttime.
        Ok (Some \<lparr>pi_pid = pid, pi_process_group = process_group, pi_starttime_ticks = starttime\<rparr>, ls)))))))
      else Ok (None, ls))"

definition read_publication :: "nat \<Rightarrow> string list \<Rightarrow> (string option \<times> string option \<times> string list) result" where
  "read_publication schema ls =
     (if schema = 4 then
        and_then (journal_field ls ''publication_boot_id'') (\<lambda>(boot_id, ls).
        and_then (journal_field ls ''publication_generation'') (\<lambda>(generation, ls).
        Ok (Some boot_id, Some generation, ls)))
      else Ok (None, None, ls))"

definition read_process :: "string \<Rightarrow> string \<Rightarrow> string \<Rightarrow> process_identity option result" where
  "read_process pid process_group starttime =
     (if pid = [] \<and> process_group = [] \<and> starttime = [] then Ok None
      else if pid \<noteq> [] \<and> process_group \<noteq> [] \<and> starttime \<noteq> [] then
        and_then (journal_parse_uint ''process_pid'' pid) (\<lambda>pid.
        and_then (journal_parse_uint ''process_group'' process_group) (\<lambda>process_group.
        and_then (journal_parse_uint ''process_starttime'' starttime) (\<lambda>starttime.
        Ok (Some \<lparr>pi_pid = pid, pi_process_group = process_group, pi_starttime_ticks = starttime\<rparr>))))
      else Err ''journal process identity is partial'')"

definition read_journal :: "nat \<Rightarrow> string list \<Rightarrow> job_journal result" where
  "read_journal schema ls =
     and_then (journal_field ls ''job_id'') (\<lambda>(job_id, ls).
     and_then (journal_field ls ''boot_id'') (\<lambda>(boot_id, ls).
     and_then (journal_field ls ''coordinator_generation'') (\<lambda>(generation, ls).
     and_then (journal_field ls ''state'') (\<lambda>(state, ls).
     and_then (ok_or (operation_state_parse state) ''unsupported journal state'') (\<lambda>state.
     and_then (journal_field ls ''sequence'') (\<lambda>(sequence, ls).
     and_then (journal_parse_uint ''sequence'' sequence) (\<lambda>sequence.
     and_then (journal_field ls ''heavy_traffic'') (\<lambda>(heavy_traffic, ls).
     and_then (journal_parse_bool heavy_traffic) (\<lambda>heavy_traffic.
     and_then (journal_field ls ''heavy_lease_acquired'') (\<lambda>(heavy_lease, ls).
     and_then (journal_parse_bool heavy_lease) (\<lambda>heavy_lease.
     and_then (journal_field ls ''instance'') (\<lambda>(inst, ls).
     and_then (journal_field ls ''target_interface'') (\<lambda>(target, ls).
     and_then (journal_field ls ''sqm_fingerprint'') (\<lambda>(sqm, ls).
     and_then (journal_field ls ''process_pid'') (\<lambda>(pid, ls).
     and_then (journal_field ls ''process_group'') (\<lambda>(process_group, ls).
     and_then (journal_field ls ''process_starttime'') (\<lambda>(starttime, ls).
     and_then (journal_field ls ''worker_run_id'') (\<lambda>(run_id, ls).
     and_then (journal_field ls ''terminal_kind'') (\<lambda>(kind, ls).
     and_then (journal_field ls ''terminal_state'') (\<lambda>(terminal_state, ls).
     and_then (journal_field ls ''diagnostic_code'') (\<lambda>(code, ls).
     and_then (journal_field ls ''reconcile_attempts'') (\<lambda>(attempts, ls).
     and_then (journal_parse_uint ''reconcile_attempts'' attempts) (\<lambda>attempts.
     and_then (journal_field ls ''runtime_mutated'') (\<lambda>(mutated, ls).
     and_then (journal_parse_bool mutated) (\<lambda>mutated.
     and_then (journal_field ls ''recovery_required'') (\<lambda>(recovery, ls).
     and_then (journal_parse_bool recovery) (\<lambda>recovery.
     and_then (read_owner schema ls) (\<lambda>(owner, ls).
     and_then (read_publication schema ls) (\<lambda>(pub_boot, pub_generation, ls).
     and_then (reject (ls \<noteq> []) ''journal record contains unknown fields'') (\<lambda>_.
     and_then (read_process pid process_group starttime) (\<lambda>process.
     Ok \<lparr>jj_job_id = job_id, jj_boot_id = boot_id, jj_coordinator_generation = generation, jj_state = state,
        jj_sequence = sequence, jj_heavy_traffic = heavy_traffic, jj_heavy_lease_acquired = heavy_lease,
        jj_instance = inst, jj_target_interface = target, jj_sqm_fingerprint = sqm, jj_process = process,
        jj_runtime_owner_process = owner, jj_worker_run_id = journal_optional_field run_id,
        jj_terminal_kind = journal_optional_field kind, jj_terminal_state = journal_optional_field terminal_state,
        jj_publication_boot_id = pub_boot, jj_publication_generation = pub_generation,
        jj_diagnostic_code = journal_optional_field code, jj_reconcile_attempts = attempts,
        jj_runtime_mutated = mutated, jj_recovery_required = recovery, jj_history_decision_required = False\<rparr>)))))))))))))))))))))))))))))))"

definition bounded_record :: "string \<Rightarrow> unit result" where
  "bounded_record input =
     reject (length input > MAX_OPERATION_RECORD_BYTES \<or> \<not> ends_with_char input LF)
       ''journal record is not bounded and newline-terminated''"

definition journal_decode_legacy :: "string \<Rightarrow> job_journal result" where
  "journal_decode_legacy input =
     and_then (bounded_record input) (\<lambda>_.
     case lines input of
       [] \<Rightarrow> Err ''journal record header is missing''
     | header # ls \<Rightarrow>
         and_then (read_schema header) (\<lambda>schema.
         and_then (read_journal schema ls) (\<lambda>journal.
         and_then (journal_validate journal) (\<lambda>_.
         and_then (journal_encode_for_schema journal schema) (\<lambda>encoded.
         and_then (reject (encoded \<noteq> input) ''journal record is not canonically encoded'') (\<lambda>_.
         Ok journal))))))"

text \<open>The decoder calls itself once, for the record after the history prefix: a nested prefix is refused.\<close>

definition journal_decode :: "string \<Rightarrow> job_journal result" where
  "journal_decode input =
     and_then (bounded_record input) (\<lambda>_.
     case strip_prefix input HISTORY_JOURNAL_PREFIX of
       Some inner \<Rightarrow>
         and_then (reject (starts_with inner (''cake-autorate-calibration'' @ [TAB] @ ''5'' @ [TAB]))
           ''nested history journal is invalid'') (\<lambda>_.
         and_then (journal_decode_legacy inner) (\<lambda>journal.
         let journal = journal\<lparr>jj_history_decision_required := True\<rparr>
         in and_then (journal_encode journal) (\<lambda>encoded.
            and_then (reject (encoded \<noteq> input) ''history journal is not canonical'') (\<lambda>_. Ok journal))))
     | None \<Rightarrow> journal_decode_legacy input)"

section \<open>Reading back what was written\<close>

definition journal_safe :: "string \<Rightarrow> bool" where
  "journal_safe v \<longleftrightarrow> (\<forall>c\<in>set v. 32 \<le> byte c \<and> byte c < 127 \<and> c \<noteq> CHR ''='')"

lemma journal_safe_chars: "journal_safe v \<Longrightarrow> CR \<notin> set v \<and> LF \<notin> set v \<and> CHR ''='' \<notin> set v"
  by (force simp: journal_safe_def byte_def)

text \<open>A line without its end.\<close>

definition field_text :: "string \<times> string \<Rightarrow> string" where
  "field_text f = fst f @ CHR ''='' # snd f"

lemma journal_field_line [simp]:
  "journal_safe n \<Longrightarrow> journal_safe v \<Longrightarrow> journal_field (field_text (n, v) # ls) n = Ok (v, ls)"
  using journal_safe_chars [of n] journal_safe_chars [of v] by (auto simp: journal_field_def field_text_def)

lemma lines_journal:
  "\<forall>f\<in>set fs. journal_safe (fst f) \<and> journal_safe (snd f) \<Longrightarrow>
   lines (concat (map journal_line fs)) = map field_text fs"
proof (induction fs)
  case (Cons f fs)
  have "lines (field_text f @ LF # concat (map journal_line fs)) = field_text f # lines (concat (map journal_line fs))"
    unfolding field_text_def
    using Cons.prems journal_safe_chars [of "fst f"] journal_safe_chars [of "snd f"] by (intro lines_line) auto
  with Cons show ?case by (simp add: journal_line_def [of f] field_text_def [of f])
qed simp

lemma journal_safe_hex: "journal_lower_hex n v k = Ok () \<Longrightarrow> journal_safe v"
  by (auto simp: journal_lower_hex_def list_all_iff journal_safe_def is_lower_hex_digit_def is_ascii_digit_def byte_def)

lemma journal_safe_identifier:
  "journal_identifier n v p = Ok () \<Longrightarrow> set p \<subseteq> set ''._:@-'' \<Longrightarrow> journal_safe v"
  by (force simp: journal_identifier_def list_all_iff journal_safe_def is_ascii_alphanumeric_def is_ascii_lowercase_def
      is_ascii_uppercase_def is_ascii_digit_def byte_def)

lemma journal_safe_word [simp]: "journal_safe (word_string w)"
  by (auto simp: journal_safe_def is_ascii_digit_def byte_def dest!: word_string_digits)

lemma journal_safe_bool [simp]: "journal_safe (journal_bool_text b)"
  by (simp add: journal_bool_text_def journal_safe_def byte_def)

lemma journal_safe_state [simp]: "journal_safe (operation_state_as_str s)"
  by (cases s) (simp_all add: operation_state_as_str_def journal_safe_def byte_def)

text \<open>The optional texts of a valid journal.\<close>

lemma optional_hex:
  assumes "\<And>v. opt = Some v \<Longrightarrow> journal_lower_hex n v k = Ok ()" "0 < k"
  shows "journal_safe (text_of opt)" "journal_optional_field (text_of opt) = opt" "length (text_of opt) \<le> k"
proof -
  consider "opt = None" | v where "opt = Some v" "journal_safe v" "v \<noteq> []" "length v = k"
    using assms journal_safe_hex by (cases opt) (auto simp: journal_lower_hex_def)
  then show "journal_safe (text_of opt)" "journal_optional_field (text_of opt) = opt" "length (text_of opt) \<le> k"
    by (cases; simp add: text_of_def journal_optional_field_def journal_safe_def)+
qed

lemma optional_identifier:
  assumes "\<And>v. opt = Some v \<Longrightarrow> journal_identifier n v ''_-'' = Ok ()"
  shows "journal_safe (text_of opt)" "journal_optional_field (text_of opt) = opt" "length (text_of opt) \<le> 64"
proof -
  consider "opt = None" | v where "opt = Some v" "journal_safe v" "v \<noteq> []" "length v \<le> 64"
    using assms journal_safe_identifier [of n _ "''_-''"] by (cases opt) (auto simp: journal_identifier_def)
  then show "journal_safe (text_of opt)" "journal_optional_field (text_of opt) = opt" "length (text_of opt) \<le> 64"
    by (cases; simp add: text_of_def journal_optional_field_def journal_safe_def)+
qed

lemma journal_texts:
  assumes "journal_validate j = Ok ()"
  shows "journal_safe (text_of (jj_worker_run_id j))" "journal_safe (text_of (jj_terminal_kind j))"
    "journal_safe (text_of (jj_terminal_state j))" "journal_safe (text_of (jj_diagnostic_code j))"
    "journal_safe (text_of (jj_publication_boot_id j))" "journal_safe (text_of (jj_publication_generation j))"
    "journal_optional_field (text_of (jj_worker_run_id j)) = jj_worker_run_id j"
    "journal_optional_field (text_of (jj_terminal_kind j)) = jj_terminal_kind j"
    "journal_optional_field (text_of (jj_terminal_state j)) = jj_terminal_state j"
    "journal_optional_field (text_of (jj_diagnostic_code j)) = jj_diagnostic_code j"
    "length (text_of (jj_worker_run_id j)) \<le> 32" "length (text_of (jj_terminal_kind j)) \<le> 64"
    "length (text_of (jj_terminal_state j)) \<le> 64" "length (text_of (jj_diagnostic_code j)) \<le> 64"
    "length (text_of (jj_publication_boot_id j)) \<le> 32" "length (text_of (jj_publication_generation j)) \<le> 32"
proof -
  note terminal_part = assms [unfolded journal_validate_Ok_iff journal_validate_terminal_def and_then_Inr_iff]
  have run: "journal_lower_hex ''worker_run_id'' v 32 = Ok ()" if "jj_worker_run_id j = Some v" for v
    using terminal_part that by simp
  have kind: "journal_identifier ''terminal_kind'' v ''_-'' = Ok ()" if "jj_terminal_kind j = Some v" for v
  proof -
    have "v = ''result'' \<or> v = ''error''" using terminal_part that by auto
    moreover have "journal_identifier ''terminal_kind'' ''result'' ''_-'' = Ok ()"
      "journal_identifier ''terminal_kind'' ''error'' ''_-'' = Ok ()"
      by (simp_all add: journal_identifier_def is_ascii_alphanumeric_def is_ascii_lowercase_def byte_def)
    ultimately show ?thesis by auto
  qed
  have state: "journal_identifier ''terminal_state'' v ''_-'' = Ok ()" if "jj_terminal_state j = Some v" for v
    using terminal_part that by simp
  have code: "journal_identifier ''diagnostic_code'' v ''_-'' = Ok ()" if "jj_diagnostic_code j = Some v" for v
    using terminal_part that by simp
  have boot: "journal_lower_hex ''publication_boot_id'' v 32 = Ok ()" if "jj_publication_boot_id j = Some v" for v
    using assms that by (auto simp: journal_validate_Ok_iff journal_validate_publication_def and_then_Inr_iff split: option.splits)
  have generation: "journal_lower_hex ''publication_generation'' v 32 = Ok ()" if "jj_publication_generation j = Some v" for v
    using assms that by (auto simp: journal_validate_Ok_iff journal_validate_publication_def and_then_Inr_iff split: option.splits)
  note facts = optional_hex [OF run] optional_identifier [OF kind] optional_identifier [OF state] optional_identifier [OF code]
    optional_hex [OF boot] optional_hex [OF generation]
  show "journal_safe (text_of (jj_worker_run_id j))" "journal_safe (text_of (jj_terminal_kind j))"
    "journal_safe (text_of (jj_terminal_state j))" "journal_safe (text_of (jj_diagnostic_code j))"
    "journal_safe (text_of (jj_publication_boot_id j))" "journal_safe (text_of (jj_publication_generation j))"
    "journal_optional_field (text_of (jj_worker_run_id j)) = jj_worker_run_id j"
    "journal_optional_field (text_of (jj_terminal_kind j)) = jj_terminal_kind j"
    "journal_optional_field (text_of (jj_terminal_state j)) = jj_terminal_state j"
    "journal_optional_field (text_of (jj_diagnostic_code j)) = jj_diagnostic_code j"
    "length (text_of (jj_worker_run_id j)) \<le> 32" "length (text_of (jj_terminal_kind j)) \<le> 64"
    "length (text_of (jj_terminal_state j)) \<le> 64" "length (text_of (jj_diagnostic_code j)) \<le> 64"
    "length (text_of (jj_publication_boot_id j)) \<le> 32" "length (text_of (jj_publication_generation j)) \<le> 32"
    by (rule facts; simp)+
qed

lemma journal_identity_texts:
  assumes "journal_validate j = Ok ()"
  shows "journal_safe (jj_job_id j)" "journal_safe (jj_boot_id j)" "journal_safe (jj_coordinator_generation j)"
    "journal_safe (jj_instance j)" "journal_safe (jj_target_interface j)" "journal_safe (jj_sqm_fingerprint j)"
    "length (jj_job_id j) = 32" "length (jj_boot_id j) = 32" "length (jj_coordinator_generation j) = 32"
    "length (jj_instance j) \<le> 64" "length (jj_target_interface j) \<le> 64" "length (jj_sqm_fingerprint j) = 64"
proof -
  note valid = assms [unfolded journal_validate_Ok_iff]
  show "journal_safe (jj_job_id j)" "journal_safe (jj_boot_id j)" "journal_safe (jj_coordinator_generation j)"
    "journal_safe (jj_sqm_fingerprint j)"
    using valid journal_safe_hex by blast+
  show "journal_safe (jj_instance j)" "journal_safe (jj_target_interface j)"
    using valid journal_safe_identifier [of "''instance''" "jj_instance j" "''_-''"]
      journal_safe_identifier [of "''target_interface''" "jj_target_interface j" "''._:@-''"] by simp_all
  show "length (jj_job_id j) = 32" "length (jj_boot_id j) = 32" "length (jj_coordinator_generation j) = 32"
    "length (jj_instance j) \<le> 64" "length (jj_target_interface j) \<le> 64" "length (jj_sqm_fingerprint j) = 64"
    using valid by (simp_all add: journal_lower_hex_def journal_identifier_def)
qed

lemma journal_safe_process [simp]:
  "journal_safe (fst (process_texts p))" "journal_safe (fst (snd (process_texts p)))" "journal_safe (snd (snd (process_texts p)))"
  by (cases p; simp add: process_texts_def journal_safe_def; use journal_safe_word in \<open>auto simp: journal_safe_def\<close>)+

lemma read_process_texts:
  "read_process (fst (process_texts p)) (fst (snd (process_texts p))) (snd (snd (process_texts p))) = Ok p"
  by (cases p) (simp_all add: process_texts_def read_process_def journal_parse_uint_def)

lemma journal_parse_bool_text [simp]: "journal_parse_bool (journal_bool_text b) = Ok b"
  by (simp add: journal_parse_bool_def journal_bool_text_def)

lemma journal_parse_uint_text [simp]: "journal_parse_uint n (word_string w) = Ok w"
  by (simp add: journal_parse_uint_def)

lemma fields_safe_journal:
  assumes "journal_validate j = Ok ()"
  shows "\<forall>f\<in>set (journal_fields j @ schema_fields schema j). journal_safe (fst f) \<and> journal_safe (snd f)"
proof -
  have names: "\<forall>f\<in>set (journal_fields j @ schema_fields schema j). journal_safe (fst f)"
    by (auto simp: journal_fields_def schema_fields_def journal_safe_def byte_def split: option.splits prod.splits)
  have "\<forall>f\<in>set (journal_fields j). journal_safe (snd f)"
    using journal_texts [OF assms] journal_identity_texts [OF assms] journal_safe_process [of "jj_process j"]
    by (cases "process_texts (jj_process j)") (simp add: journal_fields_def)
  moreover have "\<forall>f\<in>set (schema_fields schema j). journal_safe (snd f)"
    using journal_texts [OF assms] by (auto simp: schema_fields_def split: option.splits)
  ultimately show ?thesis using names by auto
qed

lemma field_names_safe [simp]:
  "journal_safe ''job_id''" "journal_safe ''boot_id''" "journal_safe ''coordinator_generation''" "journal_safe ''state''"
  "journal_safe ''sequence''" "journal_safe ''heavy_traffic''" "journal_safe ''heavy_lease_acquired''"
  "journal_safe ''instance''" "journal_safe ''target_interface''" "journal_safe ''sqm_fingerprint''"
  "journal_safe ''process_pid''" "journal_safe ''process_group''" "journal_safe ''process_starttime''"
  "journal_safe ''worker_run_id''" "journal_safe ''terminal_kind''" "journal_safe ''terminal_state''"
  "journal_safe ''diagnostic_code''" "journal_safe ''reconcile_attempts''" "journal_safe ''runtime_mutated''"
  "journal_safe ''recovery_required''" "journal_safe ''runtime_owner_pid''" "journal_safe ''runtime_owner_group''"
  "journal_safe ''runtime_owner_starttime''" "journal_safe ''publication_boot_id''" "journal_safe ''publication_generation''"
  by (simp_all add: journal_safe_def byte_def)

lemma read_owner_fields:
  "jj_runtime_owner_process j \<noteq> None \<longleftrightarrow> schema = 3 \<Longrightarrow> schema \<noteq> 4 \<Longrightarrow>
   read_owner schema (map field_text (schema_fields schema j)) = Ok (jj_runtime_owner_process j, [])"
  by (auto simp: read_owner_def schema_fields_def split: option.splits)

lemma read_publication_fields:
  "journal_validate j = Ok () \<Longrightarrow> jj_publication_boot_id j \<noteq> None \<Longrightarrow> jj_publication_generation j \<noteq> None \<Longrightarrow>
   read_publication 4 (map field_text (schema_fields 4 j)) = Ok (jj_publication_boot_id j, jj_publication_generation j, [])"
  using journal_texts(5,6) [of j] by (auto simp: read_publication_def schema_fields_def text_of_def)

text \<open>The journal that a schema can carry.\<close>

definition carried :: "nat \<Rightarrow> job_journal \<Rightarrow> bool" where
  "carried schema j \<longleftrightarrow> \<not> jj_history_decision_required j \<and> 2 \<le> schema \<and> schema \<le> 4
     \<and> (jj_runtime_owner_process j \<noteq> None \<longleftrightarrow> schema = 3)
     \<and> (jj_publication_boot_id j \<noteq> None \<longleftrightarrow> schema = 4) \<and> (jj_publication_generation j \<noteq> None \<longleftrightarrow> schema = 4)"

lemma read_journal_fields:
  assumes "journal_validate j = Ok ()" "carried schema j"
  shows "read_journal schema (map field_text (journal_fields j @ schema_fields schema j)) = Ok j"
proof -
  obtain pid group start where p: "process_texts (jj_process j) = (pid, group, start)" by (cases "process_texts (jj_process j)") auto
  note texts = journal_texts [OF assms(1)] journal_identity_texts [OF assms(1)] journal_safe_process [of "jj_process j", unfolded p, simplified]
  have process: "read_process pid group start = Ok (jj_process j)" using read_process_texts [of "jj_process j"] p by simp
  have "\<exists>ls. read_owner schema (map field_text (schema_fields schema j)) = Ok (jj_runtime_owner_process j, ls)
      \<and> read_publication schema ls = Ok (jj_publication_boot_id j, jj_publication_generation j, [])"
  proof (cases "schema = 4")
    case True
    then show ?thesis
      using assms read_publication_fields [OF assms(1)] by (auto simp: carried_def read_owner_def)
  next
    case False
    then show ?thesis
      using assms(2) read_owner_fields [of j schema] by (auto simp: carried_def read_publication_def)
  qed
  then obtain ls where "read_owner schema (map field_text (schema_fields schema j)) = Ok (jj_runtime_owner_process j, ls)"
    "read_publication schema ls = Ok (jj_publication_boot_id j, jj_publication_generation j, [])"
    by blast
  then show ?thesis
    using assms(2) process texts operation_state_text.parse_as_str
    by (simp add: read_journal_def journal_fields_def p carried_def)
qed

section \<open>Sizes\<close>

definition journal_size :: "(string \<times> string) list \<Rightarrow> nat" where
  "journal_size fs = sum_list (map (\<lambda>f. length (fst f) + length (snd f) + 2) fs)"

lemma journal_size_append [simp]: "journal_size (a @ b) = journal_size a + journal_size b"
  by (simp add: journal_size_def)

lemma length_journal_lines: "length (concat (map journal_line fs)) = journal_size fs"
  by (induction fs) (simp_all add: journal_line_def journal_size_def)

lemma length_process_texts:
  "length (fst (process_texts p)) \<le> 10" "length (fst (snd (process_texts p))) \<le> 10" "length (snd (snd (process_texts p))) \<le> 20"
  using length_u32_string length_u64_string by (cases p; simp add: process_texts_def)+

lemma journal_size_bound:
  assumes "journal_validate j = Ok ()"
  shows "journal_size (journal_fields j @ schema_fields schema j) \<le> 2000"
proof -
  obtain pid group start where p: "process_texts (jj_process j) = (pid, group, start)" by (cases "process_texts (jj_process j)") auto
  have process: "length pid \<le> 10" "length group \<le> 10" "length start \<le> 20"
    using length_process_texts [of "jj_process j"] p by simp_all
  have bools: "length (journal_bool_text b) = 1" for b by (simp add: journal_bool_text_def)
  have "journal_size (journal_fields j) \<le> 1500"
    using journal_texts(11-16) [OF assms] journal_identity_texts(7-12) [OF assms] process
      operation_state_text.as_str_short [of "jj_state j"] length_u64_string [of "jj_sequence j"]
      length_u32_string [of "jj_reconcile_attempts j"]
    by (simp add: journal_size_def journal_fields_def p bools)
  moreover have "journal_size (schema_fields schema j) \<le> 500"
  proof (cases "jj_runtime_owner_process j")
    case (Some owner)
    then show ?thesis
      using journal_texts(15,16) [OF assms] length_u32_string [of "pi_pid owner"] length_u32_string [of "pi_process_group owner"]
        length_u64_string [of "pi_starttime_ticks owner"]
      by (simp add: journal_size_def schema_fields_def)
  qed (use journal_texts(15,16) [OF assms] in \<open>simp add: journal_size_def schema_fields_def\<close>)
  ultimately show ?thesis by simp
qed

section \<open>The codec\<close>

definition header_of :: "nat \<Rightarrow> string" where
  "header_of schema = (if schema = 2 then JOURNAL_HEADER else if schema = 3 then RUNTIME_OWNER_JOURNAL_HEADER
     else PUBLICATION_JOURNAL_HEADER)"

definition schema_text :: "nat \<Rightarrow> job_journal \<Rightarrow> string" where
  "schema_text schema j = header_of schema @ [LF] @ concat (map journal_line (journal_fields j @ schema_fields schema j))"

lemmas header_defs = JOURNAL_HEADER_def RUNTIME_OWNER_JOURNAL_HEADER_def PUBLICATION_JOURNAL_HEADER_def schema_header_def

lemma header_of_facts:
  "LF \<notin> set (header_of schema)" "CR \<notin> set (header_of schema)" "length (header_of schema) = 35"
  by (simp_all add: header_of_def header_defs)

lemma read_schema_header: "2 \<le> schema \<Longrightarrow> schema \<le> 4 \<Longrightarrow> read_schema (header_of schema) = Ok schema"
  by (auto simp: read_schema_def header_of_def header_defs)

lemma read_schema_Ok: "read_schema h = Ok schema \<Longrightarrow> h = header_of schema \<and> 2 \<le> schema \<and> schema \<le> 4"
  by (auto simp: read_schema_def header_of_def split: if_splits)

lemma encode_for_schema_iff:
  "journal_encode_for_schema j schema = Ok s \<longleftrightarrow> journal_validate j = Ok () \<and> carried schema j \<and> s = schema_text schema j"
proof -
  have "length (schema_text schema j) \<le> MAX_OPERATION_RECORD_BYTES" if "journal_validate j = Ok ()"
    using journal_size_bound [OF that, of schema] header_of_facts(3) [of schema]
    by (simp add: schema_text_def length_journal_lines MAX_OPERATION_RECORD_BYTES_def)
  then show ?thesis
    by (auto simp: journal_encode_for_schema_def carried_def schema_text_def header_of_def Let_def and_then_Inr_iff)
qed

definition schema_of :: "job_journal \<Rightarrow> nat" where
  "schema_of j = (if jj_publication_boot_id j \<noteq> None then 4 else if jj_runtime_owner_process j \<noteq> None then 3 else 2)"

lemma carried_iff:
  assumes "journal_validate j = Ok ()"
  shows "carried schema j \<longleftrightarrow> \<not> jj_history_decision_required j \<and> schema = schema_of j"
proof -
  have "jj_publication_generation j \<noteq> None \<longleftrightarrow> jj_publication_boot_id j \<noteq> None"
    "jj_publication_boot_id j \<noteq> None \<Longrightarrow> jj_runtime_owner_process j = None"
    using assms by (auto simp: journal_validate_Ok_iff journal_validate_publication_def and_then_Inr_iff split: option.splits)
  then show ?thesis by (auto simp: carried_def schema_of_def)
qed

lemma encode_legacy_iff:
  "journal_encode_legacy j = Ok s \<longleftrightarrow>
     journal_validate j = Ok () \<and> \<not> jj_history_decision_required j \<and> s = schema_text (schema_of j) j"
proof -
  have "journal_encode_legacy j = journal_encode_for_schema j (schema_of j)"
    by (simp only: journal_encode_legacy_def schema_of_def)
  then show ?thesis
    using carried_iff by (cases "journal_validate j = Ok ()") (simp_all add: encode_for_schema_iff)
qed

lemma schema_text_ends: "ends_with_char (schema_text schema j) LF"
proof -
  have "journal_fields j \<noteq> []" by (simp add: journal_fields_def split: prod.splits)
  then obtain fs f where "journal_fields j @ schema_fields schema j = fs @ [f]"
    by (cases "journal_fields j @ schema_fields schema j" rule: rev_cases) auto
  then have "schema_text schema j = (header_of schema @ [LF] @ concat (map journal_line fs) @ fst f @ ''='' @ snd f) @ [LF]"
    by (simp add: schema_text_def journal_line_def)
  then show ?thesis by (metis ends_with_char_snoc)
qed

lemma lines_schema_text:
  "journal_validate j = Ok () \<Longrightarrow>
   lines (schema_text schema j) = header_of schema # map field_text (journal_fields j @ schema_fields schema j)"
  using lines_journal [OF fields_safe_journal] header_of_facts by (simp add: schema_text_def)

lemma decode_legacy_iff:
  "journal_decode_legacy s = Ok j \<longleftrightarrow> journal_encode_legacy j = Ok s"
proof
  assume "journal_decode_legacy s = Ok j"
  then obtain schema where "journal_encode_for_schema j schema = Ok s"
    by (auto simp: journal_decode_legacy_def and_then_Inr_iff split: list.splits)
  then show "journal_encode_legacy j = Ok s"
    unfolding encode_legacy_iff encode_for_schema_iff by (auto simp: carried_iff)
next
  assume "journal_encode_legacy j = Ok s"
  then have valid: "journal_validate j = Ok ()" and s: "s = schema_text (schema_of j) j" and carried: "carried (schema_of j) j"
    unfolding encode_legacy_iff using carried_iff by auto
  have encoded: "journal_encode_for_schema j (schema_of j) = Ok s"
    unfolding encode_for_schema_iff using valid s carried by blast
  have "length s \<le> MAX_OPERATION_RECORD_BYTES"
    using journal_size_bound [OF valid, of "schema_of j"] header_of_facts(3) [of "schema_of j"]
    by (simp add: s schema_text_def length_journal_lines MAX_OPERATION_RECORD_BYTES_def)
  then have "bounded_record s = Ok ()" using schema_text_ends by (simp add: bounded_record_def s)
  moreover have "read_schema (header_of (schema_of j)) = Ok (schema_of j)"
    by (rule read_schema_header) (simp_all add: schema_of_def)
  ultimately show "journal_decode_legacy s = Ok j"
    using lines_schema_text [OF valid] read_journal_fields [OF valid carried] valid encoded
    by (simp add: journal_decode_legacy_def s)
qed

lemma history_prefix_schema: "\<not> starts_with (schema_text schema j) (''cake-autorate-calibration'' @ [TAB] @ ''5'' @ [TAB])"
  by (simp add: schema_text_def header_of_def header_defs starts_with_def)

lemma no_history_prefix: "strip_prefix (schema_text schema j) HISTORY_JOURNAL_PREFIX = None"
  by (simp add: strip_prefix_def schema_text_def header_of_def header_defs HISTORY_JOURNAL_PREFIX_def starts_with_def)

lemma length_history_prefix: "length HISTORY_JOURNAL_PREFIX = 64"
  by (simp add: HISTORY_JOURNAL_PREFIX_def schema_header_def)

lemma validate_history: "journal_validate (j\<lparr>jj_history_decision_required := h\<rparr>) = journal_validate j"
  by (simp add: journal_validate_def journal_validate_owner_def journal_validate_terminal_def journal_validate_publication_def
      cong: option.case_cong)

lemma encode_iff:
  "journal_encode j = Ok s \<longleftrightarrow> journal_validate j = Ok ()
     \<and> s = (if jj_history_decision_required j then HISTORY_JOURNAL_PREFIX else []) @ schema_text (schema_of j) j"
proof -
  have same: "schema_text schema (j\<lparr>jj_history_decision_required := h\<rparr>) = schema_text schema j"
    "schema_of (j\<lparr>jj_history_decision_required := h\<rparr>) = schema_of j" for schema h
    by (simp_all add: schema_text_def journal_fields_def schema_fields_def schema_of_def cong: option.case_cong)
  have "length (HISTORY_JOURNAL_PREFIX @ schema_text (schema_of j) j) \<le> MAX_OPERATION_RECORD_BYTES" if "journal_validate j = Ok ()"
    using journal_size_bound [OF that, of "schema_of j"] header_of_facts(3) [of "schema_of j"]
    by (simp add: schema_text_def length_journal_lines length_history_prefix MAX_OPERATION_RECORD_BYTES_def)
  then show ?thesis
    by (auto simp: journal_encode_def encode_legacy_iff validate_history same Let_def and_then_Inr_iff)
qed

lemma decode_iff_encode: "journal_decode s = Ok j \<longleftrightarrow> journal_encode j = Ok s"
proof
  assume decoded: "journal_decode s = Ok j"
  show "journal_encode j = Ok s"
  proof (cases "strip_prefix s HISTORY_JOURNAL_PREFIX")
    case None
    with decoded have "journal_encode_legacy j = Ok s"
      by (simp add: journal_decode_def and_then_Inr_iff decode_legacy_iff)
    then show ?thesis unfolding encode_legacy_iff encode_iff by simp
  next
    case (Some inner)
    with decoded show ?thesis by (auto simp: journal_decode_def and_then_Inr_iff Let_def)
  qed
next
  assume encoded: "journal_encode j = Ok s"
  then have valid: "journal_validate j = Ok ()"
    and s: "s = (if jj_history_decision_required j then HISTORY_JOURNAL_PREFIX else []) @ schema_text (schema_of j) j"
    by (simp_all add: encode_iff)
  have "length s \<le> MAX_OPERATION_RECORD_BYTES"
    using journal_size_bound [OF valid, of "schema_of j"] header_of_facts(3) [of "schema_of j"]
    by (simp add: s schema_text_def length_journal_lines length_history_prefix MAX_OPERATION_RECORD_BYTES_def)
  moreover have "ends_with_char s LF" using schema_text_ends [of "schema_of j" j]
    by (auto simp: s ends_with_char_def schema_text_def)
  ultimately have bounded: "bounded_record s = Ok ()" by (simp add: bounded_record_def)
  show "journal_decode s = Ok j"
  proof (cases "jj_history_decision_required j")
    case False
    then have "journal_decode_legacy s = Ok j" using valid s by (simp add: decode_legacy_iff encode_legacy_iff)
    then show ?thesis using bounded s False no_history_prefix by (simp add: journal_decode_def)
  next
    case True
    let ?i = "j\<lparr>jj_history_decision_required := False\<rparr>"
    have "journal_encode_legacy ?i = Ok (schema_text (schema_of j) j)"
      using encoded True by (auto simp: journal_encode_def s Let_def and_then_Inr_iff)
    then have "journal_decode_legacy (schema_text (schema_of j) j) = Ok ?i" by (simp add: decode_legacy_iff)
    moreover have mark: "j\<lparr>jj_history_decision_required := True\<rparr> = j" using True by (cases j) simp
    ultimately show ?thesis
      using bounded s True encoded history_prefix_schema [of "schema_of j" j] by (simp add: journal_decode_def Let_def mark)
  qed
qed

interpretation journal_codec: codec journal_encode journal_decode "\<lambda>j. journal_validate j = Ok ()"
proof
  show "\<exists>s. journal_encode j = Ok s" if "journal_validate j = Ok ()" for j using that by (simp add: encode_iff)
  show "journal_decode s = Ok j" if "journal_encode j = Ok s" for j s using that by (simp add: decode_iff_encode)
  show "journal_validate j = Ok () \<and> journal_encode j = Ok s" if "journal_decode s = Ok j" for j s
    using that by (simp add: decode_iff_encode encode_iff)
qed

section \<open>Properties\<close>

text \<open>C25: the journal text is an exact codec over its four schemas. A text decodes to a journal exactly if it
  is the text the encoder writes for this journal, and exactly the valid journals can be written: every
  valid journal fits the record bound, so no journal operation can fail for the size of its record.\<close>

theorem journal_codec_exact:
  "(journal_decode s = Ok j \<longleftrightarrow> journal_validate j = Ok () \<and> journal_encode j = Ok s)
   \<and> ((\<exists>t. journal_encode j = Ok t) \<longleftrightarrow> journal_validate j = Ok ())"
  using journal_codec.decode_iff journal_codec.encodes encode_iff by blast

end
