(* ===== verification/Operation_Deadline.thy ===== *)
theory Operation_Deadline
  imports Request_Codec
begin

text \<open>
  Deadlines on the boot clock (\<open>operations/deadline.rs\<close>): when a job is admitted, the duration of its
  request is anchored on the boot clock and stored beside the request. The clocks and the file system
  are arguments.
\<close>

section \<open>Definitions\<close>

definition DEADLINE_HEADER :: string where
  "DEADLINE_HEADER = ''cake-autorate-operation-deadline'' @ [TAB] @ ''1''"

definition MAX_DEADLINE_BYTES :: nat where
  "MAX_DEADLINE_BYTES = 256"

record operation_deadline =
  dl_boot_ms :: u64

definition at_boot_ms :: "u64 \<Rightarrow> operation_deadline" where
  "at_boot_ms boot_ms = \<lparr>dl_boot_ms = boot_ms\<rparr>"

definition remaining_ms_at :: "operation_deadline \<Rightarrow> u64 \<Rightarrow> u64" where
  "remaining_ms_at d now_boot_ms = saturating_sub (dl_boot_ms d) now_boot_ms"

definition expired_at :: "operation_deadline \<Rightarrow> u64 \<Rightarrow> bool" where
  "expired_at d now_boot_ms = (now_boot_ms \<ge> dl_boot_ms d)"

definition remaining_ms :: "operation_deadline \<Rightarrow> u64 result \<Rightarrow> u64 result" where
  "remaining_ms d boot_clock = and_then boot_clock (\<lambda>now. Ok (remaining_ms_at d now))"

definition deadline_expired :: "operation_deadline \<Rightarrow> u64 result \<Rightarrow> bool result" where
  "deadline_expired d boot_clock = and_then boot_clock (\<lambda>now. Ok (expired_at d now))"

definition within_ms :: "operation_deadline \<Rightarrow> u64 result \<Rightarrow> u64 \<Rightarrow> operation_deadline result" where
  "within_ms d boot_clock duration_ms =
     and_then boot_clock (\<lambda>now.
     and_then (ok_or (checked_add now duration_ms) ''operation sub-deadline overflows'') (\<lambda>local_ms.
     Ok (at_boot_ms (min (dl_boot_ms d) local_ms))))"

definition wall_clock_unix_ms :: "operation_deadline \<Rightarrow> u64 result \<Rightarrow> u64 result \<Rightarrow> u64 result" where
  "wall_clock_unix_ms d epoch boot_clock =
     and_then epoch (\<lambda>now.
     and_then (remaining_ms d boot_clock) (\<lambda>remaining.
     ok_or (checked_add now remaining) ''operation deadline overflows the wall clock''))"

record deadline_anchor =
  anchor_boot_id :: string
  anchor_deadline_boot_ms :: u64

definition anchor_after :: "string \<Rightarrow> u64 \<Rightarrow> u64 \<Rightarrow> deadline_anchor result" where
  "anchor_after boot_id now_boot_ms duration_ms =
     and_then (ok_or (checked_add now_boot_ms duration_ms) ''operation deadline overflows the boot clock'') (\<lambda>deadline_boot_ms.
     Ok \<lparr>anchor_boot_id = boot_id, anchor_deadline_boot_ms = deadline_boot_ms\<rparr>)"

definition anchor_admit :: "operation_request \<Rightarrow> string \<Rightarrow> u64 \<Rightarrow> deadline_anchor result" where
  "anchor_admit request boot_id now_boot_ms =
     and_then (ok_or (checked_sub (rq_deadline_unix_ms request) (rq_created_unix_ms request))
       ''operation deadline precedes its creation'') (\<lambda>duration_ms.
     anchor_after boot_id now_boot_ms duration_ms)"

definition anchor_encode :: "deadline_anchor \<Rightarrow> string" where
  "anchor_encode a =
     DEADLINE_HEADER @ [LF] @ ''boot_id='' @ anchor_boot_id a @ [LF]
     @ ''deadline_boot_ms='' @ word_string (anchor_deadline_boot_ms a) @ [LF]"

text \<open>The next line with its prefix removed, and the lines after it.\<close>

definition prefixed_line :: "string list \<Rightarrow> string \<Rightarrow> string option \<times> string list" where
  "prefixed_line ls prefix =
     (case ls of [] \<Rightarrow> (None, []) | line # rest \<Rightarrow> (strip_prefix line prefix, rest))"

definition anchor_decode :: "string \<Rightarrow> deadline_anchor result" where
  "anchor_decode input =
     (let ls = lines input
      in and_then (reject ((case ls of [] \<Rightarrow> None | l # _ \<Rightarrow> Some l) \<noteq> Some DEADLINE_HEADER \<or> \<not> ends_with_char input LF)
           ''operation deadline record has an unsupported header'') (\<lambda>_.
         let (boot_line, ls) = prefixed_line (tl ls) ''boot_id='';
             boot = (case boot_line of
                       Some v \<Rightarrow> if length v = 32 \<and> list_all is_lower_hex_digit v then Some v else None
                     | None \<Rightarrow> None)
         in and_then (ok_or boot ''operation deadline record has no valid boot ID'') (\<lambda>boot_id.
            let (ms_line, ls) = prefixed_line ls ''deadline_boot_ms='';
                ms = (case ms_line of
                        Some v \<Rightarrow> if v \<noteq> [] \<and> list_all is_ascii_digit v then from_str_radix 10 v else None
                      | None \<Rightarrow> None)
            in and_then (ok_or ms ''operation deadline record has no valid deadline'') (\<lambda>deadline_boot_ms.
               and_then (reject (ls \<noteq> []) ''operation deadline record has trailing data'') (\<lambda>_.
               Ok \<lparr>anchor_boot_id = boot_id, anchor_deadline_boot_ms = deadline_boot_ms\<rparr>)))))"

definition on_boot :: "deadline_anchor \<Rightarrow> string \<Rightarrow> operation_deadline result" where
  "on_boot a boot_id =
     and_then (reject (anchor_boot_id a \<noteq> boot_id) ''operation-deadline-from-another-boot'') (\<lambda>_.
     Ok (at_boot_ms (anchor_deadline_boot_ms a)))"

text \<open>The anchor file: missing, or the bounded read of a private file.\<close>

definition load_existing :: "string result option \<Rightarrow> string \<Rightarrow> operation_deadline option result" where
  "load_existing file boot_id =
     (case file of
        None \<Rightarrow> Ok None
      | Some contents \<Rightarrow>
          and_then contents (\<lambda>input.
          and_then (anchor_decode input) (\<lambda>a.
          and_then (on_boot a boot_id) (\<lambda>d. Ok (Some d)))))"

text \<open>\<open>load_on_boot\<close> also returns the anchor it writes, if it writes one.\<close>

definition load_on_boot ::
  "string result option \<Rightarrow> operation_request \<Rightarrow> string \<Rightarrow> bool \<Rightarrow> u64 result \<Rightarrow> u64 result \<Rightarrow> unit result
     \<Rightarrow> deadline_anchor option \<times> operation_deadline result" where
  "load_on_boot file request boot_id persist epoch boot_clock written =
     (case file of
        Some contents \<Rightarrow>
          (None, and_then contents (\<lambda>input. and_then (anchor_decode input) (\<lambda>a. on_boot a boot_id)))
      | None \<Rightarrow>
          (case and_then epoch (\<lambda>now.
                let remaining = saturating_sub (rq_deadline_unix_ms request) now
                in and_then boot_clock (\<lambda>now_boot. anchor_after boot_id now_boot remaining)) of
             Inl e \<Rightarrow> (None, Err e)
           | Inr a \<Rightarrow>
               if persist then (Some a, and_then written (\<lambda>_. Ok (at_boot_ms (anchor_deadline_boot_ms a))))
               else (None, Ok (at_boot_ms (anchor_deadline_boot_ms a)))))"

section \<open>Reading an anchor back\<close>

lemma anchor_roundtrip:
  assumes "length (anchor_boot_id a) = 32" "list_all is_lower_hex_digit (anchor_boot_id a)"
  shows "anchor_decode (anchor_encode a) = Ok a" "length (anchor_encode a) \<le> MAX_DEADLINE_BYTES"
proof -
  define boot where "boot = ''boot_id='' @ anchor_boot_id a"
  define ms where "ms = ''deadline_boot_ms='' @ word_string (anchor_deadline_boot_ms a)"
  have "LF \<notin> set boot" "CR \<notin> set boot"
    using assms(2) by (auto simp: boot_def list_all_iff is_lower_hex_digit_def is_ascii_digit_def byte_def)
  moreover have "LF \<notin> set ms" "CR \<notin> set ms"
    by (auto simp: ms_def is_ascii_digit_def byte_def dest!: word_string_digits)
  moreover have encoded: "anchor_encode a = DEADLINE_HEADER @ LF # (boot @ LF # (ms @ [LF]))"
    by (simp add: anchor_encode_def boot_def ms_def)
  moreover have "LF \<notin> set DEADLINE_HEADER" "CR \<notin> set DEADLINE_HEADER" by (simp_all add: DEADLINE_HEADER_def)
  ultimately have "lines (anchor_encode a) = [DEADLINE_HEADER, boot, ms]" by simp
  moreover have "ends_with_char (anchor_encode a) LF"
    using ends_with_char_snoc [of "DEADLINE_HEADER @ LF # (boot @ LF # ms)" LF] by (simp add: encoded)
  moreover have "list_all is_ascii_digit (word_string w)" for w :: u64 by (auto simp: list_all_iff dest: word_string_digits)
  moreover have "strip_prefix boot ''boot_id='' = Some (anchor_boot_id a)"
    "strip_prefix ms ''deadline_boot_ms='' = Some (word_string (anchor_deadline_boot_ms a))"
    by (simp_all only: strip_prefix_append boot_def ms_def)
  ultimately show "anchor_decode (anchor_encode a) = Ok a"
    using assms by (simp add: anchor_decode_def prefixed_line_def)
  show "length (anchor_encode a) \<le> MAX_DEADLINE_BYTES"
    using assms(1) length_u64_string [of "anchor_deadline_boot_ms a"] by (simp add: anchor_encode_def DEADLINE_HEADER_def MAX_DEADLINE_BYTES_def)
qed

section \<open>Properties\<close>

text \<open>C26: a step of the wall clock neither expires nor extends a job. A request admitted at a time of the boot
  clock, with room for its duration, gets an anchor that survives its file; on the same boot the stored
  deadline has passed exactly when the boot clock has advanced by the duration of the request, and the
  remaining time is what is left of it, whatever the wall clock shows; on any other boot the anchor is
  refused.\<close>

theorem deadline_ignores_wall_clock:
  assumes "length boot_id = 32" "list_all is_lower_hex_digit boot_id" "rq_created_unix_ms r \<le> rq_deadline_unix_ms r"
    "unat now + (unat (rq_deadline_unix_ms r) - unat (rq_created_unix_ms r)) < 2 ^ 64"
  shows "\<exists>a d. anchor_admit r boot_id now = Ok a
    \<and> load_existing (Some (Ok (anchor_encode a))) boot_id = Ok (Some d)
    \<and> (\<forall>r' epoch clock w. load_on_boot (Some (Ok (anchor_encode a))) r' boot_id True epoch clock w = (None, Ok d))
    \<and> (\<forall>t. now \<le> t \<longrightarrow>
        (expired_at d t \<longleftrightarrow> unat (rq_deadline_unix_ms r) - unat (rq_created_unix_ms r) \<le> unat t - unat now)
        \<and> unat (remaining_ms_at d t) = (unat (rq_deadline_unix_ms r) - unat (rq_created_unix_ms r)) - (unat t - unat now))
    \<and> (\<forall>other. other \<noteq> boot_id \<longrightarrow>
        load_existing (Some (Ok (anchor_encode a))) other = Err ''operation-deadline-from-another-boot'')"
proof -
  let ?duration = "rq_deadline_unix_ms r - rq_created_unix_ms r"
  let ?a = "\<lparr>anchor_boot_id = boot_id, anchor_deadline_boot_ms = now + ?duration\<rparr>"
  have duration: "unat ?duration = unat (rq_deadline_unix_ms r) - unat (rq_created_unix_ms r)"
    using assms(3) by (simp add: unat_sub)
  have sum: "checked_add now ?duration = Some (now + ?duration)" "unat (now + ?duration) = unat now + unat ?duration"
    using assms(4) duration by (simp_all add: checked_add_def unat_word_ariths)
  have "anchor_admit r boot_id now = Ok ?a"
    using assms(3) sum by (simp add: anchor_admit_def anchor_after_def checked_sub_def word_le_nat_alt)
  moreover have decoded: "anchor_decode (anchor_encode ?a) = Ok ?a" by (rule anchor_roundtrip) (simp_all add: assms)
  moreover have "unat (remaining_ms_at (at_boot_ms (now + ?duration)) t) = unat ?duration - (unat t - unat now)"
    if "now \<le> t" for t
    using that sum by (auto simp: remaining_ms_at_def at_boot_ms_def saturating_sub_def word_le_nat_alt unat_sub)
  moreover have "expired_at (at_boot_ms (now + ?duration)) t \<longleftrightarrow> unat ?duration \<le> unat t - unat now" if "now \<le> t" for t
    using that sum by (auto simp: expired_at_def at_boot_ms_def word_le_nat_alt)
  ultimately show ?thesis
    by (intro exI [of _ ?a] exI [of _ "at_boot_ms (now + ?duration)"])
      (simp add: load_existing_def load_on_boot_def on_boot_def duration)
qed

theorem deadline_ignores_wall_clock_witness:
  "\<exists>a d. anchor_admit sample_request (sample_hex 32) 5000 = Ok a
    \<and> load_existing (Some (Ok (anchor_encode a))) (sample_hex 32) = Ok (Some d) \<and> expired_at d 65000 \<and> \<not> expired_at d 64999"
proof -
  have "length (sample_hex 32) = 32" "list_all is_lower_hex_digit (sample_hex 32)"
    by (simp_all add: sample_hex_def list_all_iff is_lower_hex_digit_def byte_def)
  then show ?thesis
    using deadline_ignores_wall_clock [of "sample_hex 32" sample_request 5000]
    by (auto simp: sample_request_def)
qed

end
