(* ===== verification/Journal_Store.thy ===== *)
theory Journal_Store
  imports Journal_Codec Operation_Deadline Durable_File "HOL-Library.Product_Lexorder"
begin

text \<open>
  The store of the job journals (\<open>JournalStore\<close> in \<open>operations/journal.rs\<close>): one private directory per job
  with its request, its deadline anchor and its state. The directories are the list that \<open>read_dir\<close>
  returns. The clocks, the test whether a recorded process still runs and the outcomes of the system
  calls that change files are arguments. The coordinator is built with the calibration feature, so
  admission is the admission of that build.
\<close>

section \<open>Definitions\<close>

definition MAX_JOURNAL_JOBS :: nat where "MAX_JOURNAL_JOBS = 64"
definition JOURNAL_RETENTION_TARGET :: nat where "JOURNAL_RETENTION_TARGET = 48"
definition MAX_JOURNAL_DIRECTORY_ENTRIES :: nat where "MAX_JOURNAL_DIRECTORY_ENTRIES = 256"
definition REQUEST_FILE :: string where "REQUEST_FILE = ''request''"
definition STATE_FILE :: string where "STATE_FILE = ''state''"
definition DEADLINE_FILE :: string where "DEADLINE_FILE = ''deadline''"
definition RETIRED_JOB_PREFIX :: string where "RETIRED_JOB_PREFIX = ''.retired-''"

datatype journal_disposition =
  QueuedJob | Launching | LiveProcess | DeadBeforeMutation | Settled | RecoveryRequired | StaleBoot

record scanned_job =
  sj_request :: operation_request
  sj_journal :: job_journal
  sj_disposition :: journal_disposition

record journal_scan =
  scan_jobs :: "scanned_job list"
  scan_unsafe_entries :: "string list"

text \<open>\<open>jd_private\<close>: the metadata of the directory passes \<open>secure_existing_job_dir\<close>.\<close>

record job_directory =
  jd_private :: bool
  jd_files :: "string \<rightharpoonup> store_file"

record journal_store =
  js_jobs_dir :: string
  js_jobs :: "(string \<times> job_directory) list"
  js_coordinator :: coordinator_identity
  js_deadlines :: "string \<rightharpoonup> operation_deadline result"

definition secure_existing_job_dir :: "job_directory option \<Rightarrow> job_directory result" where
  "secure_existing_job_dir dir =
     (case dir of
        None \<Rightarrow> Err ''unable to inspect job journal directory''
      | Some d \<Rightarrow> and_then (reject (\<not> jd_private d) ''job journal directory is unsafe or foreign-owned'') (\<lambda>_. Ok d))"

definition read_bounded :: "string \<Rightarrow> job_directory \<Rightarrow> string \<Rightarrow> string result" where
  "read_bounded path d name =
     (let display = path @ ''/'' @ name
      in case jd_files d name of
           None \<Rightarrow> Err (''unable to inspect '' @ display)
         | Some f \<Rightarrow>
             and_then (reject (\<not> sf_private f) (display @ '' is unsafe or foreign-owned'')) (\<lambda>_.
             and_then (reject (length (sf_bytes f) > MAX_OPERATION_RECORD_BYTES) (display @ '' exceeds its size bound'')) (\<lambda>_.
             and_then (reject (\<not> utf8_valid (sf_bytes f)) (display @ '' is not UTF-8'')) (\<lambda>_.
             Ok (sf_bytes f)))))"

text \<open>\<open>read_private_bounded\<close> of \<open>rating.rs\<close>, on an existing file of a job directory.\<close>

definition read_private_bounded :: "job_directory \<Rightarrow> nat \<Rightarrow> store_file \<Rightarrow> string result" where
  "read_private_bounded d limit f =
     and_then (reject (\<not> sf_private f \<or> \<not> jd_private d) ''operation file is not a private regular file'') (\<lambda>_.
     and_then (reject (length (sf_bytes f) > limit) ''operation file exceeds its size bound'') (\<lambda>_.
     and_then (reject (\<not> utf8_valid (sf_bytes f)) ''operation file is not UTF-8'') (\<lambda>_.
     Ok (sf_bytes f))))"

definition deadline_file :: "job_directory \<Rightarrow> string result option" where
  "deadline_file d = map_option (read_private_bounded d MAX_DEADLINE_BYTES) (jd_files d DEADLINE_FILE)"

text \<open>One replaced file: the directory afterwards and the result of the call. The temporary file that the code
  writes and renames is not part of a directory: no reader looks at its name, and one that a crash left
  behind only makes the next creation under the same name fail, which is the outcome \<open>CreateFailed\<close>.\<close>

definition publish_file :: "string \<Rightarrow> string \<Rightarrow> write_outcome \<Rightarrow> job_directory \<Rightarrow> job_directory \<times> unit result" where
  "publish_file name contents outcome d =
     (let published = d\<lparr>jd_files := (jd_files d)(name \<mapsto> private_file contents)\<rparr>
      in case outcome of
           Published \<Rightarrow> (published, Ok ())
         | CreateFailed e \<Rightarrow> (d, Err e)
         | DirectoryUnsynced e \<Rightarrow> (published, Err e))"

definition journal_write :: "string \<Rightarrow> string \<Rightarrow> write_outcome \<Rightarrow> job_directory \<Rightarrow> job_directory \<times> unit result" where
  "journal_write name contents outcome d =
     (if length contents > MAX_OPERATION_RECORD_BYTES then (d, Err ''journal payload exceeds its size bound'')
      else publish_file name contents outcome d)"

definition write_anchor :: "deadline_anchor \<Rightarrow> write_outcome \<Rightarrow> job_directory \<Rightarrow> job_directory \<times> unit result" where
  "write_anchor a outcome d = publish_file DEADLINE_FILE (anchor_encode a) outcome d"

definition outcome_result :: "write_outcome \<Rightarrow> unit result" where
  "outcome_result outcome =
     (case outcome of Published \<Rightarrow> Ok () | CreateFailed e \<Rightarrow> Err e | DirectoryUnsynced e \<Rightarrow> Err e)"

text \<open>\<open>and_then\<close> on results that come with the changed directory, and the start of a write from a text
  that may not encode.\<close>

definition and_write ::
  "job_directory \<times> unit result \<Rightarrow> (job_directory \<Rightarrow> job_directory \<times> unit result) \<Rightarrow> job_directory \<times> unit result" where
  "and_write r f = (case r of (d, Inl e) \<Rightarrow> (d, Err e) | (d, Inr _) \<Rightarrow> f d)"

definition write_text ::
  "string \<Rightarrow> string result \<Rightarrow> write_outcome \<Rightarrow> job_directory \<Rightarrow> job_directory \<times> unit result" where
  "write_text name contents outcome d =
     (case contents of Inl e \<Rightarrow> (d, Err e) | Inr bytes \<Rightarrow> journal_write name bytes outcome d)"

definition identity_differs :: "operation_request \<Rightarrow> job_journal \<Rightarrow> bool" where
  "identity_differs request journal =
     (id_instance (rq_identity request) \<noteq> jj_instance journal
      \<or> id_target_interface (rq_identity request) \<noteq> jj_target_interface journal
      \<or> id_sqm_fingerprint (rq_identity request) \<noteq> jj_sqm_fingerprint journal)"

definition other_generation :: "journal_store \<Rightarrow> job_journal \<Rightarrow> bool" where
  "other_generation store journal =
     (jj_boot_id journal \<noteq> ci_boot_id (js_coordinator store)
      \<or> jj_coordinator_generation journal \<noteq> ci_generation (js_coordinator store))"

definition job_dir :: "journal_store \<Rightarrow> string \<Rightarrow> job_directory option" where
  "job_dir store job_id = map_of (js_jobs store) job_id"

definition set_job_dir :: "journal_store \<Rightarrow> string \<Rightarrow> job_directory \<Rightarrow> journal_store" where
  "set_job_dir store job_id d = store\<lparr>js_jobs := AList.update job_id d (js_jobs store)\<rparr>"

subsection \<open>Admission and updates\<close>

text \<open>The system calls of \<open>create\<close>: the new directory, its permissions and the three files.\<close>

record create_io =
  io_create_dir :: "unit result"
  io_permissions :: "unit result"
  io_request :: write_outcome
  io_anchor :: write_outcome
  io_state :: write_outcome

definition create_guards :: "journal_store \<Rightarrow> operation_request \<Rightarrow> job_journal \<Rightarrow> u64 result \<Rightarrow> deadline_anchor result" where
  "create_guards store request journal boot_clock =
     and_then (request_validate request) (\<lambda>_.
     and_then (validate_admission_policy True request) (\<lambda>_.
     and_then (journal_validate journal) (\<lambda>_.
     and_then (reject (id_job_id (rq_identity request) \<noteq> jj_job_id journal \<or> identity_differs request journal)
       ''journal identity does not match its operation request'') (\<lambda>_.
     and_then (reject (other_generation store journal) ''journal coordinator identity is stale'') (\<lambda>_.
     and_then boot_clock (\<lambda>now.
     anchor_admit request (ci_boot_id (js_coordinator store)) now))))))"

definition store_create ::
  "(string \<Rightarrow> string) \<Rightarrow> create_io \<Rightarrow> u64 result \<Rightarrow> journal_store \<Rightarrow> operation_request \<Rightarrow> job_journal
     \<Rightarrow> journal_store \<times> unit result" where
  "store_create sha256 io boot_clock store request journal =
     (case create_guards store request journal boot_clock of
        Inl e \<Rightarrow> (store, Err e)
      | Inr a \<Rightarrow>
          if job_dir store (jj_job_id journal) \<noteq> None
          then (store, Err ''unable to create job journal directory: file exists'')
          else case io_create_dir io of
            Inl e \<Rightarrow> (store, Err (''unable to create job journal directory: '' @ e))
          | Inr _ \<Rightarrow>
              (let empty = \<lparr>jd_private = is_ok (io_permissions io), jd_files = Map.empty\<rparr>
               in case io_permissions io of
                    Inl e \<Rightarrow> (set_job_dir store (jj_job_id journal) empty,
                              Err (''unable to secure job journal directory: '' @ e))
                  | Inr _ \<Rightarrow>
                      (case request_encode sha256 request of
                         Inl e \<Rightarrow> (set_job_dir store (jj_job_id journal) empty, Err e)
                       | Inr encoded \<Rightarrow>
                           (case and_write (journal_write REQUEST_FILE encoded (io_request io) empty) (\<lambda>d.
                                 and_write (write_anchor a (io_anchor io) d) (\<lambda>d.
                                 write_text STATE_FILE (journal_encode journal) (io_state io) d)) of
                              (d, Inl e) \<Rightarrow> (set_job_dir store (jj_job_id journal) d,
                                             Err (''unable to initialize job journal: '' @ e))
                            | (d, Inr _) \<Rightarrow>
                                ((set_job_dir store (jj_job_id journal) d)
                                   \<lparr>js_deadlines := (js_deadlines store)
                                      (jj_job_id journal \<mapsto> Ok (at_boot_ms (anchor_deadline_boot_ms a)))\<rparr>, Ok ())))))"

text \<open>The stored journal and request of a job.\<close>

definition stored_journal :: "string \<Rightarrow> job_directory \<Rightarrow> job_journal result" where
  "stored_journal path d = and_then (read_bounded path d STATE_FILE) journal_decode"

definition stored_request :: "(string \<Rightarrow> string) \<Rightarrow> string \<Rightarrow> job_directory \<Rightarrow> operation_request result" where
  "stored_request sha256 path d = and_then (read_bounded path d REQUEST_FILE) (request_decode sha256)"

definition job_path :: "journal_store \<Rightarrow> string \<Rightarrow> string" where
  "job_path store job_id = js_jobs_dir store @ ''/'' @ job_id"

definition update_guards ::
  "(string \<Rightarrow> string) \<Rightarrow> journal_store \<Rightarrow> job_journal \<Rightarrow> job_directory result" where
  "update_guards sha256 store journal =
     and_then (journal_validate journal) (\<lambda>_.
     and_then (reject (other_generation store journal) ''journal update belongs to another coordinator generation'') (\<lambda>_.
     and_then (secure_existing_job_dir (job_dir store (jj_job_id journal))) (\<lambda>d.
     let path = job_path store (jj_job_id journal)
     in and_then (stored_journal path d) (\<lambda>previous.
        and_then (reject (jj_history_decision_required previous \<noteq> jj_history_decision_required journal)
          ''journal update cannot change its admitted history policy'') (\<lambda>_.
        and_then (stored_request sha256 path d) (\<lambda>request.
        and_then (reject (id_job_id (rq_identity request) \<noteq> jj_job_id journal \<or> identity_differs request journal)
          ''journal update identity does not match its request'') (\<lambda>_.
        Ok d)))))))"

definition store_update ::
  "(string \<Rightarrow> string) \<Rightarrow> write_outcome \<Rightarrow> journal_store \<Rightarrow> job_journal \<Rightarrow> journal_store \<times> unit result" where
  "store_update sha256 outcome store journal =
     (case update_guards sha256 store journal of
        Inl e \<Rightarrow> (store, Err e)
      | Inr d \<Rightarrow>
          (case write_text STATE_FILE (journal_encode journal) outcome d of
             (d', r) \<Rightarrow> (set_job_dir store (jj_job_id journal) d', r)))"

definition adopt_generation ::
  "write_outcome \<Rightarrow> journal_store \<Rightarrow> job_journal \<Rightarrow> journal_store \<times> job_journal result" where
  "adopt_generation outcome store journal =
     (case adopt_change (js_coordinator store) journal of
        Inl e \<Rightarrow> (store, Err e)
      | Inr adopted \<Rightarrow>
          (case secure_existing_job_dir (job_dir store (jj_job_id adopted)) of
             Inl e \<Rightarrow> (store, Err e)
           | Inr d \<Rightarrow>
               (case write_text STATE_FILE (journal_encode adopted) outcome d of
                  (d', r) \<Rightarrow> (set_job_dir store (jj_job_id adopted) d', and_then r (\<lambda>_. Ok adopted)))))"

text \<open>\<open>read_deadline\<close>: the anchor of a job, and whether the result is lasting.\<close>

definition read_deadline :: "journal_store \<Rightarrow> string \<Rightarrow> operation_deadline result \<times> bool" where
  "read_deadline store job_id =
     (case job_dir store job_id of
        None \<Rightarrow> (Err (''operation '' @ job_id @ '' has no job directory''), True)
      | Some dir \<Rightarrow>
          (case secure_existing_job_dir (Some dir) of
             Inl e \<Rightarrow> (Err e, False)
           | Inr d \<Rightarrow>
               (case load_existing (deadline_file d) (ci_boot_id (js_coordinator store)) of
                  Inr (Some v) \<Rightarrow> (Ok v, True)
                | Inl e \<Rightarrow> (Err e, e = ''operation-deadline-from-another-boot'')
                | Inr None \<Rightarrow>
                    (case stored_journal (job_path store job_id) d of
                       Inl e \<Rightarrow> (Err e, False)
                     | Inr journal \<Rightarrow>
                         if jj_boot_id journal \<noteq> ci_boot_id (js_coordinator store)
                         then (Err ''operation-deadline-from-another-boot'', True)
                         else (Err ''operation-deadline-missing'', False)))))"

definition store_deadline ::
  "journal_store \<Rightarrow> operation_request \<Rightarrow> journal_store \<times> operation_deadline result" where
  "store_deadline store request =
     (let job_id = id_job_id (rq_identity request)
      in case js_deadlines store job_id of
           Some known \<Rightarrow> (store, known)
         | None \<Rightarrow>
             (case read_deadline store job_id of
                (result, lasting) \<Rightarrow>
                  (if lasting then store\<lparr>js_deadlines := (js_deadlines store)(job_id \<mapsto> result)\<rparr> else store, result)))"

text \<open>The permit of a worker run, one of the files of \<open>native_job_paths\<close>.\<close>

definition permit_name :: "string \<Rightarrow> string" where
  "permit_name worker_run_id = ''permit-'' @ worker_run_id"

definition publish_native_permit ::
  "write_outcome \<Rightarrow> journal_store \<Rightarrow> string \<Rightarrow> string \<Rightarrow> string \<Rightarrow> journal_store \<times> unit result" where
  "publish_native_permit outcome store job_id worker_run_id contents =
     (case and_then (journal_lower_hex ''job_id'' job_id 32) (\<lambda>_.
           and_then (journal_lower_hex ''worker_run_id'' worker_run_id 32) (\<lambda>_.
           secure_existing_job_dir (job_dir store job_id))) of
        Inl e \<Rightarrow> (store, Err e)
      | Inr d \<Rightarrow>
          (case journal_write (permit_name worker_run_id) contents outcome d of
             (d', r) \<Rightarrow> (set_job_dir store job_id d', r)))"

subsection \<open>The scan after a start\<close>

definition disposition_of ::
  "coordinator_identity \<Rightarrow> (process_identity \<Rightarrow> bool result) \<Rightarrow> job_journal \<Rightarrow> journal_disposition" where
  "disposition_of coordinator still_matches journal =
     (if jj_boot_id journal \<noteq> ci_boot_id coordinator then StaleBoot
      else if terminal (jj_state journal) \<and> \<not> jj_runtime_mutated journal then Settled
      else if terminal (jj_state journal) then RecoveryRequired
      else case jj_process journal of
        Some process \<Rightarrow>
          (case still_matches process of
             Inr True \<Rightarrow> LiveProcess
           | Inr False \<Rightarrow> if jj_runtime_mutated journal then RecoveryRequired else DeadBeforeMutation
           | Inl _ \<Rightarrow> RecoveryRequired)
      | None \<Rightarrow>
          if jj_runtime_mutated journal \<or> jj_recovery_required journal then RecoveryRequired
          else if jj_state journal = Starting then DeadBeforeMutation
          else QueuedJob)"

definition scan_one ::
  "(string \<Rightarrow> string) \<Rightarrow> (process_identity \<Rightarrow> bool result) \<Rightarrow> journal_store \<Rightarrow> job_directory \<Rightarrow> string \<Rightarrow> scanned_job result" where
  "scan_one sha256 still_matches store d directory_job_id =
     (let path = job_path store directory_job_id
      in and_then (stored_journal path d) (\<lambda>journal.
         and_then (stored_request sha256 path d) (\<lambda>request.
         and_then (if terminal (jj_state journal) \<and> \<not> jj_runtime_mutated journal \<and> \<not> jj_recovery_required journal
                   then Ok () else validate_admission_policy True request) (\<lambda>_.
         and_then (reject (id_job_id (rq_identity request) \<noteq> directory_job_id \<or> jj_job_id journal \<noteq> directory_job_id)
           ''journal directory and record identity differ'') (\<lambda>_.
         and_then (reject (identity_differs request journal) ''journal request and state identity differ'') (\<lambda>_.
         Ok \<lparr>sj_request = request, sj_journal = journal,
             sj_disposition = disposition_of (js_coordinator store) still_matches journal\<rparr>))))))"

text \<open>One entry that \<open>read_dir\<close> returns, or the error in its place.\<close>

definition scan_entry ::
  "(string \<Rightarrow> string) \<Rightarrow> (process_identity \<Rightarrow> bool result) \<Rightarrow> journal_store \<Rightarrow> (string \<times> job_directory) result \<Rightarrow> scanned_job result" where
  "scan_entry sha256 still_matches store entry =
     (case entry of
        Inl e \<Rightarrow> Err (''unable to inspect journal entry: '' @ e)
      | Inr (name, dir) \<Rightarrow>
          if \<not> is_ok (journal_lower_hex ''job directory'' name 32)
          then Err (''unsafe journal directory name: '' @ name)
          else case and_then (secure_existing_job_dir (Some dir)) (\<lambda>d. scan_one sha256 still_matches store d name) of
                 Inl e \<Rightarrow> Err (name @ '': '' @ e)
               | Inr job \<Rightarrow> Ok job)"

fun scan_entries :: "scanned_job result list \<Rightarrow> journal_scan" where
  "scan_entries [] = \<lparr>scan_jobs = [], scan_unsafe_entries = []\<rparr>"
| "scan_entries (Inl e # rs) = (scan_entries rs)\<lparr>scan_unsafe_entries := e # scan_unsafe_entries (scan_entries rs)\<rparr>"
| "scan_entries (Inr job # rs) = (scan_entries rs)\<lparr>scan_jobs := job # scan_jobs (scan_entries rs)\<rparr>"

text \<open>The loop stops with an error at the first entry beyond the bound, so it does for every longer listing.\<close>

definition store_scan ::
  "(string \<Rightarrow> string) \<Rightarrow> (process_identity \<Rightarrow> bool result) \<Rightarrow> journal_store \<Rightarrow> (string \<times> job_directory) result list
     \<Rightarrow> journal_scan result" where
  "store_scan sha256 still_matches store listing =
     (if length listing > MAX_JOURNAL_DIRECTORY_ENTRIES
      then Err ''journal directory entry count exceeds its hard safety bound''
      else let scan = scan_entries (map (scan_entry sha256 still_matches store) listing)
           in Ok (scan\<lparr>scan_jobs := sort_key (\<lambda>job. (jj_sequence (sj_journal job), jj_job_id (sj_journal job))) (scan_jobs scan)\<rparr>))"

subsection \<open>Retirement\<close>

text \<open>What \<open>remove_dir_all\<close> and the sync after it do to a directory. A removal that fails half way may leave
  anything of it behind.\<close>

datatype removal_outcome = Removed | RemoveFailed "job_directory option" string | RemovalUnsynced string

text \<open>The system calls of a retirement: the rename, its sync, and the removal with its sync.\<close>

record retire_io =
  io_rename :: "unit result"
  io_sync_staged :: "unit result"
  io_removal :: removal_outcome

definition retire_guard :: "scanned_job \<Rightarrow> bool" where
  "retire_guard expected =
     (sj_disposition expected \<noteq> Settled \<or> \<not> terminal (jj_state (sj_journal expected))
      \<or> jj_runtime_mutated (sj_journal expected) \<or> jj_recovery_required (sj_journal expected)
      \<or> jj_heavy_lease_acquired (sj_journal expected) \<or> jj_process (sj_journal expected) \<noteq> None
      \<or> jj_runtime_owner_process (sj_journal expected) \<noteq> None)"

definition rename_job :: "string \<Rightarrow> string \<Rightarrow> journal_store \<Rightarrow> journal_store" where
  "rename_job old new store =
     store\<lparr>js_jobs := map (\<lambda>(name, d). (if name = old then new else name, d)) (js_jobs store)\<rparr>"

definition remove_job :: "string \<Rightarrow> journal_store \<Rightarrow> journal_store" where
  "remove_job name store = store\<lparr>js_jobs := AList.delete name (js_jobs store)\<rparr>"

definition left_behind :: "string \<Rightarrow> job_directory option \<Rightarrow> (string \<times> job_directory) list \<Rightarrow> (string \<times> job_directory) list" where
  "left_behind name rest jobs = (case rest of None \<Rightarrow> AList.delete name jobs | Some d \<Rightarrow> AList.update name d jobs)"

definition retire_settled_job ::
  "(string \<Rightarrow> string) \<Rightarrow> (process_identity \<Rightarrow> bool result) \<Rightarrow> retire_io \<Rightarrow> journal_store \<Rightarrow> scanned_job
     \<Rightarrow> journal_store \<times> unit result" where
  "retire_settled_job sha256 still_matches io store expected =
     (let job_id = jj_job_id (sj_journal expected);
          retired = RETIRED_JOB_PREFIX @ job_id
      in case and_then (reject (retire_guard expected) ''only an inert settled journal can be retired'') (\<lambda>_.
              and_then (secure_existing_job_dir (job_dir store job_id)) (\<lambda>d.
              and_then (scan_one sha256 still_matches store d job_id) (\<lambda>current.
              and_then (reject (sj_request current \<noteq> sj_request expected \<or> sj_journal current \<noteq> sj_journal expected
                                \<or> sj_disposition current \<noteq> Settled)
                ''journal changed while retirement was being prepared'') (\<lambda>_.
              reject (job_dir store retired \<noteq> None) ''journal retirement staging path already exists'')))) of
           Inl e \<Rightarrow> (store, Err e)
         | Inr _ \<Rightarrow>
             (let staged_store = rename_job job_id retired store;
                  removed = (remove_job retired staged_store)\<lparr>js_deadlines := (js_deadlines store)(job_id := None)\<rparr>
              in case io_rename io of
                   Inl e \<Rightarrow> (store, Err (''unable to stage settled journal retirement: '' @ e))
                 | Inr _ \<Rightarrow>
                     (case io_sync_staged io of
                        Inl e \<Rightarrow> (staged_store, Err e)
                      | Inr _ \<Rightarrow>
                          (case io_removal io of
                             Removed \<Rightarrow> (removed, Ok ())
                           | RemoveFailed rest e \<Rightarrow>
                               (staged_store\<lparr>js_jobs := left_behind retired rest (js_jobs staged_store)\<rparr>,
                                Err (''unable to remove retired settled journal: '' @ e))
                           | RemovalUnsynced e \<Rightarrow> (removed, Err e)))))"

subsection \<open>Opening the store\<close>

text \<open>\<open>finish_interrupted_retirements\<close>: the entries that \<open>read_dir\<close> returns, each its name or an error, and the
  directories there are.\<close>

fun finish_interrupted_retirements ::
  "(string \<Rightarrow> removal_outcome) \<Rightarrow> string result list \<Rightarrow> (string \<times> job_directory) list
     \<Rightarrow> (string \<times> job_directory) list \<times> unit result" where
  "finish_interrupted_retirements removal [] jobs = (jobs, Ok ())"
| "finish_interrupted_retirements removal (Inl e # entries) jobs =
     (jobs, Err (''unable to inspect journal retirement entry: '' @ e))"
| "finish_interrupted_retirements removal (Inr name # entries) jobs =
     (if \<not> utf8_valid name then (jobs, Err ''journal retirement entry name is not UTF-8'')
      else case strip_prefix name RETIRED_JOB_PREFIX of
        None \<Rightarrow> finish_interrupted_retirements removal entries jobs
      | Some job_id \<Rightarrow>
          if \<not> is_ok (journal_lower_hex ''retired job directory'' job_id 32)
          then finish_interrupted_retirements removal entries jobs
          else case secure_existing_job_dir (map_of jobs name) of
            Inl e \<Rightarrow> (jobs, Err e)
          | Inr _ \<Rightarrow>
              (case removal name of
                 Removed \<Rightarrow> finish_interrupted_retirements removal entries (AList.delete name jobs)
               | RemoveFailed rest e \<Rightarrow>
                   (left_behind name rest jobs, Err (''unable to finish interrupted journal retirement: '' @ e))
               | RemovalUnsynced e \<Rightarrow> (AList.delete name jobs, Err e)))"

text \<open>\<open>anchor_jobs_without_deadline\<close> for one entry: the directory and the cache afterwards.\<close>

definition anchor_entry ::
  "(string \<Rightarrow> string) \<Rightarrow> u64 result \<Rightarrow> u64 result \<Rightarrow> (string \<Rightarrow> write_outcome) \<Rightarrow> journal_store \<Rightarrow> string
     \<Rightarrow> journal_store \<times> unit result" where
  "anchor_entry sha256 epoch boot_clock outcome store name =
     (let path = job_path store name; boot_id = ci_boot_id (js_coordinator store)
      in if \<not> is_ok (journal_lower_hex ''job directory'' name 32) then (store, Ok ())
         else case secure_existing_job_dir (job_dir store name) of
           Inl _ \<Rightarrow> (store, Ok ())
         | Inr d \<Rightarrow>
             if jd_files d DEADLINE_FILE \<noteq> None then (store, Ok ())
             else case (stored_journal path d, stored_request sha256 path d) of
               (Inr journal, Inr request) \<Rightarrow>
                 if jj_boot_id journal \<noteq> boot_id then (store, Ok ())
                 else (case load_on_boot (deadline_file d) request boot_id True epoch boot_clock (outcome_result (outcome name)) of
                         (written, result) \<Rightarrow>
                           let store = (case written of
                                          None \<Rightarrow> store
                                        | Some a \<Rightarrow> set_job_dir store name (fst (write_anchor a (outcome name) d)))
                           in case result of
                                Inl e \<Rightarrow> (store, Err e)
                              | Inr v \<Rightarrow> (store\<lparr>js_deadlines := (js_deadlines store)(name \<mapsto> Ok v)\<rparr>, Ok ()))
             | _ \<Rightarrow> (store, Ok ()))"

fun anchor_entries ::
  "(string \<Rightarrow> string) \<Rightarrow> u64 result \<Rightarrow> u64 result \<Rightarrow> (string \<Rightarrow> write_outcome) \<Rightarrow> string result list \<Rightarrow> journal_store
     \<Rightarrow> journal_store \<times> unit result" where
  "anchor_entries sha256 epoch boot_clock outcome [] store = (store, Ok ())"
| "anchor_entries sha256 epoch boot_clock outcome (Inl e # entries) store =
     (store, Err (''unable to inspect a journal entry: '' @ e))"
| "anchor_entries sha256 epoch boot_clock outcome (Inr name # entries) store =
     (case anchor_entry sha256 epoch boot_clock outcome store name of
        (store, Inl e) \<Rightarrow> (store, Err e)
      | (store, Inr _) \<Rightarrow> anchor_entries sha256 epoch boot_clock outcome entries store)"

text \<open>\<open>open\<close>: \<open>secured\<close> is the result of \<open>ensure_secure_dir\<close>, \<open>retirements\<close> and \<open>journals\<close> are those of the two
  calls of \<open>read_dir\<close>. The directories afterwards come with the store.\<close>

definition journal_store_open ::
  "(string \<Rightarrow> string) \<Rightarrow> unit result \<Rightarrow> string result list result \<Rightarrow> string result list result
     \<Rightarrow> (string \<Rightarrow> removal_outcome) \<Rightarrow> u64 result \<Rightarrow> u64 result \<Rightarrow> (string \<Rightarrow> write_outcome) \<Rightarrow> string
     \<Rightarrow> coordinator_identity \<Rightarrow> (string \<times> job_directory) list \<Rightarrow> (string \<times> job_directory) list \<times> journal_store result" where
  "journal_store_open sha256 secured retirements journals removal epoch boot_clock outcome jobs_dir coordinator jobs =
     (case secured of
        Inl e \<Rightarrow> (jobs, Err e)
      | Inr _ \<Rightarrow>
     (case retirements of
        Inl e \<Rightarrow> (jobs, Err (''unable to inspect journal retirements: '' @ e))
      | Inr entries \<Rightarrow>
     (case finish_interrupted_retirements removal entries jobs of
        (jobs, Inl e) \<Rightarrow> (jobs, Err e)
      | (jobs, Inr _) \<Rightarrow>
     (case journals of
        Inl e \<Rightarrow> (jobs, Err (''unable to inspect journals for deadlines: '' @ e))
      | Inr entries \<Rightarrow>
     (case anchor_entries sha256 epoch boot_clock outcome entries
             \<lparr>js_jobs_dir = jobs_dir, js_jobs = jobs, js_coordinator = coordinator, js_deadlines = Map.empty\<rparr> of
        (store, Inl e) \<Rightarrow> (js_jobs store, Err e)
      | (store, Inr _) \<Rightarrow> (js_jobs store, Ok store))))))"

section \<open>Reading what was written\<close>

lemma journal_safe_ascii:
  assumes "journal_safe v"
  shows "ascii v"
proof -
  have "byte c < 128" if "c \<in> set v" for c
    using assms [unfolded journal_safe_def, rule_format, OF that] by linarith
  then show ?thesis unfolding ascii_def list_all_iff by blast
qed

lemma schema_text_ascii: "journal_validate j = Ok () \<Longrightarrow> ascii (schema_text schema j)"
proof -
  assume "journal_validate j = Ok ()"
  then have "\<forall>f\<in>set (journal_fields j @ schema_fields schema j). ascii (journal_line f)"
    using fields_safe_journal [of j schema] journal_safe_ascii by (auto simp: journal_line_def byte_def)
  moreover have "ascii (header_of schema)" by (simp add: header_of_def header_defs byte_def)
  ultimately show ?thesis by (simp add: schema_text_def list_all_iff byte_def)
qed

lemma journal_encode_text:
  assumes "journal_encode j = Ok s"
  shows "utf8_valid s" "length s \<le> MAX_OPERATION_RECORD_BYTES"
proof -
  have "ascii HISTORY_JOURNAL_PREFIX" by (simp add: HISTORY_JOURNAL_PREFIX_def schema_header_def byte_def)
  then have "ascii s" using assms schema_text_ascii by (auto simp: encode_iff)
  then show "utf8_valid s" by (rule utf8_valid_of_ascii)
  have "journal_decode s = Ok j" using assms by (simp add: decode_iff_encode)
  then show "length s \<le> MAX_OPERATION_RECORD_BYTES" by (auto simp: journal_decode_def bounded_record_def and_then_Inr_iff)
qed

lemma percent_encode_ascii: "ascii (percent_encode v)"
proof -
  have "ascii (percent_encode_byte c)" for c
  proof (cases "unreserved c")
    case True
    then show ?thesis using is_ascii_alphanumeric_bytes [of c] by (auto simp: percent_encode_byte_def unreserved_def byte_def)
  next
    case False
    have "byte (upper_hex_char d) < 128" for d
    proof (cases "d < 16")
      case True
      then have "upper_hex_char d \<in> set ''0123456789ABCDEF''"
        by (simp only: upper_hex_char_def if_True) (rule nth_mem, simp)
      then show ?thesis by (auto simp: byte_def)
    qed (simp add: upper_hex_char_def byte_def)
    with False show ?thesis by (simp add: percent_encode_byte_def byte_def)
  qed
  then show ?thesis by (simp add: percent_encode_def list_all_iff)
qed

lemma wire_text_ascii: "ascii h \<Longrightarrow> \<forall>f\<in>set fs. ascii (fst f) \<Longrightarrow> ascii (wire_text h fs)"
  by (auto simp: wire_text_def wire_line_def list_all_iff percent_encode_ascii byte_def)

lemma request_fields_ascii:
  assumes "request_capture_fields sha256 schema r = Ok capture"
  shows "\<forall>f\<in>set (request_fields schema capture r @ request_retry_fields r). ascii (fst f)"
proof -
  have "\<forall>f\<in>set capture. ascii (fst f)"
    using assms by (auto simp: request_capture_fields_def byte_def and_then_Inr_iff split: if_splits option.splits)
  then show ?thesis
    by (auto simp: request_fields_def request_head_fields_def request_state_fields_def request_route_fields_def
        request_context_fields_def request_budget_fields_def request_tail_fields_def request_retry_fields_def byte_def
        split: if_splits option.splits)
qed

lemma request_encode_text:
  assumes "request_encode sha256 r = Ok s"
  shows "utf8_valid s" "length s \<le> MAX_OPERATION_RECORD_BYTES" "request_decode sha256 s = Ok r"
proof -
  obtain k where k: "encode_for_schema sha256 k r = Ok s" using assms by (auto simp: request_encode_def Let_def)
  then obtain schema capture where capture: "request_capture_fields sha256 schema r = Ok capture"
      and s: "s = wire_text (retry_request_header k) (request_fields schema capture r @ request_retry_fields r)"
    by (auto simp: encode_for_schema_def encode_record_def Let_def and_then_Inr_iff)
  have "ascii (nat_string k)"
    by (auto simp: ascii_def list_all_iff is_ascii_digit_def dest!: nat_string_digits)
  then have "ascii (retry_request_header k)" by (simp add: retry_request_header_def byte_def)
  then have "ascii s" unfolding s by (rule wire_text_ascii [OF _ request_fields_ascii [OF capture]])
  then show "utf8_valid s" by (rule utf8_valid_of_ascii)
  show "length s \<le> MAX_OPERATION_RECORD_BYTES" "request_decode sha256 s = Ok r"
    using k request_decode_encode by (auto simp: encode_for_schema_Ok_iff)
qed

lemma write_text_request_file: "jd_files (fst (write_text STATE_FILE c outcome d)) REQUEST_FILE = jd_files d REQUEST_FILE"
  by (auto simp: write_text_def journal_write_def publish_file_def Let_def STATE_FILE_def REQUEST_FILE_def
      split: sum.splits write_outcome.splits)

lemma write_text_private: "jd_private (fst (write_text name c outcome d)) = jd_private d"
  by (auto simp: write_text_def journal_write_def publish_file_def Let_def split: sum.splits write_outcome.splits)

lemma stored_request_cong:
  "jd_files d' REQUEST_FILE = jd_files d REQUEST_FILE \<Longrightarrow> stored_request sha256 path d' = stored_request sha256 path d"
  by (simp add: stored_request_def read_bounded_def)

text \<open>The state file after a write: the new journal after a success, the old or the new one after a failure.\<close>

lemma write_state:
  assumes "journal_validate j = Ok ()" "write_text STATE_FILE (journal_encode j) outcome d = (d', r)"
  shows "r = outcome_result outcome" "stored_journal path d' = Ok j \<or> r \<noteq> Ok () \<and> d' = d"
    and "case outcome of CreateFailed e \<Rightarrow> d' = d | _ \<Rightarrow> stored_journal path d' = Ok j"
proof -
  obtain s where s: "journal_encode j = Ok s" using assms(1) by (auto simp: encode_iff)
  have "journal_decode s = Ok j" using s by (simp add: decode_iff_encode)
  then have "stored_journal path (d\<lparr>jd_files := (jd_files d)(STATE_FILE \<mapsto> private_file s)\<rparr>) = Ok j"
    using journal_encode_text [OF s] by (simp add: stored_journal_def read_bounded_def Let_def)
  then show "r = outcome_result outcome" "stored_journal path d' = Ok j \<or> r \<noteq> Ok () \<and> d' = d"
    "case outcome of CreateFailed e \<Rightarrow> d' = d | _ \<Rightarrow> stored_journal path d' = Ok j"
    using assms(2) s journal_encode_text [OF s]
    by (auto simp: write_text_def journal_write_def publish_file_def outcome_result_def Let_def split: write_outcome.splits)
qed

lemma job_dir_set [simp]: "job_dir (set_job_dir store name d) k = (if k = name then Some d else job_dir store k)"
  by (simp add: job_dir_def set_job_dir_def update_conv')

lemma set_job_dir_frame [simp]:
  "js_coordinator (set_job_dir store name d) = js_coordinator store" "js_deadlines (set_job_dir store name d) = js_deadlines store"
  "js_jobs_dir (set_job_dir store name d) = js_jobs_dir store" "job_path (set_job_dir store name d) k = job_path store k"
  by (simp_all add: set_job_dir_def job_path_def)

text \<open>A job as the store keeps it: a private directory with a journal and the request it was admitted for.\<close>

definition job_stored :: "(string \<Rightarrow> string) \<Rightarrow> journal_store \<Rightarrow> operation_request \<Rightarrow> job_journal \<Rightarrow> bool" where
  "job_stored sha256 store request j \<longleftrightarrow>
     id_job_id (rq_identity request) = jj_job_id j \<and> \<not> identity_differs request j
     \<and> (\<exists>d. job_dir store (jj_job_id j) = Some d \<and> jd_private d
          \<and> stored_journal (job_path store (jj_job_id j)) d = Ok j
          \<and> stored_request sha256 (job_path store (jj_job_id j)) d = Ok request)"

lemma stored_journal_valid: "stored_journal path d = Ok j \<Longrightarrow> journal_validate j = Ok ()"
  using journal_codec.canonical by (auto simp: stored_journal_def and_then_Inr_iff)

lemma write_state_published:
  assumes "journal_validate j = Ok ()"
  obtains d' where "write_text STATE_FILE (journal_encode j) Published d = (d', Ok ())" "jd_private d' = jd_private d"
    "\<And>path. stored_journal path d' = Ok j" "\<And>path. stored_request sha256 path d' = stored_request sha256 path d"
proof -
  obtain d' r where w: "write_text STATE_FILE (journal_encode j) Published d = (d', r)" by fastforce
  have r: "r = Ok ()" using write_state(1) [OF assms w] by (simp add: outcome_result_def)
  have "jd_private d' = jd_private d" using write_text_private [of STATE_FILE "journal_encode j" Published d] w by simp
  moreover have "stored_journal path d' = Ok j" for path using write_state(2) [OF assms w, of path] r by blast
  moreover have "stored_request sha256 path d' = stored_request sha256 path d" for path
    using write_text_request_file [of "journal_encode j" Published d] w by (intro stored_request_cong) simp
  ultimately show thesis using that w r by blast
qed

lemma identity_differs_cong:
  "jj_instance j' = jj_instance j \<Longrightarrow> jj_target_interface j' = jj_target_interface j \<Longrightarrow>
   jj_sqm_fingerprint j' = jj_sqm_fingerprint j \<Longrightarrow> identity_differs r j' = identity_differs r j"
  by (simp add: identity_differs_def)

lemma update_stored:
  assumes stored: "job_stored sha256 store r j" and "journal_step j j'" and current: "\<not> other_generation store j'"
  shows "\<exists>store'. store_update sha256 Published store j' = (store', Ok ()) \<and> job_stored sha256 store' r j'
    \<and> js_coordinator store' = js_coordinator store"
proof -
  note frame = journal_step_frame [OF assms(2)]
  have valid: "journal_validate j' = Ok ()" by (rule journal_step_valid [OF assms(2)])
  have same: "identity_differs r j' = identity_differs r j" using frame(3-5) by (rule identity_differs_cong)
  obtain d where d: "job_dir store (jj_job_id j') = Some d" "jd_private d" "stored_journal (job_path store (jj_job_id j')) d = Ok j"
      "stored_request sha256 (job_path store (jj_job_id j')) d = Ok r"
    using stored frame(1) by (auto simp: job_stored_def)
  have id: "id_job_id (rq_identity r) = jj_job_id j'" "\<not> identity_differs r j'"
    using stored frame(1) same by (auto simp: job_stored_def)
  obtain d' where w: "write_text STATE_FILE (journal_encode j') Published d = (d', Ok ())" "jd_private d' = jd_private d"
      "\<And>path. stored_journal path d' = Ok j'" "\<And>path. stored_request sha256 path d' = stored_request sha256 path d"
    by (rule write_state_published [OF valid, of d sha256]) blast
  have "update_guards sha256 store j' = Ok d"
    using valid current d id frame(7) by (simp add: update_guards_def secure_existing_job_dir_def Let_def)
  then have "store_update sha256 Published store j' = (set_job_dir store (jj_job_id j') d', Ok ())"
    using w(1) by (simp add: store_update_def)
  moreover have "job_stored sha256 (set_job_dir store (jj_job_id j') d') r j'"
    using w(2-4) d id by (simp add: job_stored_def)
  ultimately show ?thesis by auto
qed

lemma adopt_stored:
  assumes stored: "job_stored sha256 store r j" and adopted: "adopt_change (js_coordinator store) j = Ok j'"
  shows "\<exists>store'. adopt_generation Published store j = (store', Ok j') \<and> job_stored sha256 store' r j'
    \<and> js_coordinator store' = js_coordinator store"
proof -
  have "journal_step j j'" using journal_step.intros [of "Adopt (js_coordinator store)" j j'] adopted by simp
  note frame = journal_step_frame [OF this] and valid = journal_step_valid [OF this]
  have same: "identity_differs r j' = identity_differs r j" using frame(3-5) by (rule identity_differs_cong)
  obtain d where d: "job_dir store (jj_job_id j') = Some d" "jd_private d"
      "stored_request sha256 (job_path store (jj_job_id j')) d = Ok r"
    using stored frame(1) by (auto simp: job_stored_def)
  obtain d' where w: "write_text STATE_FILE (journal_encode j') Published d = (d', Ok ())" "jd_private d' = jd_private d"
      "\<And>path. stored_journal path d' = Ok j'" "\<And>path. stored_request sha256 path d' = stored_request sha256 path d"
    by (rule write_state_published [OF valid, of d sha256]) blast
  have "adopt_generation Published store j = (set_job_dir store (jj_job_id j') d', Ok j')"
    using adopted d w(1) by (simp add: adopt_generation_def secure_existing_job_dir_def)
  moreover have "job_stored sha256 (set_job_dir store (jj_job_id j') d') r j'"
    using w(2-4) d stored frame(1) same by (simp add: job_stored_def)
  ultimately show ?thesis by auto
qed

lemma scan_one_stored:
  assumes "job_stored sha256 store r j" "validate_admission_policy True r = Ok ()" "job_dir store (jj_job_id j) = Some d"
  shows "scan_one sha256 alive store d (jj_job_id j)
    = Ok \<lparr>sj_request = r, sj_journal = j, sj_disposition = disposition_of (js_coordinator store) alive j\<rparr>"
  using assms by (auto simp: scan_one_def job_stored_def Let_def)

lemma scan_entry_stored:
  assumes "job_stored sha256 store r j" "validate_admission_policy True r = Ok ()" "job_dir store (jj_job_id j) = Some d"
  shows "scan_entry sha256 alive store (Ok (jj_job_id j, d))
    = Ok \<lparr>sj_request = r, sj_journal = j, sj_disposition = disposition_of (js_coordinator store) alive j\<rparr>"
proof -
  have "journal_validate j = Ok ()" "jd_private d" using assms by (auto simp: job_stored_def dest: stored_journal_valid)
  then have "is_ok (journal_lower_hex ''job directory'' (jj_job_id j) 32)"
    by (auto simp: journal_validate_Ok_iff journal_lower_hex_def)
  then show ?thesis
    using scan_one_stored [OF assms] \<open>jd_private d\<close> by (simp add: scan_entry_def secure_existing_job_dir_def)
qed

text \<open>A successful admission stores the job and its deadline.\<close>

lemma write_text_Ok:
  "write_text name c outcome d = (d', Inr u) \<longleftrightarrow> (\<exists>s. c = Ok s \<and> length s \<le> MAX_OPERATION_RECORD_BYTES \<and> outcome = Published
     \<and> d' = d\<lparr>jd_files := (jd_files d)(name \<mapsto> private_file s)\<rparr>)"
  by (auto simp: write_text_def journal_write_def publish_file_def Let_def split: sum.splits write_outcome.splits)

lemma write_anchor_Ok:
  "write_anchor a outcome d = (d', Inr u) \<longleftrightarrow> outcome = Published
     \<and> d' = d\<lparr>jd_files := (jd_files d)(DEADLINE_FILE \<mapsto> private_file (anchor_encode a))\<rparr>"
  by (auto simp: write_anchor_def publish_file_def Let_def split: write_outcome.splits)

lemma and_write_Ok: "and_write c f = (d, Inr u) \<longleftrightarrow> (\<exists>d1 v. c = (d1, Inr v) \<and> f d1 = (d, Inr u))"
  by (cases c; cases "snd c") (auto simp: and_write_def)

lemma write_text_bytes: "write_text name (Inr bytes) outcome d = journal_write name bytes outcome d"
  by (simp add: write_text_def)

lemmas file_names = STATE_FILE_def REQUEST_FILE_def DEADLINE_FILE_def

lemma create_Ok:
  assumes "store_create sha256 io boot_clock store r j = (store', Inr u)"
  obtains a rtext jtext where "create_guards store r j boot_clock = Ok a" "job_dir store (jj_job_id j) = None"
    "request_encode sha256 r = Ok rtext" "journal_encode j = Ok jtext"
    "store' = (set_job_dir store (jj_job_id j) \<lparr>jd_private = True, jd_files = [REQUEST_FILE \<mapsto> private_file rtext,
        DEADLINE_FILE \<mapsto> private_file (anchor_encode a), STATE_FILE \<mapsto> private_file jtext]\<rparr>)
      \<lparr>js_deadlines := (js_deadlines store)(jj_job_id j \<mapsto> Ok (at_boot_ms (anchor_deadline_boot_ms a)))\<rparr>"
proof -
  obtain a where a: "create_guards store r j boot_clock = Ok a" "job_dir store (jj_job_id j) = None"
    using assms by (auto simp: store_create_def split: sum.splits if_splits)
  have "is_ok (io_create_dir io)" "io_permissions io = Ok ()"
    using assms a by (auto simp: store_create_def Let_def split: sum.splits)
  moreover define d0 where "d0 = \<lparr>jd_private = True, jd_files = Map.empty\<rparr>"
  moreover obtain d r1 where writes: "and_write (write_text REQUEST_FILE (request_encode sha256 r) (io_request io) d0) (\<lambda>d.
      and_write (write_anchor a (io_anchor io) d) (\<lambda>d. write_text STATE_FILE (journal_encode j) (io_state io) d)) = (d, r1)"
    by fastforce
  ultimately have "r1 = Ok ()" "store' = (set_job_dir store (jj_job_id j) d)
      \<lparr>js_deadlines := (js_deadlines store)(jj_job_id j \<mapsto> Ok (at_boot_ms (anchor_deadline_boot_ms a)))\<rparr>"
    using assms a by (auto simp: store_create_def Let_def is_ok_def d0_def [symmetric] write_text_bytes split: sum.splits)
  moreover from writes this(1) obtain rtext jtext where "request_encode sha256 r = Ok rtext" "journal_encode j = Ok jtext"
      "d = \<lparr>jd_private = True, jd_files = [REQUEST_FILE \<mapsto> private_file rtext,
        DEADLINE_FILE \<mapsto> private_file (anchor_encode a), STATE_FILE \<mapsto> private_file jtext]\<rparr>"
    by (auto simp: and_write_Ok write_text_Ok write_anchor_Ok d0_def)
  ultimately show thesis using that a by blast
qed

lemma create_stored:
  assumes "store_create sha256 io boot_clock store r j = (store', Inr u)"
  shows "job_stored sha256 store' r j" "js_coordinator store' = js_coordinator store" "\<not> other_generation store j"
    "\<And>k. k \<noteq> jj_job_id j \<Longrightarrow> job_dir store' k = job_dir store k"
    "\<exists>now a. boot_clock = Ok now \<and> anchor_admit r (ci_boot_id (js_coordinator store)) now = Ok a
      \<and> read_deadline store' (jj_job_id j) = (Ok (at_boot_ms (anchor_deadline_boot_ms a)), True)
      \<and> store_deadline store' r = (store', Ok (at_boot_ms (anchor_deadline_boot_ms a)))"
proof -
  obtain a rtext jtext where c: "create_guards store r j boot_clock = Ok a" "job_dir store (jj_job_id j) = None"
    "request_encode sha256 r = Ok rtext" "journal_encode j = Ok jtext"
    "store' = (set_job_dir store (jj_job_id j) \<lparr>jd_private = True, jd_files = [REQUEST_FILE \<mapsto> private_file rtext,
        DEADLINE_FILE \<mapsto> private_file (anchor_encode a), STATE_FILE \<mapsto> private_file jtext]\<rparr>)
      \<lparr>js_deadlines := (js_deadlines store)(jj_job_id j \<mapsto> Ok (at_boot_ms (anchor_deadline_boot_ms a)))\<rparr>"
    by (rule create_Ok [OF assms])
  obtain now where g: "journal_validate j = Ok ()" "id_job_id (rq_identity r) = jj_job_id j" "\<not> identity_differs r j"
      "\<not> other_generation store j" "boot_clock = Ok now" "anchor_admit r (ci_boot_id (js_coordinator store)) now = Ok a"
    using c(1) by (auto simp: create_guards_def and_then_Inr_iff)
  have boot: "anchor_boot_id a = ci_boot_id (js_coordinator store)"
    using g(6) by (auto simp: anchor_admit_def anchor_after_def and_then_Inr_iff)
  moreover have "journal_lower_hex ''boot_id'' (jj_boot_id j) 32 = Ok ()" using g(1) by (simp add: journal_validate_Ok_iff)
  ultimately have hex: "length (anchor_boot_id a) = 32" "list_all is_lower_hex_digit (anchor_boot_id a)"
    using g(4) by (auto simp: journal_lower_hex_def other_generation_def)
  have "ascii (anchor_encode a)"
    using hex(2) visible_ascii [OF visible_word_string [of "anchor_deadline_boot_ms a"]]
    by (auto simp: anchor_encode_def DEADLINE_HEADER_def ascii_def list_all_iff is_lower_hex_digit_def is_ascii_digit_def byte_def)
  then have "utf8_valid (anchor_encode a)" by (rule utf8_valid_of_ascii)
  then have "load_existing (deadline_file \<lparr>jd_private = True, jd_files = [REQUEST_FILE \<mapsto> private_file rtext,
        DEADLINE_FILE \<mapsto> private_file (anchor_encode a), STATE_FILE \<mapsto> private_file jtext]\<rparr>)
      (ci_boot_id (js_coordinator store)) = Ok (Some (at_boot_ms (anchor_deadline_boot_ms a)))"
    using anchor_roundtrip [OF hex] boot
    by (simp add: deadline_file_def read_private_bounded_def load_existing_def on_boot_def file_names)
  moreover have "job_dir store' k = (if k = jj_job_id j then Some \<lparr>jd_private = True, jd_files = [REQUEST_FILE \<mapsto> private_file rtext,
        DEADLINE_FILE \<mapsto> private_file (anchor_encode a), STATE_FILE \<mapsto> private_file jtext]\<rparr> else job_dir store k)" for k
    using job_dir_set [of store "jj_job_id j"] by (simp add: c(5) job_dir_def)
  moreover show "js_coordinator store' = js_coordinator store" by (simp add: c(5))
  ultimately show "\<And>k. k \<noteq> jj_job_id j \<Longrightarrow> job_dir store' k = job_dir store k"
    "\<exists>now a. boot_clock = Ok now \<and> anchor_admit r (ci_boot_id (js_coordinator store)) now = Ok a
      \<and> read_deadline store' (jj_job_id j) = (Ok (at_boot_ms (anchor_deadline_boot_ms a)), True)
      \<and> store_deadline store' r = (store', Ok (at_boot_ms (anchor_deadline_boot_ms a)))"
    using g by (auto simp: read_deadline_def secure_existing_job_dir_def store_deadline_def Let_def c(5))
  have "journal_decode jtext = Ok j" using c(4) by (simp add: decode_iff_encode)
  then show "job_stored sha256 store' r j"
    using g job_dir_set [of store "jj_job_id j"] journal_encode_text [OF c(4)] request_encode_text [OF c(3)]
    by (auto simp: c(5) job_stored_def job_dir_def stored_journal_def stored_request_def read_bounded_def Let_def file_names)
  show "\<not> other_generation store j" by (rule g(4))
qed

text \<open>A creation that failed after the directory was made: there is no state file, unless only the last sync
  failed.\<close>

lemma journal_write_other: "name \<noteq> name' \<Longrightarrow> jd_files (fst (journal_write name c outcome d)) name' = jd_files d name'"
  by (auto simp: journal_write_def publish_file_def Let_def split: write_outcome.splits)

lemma write_anchor_other: "DEADLINE_FILE \<noteq> name \<Longrightarrow> jd_files (fst (write_anchor a outcome d)) name = jd_files d name"
  by (auto simp: write_anchor_def publish_file_def Let_def split: write_outcome.splits)

lemma write_text_failed:
  "write_text name c outcome d = (d', Inl e) \<Longrightarrow> d' = d \<or> (\<exists>bytes. c = Ok bytes \<and> outcome = DirectoryUnsynced e \<and> journal_write name bytes Published d = (d', Ok ()))"
  by (auto simp: write_text_def journal_write_def publish_file_def Let_def split: sum.splits if_splits write_outcome.splits)

lemma create_failed:
  assumes "store_create sha256 io boot_clock store r j = (store', Inl e)" "create_guards store r j boot_clock = Ok a"
    "job_dir store (jj_job_id j) = None" "io_create_dir io = Ok ()"
  obtains d where "store' = set_job_dir store (jj_job_id j) d" "jd_files d STATE_FILE = None"
  | store2 e2 where "io_state io = DirectoryUnsynced e2" "js_jobs store' = js_jobs store2" "js_jobs_dir store' = js_jobs_dir store2"
      "store_create sha256 (io\<lparr>io_state := Published\<rparr>) boot_clock store r j = (store2, Ok ())"
proof (cases "io_permissions io")
  case (Inl e)
  then show thesis using assms that(1) by (fastforce simp: store_create_def Let_def)
next
  case (Inr u)
  let ?d0 = "\<lparr>jd_private = True, jd_files = Map.empty\<rparr>"
  show thesis
  proof (cases "request_encode sha256 r")
    case (Inl e)
    then show thesis using assms Inr that(1) by (fastforce simp: store_create_def Let_def)
  next
    case encoded: (Inr rtext)
    obtain d1 r1 where one: "journal_write REQUEST_FILE rtext (io_request io) ?d0 = (d1, r1)" by fastforce
    obtain d2 r2 where two: "write_anchor a (io_anchor io) d1 = (d2, r2)" by fastforce
    obtain d3 r3 where three: "write_text STATE_FILE (journal_encode j) (io_state io) d2 = (d3, r3)" by fastforce
    have n1: "jd_files d1 STATE_FILE = None" using journal_write_other [of REQUEST_FILE STATE_FILE rtext "io_request io" ?d0] one by (simp add: file_names)
    have n2: "jd_files d2 STATE_FILE = None" using write_anchor_other [of STATE_FILE a "io_anchor io" d1] two n1 by (simp add: file_names)
    consider e1 where "r1 = Inl e1" | e2 where "r1 = Ok ()" "r2 = Inl e2" | e3 where "r1 = Ok ()" "r2 = Ok ()" "r3 = Inl e3"
      using assms Inr encoded one two three
      by (cases r1; cases r2; cases r3) (auto simp: store_create_def and_write_def Let_def)
    then show thesis
    proof cases
      case 1
      then show thesis using that(1) [of d1] assms Inr encoded one n1 by (simp add: store_create_def and_write_def Let_def)
    next
      case 2
      then show thesis using that(1) [of d2] assms Inr encoded one two n2 by (simp add: store_create_def and_write_def Let_def)
    next
      case 3
      then have store': "store' = set_job_dir store (jj_job_id j) d3"
        using assms Inr encoded one two three by (simp add: store_create_def and_write_def Let_def)
      consider "d3 = d2" | bytes where "journal_encode j = Ok bytes" "io_state io = DirectoryUnsynced e3"
          "journal_write STATE_FILE bytes Published d2 = (d3, Ok ())"
        using write_text_failed [of STATE_FILE "journal_encode j" "io_state io" d2 d3 e3] three 3(3) by blast
      then show thesis
      proof cases
        case 1
        then show thesis using that(1) store' n2 by simp
      next
        case 2
        then have "store_create sha256 (io\<lparr>io_state := Published\<rparr>) boot_clock store r j
            = (set_job_dir store (jj_job_id j) d3\<lparr>js_deadlines := (js_deadlines store)(jj_job_id j \<mapsto> Ok (at_boot_ms (anchor_deadline_boot_ms a)))\<rparr>, Ok ())"
          using assms Inr encoded one two \<open>r1 = Ok ()\<close> \<open>r2 = Ok ()\<close> by (simp add: store_create_def and_write_def write_text_bytes Let_def)
        then show thesis by (rule that(2) [OF 2(2), rotated 2]) (simp_all add: store')
      qed
    qed
  qed
qed

text \<open>What a reachable journal of this boot is taken for.\<close>

lemma disposition_reachable:
  assumes "journal_inv j" "jj_boot_id j = ci_boot_id c"
  shows "disposition_of c alive j = Settled \<longleftrightarrow> terminal (jj_state j)"
    "disposition_of c alive j = LiveProcess \<longleftrightarrow> (\<exists>p. jj_process j = Some p \<and> alive p = Ok True)"
    "disposition_of c alive j = RecoveryRequired \<longleftrightarrow>
       (\<exists>p. jj_process j = Some p \<and> (alive p = Ok False \<and> jj_runtime_mutated j \<or> is_err (alive p)))
       \<or> jj_process j = None \<and> jj_runtime_mutated j"
    "disposition_of c alive j = DeadBeforeMutation \<longleftrightarrow> \<not> jj_runtime_mutated j
       \<and> ((\<exists>p. jj_process j = Some p \<and> alive p = Ok False) \<or> jj_process j = None \<and> jj_state j = Starting)"
    "disposition_of c alive j = QueuedJob \<longleftrightarrow> jj_state j \<in> {Queued, Cancelling} \<and> jj_process j = None \<and> \<not> jj_runtime_mutated j"
    "disposition_of c alive j \<in> {Settled, LiveProcess, RecoveryRequired, DeadBeforeMutation, QueuedJob}"
  using assms
  by (cases "jj_state j"; cases "jj_process j"; auto simp: disposition_of_def journal_inv_def journal_shape_def terminal_def
      is_err_def is_ok_def split: sum.splits bool.splits option.splits)+

text \<open>A concrete store: the sample job, stopped after its mutation was armed.\<close>

definition sample_sha :: "string \<Rightarrow> string" where
  "sample_sha bytes = replicate 32 CHR ''x''"

definition sample_directory :: "job_journal \<Rightarrow> job_directory" where
  "sample_directory j =
     \<lparr>jd_private = True,
      jd_files = [REQUEST_FILE \<mapsto> private_file (projr (request_encode sample_sha sample_request)),
                  STATE_FILE \<mapsto> private_file (projr (journal_encode j))]\<rparr>"

definition sample_journal_store :: "job_journal \<Rightarrow> journal_store" where
  "sample_journal_store j =
     \<lparr>js_jobs_dir = ''/jobs'', js_jobs = [(sample_hex 32, sample_directory j)],
      js_coordinator = sample_coordinator\<lparr>ci_generation := replicate 32 CHR ''b''\<rparr>, js_deadlines = Map.empty\<rparr>"

lemma sample_request_admitted: "validate_admission_policy True sample_request = Ok ()"
  unfolding validate_admission_policy_def sample_request_valid
  by (simp add: request_admission_route_def validate_capacity_learning_service_caps_def sample_request_def)

lemma sample_stored:
  assumes "journal_validate j = Ok ()" "jj_job_id j = sample_hex 32" "jj_instance j = ''wan''"
    "jj_target_interface j = ''pppoe-wan''" "jj_sqm_fingerprint j = sample_hex 64"
  shows "job_stored sample_sha (sample_journal_store j) sample_request j"
proof -
  obtain rtext where r: "request_encode sample_sha sample_request = Ok rtext"
    using request_encode_always_replays [of sample_sha, OF _ sample_request_valid] by (auto simp: sample_sha_def)
  obtain jtext where jt: "journal_encode j = Ok jtext" using assms(1) by (auto simp: encode_iff)
  then have "journal_decode jtext = Ok j" by (simp add: decode_iff_encode)
  moreover have "\<not> identity_differs sample_request j" "id_job_id (rq_identity sample_request) = sample_hex 32"
    using assms by (simp_all add: identity_differs_def sample_request_def)
  ultimately show ?thesis
    using assms(2) request_encode_text [OF r] journal_encode_text [OF jt]
    by (simp add: job_stored_def sample_journal_store_def sample_directory_def job_dir_def r jt stored_journal_def
        stored_request_def read_bounded_def Let_def file_names)
qed

text \<open>The same store under the generation that admitted the job.\<close>

definition sample_current_store :: "job_journal \<Rightarrow> journal_store" where
  "sample_current_store j = sample_journal_store j\<lparr>js_coordinator := sample_coordinator\<rparr>"

lemma sample_current_stored: "job_stored sample_sha (sample_current_store sample_queued) sample_request sample_queued"
proof -
  have "journal_start sample_queued" unfolding journal_start_def using sample_queued_created by blast
  then have "journal_validate sample_queued = Ok ()"
    using journal_machine.reachable_inv [OF reachable_from_start] by (auto simp: journal_inv_def)
  then have "job_stored sample_sha (sample_journal_store sample_queued) sample_request sample_queued"
    by (rule sample_stored) (simp_all add: sample_queued_def)
  then show ?thesis by (simp add: job_stored_def sample_current_store_def job_dir_def job_path_def)
qed

lemma sample_update_accepted: "is_ok (update_guards sample_sha (sample_current_store sample_queued) sample_mutated)"
proof -
  have valid: "journal_validate sample_mutated = Ok ()"
    using journal_machine.reachable_inv [OF sample_mutated_reachable] by (simp add: journal_inv_def)
  have same: "jj_job_id sample_mutated = jj_job_id sample_queued" "jj_instance sample_mutated = jj_instance sample_queued"
    "jj_target_interface sample_mutated = jj_target_interface sample_queued"
    "jj_sqm_fingerprint sample_mutated = jj_sqm_fingerprint sample_queued"
    "jj_history_decision_required sample_mutated = jj_history_decision_required sample_queued"
    "\<not> other_generation (sample_current_store sample_queued) sample_mutated"
    by (simp_all add: sample_mutated_def sample_queued_def other_generation_def sample_current_store_def sample_coordinator_def)
  have "identity_differs sample_request sample_mutated = identity_differs sample_request sample_queued"
    using same(2-4) by (rule identity_differs_cong)
  then show ?thesis
    using sample_current_stored valid same
    by (auto simp: job_stored_def update_guards_def secure_existing_job_dir_def Let_def)
qed

section \<open>Properties\<close>

text \<open>C28: replacing a journal is atomic. Whatever the system calls of an update do, the directory of the job
  afterwards holds its unchanged request and either the journal that was there or the new one, and the
  new one after a success; the directories of all other jobs are untouched. An update that is refused
  changes nothing. An accepted one keeps the admitted history policy and names the request it belongs
  to; it reports what the write did, and the old journal is still there exactly if the new file could
  not be created, so a failure to sync the directory reports an error over the new journal.\<close>

theorem journal_update_atomic:
  assumes "store_update sha256 outcome store j = (store', r)" "job_dir store (jj_job_id j) = Some d"
    "stored_journal (job_path store (jj_job_id j)) d = Ok previous"
  shows "(\<exists>d'. job_dir store' (jj_job_id j) = Some d'
        \<and> stored_request sha256 (job_path store' (jj_job_id j)) d' = stored_request sha256 (job_path store (jj_job_id j)) d
        \<and> stored_journal (job_path store' (jj_job_id j)) d' \<in> {Ok previous, Ok j}
        \<and> (r = Ok () \<longrightarrow> stored_journal (job_path store' (jj_job_id j)) d' = Ok j)
        \<and> (is_ok (update_guards sha256 store j) \<longrightarrow> r = outcome_result outcome
             \<and> stored_journal (job_path store' (jj_job_id j)) d' = (case outcome of CreateFailed e \<Rightarrow> Ok previous | _ \<Rightarrow> Ok j)))
    \<and> (\<forall>k. k \<noteq> jj_job_id j \<longrightarrow> job_dir store' k = job_dir store k)
    \<and> (is_err (update_guards sha256 store j) \<longrightarrow> store' = store \<and> is_err r)
    \<and> (store' \<noteq> store \<longrightarrow> journal_validate j = Ok () \<and> jj_history_decision_required previous = jj_history_decision_required j
        \<and> \<not> other_generation store j
        \<and> (\<exists>request. stored_request sha256 (job_path store (jj_job_id j)) d = Ok request \<and> \<not> identity_differs request j))"
proof (cases "update_guards sha256 store j")
  case (Inl e)
  then show ?thesis using assms by (auto simp: store_update_def)
next
  case (Inr d1)
  then have guards: "d1 = d" "journal_validate j = Ok ()" "\<not> other_generation store j"
      "jj_history_decision_required previous = jj_history_decision_required j"
      "\<exists>request. stored_request sha256 (job_path store (jj_job_id j)) d = Ok request \<and> \<not> identity_differs request j"
    using assms(2,3) by (auto simp: update_guards_def secure_existing_job_dir_def Let_def and_then_Inr_iff)
  obtain d' where d': "write_text STATE_FILE (journal_encode j) outcome d = (d', r)"
      and store': "store' = set_job_dir store (jj_job_id j) d'"
    using assms(1) Inr guards(1) by (auto simp: store_update_def split: prod.splits)
  have "jd_files d' REQUEST_FILE = jd_files d REQUEST_FILE"
    using write_text_request_file [of "journal_encode j" outcome d] d' by simp
  then have request: "stored_request sha256 path d' = stored_request sha256 path d" for path by (rule stored_request_cong)
  note state = write_state [OF guards(2) d']
  have "stored_journal path d' = (case outcome of CreateFailed e \<Rightarrow> stored_journal path d | _ \<Rightarrow> Ok j)" for path
    using state(3) by (cases outcome) auto
  then show ?thesis using state(1) request guards Inr assms(3) store' by (auto simp: outcome_result_def split: write_outcome.splits)
qed

text \<open>The sample job goes from queued to its armed mutation. With the directory sync failing the update reports
  an error and the new journal is on disk; with the creation failing the queued one stays.\<close>

theorem journal_update_atomic_witness:
  "\<exists>store1 d1 store2 d2.
     store_update sample_sha (DirectoryUnsynced ''sync'') (sample_current_store sample_queued) sample_mutated = (store1, Err ''sync'')
     \<and> job_dir store1 (sample_hex 32) = Some d1 \<and> stored_journal (''/jobs/'' @ sample_hex 32) d1 = Ok sample_mutated
     \<and> store_update sample_sha (CreateFailed ''full'') (sample_current_store sample_queued) sample_mutated = (store2, Err ''full'')
     \<and> job_dir store2 (sample_hex 32) = Some d2 \<and> stored_journal (''/jobs/'' @ sample_hex 32) d2 = Ok sample_queued
     \<and> sample_queued \<noteq> sample_mutated"
proof -
  let ?store = "sample_current_store sample_queued"
  have id: "jj_job_id sample_mutated = sample_hex 32" "sample_queued \<noteq> sample_mutated"
    by (simp_all add: sample_mutated_def sample_queued_def)
  note stored = sample_current_stored
  obtain d where d: "job_dir ?store (jj_job_id sample_mutated) = Some d"
      "stored_journal (job_path ?store (jj_job_id sample_mutated)) d = Ok sample_queued"
    using stored id(1) by (auto simp: job_stored_def sample_queued_def)
  have guards: "is_ok (update_guards sample_sha ?store sample_mutated)" by (rule sample_update_accepted)
  have step: "\<exists>store' d'. store_update sample_sha outcome ?store sample_mutated = (store', outcome_result outcome)
      \<and> job_dir store' (sample_hex 32) = Some d'
      \<and> stored_journal (''/jobs/'' @ sample_hex 32) d' = (case outcome of CreateFailed e \<Rightarrow> Ok sample_queued | _ \<Rightarrow> Ok sample_mutated)"
    for outcome
  proof -
    obtain store' r where update: "store_update sample_sha outcome ?store sample_mutated = (store', r)" by fastforce
    then have path: "job_path store' (sample_hex 32) = ''/jobs/'' @ sample_hex 32"
      by (auto simp: store_update_def sample_current_store_def sample_journal_store_def job_path_def split: sum.splits prod.splits)
    show ?thesis using journal_update_atomic [OF update d] guards update id(1) path by auto
  qed
  show ?thesis using step [of "DirectoryUnsynced ''sync''"] step [of "CreateFailed ''full''"] id(2) by (simp add: outcome_result_def)
qed

end
