(* ===== verification/Coordinator_Start.thy ===== *)
theory Coordinator_Start
  imports Journal_Store Lease_Table
begin

text \<open>
  How the coordinator takes up its jobs after a start (\<open>bind_with_components\<close> in
  \<open>operations/coordinator.rs\<close>): the reconciliation of the scanned journals and the leases it rebuilds.
\<close>

section \<open>Definitions\<close>

subsection \<open>Reconciliation of the journals\<close>

text \<open>The journal after a change, once it is persisted.\<close>

definition persist_change ::
  "(string \<Rightarrow> string) \<Rightarrow> write_outcome \<Rightarrow> journal_store \<Rightarrow> journal_change \<Rightarrow> journal_store \<times> job_journal result" where
  "persist_change sha256 outcome store change =
     (case change of
        (_, Inl e) \<Rightarrow> (store, Err e)
      | (j, Inr _) \<Rightarrow> (case store_update sha256 outcome store j of (store', r) \<Rightarrow> (store', and_then r (\<lambda>_. Ok j))))"

definition startup_adopt ::
  "write_outcome \<Rightarrow> journal_store \<Rightarrow> scanned_job \<Rightarrow> journal_store \<times> scanned_job \<times> string list" where
  "startup_adopt outcome store job =
     (let journal = sj_journal job
      in if jj_boot_id journal = ci_boot_id (js_coordinator store)
            \<and> jj_coordinator_generation journal \<noteq> ci_generation (js_coordinator store)
         then case adopt_generation outcome store journal of
                (store', Inr adopted) \<Rightarrow> (store', job\<lparr>sj_journal := adopted\<rparr>, [])
              | (store', Inl e) \<Rightarrow>
                  (store', job, [''unable to adopt job '' @ jj_job_id journal
                                 @ '' into the current coordinator generation: '' @ e])
         else (store, job, []))"

definition startup_settle ::
  "(string \<Rightarrow> string) \<Rightarrow> write_outcome \<Rightarrow> journal_store \<Rightarrow> scanned_job \<Rightarrow> journal_store \<times> scanned_job \<times> string list" where
  "startup_settle sha256 outcome store job =
     (let journal = sj_journal job
      in if sj_disposition job = DeadBeforeMutation \<and> \<not> terminal (jj_state journal) \<and> \<not> jj_runtime_mutated journal
         then case persist_change sha256 outcome store
                     (settle_native_terminal ''failed'' (Some ''native-worker-disappeared'') journal) of
                (store', Inr failed) \<Rightarrow> (store', job\<lparr>sj_journal := failed, sj_disposition := Settled\<rparr>, [])
              | (store', Inl e) \<Rightarrow>
                  (store', job, [''unable to settle abandoned native job '' @ jj_job_id journal @ '': '' @ e])
         else (store, job, []))"

definition startup_recover ::
  "(string \<Rightarrow> string) \<Rightarrow> write_outcome \<Rightarrow> journal_store \<Rightarrow> scanned_job \<Rightarrow> journal_store \<times> scanned_job \<times> string list" where
  "startup_recover sha256 outcome store job =
     (let journal = sj_journal job
      in if sj_disposition job = RecoveryRequired \<and> jj_state journal \<noteq> Recovering
         then case persist_change sha256 outcome store (require_recovery ''startup-reconciliation-required'' journal) of
                (store', Inr recovering) \<Rightarrow> (store', job\<lparr>sj_journal := recovering\<rparr>, [])
              | (store', Inl e) \<Rightarrow>
                  (store', job, [''unable to normalize job '' @ jj_job_id journal @ '' into recovery after restart: '' @ e])
         else (store, job, []))"

text \<open>The outcomes of the writes for one job: its adoption, its settlement and its recovery.\<close>

record startup_io =
  su_adopt :: write_outcome
  su_settle :: write_outcome
  su_recover :: write_outcome

definition startup_job ::
  "(string \<Rightarrow> string) \<Rightarrow> startup_io \<Rightarrow> journal_store \<Rightarrow> scanned_job \<Rightarrow> journal_store \<times> scanned_job \<times> string list" where
  "startup_job sha256 io store job =
     (case startup_adopt (su_adopt io) store job of (store, job, issues1) \<Rightarrow>
      case startup_settle sha256 (su_settle io) store job of (store, job, issues2) \<Rightarrow>
      case startup_recover sha256 (su_recover io) store job of (store, job, issues3) \<Rightarrow>
        (store, job, issues1 @ issues2 @ issues3))"

fun startup_jobs ::
  "(string \<Rightarrow> string) \<Rightarrow> (string \<Rightarrow> startup_io) \<Rightarrow> journal_store \<Rightarrow> scanned_job list
     \<Rightarrow> journal_store \<times> scanned_job list \<times> string list" where
  "startup_jobs sha256 io store [] = (store, [], [])"
| "startup_jobs sha256 io store (job # jobs) =
     (case startup_job sha256 (io (jj_job_id (sj_journal job))) store job of (store, job, issues) \<Rightarrow>
      case startup_jobs sha256 io store jobs of (store, jobs, more_issues) \<Rightarrow>
        (store, job # jobs, issues @ more_issues))"

fun startup_leases :: "scanned_job list \<Rightarrow> lease_table \<Rightarrow> lease_table \<times> string list" where
  "startup_leases [] leases = (leases, [])"
| "startup_leases (job # jobs) leases =
     (if sj_disposition job \<in> {DeadBeforeMutation, Settled} then startup_leases jobs leases
      else case from_journalled_operation (sj_request job) (jj_heavy_lease_acquired (sj_journal job)) of
        Inl e \<Rightarrow>
          (case startup_leases jobs leases of
             (leases, issues) \<Rightarrow>
               (leases, (''unable to reconstruct leases for job '' @ jj_job_id (sj_journal job) @ '': '' @ e) # issues))
      | Inr request \<Rightarrow>
          (case lease_acquire leases request of
             Inr leases \<Rightarrow> startup_leases jobs leases
           | Inl e \<Rightarrow>
               (case startup_leases jobs leases of
                  (leases, issues) \<Rightarrow>
                    (leases, (''unable to reconstruct leases for job '' @ jj_job_id (sj_journal job) @ '': ''
                              @ user_message e) # issues))))"

section \<open>Reconciliation\<close>

definition all_published :: startup_io where
  "all_published = \<lparr>su_adopt = Published, su_settle = Published, su_recover = Published\<rparr>"

lemma adopt_change_succeeds:
  assumes "journal_inv j" "jj_boot_id j = ci_boot_id c" "journal_lower_hex ''coordinator_generation'' (ci_generation c) 32 = Ok ()"
    "unat (jj_sequence j) + 1 < 2 ^ 64"
  shows "\<exists>j'. adopt_change c j = Ok j' \<and> jj_coordinator_generation j' = ci_generation c
    \<and> jj_state j' = jj_state j \<and> jj_process j' = jj_process j \<and> jj_runtime_mutated j' = jj_runtime_mutated j"
proof -
  obtain n where n: "checked_add (jj_sequence j) 1 = Some n" "n \<noteq> 0" by (rule next_sequence_room [OF assms(4)])
  note valid = assms(1) [unfolded journal_inv_def, THEN conjunct1]
  let ?j = "j\<lparr>jj_coordinator_generation := ci_generation c, jj_sequence := n\<rparr>"
  have "journal_validate_owner ?j = journal_validate_owner j" "journal_validate_terminal ?j = journal_validate_terminal j"
    "journal_validate_publication ?j = journal_validate_publication j"
    by (simp_all add: journal_validate_owner_def journal_validate_terminal_def journal_validate_publication_def
        cong: option.case_cong)
  then have "journal_validate ?j = Ok ()" using valid assms(3) n(2) by (simp add: journal_validate_Ok_iff)
  then have "adopt_change c j = Ok ?j" using valid assms(2) n(1) by (simp add: adopt_change_def Let_def)
  then show ?thesis by simp
qed

text \<open>The generation of a job after its adoption, with everything the disposition depends on unchanged.\<close>

lemma startup_adopt_stored:
  assumes "journal_inv j" "job_stored sha256 store r j" "jj_boot_id j = ci_boot_id (js_coordinator store)"
    "journal_lower_hex ''coordinator_generation'' (ci_generation (js_coordinator store)) 32 = Ok ()"
    "unat (jj_sequence j) + 2 < 2 ^ 64" "sj_journal job = j"
  shows "\<exists>store' j'. startup_adopt Published store job = (store', job\<lparr>sj_journal := j'\<rparr>, [])
    \<and> journal_step\<^sup>*\<^sup>* j j' \<and> journal_inv j' \<and> job_stored sha256 store' r j' \<and> js_coordinator store' = js_coordinator store
    \<and> \<not> other_generation store' j' \<and> unat (jj_sequence j') + 1 < 2 ^ 64
    \<and> jj_state j' = jj_state j \<and> jj_process j' = jj_process j \<and> jj_runtime_mutated j' = jj_runtime_mutated j"
proof (cases "jj_coordinator_generation j = ci_generation (js_coordinator store)")
  case True
  have "job\<lparr>sj_journal := j\<rparr> = job" using assms(6) by (cases job) simp
  then show ?thesis
    using True assms by (intro exI [of _ store] exI [of _ j]) (simp add: startup_adopt_def other_generation_def)
next
  case False
  obtain j' where j': "adopt_change (js_coordinator store) j = Ok j'" "jj_coordinator_generation j' = ci_generation (js_coordinator store)"
      "jj_state j' = jj_state j" "jj_process j' = jj_process j" "jj_runtime_mutated j' = jj_runtime_mutated j"
    using adopt_change_succeeds [OF assms(1,3,4)] assms(5) by auto
  have step: "journal_step j j'" using journal_step.intros [of "Adopt (js_coordinator store)" j j'] j'(1) by simp
  obtain store' where "adopt_generation Published store j = (store', Ok j')" "job_stored sha256 store' r j'"
      "js_coordinator store' = js_coordinator store"
    using adopt_stored [OF assms(2) j'(1)] by blast
  then show ?thesis
    using False assms(3,5,6) j' step journal_machine.step_inv [OF assms(1) step] journal_step_frame(2,8) [OF step]
    by (intro exI [of _ store'] exI [of _ j']) (auto simp: startup_adopt_def other_generation_def)
qed

lemma persist_stored:
  assumes "job_stored sha256 store r j" "journal_apply e j = (j', Ok ())" "\<not> other_generation store j'"
  shows "\<exists>store'. persist_change sha256 Published store (journal_apply e j) = (store', Ok j') \<and> job_stored sha256 store' r j'
    \<and> js_coordinator store' = js_coordinator store"
proof -
  have "journal_step j j'" using assms(2) by (rule journal_step.intros)
  then show ?thesis using update_stored [OF assms(1) _ assms(3)] assms(2) by (auto simp: persist_change_def)
qed

lemma settled_keeps_generation:
  assumes "settle_native_terminal s code j = (j', Ok ())"
  shows "jj_coordinator_generation j' = jj_coordinator_generation j" "jj_boot_id j' = jj_boot_id j"
  using assms by (auto simp: settle_native_terminal_def split: option.splits)

lemma recovering_keeps_generation:
  assumes "require_recovery code j = (j', Ok ())"
  shows "jj_coordinator_generation j' = jj_coordinator_generation j" "jj_boot_id j' = jj_boot_id j" "jj_runtime_mutated j'"
  using assms by (auto simp: require_recovery_def split: if_splits)

lemma startup_codes:
  "journal_identifier ''diagnostic_code'' ''native-worker-disappeared'' ''_-'' = Ok ()"
  "journal_identifier ''diagnostic_code'' ''startup-reconciliation-required'' ''_-'' = Ok ()"
  by (simp_all add: journal_identifier_def is_ascii_alphanumeric_def is_ascii_lowercase_def byte_def)

lemma startup_settle_stored:
  assumes "journal_inv j" "job_stored sha256 store r j" "\<not> other_generation store j" "unat (jj_sequence j) + 1 < 2 ^ 64"
    "sj_journal job = j" "sj_disposition job = DeadBeforeMutation" "\<not> jj_runtime_mutated j" "jj_state j \<in> {Starting, Running, Cancelling}"
  shows "\<exists>store' j'. startup_settle sha256 Published store job = (store', job\<lparr>sj_journal := j', sj_disposition := Settled\<rparr>, [])
    \<and> journal_step j j' \<and> job_stored sha256 store' r j' \<and> js_coordinator store' = js_coordinator store
    \<and> \<not> other_generation store' j' \<and> jj_state j' = Failed"
proof -
  let ?e = "SettleTerminal ''failed'' (Some ''native-worker-disappeared'')"
  obtain j' where j': "journal_apply ?e j = (j', Ok ())" "jj_state j' = Failed"
    using settle_unmutated_succeeds [OF assms(1,8,7,4), of "Some ''native-worker-disappeared''"] startup_codes(1) by auto
  then have current: "\<not> other_generation store j'"
    using settled_keeps_generation [of "''failed''" "Some ''native-worker-disappeared''" j j'] assms(3)
    by (simp add: other_generation_def)
  obtain store' where store': "persist_change sha256 Published store (journal_apply ?e j) = (store', Ok j')"
      "job_stored sha256 store' r j'" "js_coordinator store' = js_coordinator store"
    using persist_stored [OF assms(2) j'(1) current] by blast
  have "\<not> terminal (jj_state j)" using assms(8) by (auto simp: terminal_def)
  then have "startup_settle sha256 Published store job = (store', job\<lparr>sj_journal := j', sj_disposition := Settled\<rparr>, [])"
    using store'(1) assms(5-7) by (simp add: startup_settle_def)
  then show ?thesis
    using j' store' current journal_step.intros [OF j'(1)]
    by (intro exI [of _ store'] exI [of _ j']) (simp add: other_generation_def)
qed

lemma startup_recover_stored:
  assumes "journal_inv j" "job_stored sha256 store r j" "\<not> other_generation store j" "unat (jj_sequence j) + 1 < 2 ^ 64"
    "sj_journal job = j" "sj_disposition job = RecoveryRequired" "jj_state j \<in> {Running, Cancelling}"
  shows "\<exists>store' j'. startup_recover sha256 Published store job = (store', job\<lparr>sj_journal := j'\<rparr>, [])
    \<and> journal_step j j' \<and> job_stored sha256 store' r j' \<and> js_coordinator store' = js_coordinator store
    \<and> \<not> other_generation store' j' \<and> jj_state j' = Recovering \<and> jj_runtime_mutated j'"
proof -
  let ?e = "RequireRecovery ''startup-reconciliation-required''"
  obtain j' where j': "journal_apply ?e j = (j', Ok ())" "jj_state j' = Recovering"
    using require_recovery_succeeds [OF assms(1,7,4) startup_codes(2)] by auto
  note kept = recovering_keeps_generation [of "''startup-reconciliation-required''" j j']
  have current: "\<not> other_generation store j'" using kept j'(1) assms(3) by (simp add: other_generation_def)
  obtain store' where store': "persist_change sha256 Published store (journal_apply ?e j) = (store', Ok j')"
      "job_stored sha256 store' r j'" "js_coordinator store' = js_coordinator store"
    using persist_stored [OF assms(2) j'(1) current] by blast
  have "jj_state j \<noteq> Recovering" using assms(7) by auto
  then have "startup_recover sha256 Published store job = (store', job\<lparr>sj_journal := j'\<rparr>, [])"
    using store'(1) assms(5,6) by (simp add: startup_recover_def)
  then show ?thesis
    using j' store' current kept(3) journal_step.intros [OF j'(1)]
    by (intro exI [of _ store'] exI [of _ j']) (simp add: other_generation_def)
qed

text \<open>What a disposition promises about its journal once the daemon has started.\<close>

definition reconciled :: "(process_identity \<Rightarrow> bool result) \<Rightarrow> scanned_job \<Rightarrow> bool" where
  "reconciled alive job =
     (let j = sj_journal job
      in case sj_disposition job of
           Settled \<Rightarrow> terminal (jj_state j)
         | LiveProcess \<Rightarrow> (case jj_process j of Some p \<Rightarrow> alive p = Ok True | None \<Rightarrow> False)
         | RecoveryRequired \<Rightarrow> jj_state j = Recovering \<and> jj_runtime_mutated j
         | QueuedJob \<Rightarrow> jj_state j \<in> {Queued, Cancelling} \<and> jj_process j = None \<and> \<not> jj_runtime_mutated j
         | _ \<Rightarrow> False)"

lemma startup_rest_stored:
  assumes "journal_inv j" "job_stored sha256 store r j" "\<not> other_generation store j" "unat (jj_sequence j) + 1 < 2 ^ 64"
    "sj_journal job = j" "sj_disposition job = disposition_of (js_coordinator store) alive j"
    "startup_settle sha256 Published store job = (store1, job1, issues1)"
    "startup_recover sha256 Published store1 job1 = (store2, job2, issues2)"
  shows "issues1 = [] \<and> issues2 = [] \<and> sj_request job2 = sj_request job \<and> journal_step\<^sup>*\<^sup>* j (sj_journal job2)
    \<and> job_stored sha256 store2 r (sj_journal job2) \<and> \<not> other_generation store2 (sj_journal job2) \<and> reconciled alive job2
    \<and> js_coordinator store2 = js_coordinator store
    \<and> (jj_runtime_mutated j \<longrightarrow> sj_disposition job2 \<in> {LiveProcess, RecoveryRequired})"
proof -
  have boot: "jj_boot_id j = ci_boot_id (js_coordinator store)" using assms(3) by (simp add: other_generation_def)
  note disposition = disposition_reachable [OF assms(1) boot, of alive, folded assms(6)]
  have shape: "journal_shape j" using assms(1) by (simp add: journal_inv_def)
  consider (dead) "sj_disposition job = DeadBeforeMutation" | (recover) "sj_disposition job = RecoveryRequired" "jj_state j \<noteq> Recovering"
    | (keep) "sj_disposition job \<noteq> DeadBeforeMutation" "\<not> (sj_disposition job = RecoveryRequired \<and> jj_state j \<noteq> Recovering)"
    by blast
  then show ?thesis
  proof cases
    case dead
    have "jj_state j \<in> {Starting, Running, Cancelling}" "\<not> jj_runtime_mutated j"
      using disposition(4) dead shape by (cases "jj_state j"; auto simp: journal_shape_def)+
    then obtain j' where "startup_settle sha256 Published store job = (store1, job\<lparr>sj_journal := j', sj_disposition := Settled\<rparr>, [])"
        "journal_step j j'" "job_stored sha256 store1 r j'" "js_coordinator store1 = js_coordinator store"
        "\<not> other_generation store1 j'" "jj_state j' = Failed"
      using startup_settle_stored [OF assms(1-5) dead] assms(7) by auto
    then show ?thesis
      using assms(7,8) \<open>\<not> jj_runtime_mutated j\<close>
      by (auto simp: startup_recover_def reconciled_def terminal_def)
  next
    case recover
    have state: "jj_state j \<in> {Running, Cancelling}"
      using disposition(3) recover shape by (cases "jj_state j") (auto simp: journal_shape_def)
    have "store1 = store" "job1 = job" "issues1 = []" using assms(7) recover(1) by (simp_all add: startup_settle_def)
    then obtain j' where "startup_recover sha256 Published store job = (store2, job\<lparr>sj_journal := j'\<rparr>, [])"
        "journal_step j j'" "job_stored sha256 store2 r j'" "js_coordinator store2 = js_coordinator store"
        "\<not> other_generation store2 j'" "jj_state j' = Recovering" "jj_runtime_mutated j'"
      using startup_recover_stored [OF assms(1-5) recover(1) state] assms(8) by auto
    then show ?thesis
      using assms(8) recover \<open>store1 = store\<close> \<open>job1 = job\<close> \<open>issues1 = []\<close> by (auto simp: reconciled_def)
  next
    case keep
    have "store1 = store" "job1 = job" "issues1 = []" using assms(7) keep(1) by (simp_all add: startup_settle_def)
    moreover from this have "store2 = store" "job2 = job" "issues2 = []"
      using assms(5,8) keep(2) by (simp_all add: startup_recover_def)
    moreover have "reconciled alive job"
      using disposition keep shape assms(5)
      by (cases "sj_disposition job") (auto simp: reconciled_def journal_shape_def Let_def)
    moreover have "jj_runtime_mutated j \<longrightarrow> sj_disposition job \<in> {LiveProcess, RecoveryRequired}"
      using disposition keep(1) shape
      by (cases "jj_state j") (auto simp: journal_shape_def terminal_def)
    ultimately show ?thesis using assms by auto
  qed
qed

section \<open>Properties\<close>

text \<open>C21: a restart loses no job. Take any journal the coordinator can have written in this boot, as the
  store keeps it, wherever the previous coordinator stopped. The scan reads it back; if its writes
  succeed, the reconciliation raises no issue, moves the journal only by its own operations into the new
  generation, and stores the result. Afterwards the job is settled in a terminal state, attached to a
  process that still runs, marked for recovery with its mutation recorded, or still waiting without a
  process or mutation. A mutated runtime is always left attached or in recovery.\<close>

theorem restart_loses_no_job:
  assumes "reachable_from journal_start journal_step j" "job_stored sha256 store r j" "validate_admission_policy True r = Ok ()"
    "job_dir store (jj_job_id j) = Some d" "jj_boot_id j = ci_boot_id (js_coordinator store)"
    "journal_lower_hex ''coordinator_generation'' (ci_generation (js_coordinator store)) 32 = Ok ()"
    "unat (jj_sequence j) + 2 < 2 ^ 64"
  shows "\<exists>job store' job'. scan_entry sha256 alive store (Ok (jj_job_id j, d)) = Ok job
    \<and> startup_job sha256 all_published store job = (store', job', [])
    \<and> sj_request job' = r \<and> journal_step\<^sup>*\<^sup>* j (sj_journal job') \<and> job_stored sha256 store' r (sj_journal job')
    \<and> \<not> other_generation store' (sj_journal job') \<and> reconciled alive job'
    \<and> (jj_runtime_mutated j \<longrightarrow> sj_disposition job' \<in> {LiveProcess, RecoveryRequired})"
proof -
  have inv: "journal_inv j" by (rule journal_machine.reachable_inv [OF assms(1)])
  let ?job = "\<lparr>sj_request = r, sj_journal = j, sj_disposition = disposition_of (js_coordinator store) alive j\<rparr>"
  obtain store1 j1 where adopted: "startup_adopt Published store ?job = (store1, ?job\<lparr>sj_journal := j1\<rparr>, [])"
      "journal_step\<^sup>*\<^sup>* j j1" "journal_inv j1" "job_stored sha256 store1 r j1" "js_coordinator store1 = js_coordinator store"
      "\<not> other_generation store1 j1" "unat (jj_sequence j1) + 1 < 2 ^ 64" "jj_state j1 = jj_state j" "jj_process j1 = jj_process j"
      "jj_runtime_mutated j1 = jj_runtime_mutated j"
    using startup_adopt_stored [OF inv assms(2,5,6,7), of ?job] by auto
  have "jj_recovery_required j1 = jj_recovery_required j" "jj_boot_id j1 = jj_boot_id j"
    using adopted(3,5,6,10) inv assms(5) by (auto simp: journal_inv_def journal_shape_def other_generation_def)
  then have same: "disposition_of (js_coordinator store) alive j = disposition_of (js_coordinator store1) alive j1"
    using adopted(5,8-10) by (simp add: disposition_of_def)
  obtain store2 job2 issues2 where settle: "startup_settle sha256 Published store1 (?job\<lparr>sj_journal := j1\<rparr>) = (store2, job2, issues2)"
    by (cases "startup_settle sha256 Published store1 (?job\<lparr>sj_journal := j1\<rparr>)")
  obtain store3 job3 issues3 where recover: "startup_recover sha256 Published store2 job2 = (store3, job3, issues3)"
    by (cases "startup_recover sha256 Published store2 job2")
  have rest: "issues2 = [] \<and> issues3 = [] \<and> sj_request job3 = r \<and> journal_step\<^sup>*\<^sup>* j1 (sj_journal job3)
      \<and> job_stored sha256 store3 r (sj_journal job3) \<and> \<not> other_generation store3 (sj_journal job3) \<and> reconciled alive job3
      \<and> js_coordinator store3 = js_coordinator store1
      \<and> (jj_runtime_mutated j1 \<longrightarrow> sj_disposition job3 \<in> {LiveProcess, RecoveryRequired})"
    using startup_rest_stored [OF adopted(3,4,6,7) _ _ settle recover, of alive] same by simp
  have "startup_job sha256 all_published store ?job = (store3, job3, [])"
    using adopted(1) settle recover rest by (simp add: startup_job_def all_published_def)
  moreover have "scan_entry sha256 alive store (Ok (jj_job_id j, d)) = Ok ?job" by (rule scan_entry_stored [OF assms(2,3,4)])
  ultimately show ?thesis
    using rest adopted(2,10) by (intro exI [of _ ?job] exI [of _ store3] exI [of _ job3]) auto
qed

theorem restart_loses_no_job_witness:
  "\<exists>job store' job'. scan_entry sample_sha (\<lambda>p. Ok False) (sample_journal_store sample_mutated)
        (Ok (sample_hex 32, sample_directory sample_mutated)) = Ok job
    \<and> startup_job sample_sha all_published (sample_journal_store sample_mutated) job = (store', job', [])
    \<and> sj_disposition job' = RecoveryRequired \<and> jj_state (sj_journal job') = Recovering"
proof -
  let ?store = "sample_journal_store sample_mutated"
  have fields: "jj_job_id sample_mutated = sample_hex 32" "jj_instance sample_mutated = ''wan''"
    "jj_target_interface sample_mutated = ''pppoe-wan''" "jj_sqm_fingerprint sample_mutated = sample_hex 64"
    "jj_boot_id sample_mutated = ci_boot_id (js_coordinator ?store)" "jj_runtime_mutated sample_mutated"
    "job_dir ?store (jj_job_id sample_mutated) = Some (sample_directory sample_mutated)" "unat (jj_sequence sample_mutated) + 2 < 2 ^ 64"
    by (simp_all add: sample_mutated_def sample_queued_def sample_journal_store_def sample_coordinator_def job_dir_def)
  have "journal_validate sample_mutated = Ok ()"
    using journal_machine.reachable_inv [OF sample_mutated_reachable] by (simp add: journal_inv_def)
  note stored = sample_stored [OF this fields(1-4)]
  have hex: "journal_lower_hex ''coordinator_generation'' (ci_generation (js_coordinator ?store)) 32 = Ok ()"
    by (simp add: sample_journal_store_def journal_lower_hex_def list_all_iff is_lower_hex_digit_def byte_def)
  obtain job store' job' where "scan_entry sample_sha (\<lambda>p. Ok False) ?store (Ok (sample_hex 32, sample_directory sample_mutated)) = Ok job"
      "startup_job sample_sha all_published ?store job = (store', job', [])" "reconciled (\<lambda>p. Ok False) job'"
      "sj_disposition job' \<in> {LiveProcess, RecoveryRequired}"
    using restart_loses_no_job [OF sample_mutated_reachable stored sample_request_admitted fields(7,5) hex fields(8), of "\<lambda>p. Ok False"]
      fields(1,6) by auto
  then show ?thesis by (auto simp: reconciled_def Let_def split: option.splits)
qed

end
