(* ===== verification/Job_Admission.thy ===== *)
theory Job_Admission
  imports Coordinator_Start Launch_Intent
begin

text \<open>
  The admission of jobs by the coordinator (\<open>operations/coordinator.rs\<close>): the daemon after it has bound,
  the retention of settled journals and the handler of a start request. A reply is a value instead of
  its JSON text; what the daemon keeps for its sockets and worker processes is left out except for the
  job ids in its tables of children and cancellations, which retention consults.
\<close>

section \<open>Definitions\<close>

text \<open>The part of the daemon that admission reads and changes.\<close>

record calibration_daemon =
  cd_store :: journal_store
  cd_jobs :: "scanned_job list"
  cd_leases :: lease_table
  cd_startup_issues :: "string list"
  cd_admission_requested :: bool
  cd_native_rating :: bool
  cd_native_speedtest :: bool
  cd_native_autotune :: bool
  cd_native_children :: "string list"
  cd_bootstrap_runtime_children :: "string list"
  cd_cancellations :: "string list"
  cd_job_errors :: "string \<rightharpoonup> string"

text \<open>\<open>bind_with_components\<close> from the opened store to the daemon: the scan, the reconciliation and the leases.
  The socket, the resumed cancellations and the first retention pass follow it.\<close>

definition bind_jobs ::
  "(string \<Rightarrow> string) \<Rightarrow> (process_identity \<Rightarrow> bool result) \<Rightarrow> (string \<Rightarrow> startup_io) \<Rightarrow> journal_store
     \<Rightarrow> (string \<times> job_directory) result list \<Rightarrow> bool \<Rightarrow> calibration_daemon result" where
  "bind_jobs sha256 alive io store listing admission_requested =
     and_then (store_scan sha256 alive store listing) (\<lambda>scan.
     case startup_jobs sha256 io store (scan_jobs scan) of (store, jobs, issues) \<Rightarrow>
     case startup_leases jobs table_default of (leases, lease_issues) \<Rightarrow>
       Ok \<lparr>cd_store = store, cd_jobs = jobs, cd_leases = leases,
           cd_startup_issues = scan_unsafe_entries scan @ issues @ lease_issues,
           cd_admission_requested = admission_requested, cd_native_rating = False, cd_native_speedtest = False,
           cd_native_autotune = False, cd_native_children = [], cd_bootstrap_runtime_children = [],
           cd_cancellations = [], cd_job_errors = Map.empty\<rparr>)"

definition admission_available :: "calibration_daemon \<Rightarrow> bool" where
  "admission_available daemon =
     (cd_admission_requested daemon \<and> cd_startup_issues daemon = []
      \<and> \<not> list_ex (\<lambda>job. sj_disposition job \<in> {RecoveryRequired, StaleBoot}) (cd_jobs daemon))"

definition supports_native_request :: "calibration_daemon \<Rightarrow> operation_request \<Rightarrow> bool" where
  "supports_native_request daemon request =
     (let native = rq_backend request = ''speedtest-go'' \<and> rt_mode (rq_route request) \<in> {Main, Mwan3, Explicit}
            \<and> (case rq_target_state request of
                 ExistingManaged \<Rightarrow> True
               | AbsentBootstrap \<Rightarrow> is_ok (validate_admission_policy True request))
      in case rq_operation request of
           GuidedRating \<Rightarrow> cd_native_rating daemon \<and> rq_target_state request = ExistingManaged
         | AutomaticRating \<Rightarrow> cd_native_rating daemon \<and> rq_target_state request = ExistingManaged
         | Speedtest \<Rightarrow> cd_native_speedtest daemon \<and> native
         | FullAutotune \<Rightarrow> cd_native_autotune daemon \<and> native)"

text \<open>Retention. Whether the history of a completed raw calibration is archived is decided by code outside
  this model (\<open>archived\<close>), and the system calls of each retirement are arguments.\<close>

definition retention_candidates :: "calibration_daemon \<Rightarrow> scanned_job list" where
  "retention_candidates daemon =
     sort_key (\<lambda>job. (rq_created_unix_ms (sj_request job), jj_job_id (sj_journal job)))
       (filter (\<lambda>job. sj_disposition job = Settled
                  \<and> \<not> lease_contains_job (cd_leases daemon) (jj_job_id (sj_journal job))
                  \<and> jj_job_id (sj_journal job) \<notin> set (cd_native_children daemon)
                  \<and> jj_job_id (sj_journal job) \<notin> set (cd_bootstrap_runtime_children daemon)
                  \<and> jj_job_id (sj_journal job) \<notin> set (cd_cancellations daemon)) (cd_jobs daemon))"

fun retire_candidates ::
  "(string \<Rightarrow> string) \<Rightarrow> (process_identity \<Rightarrow> bool result) \<Rightarrow> (scanned_job \<Rightarrow> unit result) \<Rightarrow> (string \<Rightarrow> retire_io)
     \<Rightarrow> scanned_job list \<Rightarrow> calibration_daemon \<Rightarrow> calibration_daemon \<times> nat result" where
  "retire_candidates sha256 alive archived io [] daemon = (daemon, Ok 0)"
| "retire_candidates sha256 alive archived io (job # jobs) daemon =
     (let job_id = jj_job_id (sj_journal job)
      in case (if jj_history_decision_required (sj_journal job) \<and> jj_terminal_state (sj_journal job) = Some ''complete''
               then archived job else Ok ()) of
           Inl e \<Rightarrow> (daemon, Err e)
         | Inr _ \<Rightarrow>
             (case retire_settled_job sha256 alive (io job_id) (cd_store daemon) job of
                (store, Inl e) \<Rightarrow> (daemon\<lparr>cd_store := store\<rparr>, Err e)
              | (store, Inr _) \<Rightarrow>
                  (case retire_candidates sha256 alive archived io jobs
                          (daemon\<lparr>cd_store := store,
                             cd_jobs := filter (\<lambda>retained. jj_job_id (sj_journal retained) \<noteq> job_id) (cd_jobs daemon),
                             cd_job_errors := (cd_job_errors daemon)(job_id := None)\<rparr>) of
                     (daemon, r) \<Rightarrow> (daemon, and_then r (\<lambda>n. Ok (n + 1))))))"

definition prune_settled_history ::
  "(string \<Rightarrow> string) \<Rightarrow> (process_identity \<Rightarrow> bool result) \<Rightarrow> (scanned_job \<Rightarrow> unit result) \<Rightarrow> (string \<Rightarrow> retire_io)
     \<Rightarrow> calibration_daemon \<Rightarrow> calibration_daemon \<times> nat result" where
  "prune_settled_history sha256 alive archived io daemon =
     (let excess = length (cd_jobs daemon) - JOURNAL_RETENTION_TARGET
      in if excess = 0 then (daemon, Ok 0)
         else case retire_candidates sha256 alive archived io (take excess (retention_candidates daemon)) daemon of
           (daemon, Inl e) \<Rightarrow> (daemon, Err e)
         | (daemon, Inr n) \<Rightarrow>
             if length (cd_jobs daemon) > MAX_JOURNAL_JOBS
             then (daemon, Err (nat_string (length (cd_jobs daemon)) @ '' journals remain after safe retention; maximum is 64''))
             else (daemon, Ok n))"

text \<open>The replies of a start. A refused traffic plan has its own code, which the traffic checks choose.\<close>

datatype start_reply =
    StartError string string
  | TrafficRefused string
  | LeaseRefused lease_acquire_error
  | JobReply scanned_job bool

definition traffic_admission :: "operation_request \<Rightarrow> unit result" where
  "traffic_admission request =
     (if rq_operation request = FullAutotune then
        and_then (case rq_traffic_plan request of
                    None \<Rightarrow> Ok ()
                  | Some plan \<Rightarrow> validate_autotune_planning_budget (rq_traffic_budget request) plan) (\<lambda>_.
        validate_autotune_traffic_admission (rq_traffic_budget request) (rq_strategy request)
          (rq_allow_sqm_disable request) (rq_service_dl_cap_kbps request) (rq_service_ul_cap_kbps request))
      else Ok ())"

text \<open>The rest of \<open>start_job\<close> after retention: leases, journal, store. A failure releases the leases again.\<close>

definition admit_job ::
  "(string \<Rightarrow> string) \<Rightarrow> create_io \<Rightarrow> u64 result \<Rightarrow> calibration_daemon \<Rightarrow> operation_request
     \<Rightarrow> calibration_daemon \<times> start_reply" where
  "admit_job sha256 io boot_clock daemon request =
     (case local_from_operation request of
        Inl e \<Rightarrow> (daemon, StartError ''invalid-lease-request'' e)
      | Inr lease_request \<Rightarrow>
          (case lease_acquire (cd_leases daemon) lease_request of
             Inl e \<Rightarrow> (daemon, LeaseRefused e)
           | Inr leases \<Rightarrow>
               (let released = fst (lease_release leases (id_job_id (rq_identity request)))
                in case journal_queued request (js_coordinator (cd_store daemon))
                          (requires_heavy_traffic (rq_operation request)) of
                     Inl e \<Rightarrow> (daemon\<lparr>cd_leases := released\<rparr>, StartError ''invalid-journal'' e)
                   | Inr journal \<Rightarrow>
                       (case store_create sha256 io boot_clock (cd_store daemon) request journal of
                          (store, Inl e) \<Rightarrow>
                            (daemon\<lparr>cd_store := store, cd_leases := released\<rparr>, StartError ''journal-create-failed'' e)
                        | (store, Inr _) \<Rightarrow>
                            (let job = \<lparr>sj_request = request, sj_journal = journal, sj_disposition = QueuedJob\<rparr>
                             in (daemon\<lparr>cd_store := store, cd_leases := leases, cd_jobs := cd_jobs daemon @ [job]\<rparr>,
                                 JobReply job False))))))"

definition start_job ::
  "(string \<Rightarrow> string) \<Rightarrow> (process_identity \<Rightarrow> bool result) \<Rightarrow> (scanned_job \<Rightarrow> unit result) \<Rightarrow> (string \<Rightarrow> retire_io) \<Rightarrow> create_io
     \<Rightarrow> u64 result \<Rightarrow> calibration_daemon \<Rightarrow> operation_request option \<Rightarrow> calibration_daemon \<times> start_reply" where
  "start_job sha256 alive archived retire_ios io boot_clock daemon operation =
     (if \<not> admission_available daemon
      then (daemon, StartError ''admission-disabled'' ''job admission remains disabled until startup recovery is complete'')
      else case operation of
        None \<Rightarrow> (daemon, StartError ''invalid-request'' ''start requires an operation request'')
      | Some request \<Rightarrow>
          (case validate_admission_policy True request of
             Inl e \<Rightarrow> (daemon, StartError ''invalid-request-policy'' e)
           | Inr _ \<Rightarrow>
               if \<not> supports_native_request daemon request
               then (daemon, StartError ''operation-unsupported''
                       ''this coordinator has no enabled native implementation for the requested operation'')
               else case find (\<lambda>job. id_job_id (rq_identity (sj_request job)) = id_job_id (rq_identity request)) (cd_jobs daemon) of
                 Some existing \<Rightarrow>
                   (daemon, if sj_request existing = request then JobReply existing True
                            else StartError ''job-id-conflict'' ''job_id is already bound to a different immutable request'')
               | None \<Rightarrow>
                   (case traffic_admission request of
                      Inl e \<Rightarrow> (daemon, TrafficRefused e)
                    | Inr _ \<Rightarrow>
                        (case prune_settled_history sha256 alive archived retire_ios daemon of
                           (daemon, Inl e) \<Rightarrow> (daemon, StartError ''journal-retention-failed'' e)
                         | (daemon, Inr _) \<Rightarrow> admit_job sha256 io boot_clock daemon request))))"

section \<open>Leases after a start\<close>

abbreviation job_id_of :: "scanned_job \<Rightarrow> string" where
  "job_id_of job \<equiv> id_job_id (rq_identity (sj_request job))"

definition active_job :: "scanned_job \<Rightarrow> bool" where
  "active_job job \<longleftrightarrow> sj_disposition job \<notin> {DeadBeforeMutation, Settled}"

text \<open>The table holds for the job exactly the leases of its request, with the heavy-traffic lease if journalled.\<close>

definition leased :: "lease_table \<Rightarrow> scanned_job \<Rightarrow> bool" where
  "leased t job \<longleftrightarrow>
     (\<exists>request. from_journalled_operation (sj_request job) (jj_heavy_lease_acquired (sj_journal job)) = Ok request
        \<and> lt_jobs t (job_id_of job) = Some (lr_keys request))"

text \<open>The invariant of the daemon: its records name their own jobs, the active jobs are different and hold
  their leases, and nobody else does.\<close>

definition daemon_inv :: "calibration_daemon \<Rightarrow> bool" where
  "daemon_inv daemon \<longleftrightarrow>
     lease_inv (cd_leases daemon)
     \<and> (\<forall>job\<in>set (cd_jobs daemon). jj_job_id (sj_journal job) = job_id_of job \<and> (active_job job \<longrightarrow> leased (cd_leases daemon) job))
     \<and> distinct (map job_id_of (filter active_job (cd_jobs daemon)))
     \<and> (\<forall>i. lt_jobs (cd_leases daemon) i \<noteq> None \<longrightarrow> (\<exists>job\<in>set (cd_jobs daemon). active_job job \<and> job_id_of job = i))"

lemma from_journalled_operation_request:
  assumes "from_journalled_operation r heavy = Ok request"
  shows "lr_job_id request = id_job_id (rq_identity r)" "Instance (id_instance (rq_identity r)) \<in> set (lr_keys request)"
    "TargetInterface (id_target_interface (rq_identity r)) \<in> set (lr_keys request)"
    "SqmFingerprint (id_sqm_fingerprint (rq_identity r)) \<in> set (lr_keys request)"
proof -
  obtain lease where lease: "local_from_operation r = Ok lease" "lr_job_id request = lr_job_id lease"
      "set (lr_keys lease) \<subseteq> set (lr_keys request)"
    using assms by (auto simp: from_journalled_operation_def and_then_Inr_iff subset_insertI split: if_splits)
  then show "lr_job_id request = id_job_id (rq_identity r)" "Instance (id_instance (rq_identity r)) \<in> set (lr_keys request)"
    "TargetInterface (id_target_interface (rq_identity r)) \<in> set (lr_keys request)"
    "SqmFingerprint (id_sqm_fingerprint (rq_identity r)) \<in> set (lr_keys request)"
    by (auto simp: local_from_operation_def Let_def and_then_Inr_iff split: if_splits)
qed

lemma leased_exclusive:
  assumes "lease_inv t" "leased t a" "leased t b" "job_id_of a \<noteq> job_id_of b"
  shows "id_instance (rq_identity (sj_request a)) \<noteq> id_instance (rq_identity (sj_request b))"
    "id_target_interface (rq_identity (sj_request a)) \<noteq> id_target_interface (rq_identity (sj_request b))"
    "id_sqm_fingerprint (rq_identity (sj_request a)) \<noteq> id_sqm_fingerprint (rq_identity (sj_request b))"
    "\<not> (jj_heavy_lease_acquired (sj_journal a) \<and> jj_heavy_lease_acquired (sj_journal b))"
proof -
  obtain ra rb where r: "from_journalled_operation (sj_request a) (jj_heavy_lease_acquired (sj_journal a)) = Ok ra"
      "lt_jobs t (job_id_of a) = Some (lr_keys ra)"
      "from_journalled_operation (sj_request b) (jj_heavy_lease_acquired (sj_journal b)) = Ok rb"
      "lt_jobs t (job_id_of b) = Some (lr_keys rb)"
    using assms(2,3) by (auto simp: leased_def)
  have "k \<notin> set (lr_keys rb)" if "k \<in> set (lr_keys ra)" for k
    using lease_inv_unique [OF assms(1) r(2) that r(4)] assms(4) by metis
  then show "id_instance (rq_identity (sj_request a)) \<noteq> id_instance (rq_identity (sj_request b))"
    "id_target_interface (rq_identity (sj_request a)) \<noteq> id_target_interface (rq_identity (sj_request b))"
    "id_sqm_fingerprint (rq_identity (sj_request a)) \<noteq> id_sqm_fingerprint (rq_identity (sj_request b))"
    "\<not> (jj_heavy_lease_acquired (sj_journal a) \<and> jj_heavy_lease_acquired (sj_journal b))"
    using from_journalled_operation_request(2-) [OF r(1)] from_journalled_operation_request(2-) [OF r(3)]
      from_journalled_operation_keys(2) [OF r(1)] from_journalled_operation_keys(2) [OF r(3)]
    by metis+
qed

lemma startup_leases_Cons:
  assumes "startup_leases (job # jobs) t = (t', [])" "active_job job"
  obtains request t1 where "from_journalled_operation (sj_request job) (jj_heavy_lease_acquired (sj_journal job)) = Ok request"
    "lease_acquire t request = Inr t1" "startup_leases jobs t1 = (t', [])"
  using assms by (auto simp: active_job_def split: sum.splits prod.splits)

lemma startup_leases_rebuild:
  assumes "startup_leases jobs t = (t', [])" "lease_inv t"
  shows "lease_inv t' \<and> (\<forall>i ks. lt_jobs t i = Some ks \<longrightarrow> lt_jobs t' i = Some ks)
    \<and> (\<forall>job\<in>set jobs. active_job job \<longrightarrow> leased t' job \<and> lt_jobs t (job_id_of job) = None)
    \<and> distinct (map job_id_of (filter active_job jobs))
    \<and> (\<forall>i. lt_jobs t' i \<noteq> None \<longrightarrow> lt_jobs t i \<noteq> None \<or> (\<exists>job\<in>set jobs. active_job job \<and> job_id_of job = i))"
  using assms
proof (induction jobs arbitrary: t)
  case Nil
  then show ?case by simp
next
  case (Cons job jobs)
  show ?case
  proof (cases "active_job job")
    case False
    then have "startup_leases jobs t = (t', [])" using Cons.prems(1) by (simp add: active_job_def)
    then show ?thesis using Cons.IH [OF _ Cons.prems(2)] False by auto
  next
    case True
    obtain request t1 where r: "from_journalled_operation (sj_request job) (jj_heavy_lease_acquired (sj_journal job)) = Ok request"
        "lease_acquire t request = Inr t1" "startup_leases jobs t1 = (t', [])"
      by (rule startup_leases_Cons [OF Cons.prems(1) True])
    have "lease_inv t1" by (rule lease_acquire_inv [OF Cons.prems(2) from_journalled_operation_keys(1) [OF r(1)] r(2)])
    note IH = Cons.IH [OF r(3) this]
    have t1: "lt_jobs t (job_id_of job) = None" "lt_jobs t1 = (lt_jobs t)(job_id_of job \<mapsto> lr_keys request)"
      using r(2) from_journalled_operation_request(1) [OF r(1)] by (auto simp: lease_acquire_Ok_iff)
    have leased: "leased t' job" using IH r(1) t1(2) by (auto simp: leased_def)
    have other: "job_id_of b \<noteq> job_id_of job \<and> lt_jobs t (job_id_of b) = None" if "b \<in> set jobs" "active_job b" for b
      using IH that t1(2) by (metis fun_upd_apply option.distinct(1))
    show ?thesis
    proof (intro conjI allI impI ballI)
      show "lt_jobs t i \<noteq> None \<or> (\<exists>job\<in>set (job # jobs). active_job job \<and> job_id_of job = i)" if "lt_jobs t' i \<noteq> None" for i
        using IH that t1(2) True by (cases "i = job_id_of job") (auto split: if_splits)
      show "lt_jobs t' i = Some ks" if "lt_jobs t i = Some ks" for i ks
        using IH that t1 by (metis fun_upd_apply option.distinct(1))
      show "distinct (map job_id_of (filter active_job (job # jobs)))" using IH True other by (fastforce simp: image_iff)
    qed (use IH leased other t1 in \<open>auto split: if_splits\<close>)
  qed
qed

section \<open>The jobs after a start\<close>

lemma persist_change_Ok:
  "persist_change sha256 outcome store (journal_apply e j) = (store', Inr j') \<Longrightarrow> journal_step j j'"
  by (auto simp: persist_change_def and_then_Inr_iff split: prod.splits sum.splits intro: journal_step.intros)

lemma startup_job_frame:
  assumes "startup_job sha256 io store job = (store', job', issues)"
  shows "sj_request job' = sj_request job" "jj_job_id (sj_journal job') = jj_job_id (sj_journal job)"
proof -
  obtain store1 job1 i1 where adopt: "startup_adopt (su_adopt io) store job = (store1, job1, i1)"
    by (cases "startup_adopt (su_adopt io) store job")
  obtain store2 job2 i2 where settle: "startup_settle sha256 (su_settle io) store1 job1 = (store2, job2, i2)"
    by (cases "startup_settle sha256 (su_settle io) store1 job1")
  have recover: "startup_recover sha256 (su_recover io) store2 job2 = (store', job', drop (length (i1 @ i2)) issues)"
    using assms adopt settle by (auto simp: startup_job_def split: prod.splits)
  have "sj_request job1 = sj_request job \<and> jj_job_id (sj_journal job1) = jj_job_id (sj_journal job)"
    using adopt by (auto simp: startup_adopt_def adopt_generation_def adopt_change_def Let_def and_then_Inr_iff
        split: if_splits prod.splits sum.splits)
  moreover have "sj_request job2 = sj_request job1 \<and> jj_job_id (sj_journal job2) = jj_job_id (sj_journal job1)"
    using settle journal_step_frame(1)
      persist_change_Ok [of sha256 _ _ "SettleTerminal ''failed'' (Some ''native-worker-disappeared'')"]
    by (fastforce simp: startup_settle_def Let_def split: if_splits prod.splits sum.splits)
  moreover have "sj_request job' = sj_request job2 \<and> jj_job_id (sj_journal job') = jj_job_id (sj_journal job2)"
    using recover journal_step_frame(1) persist_change_Ok [of sha256 _ _ "RequireRecovery ''startup-reconciliation-required''"]
    by (fastforce simp: startup_recover_def Let_def split: if_splits prod.splits sum.splits)
  ultimately show "sj_request job' = sj_request job" "jj_job_id (sj_journal job') = jj_job_id (sj_journal job)" by simp_all
qed

lemma startup_jobs_frame:
  "startup_jobs sha256 io store jobs = (store', jobs', issues) \<Longrightarrow>
   list_all2 (\<lambda>job job'. sj_request job' = sj_request job \<and> jj_job_id (sj_journal job') = jj_job_id (sj_journal job)) jobs jobs'"
proof (induction jobs arbitrary: store store' jobs' issues)
  case (Cons job jobs)
  then show ?case using startup_job_frame by (fastforce split: prod.splits)
qed simp

lemma list_all2_source: "list_all2 P xs ys \<Longrightarrow> y \<in> set ys \<Longrightarrow> \<exists>x\<in>set xs. P x y"
  by (induction rule: list_all2_induct) auto

lemma scan_entries_safe:
  "scan_unsafe_entries (scan_entries rs) = [] \<Longrightarrow> rs = map Ok (scan_jobs (scan_entries rs))"
  by (induction rs rule: scan_entries.induct) auto

lemma scan_entries_jobs: "job \<in> set (scan_jobs (scan_entries rs)) \<longleftrightarrow> Ok job \<in> set rs"
  by (induction rs rule: scan_entries.induct) auto

lemma scan_entries_unsafe: "e \<in> set (scan_unsafe_entries (scan_entries rs)) \<longleftrightarrow> Err e \<in> set rs"
  by (induction rs rule: scan_entries.induct) auto

lemma scan_entry_identity:
  "scan_entry sha256 alive store entry = Ok job \<Longrightarrow> jj_job_id (sj_journal job) = job_id_of job"
  by (auto simp: scan_entry_def scan_one_def Let_def and_then_Inr_iff split: sum.splits if_splits)

text \<open>The parts of a bound daemon.\<close>

lemma bind_jobs_Ok:
  assumes "bind_jobs sha256 alive io store listing requested = Ok daemon"
  obtains scan store' jobs issues leases lease_issues where
    "scan = scan_entries (map (scan_entry sha256 alive store) listing)" "length listing \<le> MAX_JOURNAL_DIRECTORY_ENTRIES"
    "startup_jobs sha256 io store
       (sort_key (\<lambda>job. (jj_sequence (sj_journal job), jj_job_id (sj_journal job))) (scan_jobs scan)) = (store', jobs, issues)"
    "startup_leases jobs table_default = (leases, lease_issues)"
    "cd_store daemon = store'" "cd_jobs daemon = jobs" "cd_leases daemon = leases"
    "cd_startup_issues daemon = scan_unsafe_entries scan @ issues @ lease_issues"
  using assms
  by (auto simp: bind_jobs_def store_scan_def Let_def and_then_Inr_iff split: if_splits prod.splits)

lemma bind_jobs_unsafe:
  assumes "bind_jobs sha256 alive io store listing requested = Ok daemon" "entry \<in> set listing" "scan_entry sha256 alive store entry = Err e"
  shows "e \<in> set (cd_startup_issues daemon)"
proof -
  have "Err e \<in> set (map (scan_entry sha256 alive store) listing)"
    using assms(2,3) by (metis image_eqI list.set_map)
  then have "e \<in> set (scan_unsafe_entries (scan_entries (map (scan_entry sha256 alive store) listing)))"
    by (simp only: scan_entries_unsafe)
  moreover obtain scan issues where "scan = scan_entries (map (scan_entry sha256 alive store) listing)"
      "cd_startup_issues daemon = scan_unsafe_entries scan @ issues"
    by (rule bind_jobs_Ok [OF assms(1)]) blast
  ultimately show ?thesis by simp
qed

lemma bound_daemon_inv:
  assumes "bind_jobs sha256 alive io store listing requested = Ok daemon" "cd_startup_issues daemon = []"
  shows "daemon_inv daemon" "length (cd_jobs daemon) = length listing"
proof -
  obtain scan store' jobs issues leases lease_issues where b:
    "scan = scan_entries (map (scan_entry sha256 alive store) listing)" "length listing \<le> MAX_JOURNAL_DIRECTORY_ENTRIES"
    "startup_jobs sha256 io store
       (sort_key (\<lambda>job. (jj_sequence (sj_journal job), jj_job_id (sj_journal job))) (scan_jobs scan)) = (store', jobs, issues)"
    "startup_leases jobs table_default = (leases, lease_issues)"
    "cd_store daemon = store'" "cd_jobs daemon = jobs" "cd_leases daemon = leases"
    "cd_startup_issues daemon = scan_unsafe_entries scan @ issues @ lease_issues"
    by (rule bind_jobs_Ok [OF assms(1)])
  note frame = startup_jobs_frame [OF b(3)]
  have "jj_job_id (sj_journal job) = job_id_of job" if member: "job \<in> set jobs" for job
  proof -
    obtain job0 where "job0 \<in> set (scan_jobs scan)" "sj_request job = sj_request job0"
        "jj_job_id (sj_journal job) = jj_job_id (sj_journal job0)"
      using list_all2_source [OF frame member] by auto
    then show ?thesis using scan_entry_identity by (fastforce simp: b(1) scan_entries_jobs)
  qed
  moreover have "startup_leases jobs table_default = (leases, [])" using b(4,8) assms(2) by simp
  note leases = startup_leases_rebuild [OF this table_default_inv]
  ultimately show "daemon_inv daemon"
    unfolding daemon_inv_def b(6,7) using leases by (auto simp: table_default_def)
  have "length jobs = length (scan_jobs scan)" using list_all2_lengthD [OF frame] by simp
  moreover have "length (scan_jobs scan) = length listing"
    using scan_entries_safe [of "map (scan_entry sha256 alive store) listing"] b(1,8) assms(2)
    by (metis append_is_Nil_conv length_map)
  ultimately show "length (cd_jobs daemon) = length listing" using b(6) by simp
qed

section \<open>Retention and admission\<close>

lemma retire_settled_job_coordinator:
  "retire_settled_job sha256 alive io store job = (store', r) \<Longrightarrow> js_coordinator store' = js_coordinator store"
  by (auto simp: retire_settled_job_def rename_job_def remove_job_def Let_def split: sum.splits removal_outcome.splits)

text \<open>What retention can change: it drops records by job id, and nothing else that admission reads.\<close>

definition dropped :: "string set \<Rightarrow> calibration_daemon \<Rightarrow> calibration_daemon \<Rightarrow> bool" where
  "dropped ids daemon daemon' \<longleftrightarrow>
     cd_jobs daemon' = filter (\<lambda>job. jj_job_id (sj_journal job) \<notin> ids) (cd_jobs daemon)
     \<and> cd_leases daemon' = cd_leases daemon \<and> js_coordinator (cd_store daemon') = js_coordinator (cd_store daemon)"

lemma dropped_trans: "dropped a d d1 \<Longrightarrow> dropped b d1 d2 \<Longrightarrow> dropped (a \<union> b) d d2"
  by (auto simp: dropped_def intro!: filter_cong)

lemma retire_candidates_dropped:
  "retire_candidates sha256 alive archived io candidates daemon = (daemon', r) \<Longrightarrow>
   \<exists>ids. ids \<subseteq> (\<lambda>job. jj_job_id (sj_journal job)) ` set candidates \<and> dropped ids daemon daemon'"
proof (induction candidates arbitrary: daemon daemon' r)
  case Nil
  then show ?case by (intro exI [of _ "{}"]) (auto simp: dropped_def)
next
  case (Cons job jobs)
  let ?id = "jj_job_id (sj_journal job)"
  obtain store r1 where store: "retire_settled_job sha256 alive (io ?id) (cd_store daemon) job = (store, r1)" by fastforce
  let ?next = "daemon\<lparr>cd_store := store, cd_jobs := filter (\<lambda>retained. jj_job_id (sj_journal retained) \<noteq> ?id) (cd_jobs daemon),
     cd_job_errors := (cd_job_errors daemon)(?id := None)\<rparr>"
  have coordinator: "js_coordinator store = js_coordinator (cd_store daemon)" by (rule retire_settled_job_coordinator [OF store])
  then have step: "dropped {?id} daemon ?next" by (simp add: dropped_def)
  consider "daemon' = daemon" | "daemon' = daemon\<lparr>cd_store := store\<rparr>"
    | r2 where "retire_candidates sha256 alive archived io jobs ?next = (daemon', r2)"
    using Cons.prems store by (auto simp: Let_def split: sum.splits prod.splits if_splits)
  then show ?case
  proof cases
    case 3
    then obtain ids where "ids \<subseteq> (\<lambda>job. jj_job_id (sj_journal job)) ` set jobs" "dropped ids ?next daemon'"
      using Cons.IH by blast
    then show ?thesis using dropped_trans [OF step] by (intro exI [of _ "{?id} \<union> ids"]) auto
  qed (use coordinator in \<open>auto simp: dropped_def intro!: exI [of _ "{}"]\<close>)
qed

lemma dropped_inv:
  assumes "daemon_inv daemon" "dropped ids daemon daemon'" "\<forall>i\<in>ids. lt_jobs (cd_leases daemon) i = None"
  shows "daemon_inv daemon'" "\<forall>job\<in>set (cd_jobs daemon). active_job job \<longrightarrow> job \<in> set (cd_jobs daemon')"
proof -
  have kept: "job \<in> set (cd_jobs daemon')" if "job \<in> set (cd_jobs daemon)" "active_job job" for job
  proof -
    have "leased (cd_leases daemon) job" "jj_job_id (sj_journal job) = job_id_of job"
      using assms(1) that by (auto simp: daemon_inv_def)
    then have "jj_job_id (sj_journal job) \<notin> ids" using assms(3) by (auto simp: leased_def)
    then show ?thesis using assms(2) that by (simp add: dropped_def)
  qed
  then show "\<forall>job\<in>set (cd_jobs daemon). active_job job \<longrightarrow> job \<in> set (cd_jobs daemon')" by blast
  have same: "cd_leases daemon' = cd_leases daemon" "set (cd_jobs daemon') \<subseteq> set (cd_jobs daemon)"
    using assms(2) by (auto simp: dropped_def)
  have "filter active_job (cd_jobs daemon') = filter active_job (cd_jobs daemon)"
    using kept assms(2) by (auto simp: dropped_def intro!: filter_cong)
  moreover have "\<exists>job\<in>set (cd_jobs daemon'). active_job job \<and> job_id_of job = i" if "lt_jobs (cd_leases daemon) i \<noteq> None" for i
    using assms(1) kept that unfolding daemon_inv_def by blast
  ultimately show "daemon_inv daemon'"
    using assms(1) same unfolding daemon_inv_def by auto
qed

lemma prune_settled_history_inv:
  assumes "daemon_inv daemon" "prune_settled_history sha256 alive archived io daemon = (daemon', r)"
  shows "daemon_inv daemon' \<and> cd_leases daemon' = cd_leases daemon \<and> set (cd_jobs daemon') \<subseteq> set (cd_jobs daemon)
    \<and> js_coordinator (cd_store daemon') = js_coordinator (cd_store daemon)
    \<and> (\<forall>job\<in>set (cd_jobs daemon). active_job job \<longrightarrow> job \<in> set (cd_jobs daemon'))"
proof (cases "length (cd_jobs daemon) - JOURNAL_RETENTION_TARGET = 0")
  case True
  then have "daemon' = daemon" using assms(2) by (simp add: prune_settled_history_def)
  then show ?thesis using assms(1) by simp
next
  case False
  let ?candidates = "take (length (cd_jobs daemon) - JOURNAL_RETENTION_TARGET) (retention_candidates daemon)"
  obtain daemon1 r1 where retired: "retire_candidates sha256 alive archived io ?candidates daemon = (daemon1, r1)"
    by (rule prod.exhaust)
  then have "daemon1 = daemon'"
    using assms(2) False by (cases r1) (simp_all add: prune_settled_history_def Let_def split: if_splits)
  with retired have "retire_candidates sha256 alive archived io ?candidates daemon = (daemon', r1)" by simp
  from retire_candidates_dropped [OF this] obtain ids
    where ids: "ids \<subseteq> (\<lambda>job. jj_job_id (sj_journal job)) ` set ?candidates" "dropped ids daemon daemon'" by blast
  have free: "lt_jobs (cd_leases daemon) (jj_job_id (sj_journal job)) = None" if "job \<in> set ?candidates" for job
    using in_set_takeD [OF that] by (simp add: retention_candidates_def lease_contains_job_def)
  have "\<forall>i\<in>ids. lt_jobs (cd_leases daemon) i = None"
  proof
    fix i
    assume "i \<in> ids"
    with ids(1) have "i \<in> (\<lambda>job. jj_job_id (sj_journal job)) ` set ?candidates" by (rule subsetD)
    then show "lt_jobs (cd_leases daemon) i = None" by (rule imageE) (simp only: free)
  qed
  note kept = dropped_inv [OF assms(1) ids(2) this]
  moreover have "cd_leases daemon' = cd_leases daemon" "js_coordinator (cd_store daemon') = js_coordinator (cd_store daemon)"
    "set (cd_jobs daemon') \<subseteq> set (cd_jobs daemon)"
    using ids(2) by (auto simp: dropped_def)
  ultimately show ?thesis by simp
qed

lemma acquire_release:
  assumes "lease_inv t" "keys_ok (lr_keys request)" "lease_acquire t request = Inr t1"
  shows "lease_release t1 (lr_job_id request) = (t, Ok ())"
proof -
  have t1: "lt_jobs t (lr_job_id request) = None" "\<forall>k\<in>set (lr_keys request). lt_owners t k = None"
      "t1 = t\<lparr>lt_owners := insert_owners (lr_job_id request) (lr_keys request) (lt_owners t),
              lt_jobs := (lt_jobs t)(lr_job_id request \<mapsto> lr_keys request)\<rparr>"
    using assms(3) by (simp_all add: lease_acquire_Ok_iff)
  have free: "lt_owners t k \<noteq> Some (lr_job_id request)" for k using t1(1) lease_inv_owner [OF assms(1), of k] by simp
  have "(\<lambda>k. if lt_owners t1 k = Some (lr_job_id request) then None else lt_owners t1 k) = lt_owners t"
    using t1(2,3) free by (auto simp: fun_eq_iff)
  moreover have "(lt_jobs t1)(lr_job_id request := None) = lt_jobs t" using t1(1,3) by (auto simp: fun_eq_iff)
  ultimately show ?thesis
    using lease_release_owned [OF lease_acquire_inv [OF assms], of "lr_job_id request"] t1(3)
    by (cases t) simp
qed

lemma local_is_journalled: "from_journalled_operation r False = local_from_operation r"
  by (cases "local_from_operation r") (simp_all add: from_journalled_operation_def)

text \<open>The last part of an admission.\<close>

lemma admit_job_cases:
  assumes "daemon_inv daemon" "admit_job sha256 io boot_clock daemon request = (daemon', reply)"
    "\<forall>job\<in>set (cd_jobs daemon). job_id_of job \<noteq> id_job_id (rq_identity request)"
  obtains (refused) "cd_leases daemon' = cd_leases daemon" "cd_jobs daemon' = cd_jobs daemon" "\<forall>job b. reply \<noteq> JobReply job b"
  | (admitted) lease leases journal store' where "from_journalled_operation request False = Ok lease"
      "lease_acquire (cd_leases daemon) lease = Inr leases"
      "journal_queued request (js_coordinator (cd_store daemon)) (requires_heavy_traffic (rq_operation request)) = Ok journal"
      "store_create sha256 io boot_clock (cd_store daemon) request journal = (store', Ok ())"
      "reply = JobReply \<lparr>sj_request = request, sj_journal = journal, sj_disposition = QueuedJob\<rparr> False"
      "daemon' = daemon\<lparr>cd_store := store', cd_leases := leases,
         cd_jobs := cd_jobs daemon @ [\<lparr>sj_request = request, sj_journal = journal, sj_disposition = QueuedJob\<rparr>]\<rparr>"
proof (cases "local_from_operation request")
  case (Inl e)
  then show thesis using assms(2) refused by (auto simp: admit_job_def)
next
  case (Inr lease)
  then have lease: "from_journalled_operation request False = Ok lease" by (simp add: local_is_journalled)
  have "lease_inv (cd_leases daemon)" using assms(1) by (simp add: daemon_inv_def)
  then have release: "fst (lease_release leases (id_job_id (rq_identity request))) = cd_leases daemon"
    if "lease_acquire (cd_leases daemon) lease = Inr leases" for leases
    using acquire_release [OF _ from_journalled_operation_keys(1) [OF lease] that]
      from_journalled_operation_request(1) [OF lease] by simp
  show thesis
  proof (cases "lease_acquire (cd_leases daemon) lease")
    case (Inl e)
    then show thesis using assms(2) Inr refused by (auto simp: admit_job_def)
  next
    case leases: (Inr leases)
    show thesis
      using assms(2) Inr leases release [OF leases] refused admitted [OF lease leases]
      by (auto simp: admit_job_def Let_def split: sum.splits prod.splits)
  qed
qed

lemma admitted_inv:
  assumes "daemon_inv daemon" "\<forall>job\<in>set (cd_jobs daemon). job_id_of job \<noteq> id_job_id (rq_identity request)"
    "from_journalled_operation request False = Ok lease" "lease_acquire (cd_leases daemon) lease = Inr leases"
    "jj_job_id journal = id_job_id (rq_identity request)" "\<not> jj_heavy_lease_acquired journal"
    "job = \<lparr>sj_request = request, sj_journal = journal, sj_disposition = QueuedJob\<rparr>"
    "daemon' = daemon\<lparr>cd_store := store, cd_leases := leases, cd_jobs := cd_jobs daemon @ [job]\<rparr>"
  shows "daemon_inv daemon'"
proof -
  have inv: "lease_inv (cd_leases daemon)" using assms(1) by (simp add: daemon_inv_def)
  have "lease_inv leases" by (rule lease_acquire_inv [OF inv from_journalled_operation_keys(1) [OF assms(3)] assms(4)])
  moreover have jobs: "lt_jobs leases = (lt_jobs (cd_leases daemon))(id_job_id (rq_identity request) \<mapsto> lr_keys lease)"
    using assms(4) from_journalled_operation_request(1) [OF assms(3)] by (auto simp: lease_acquire_Ok_iff)
  then have "leased leases job" using assms(3,6,7) by (simp add: leased_def)
  moreover have "leased leases other" if "other \<in> set (cd_jobs daemon)" "active_job other" for other
    using that assms(1,2) jobs by (auto simp: daemon_inv_def leased_def)
  moreover have "active_job job" "job_id_of job = id_job_id (rq_identity request)" "jj_job_id (sj_journal job) = job_id_of job"
    using assms(5,7) by (simp_all add: active_job_def)
  moreover have "\<exists>other\<in>set (cd_jobs daemon). active_job other \<and> job_id_of other = i"
    if "lt_jobs (cd_leases daemon) i \<noteq> None" for i
    using assms(1) that by (auto simp: daemon_inv_def)
  ultimately show ?thesis
    using assms(1,2) jobs unfolding assms(8) daemon_inv_def by (auto split: if_splits)
qed

text \<open>What a reply of the start handler promises.\<close>

definition start_outcome ::
  "(string \<Rightarrow> string) \<Rightarrow> operation_request option \<Rightarrow> calibration_daemon \<Rightarrow> calibration_daemon \<Rightarrow> start_reply \<Rightarrow> bool" where
  "start_outcome sha256 operation daemon daemon' reply =
     (case reply of
        JobReply job True \<Rightarrow> daemon' = daemon \<and> job \<in> set (cd_jobs daemon) \<and> operation = Some (sj_request job)
      | JobReply job False \<Rightarrow>
          operation = Some (sj_request job) \<and> validate_admission_policy True (sj_request job) = Ok ()
          \<and> (\<forall>other\<in>set (cd_jobs daemon). job_id_of other \<noteq> job_id_of job)
          \<and> job \<in> set (cd_jobs daemon') \<and> sj_disposition job = QueuedJob \<and> journal_start (sj_journal job)
          \<and> job_stored sha256 (cd_store daemon') (sj_request job) (sj_journal job)
          \<and> \<not> other_generation (cd_store daemon') (sj_journal job)
          \<and> is_ok (fst (read_deadline (cd_store daemon') (job_id_of job)))
      | _ \<Rightarrow> cd_leases daemon' = cd_leases daemon \<and> set (cd_jobs daemon') \<subseteq> set (cd_jobs daemon))"

lemma admit_job_outcome:
  assumes "daemon_inv daemon" "admit_job sha256 io boot_clock daemon request = (daemon', reply)"
    "\<forall>job\<in>set (cd_jobs daemon). job_id_of job \<noteq> id_job_id (rq_identity request)" "validate_admission_policy True request = Ok ()"
  shows "daemon_inv daemon' \<and> start_outcome sha256 (Some request) daemon daemon' reply \<and> set (cd_jobs daemon) \<subseteq> set (cd_jobs daemon')"
  using assms(1-3)
proof (cases rule: admit_job_cases)
  case refused
  then have "daemon_inv daemon'" using assms(1) by (simp add: daemon_inv_def)
  then show ?thesis using refused by (cases reply) (auto simp: start_outcome_def)
next
  case (admitted lease leases journal store')
  let ?job = "\<lparr>sj_request = request, sj_journal = journal, sj_disposition = QueuedJob\<rparr>"
  have journal: "jj_job_id journal = id_job_id (rq_identity request)" "\<not> jj_heavy_lease_acquired journal" "journal_start journal"
    using admitted(3) by (auto simp: journal_queued_def journal_start_def Let_def and_then_Inr_iff)
  note stored = create_stored [OF admitted(4)]
  have "daemon_inv daemon'" by (rule admitted_inv [OF assms(1,3) admitted(1,2) journal(1,2) refl admitted(6)])
  moreover have "start_outcome sha256 (Some request) daemon daemon' reply"
    using stored journal assms(3,4) by (auto simp: start_outcome_def admitted(5,6) other_generation_def)
  ultimately show ?thesis by (auto simp: admitted(6))
qed

text \<open>A concrete daemon without jobs, and the sample request as its first start.\<close>

definition sample_daemon :: calibration_daemon where
  "sample_daemon =
     \<lparr>cd_store = \<lparr>js_jobs_dir = ''/jobs'', js_jobs = [], js_coordinator = sample_coordinator, js_deadlines = Map.empty\<rparr>,
      cd_jobs = [], cd_leases = table_default, cd_startup_issues = [], cd_admission_requested = True, cd_native_rating = True,
      cd_native_speedtest = True, cd_native_autotune = True, cd_native_children = [], cd_bootstrap_runtime_children = [],
      cd_cancellations = [], cd_job_errors = Map.empty\<rparr>"

definition sample_create_io :: create_io where
  "sample_create_io = \<lparr>io_create_dir = Ok (), io_permissions = Ok (), io_request = Published, io_anchor = Published, io_state = Published\<rparr>"

lemma sample_create_guards: "\<exists>a. create_guards (cd_store sample_daemon) sample_request sample_queued (Ok 5000) = Ok a"
proof -
  have "journal_validate sample_queued = Ok ()"
    using sample_queued_created by (auto simp: journal_queued_def Let_def and_then_Inr_iff)
  moreover obtain a where "anchor_admit sample_request (sample_hex 32) 5000 = Ok a"
    by (simp add: anchor_admit_def anchor_after_def sample_request_def checked_sub_def checked_add_def)
  ultimately have "create_guards (cd_store sample_daemon) sample_request sample_queued (Ok 5000) = Ok a"
    by (simp add: create_guards_def sample_request_valid sample_request_admitted identity_differs_def other_generation_def
        sample_daemon_def sample_coordinator_def) (simp add: sample_request_def sample_queued_def)
  then show ?thesis by blast
qed

lemma sample_start_admits:
  "\<exists>daemon' job. start_job sample_sha (\<lambda>p. Ok True) (\<lambda>job. Ok ()) retire_ios sample_create_io (Ok 5000) sample_daemon (Some sample_request)
     = (daemon', JobReply job False)"
proof -
  have operation: "rq_operation sample_request = Speedtest" by (simp add: sample_request_def)
  obtain lease where lease: "local_from_operation sample_request = Ok lease"
    using sample_lease_journalled by (auto simp: from_journalled_operation_def and_then_Inr_iff)
  have acquire: "\<exists>t. lease_acquire table_default lease = Inr t"
    by (auto simp: lease_acquire_Ok_iff table_default_def)
  have queued: "journal_queued sample_request sample_coordinator (requires_heavy_traffic Speedtest) = Ok sample_queued"
    using sample_queued_created by (simp add: requires_heavy_traffic_def)
  then have valid: "journal_validate sample_queued = Ok ()"
    by (auto simp: journal_queued_def Let_def and_then_Inr_iff)
  obtain a where guards: "create_guards (cd_store sample_daemon) sample_request sample_queued (Ok 5000) = Ok a"
    using sample_create_guards by blast
  obtain rtext where rtext: "request_encode sample_sha sample_request = Ok rtext"
    using request_encode_always_replays [of sample_sha, OF _ sample_request_valid] by (auto simp: sample_sha_def)
  obtain jtext where jtext: "journal_encode sample_queued = Ok jtext" using valid by (auto simp: encode_iff)
  have "\<exists>store'. store_create sample_sha sample_create_io (Ok 5000) (cd_store sample_daemon) sample_request sample_queued = (store', Ok ())"
    using guards rtext jtext request_encode_text(2) [OF rtext] journal_encode_text(2) [OF jtext]
    by (simp add: store_create_def sample_daemon_def sample_create_io_def job_dir_def and_write_def write_text_def journal_write_def
        write_anchor_def publish_file_def Let_def)
  moreover have "supports_native_request sample_daemon sample_request" "traffic_admission sample_request = Ok ()"
    by (simp_all add: supports_native_request_def traffic_admission_def operation Let_def sample_daemon_def)
      (simp add: sample_request_def)
  moreover have "admission_available sample_daemon" "cd_jobs sample_daemon = []" "cd_leases sample_daemon = table_default"
      "js_coordinator (cd_store sample_daemon) = sample_coordinator"
    by (simp_all add: admission_available_def sample_daemon_def)
  ultimately show ?thesis
    using lease acquire queued operation sample_request_admitted
    by (auto simp: start_job_def prune_settled_history_def admit_job_def Let_def)
qed

lemma start_job_outcome:
  assumes "daemon_inv daemon"
    "start_job sha256 alive archived retire_ios io boot_clock daemon operation = (daemon', reply)"
  shows "daemon_inv daemon' \<and> start_outcome sha256 operation daemon daemon' reply
    \<and> (\<forall>job\<in>set (cd_jobs daemon). active_job job \<longrightarrow> job \<in> set (cd_jobs daemon'))"
proof (cases "daemon' = daemon \<and> (\<forall>job. reply \<noteq> JobReply job False)")
  case True
  have "start_outcome sha256 operation daemon daemon' reply"
  proof (cases reply)
    case (JobReply job existing)
    then show ?thesis
      using True assms(2) by (cases existing) (auto simp: start_job_def start_outcome_def admit_job_def Let_def find_Some_iff
          split: if_splits option.splits sum.splits prod.splits)
  qed (use True in \<open>simp_all add: start_outcome_def\<close>)
  then show ?thesis using True assms(1) by simp
next
  case False
  obtain request where request: "operation = Some request" "validate_admission_policy True request = Ok ()"
      "find (\<lambda>job. job_id_of job = id_job_id (rq_identity request)) (cd_jobs daemon) = None"
    using False assms(2) by (auto simp: start_job_def split: if_splits option.splits sum.splits)
  have fresh: "\<forall>job\<in>set (cd_jobs daemon). job_id_of job \<noteq> id_job_id (rq_identity request)"
    using request(3) by (auto simp: find_None_iff)
  obtain pruned r where prune: "prune_settled_history sha256 alive archived retire_ios daemon = (pruned, r)"
    by (rule prod.exhaust)
  note kept = prune_settled_history_inv [OF assms(1) prune]
  consider e where "daemon' = pruned" "reply = StartError ''journal-retention-failed'' e"
    | "admit_job sha256 io boot_clock pruned request = (daemon', reply)"
    using False assms(2) request prune by (auto simp: start_job_def split: if_splits sum.splits)
  then show ?thesis
  proof cases
    case 1
    then show ?thesis using kept by (simp add: start_outcome_def)
  next
    case 2
    have "\<forall>job\<in>set (cd_jobs pruned). job_id_of job \<noteq> id_job_id (rq_identity request)" using kept fresh by blast
    then have admitted: "daemon_inv daemon'" "start_outcome sha256 (Some request) pruned daemon' reply"
        "set (cd_jobs pruned) \<subseteq> set (cd_jobs daemon')"
      using admit_job_outcome [OF _ 2 _ request(2)] kept by blast+
    moreover have "start_outcome sha256 (Some request) daemon daemon' reply"
      using admitted(2) kept fresh False by (cases reply) (auto simp: start_outcome_def split: bool.splits)
    ultimately show ?thesis using kept request(1) by blast
  qed
qed

text \<open>Two jobs that share no resource of the router.\<close>

definition exclusive_jobs :: "scanned_job \<Rightarrow> scanned_job \<Rightarrow> bool" where
  "exclusive_jobs a b \<longleftrightarrow>
     id_instance (rq_identity (sj_request a)) \<noteq> id_instance (rq_identity (sj_request b))
     \<and> id_target_interface (rq_identity (sj_request a)) \<noteq> id_target_interface (rq_identity (sj_request b))
     \<and> id_sqm_fingerprint (rq_identity (sj_request a)) \<noteq> id_sqm_fingerprint (rq_identity (sj_request b))
     \<and> \<not> (jj_heavy_lease_acquired (sj_journal a) \<and> jj_heavy_lease_acquired (sj_journal b))"

lemma daemon_inv_exclusive:
  assumes "daemon_inv daemon" "a \<in> set (cd_jobs daemon)" "b \<in> set (cd_jobs daemon)" "active_job a" "active_job b"
    "job_id_of a \<noteq> job_id_of b"
  shows "exclusive_jobs a b"
proof -
  have "lease_inv (cd_leases daemon)" "leased (cd_leases daemon) a" "leased (cd_leases daemon) b"
    using assms(1-5) by (auto simp: daemon_inv_def)
  from leased_exclusive [OF this assms(6)] show ?thesis by (simp add: exclusive_jobs_def)
qed

text \<open>The daemons that bound without an issue, with the native operations their command line enables, and the
  start requests they handle.\<close>

definition daemon_start :: "calibration_daemon \<Rightarrow> bool" where
  "daemon_start daemon \<longleftrightarrow>
     (\<exists>sha256 alive io store listing requested bound rating speedtest autotune.
        bind_jobs sha256 alive io store listing requested = Ok bound \<and> cd_startup_issues bound = []
        \<and> daemon = bound\<lparr>cd_native_rating := rating, cd_native_speedtest := speedtest, cd_native_autotune := autotune\<rparr>)"

inductive daemon_step :: "calibration_daemon \<Rightarrow> calibration_daemon \<Rightarrow> bool" where
  "start_job sha256 alive archived retire_ios io boot_clock daemon operation = (daemon', reply) \<Longrightarrow> daemon_step daemon daemon'"

inductive_cases daemon_stepE: "daemon_step daemon daemon'"

interpretation daemon_machine: invariant_machine daemon_start daemon_step daemon_inv
proof
  show "daemon_inv daemon" if start: "daemon_start daemon" for daemon
  proof -
    obtain sha256 alive io store listing requested bound rating speedtest autotune where bound:
        "bind_jobs sha256 alive io store listing requested = Ok bound" "cd_startup_issues bound = []"
        "daemon = bound\<lparr>cd_native_rating := rating, cd_native_speedtest := speedtest, cd_native_autotune := autotune\<rparr>"
      using start unfolding daemon_start_def by blast
    then show ?thesis using bound_daemon_inv(1) [OF bound(1,2)] by (simp add: daemon_inv_def)
  qed
  show "daemon_inv daemon'" if "daemon_inv daemon" "daemon_step daemon daemon'" for daemon daemon'
    using that(2) by (rule daemon_stepE) (use start_job_outcome [OF that(1)] in blast)
qed

lemma sample_daemon_reachable: "reachable_from daemon_start daemon_step sample_daemon"
proof (rule reachable_from_start)
  let ?bound = "sample_daemon\<lparr>cd_native_rating := False, cd_native_speedtest := False, cd_native_autotune := False\<rparr>"
  have "bind_jobs sample_sha (\<lambda>p. Ok True) (\<lambda>i. all_published) (cd_store sample_daemon) [] True = Ok ?bound"
    by (simp add: bind_jobs_def store_scan_def sample_daemon_def Let_def)
  moreover have "sample_daemon = ?bound\<lparr>cd_native_rating := True, cd_native_speedtest := True, cd_native_autotune := True\<rparr>"
    "cd_startup_issues ?bound = []"
    by (simp_all add: sample_daemon_def)
  ultimately show "daemon_start sample_daemon" unfolding daemon_start_def by blast
qed

section \<open>Properties\<close>

text \<open>C27: a daemon that is ready for admission has accounted for every job. If after the start of the daemon
  admission is available, then every entry of the journal directory was read as a job, none of them
  needs recovery or belongs to another boot, the unsettled jobs hold exactly the leases of their
  requests and nobody else holds any, and two different unsettled jobs share neither instance, target
  interface, SQM runtime nor the heavy-traffic lease.\<close>

theorem admission_follows_reconciliation:
  assumes "bind_jobs sha256 alive io store listing requested = Ok daemon" "admission_available daemon"
  shows "length (cd_jobs daemon) = length listing \<and> daemon_inv daemon
    \<and> (\<forall>job\<in>set (cd_jobs daemon). sj_disposition job \<notin> {RecoveryRequired, StaleBoot})
    \<and> (\<forall>a\<in>set (cd_jobs daemon). \<forall>b\<in>set (cd_jobs daemon). active_job a \<and> active_job b \<and> job_id_of a \<noteq> job_id_of b \<longrightarrow>
        exclusive_jobs a b)"
proof -
  have "cd_startup_issues daemon = []" using assms(2) by (simp add: admission_available_def)
  note bound = bound_daemon_inv [OF assms(1) this]
  have "\<forall>job\<in>set (cd_jobs daemon). sj_disposition job \<notin> {RecoveryRequired, StaleBoot}"
    using assms(2) by (auto simp: admission_available_def list_ex_iff)
  with bound show ?thesis using daemon_inv_exclusive by blast
qed

theorem admission_follows_reconciliation_witness:
  "\<exists>daemon. bind_jobs sample_sha (\<lambda>p. Ok True) (\<lambda>i. all_published) (sample_journal_store sample_mutated
        \<lparr>js_coordinator := sample_coordinator\<rparr>) [Ok (sample_hex 32, sample_directory sample_mutated)] True = Ok daemon
     \<and> length (cd_jobs daemon) = 1 \<and> daemon_inv daemon"
proof -
  let ?store = "sample_journal_store sample_mutated\<lparr>js_coordinator := sample_coordinator\<rparr>"
  let ?job = "\<lparr>sj_request = sample_request, sj_journal = sample_mutated, sj_disposition = LiveProcess\<rparr>"
  have fields: "jj_job_id sample_mutated = sample_hex 32" "jj_instance sample_mutated = ''wan''"
    "jj_target_interface sample_mutated = ''pppoe-wan''" "jj_sqm_fingerprint sample_mutated = sample_hex 64"
    "jj_heavy_lease_acquired sample_mutated"
    by (simp_all add: sample_mutated_def sample_queued_def)
  have "journal_validate sample_mutated = Ok ()"
    using journal_machine.reachable_inv [OF sample_mutated_reachable] by (simp add: journal_inv_def)
  then have "job_stored sample_sha ?store sample_request sample_mutated"
    using sample_stored [OF _ fields(1-4)] by (simp add: job_stored_def job_dir_def job_path_def)
  moreover have "disposition_of sample_coordinator (\<lambda>p. Ok True) sample_mutated = LiveProcess"
    by (simp add: disposition_of_def sample_mutated_def sample_queued_def sample_coordinator_def terminal_def)
  moreover have "job_dir ?store (jj_job_id sample_mutated) = Some (sample_directory sample_mutated)"
    using fields(1) by (simp add: sample_journal_store_def job_dir_def)
  ultimately have "scan_entry sample_sha (\<lambda>p. Ok True) ?store (Ok (sample_hex 32, sample_directory sample_mutated)) = Ok ?job"
    using scan_entry_stored [OF _ sample_request_admitted, of sample_sha ?store sample_mutated _ "\<lambda>p. Ok True"] fields(1) by simp
  moreover have "startup_job sample_sha all_published ?store ?job = (?store, ?job, [])"
    by (simp add: startup_job_def startup_adopt_def startup_settle_def startup_recover_def Let_def)
      (simp add: sample_mutated_def sample_queued_def sample_coordinator_def)
  moreover have "startup_leases [?job] table_default = (sample_table, [])"
    using sample_lease_journalled sample_table_acquired fields(5) by simp
  ultimately obtain daemon where daemon: "bind_jobs sample_sha (\<lambda>p. Ok True) (\<lambda>i. all_published) ?store
      [Ok (sample_hex 32, sample_directory sample_mutated)] True = Ok daemon" "admission_available daemon"
    by (simp add: bind_jobs_def store_scan_def MAX_JOURNAL_DIRECTORY_ENTRIES_def admission_available_def Let_def)
  show ?thesis using admission_follows_reconciliation [OF daemon] daemon(1) by auto
qed

text \<open>C22: the start of a job is durable and exclusive. Take any daemon that started without an issue and
  handled any start requests, whatever the file system did. After the next start request it keeps every
  unsettled job; the unsettled jobs hold exactly the leases of their requests, nobody else holds any, and
  two of them share neither instance, target interface, SQM runtime nor the heavy-traffic lease. A new
  job is queued under an id of its own with its request and journal on disk in the current generation
  and with a readable deadline; an identical repetition changes nothing and returns the existing job;
  and a refused start leaves the leases as they were and adds no job.\<close>

theorem start_job_durable_and_exclusive:
  assumes "reachable_from daemon_start daemon_step daemon"
    "start_job sha256 alive archived retire_ios io boot_clock daemon operation = (daemon', reply)"
  shows "daemon_inv daemon' \<and> start_outcome sha256 operation daemon daemon' reply
    \<and> (\<forall>job\<in>set (cd_jobs daemon). active_job job \<longrightarrow> job \<in> set (cd_jobs daemon'))
    \<and> (\<forall>a\<in>set (cd_jobs daemon'). \<forall>b\<in>set (cd_jobs daemon'). active_job a \<and> active_job b \<and> job_id_of a \<noteq> job_id_of b \<longrightarrow>
        exclusive_jobs a b)"
proof -
  note outcome = start_job_outcome [OF daemon_machine.reachable_inv [OF assms(1)] assms(2)]
  then have "\<forall>a\<in>set (cd_jobs daemon'). \<forall>b\<in>set (cd_jobs daemon'). active_job a \<and> active_job b \<and> job_id_of a \<noteq> job_id_of b \<longrightarrow>
      exclusive_jobs a b"
    using daemon_inv_exclusive by blast
  with outcome show ?thesis by blast
qed

theorem start_job_durable_and_exclusive_witness:
  "\<exists>daemon' job. start_job sample_sha (\<lambda>p. Ok True) (\<lambda>job. Ok ()) (\<lambda>i. \<lparr>io_rename = Ok (), io_sync_staged = Ok (), 
        io_removal = Removed\<rparr>) sample_create_io (Ok 5000) sample_daemon (Some sample_request) = (daemon', JobReply job False)
     \<and> daemon_inv daemon' \<and> job_stored sample_sha (cd_store daemon') sample_request (sj_journal job)"
proof -
  let ?ios = "\<lambda>i. \<lparr>io_rename = Ok (), io_sync_staged = Ok (), io_removal = Removed\<rparr>"
  obtain daemon' job where start: "start_job sample_sha (\<lambda>p. Ok True) (\<lambda>job. Ok ()) ?ios sample_create_io (Ok 5000) sample_daemon
      (Some sample_request) = (daemon', JobReply job False)"
    using sample_start_admits by blast
  then show ?thesis
    using start_job_durable_and_exclusive [OF sample_daemon_reachable start] by (auto simp: start_outcome_def)
qed

text \<open>C29: an interrupted admission blocks the next start. Wherever an admission stops after the directory of
  the new job was created, the directory stays behind. As long as it has no state file, whatever else is
  in it and whatever its permissions, every later start of the daemon that lists it reports an unsafe
  entry and refuses all jobs, and the same job cannot be created again. A creation that reports an error
  at any step, from the permissions of the directory to the write of the state file, leaves such a
  directory, except when only the sync of the finished directory failed: then the job is on disk
  complete.\<close>

theorem interrupted_admission_blocks_restart:
  assumes "create_guards store r j boot_clock = Ok a" "job_dir store (jj_job_id j) = None" "io_create_dir io = Ok ()"
    "store_create sha256 io boot_clock store r j = (store', Err e)"
  shows "\<exists>d. job_dir store' (jj_job_id j) = Some d
    \<and> (jd_files d STATE_FILE = None \<or> (\<exists>e'. io_state io = DirectoryUnsynced e') \<and> job_stored sha256 store' r j)
    \<and> (\<forall>d' alive ios restarted listing requested daemon.
        jd_files d' STATE_FILE = None \<and> Ok (jj_job_id j, d') \<in> set listing
        \<and> bind_jobs sha256 alive ios restarted listing requested = Ok daemon \<longrightarrow> \<not> admission_available daemon)
    \<and> (\<forall>io' clock'. is_err (snd (store_create sha256 io' clock' store' r j)))"
proof -
  have "\<exists>d. job_dir store' (jj_job_id j) = Some d
      \<and> (jd_files d STATE_FILE = None \<or> (\<exists>e'. io_state io = DirectoryUnsynced e') \<and> job_stored sha256 store' r j)"
  proof (rule create_failed [OF assms(4,1,2,3)])
    fix d assume "store' = set_job_dir store (jj_job_id j) d" "jd_files d STATE_FILE = None"
    then show ?thesis by simp
  next
    fix store2 e2 assume two: "io_state io = DirectoryUnsynced e2" "js_jobs store' = js_jobs store2" "js_jobs_dir store' = js_jobs_dir store2"
      "store_create sha256 (io\<lparr>io_state := Published\<rparr>) boot_clock store r j = (store2, Ok ())"
    have "job_stored sha256 store2 r j" by (rule create_stored(1) [OF two(4)])
    then have "job_stored sha256 store' r j" using two(2,3) by (simp add: job_stored_def job_dir_def job_path_def)
    then show ?thesis using two(1) by (auto simp: job_stored_def)
  qed
  moreover have unsafe: "\<exists>e. scan_entry sha256 alive restarted (Ok (jj_job_id j, d')) = Err e"
    if "jd_files d' STATE_FILE = None" for alive restarted d'
    using that by (cases "jd_private d'")
      (simp_all add: scan_entry_def scan_one_def stored_journal_def read_bounded_def secure_existing_job_dir_def Let_def)
  have "\<not> admission_available daemon"
    if "jd_files d' STATE_FILE = None" "bind_jobs sha256 alive ios restarted listing requested = Ok daemon" "Ok (jj_job_id j, d') \<in> set listing"
    for d' alive ios restarted listing requested daemon
    using bind_jobs_unsafe [OF that(2,3)] unsafe [OF that(1), of alive restarted] by (auto simp: admission_available_def)
  moreover have "is_err (snd (store_create sha256 io' clock' store' r j))" if "job_dir store' (jj_job_id j) \<noteq> None" for io' clock'
    using that by (auto simp: store_create_def is_err_def split: sum.splits)
  ultimately show ?thesis by blast
qed

text \<open>The disk is full when the deadline of the sample job is written: its directory holds the request only.\<close>

theorem interrupted_admission_blocks_restart_witness:
  "\<exists>store' d. store_create sample_sha (sample_create_io\<lparr>io_anchor := CreateFailed ''no space''\<rparr>) (Ok 5000) (cd_store sample_daemon)
        sample_request sample_queued = (store', Err ''unable to initialize job journal: no space'')
     \<and> job_dir store' (sample_hex 32) = Some d \<and> jd_files d STATE_FILE = None
     \<and> (\<forall>ios daemon. bind_jobs sample_sha (\<lambda>p. Ok True) ios store' [Ok (sample_hex 32, d)] True = Ok daemon \<longrightarrow> \<not> admission_available daemon)"
proof -
  let ?io = "sample_create_io\<lparr>io_anchor := CreateFailed ''no space''\<rparr>"
  obtain a where a: "create_guards (cd_store sample_daemon) sample_request sample_queued (Ok 5000) = Ok a"
    using sample_create_guards by blast
  obtain rtext where rtext: "request_encode sample_sha sample_request = Ok rtext"
    using request_encode_always_replays [of sample_sha, OF _ sample_request_valid] by (auto simp: sample_sha_def)
  have none: "job_dir (cd_store sample_daemon) (jj_job_id sample_queued) = None" by (simp add: sample_daemon_def job_dir_def)
  have id: "jj_job_id sample_queued = sample_hex 32" by (simp add: sample_queued_def)
  obtain store' where created: "store_create sample_sha ?io (Ok 5000) (cd_store sample_daemon) sample_request sample_queued
      = (store', Err ''unable to initialize job journal: no space'')"
    using a none rtext request_encode_text(2) [OF rtext]
    by (simp add: store_create_def sample_create_io_def and_write_def journal_write_def write_anchor_def publish_file_def Let_def)
  have "io_create_dir ?io = Ok ()" "\<And>e. io_state ?io \<noteq> DirectoryUnsynced e" by (simp_all add: sample_create_io_def)
  from interrupted_admission_blocks_restart [OF a none this(1) created] this(2) obtain d where
    b: "job_dir store' (sample_hex 32) = Some d" "jd_files d STATE_FILE = None"
      "\<And>alive ios restarted listing requested daemon. Ok (sample_hex 32, d) \<in> set listing
        \<Longrightarrow> bind_jobs sample_sha alive ios restarted listing requested = Ok daemon \<Longrightarrow> \<not> admission_available daemon"
    unfolding id by blast
  have "\<not> admission_available daemon"
    if "bind_jobs sample_sha (\<lambda>p. Ok True) ios store' [Ok (sample_hex 32, d)] True = Ok daemon" for ios daemon
    by (rule b(3) [OF _ that]) simp
  with created b(1,2) show ?thesis by blast
qed

end
