(* ===== verification/Spec2Isabelle.thy ===== *)
theory Spec2Isabelle
  imports Control_Message Operation_State Sqm_Recovery_Gate Lease_Table Rate_Controller Scheduled_Launch Quiet_Window
    Local_Calendar Job_Admission
begin

text \<open>
  A verification development of cake-autorate-rs for OpenWrt: a daemon that adapts the rates of CAKE
  shapers to the measured latency, and a calibration service beside it that runs speed tests, rates a
  link and tunes the shaper, on request from LuCI or on a schedule. All paths below are relative to
  \<open>src/package/cake-autorate-rs/src/src/\<close>.

  \<^bold>\<open>How the parts work together.\<close> A request is a record that LuCI or the scheduler builds; the coordinator
  decodes it from a control message, admits it, takes the leases of the resources it names and drives
  the job through its states. The scheduler keeps one record per instance: a cursor with the due time
  and a ledger of the traffic it may use; it reserves traffic for an admitted run and settles it later.
  Independently of all jobs the controller turns latency samples into shaper rates.

  \<^bold>\<open>Common ground.\<close>
  \<^item> \<open>Rust_Prelude\<close>: results, machine integers with checked and saturating arithmetic, byte strings with
    the methods of \<open>str\<close> that are used, decimal numbers, UTF-8; the shared lemmas and simp rules.
  \<^item> \<open>Machine\<close>: reachable states and the locale of an invariant of a step relation. \<open>Codec\<close>: the locale
    of an exact record codec. Every record format and every state machine below interprets one of them.
  \<^item> \<open>Durable_File\<close>: files that are replaced by a rename, and how such a write can fail.
  \<^item> \<open>Float64\<close>: the type \<open>f64\<close> as exact rational arithmetic with one rounding, executable.
  \<^item> \<open>Ip_Address\<close>: printing and parsing of IPv4 and IPv6 addresses as in the standard library.

  \<^bold>\<open>The scheduler\<close> (\<open>operations/scheduler.rs\<close>, \<open>scheduler_store.rs\<close>, \<open>scheduler_runtime.rs\<close>).
  \<^item> \<open>Scheduler_Text\<close>: the ordered text record, canonical integers, the calendar check and exact byte sums;
    the calendar check is the Gregorian calendar.
  \<^item> \<open>Schedule_Cursor\<close>: due time, failure fence and the admission decision with its gates; when a run is
    admitted, that a failed slot is not retried under the same authority, spacing after a success.
  \<^item> \<open>Budget_Ledger\<close>: the traffic ledger, its reachable states, its refinement of an abstract account that
    holds only settled bytes and one reservation, its limits, blocking and settlement.
  \<^item> \<open>Scheduler_State\<close>: the stored state and its codec, exact on every target (\<open>usize_max\<close> is an argument).
  \<^item> \<open>Scheduler_Store\<close> and \<open>Scheduled_Run\<close>: the directory of records with failed writes, crashes and
    reopenings, and the operations that reserve, settle, mark and acknowledge a run in it.
  \<^item> \<open>Scheduler_Config\<close> (\<open>scheduler_config.rs\<close>): the policy read from \<open>uci\<close>, what its types promise, and
    that caching it is invisible. \<open>Scheduled_Launch\<close>: which policies and budgets lead to an admitted request.
  \<^item> \<open>Quiet_Window\<close> and \<open>Local_Calendar\<close>: the evidence that an instance is quiet, and the local calendar.

  \<^bold>\<open>The operation protocol\<close> (\<open>operations/protocol.rs\<close>, \<open>routing.rs\<close>, \<open>autotune.rs\<close>, \<open>launch_route.rs\<close>,
  \<open>autotune_request.rs\<close>, \<open>sqm_identity.rs\<close>, \<open>autotune_capture_policy.rs\<close>).
  \<^item> \<open>Operation_Terms\<close>, \<open>Operation_Wire\<close>: the closed vocabularies and the escaped record format.
  \<^item> \<open>Capture_Policy\<close>: the measurement policies and their canonical digest.
  \<^item> \<open>Route_Identity\<close>, \<open>Launch_Route\<close>: the route a job is bound to, and what a launch may select.
  \<^item> \<open>Launch_Intent\<close>: the launcher's flags, the traffic a run needs and the request built from an intent.
  \<^item> \<open>Operation_Request\<close>, \<open>Request_Codec\<close>, \<open>Control_Message\<close>: the request with its validation and
    admission, its 38 record schemas and the control messages; exact codecs and exact admission.

  \<^bold>\<open>The coordinator's tables\<close> (\<open>operations/state.rs\<close>, \<open>lease.rs\<close>, \<open>sqm_recovery.rs\<close>): \<open>Operation_State\<close>
  is the life of a job and that it ends, \<open>Lease_Table\<close> that leases are exclusive and complete,
  \<open>Sqm_Recovery_Gate\<close> when recovery lets a job in.

  \<^bold>\<open>The job journals\<close> (\<open>operations/journal.rs\<close>, \<open>deadline.rs\<close>).
  \<^item> \<open>Job_Journal\<close>: the durable record of a job and every operation on it; a mutated runtime is never
    forgotten, and every job can be settled. \<open>Journal_Codec\<close>: its text, an exact codec over four schemas.
  \<^item> \<open>Operation_Deadline\<close>: deadlines on the boot clock, which the wall clock cannot move.
  \<^item> \<open>Journal_Store\<close>: the directories of the jobs with failed writes and interrupted operations; replacing
    a journal is atomic.

  \<^bold>\<open>The coordinator\<close> (\<open>operations/coordinator.rs\<close>). \<open>Coordinator_Start\<close>: what happens to the journals when
  the daemon starts; a restart loses no job. \<open>Job_Admission\<close>: the daemon after its start, retention and the
  start handler; admission waits for the reconciliation, an admitted job is durable, and unsettled jobs
  never share a resource.

  \<^bold>\<open>The rate controller\<close> (\<open>adaptive_ceiling.rs\<close>, \<open>latency_baseline.rs\<close>, \<open>config_validation.rs\<close>, the controller
  in \<open>main.rs\<close>): \<open>Adaptive_Ceiling\<close>, \<open>Latency_Baseline\<close>, \<open>Controller_Config\<close>, \<open>Rate_Controller\<close>. The rates
  stay between the configured minimum and the ceiling in every run, the reaction has the right
  direction, and no sample makes the controller panic under a validated configuration.

  \<^bold>\<open>Bounds.\<close> No definition has fuel: every recursion is structural or has a measure. Bounds in statements
  are those of the program: \<open>usize_max\<close> between the record bound and 2^64, \<open>MAX_RECORD_BYTES\<close>, the widths
  of the integers, and room for two increments of a 64-bit sequence number.

  \<^bold>\<open>Not modelled\<close>: system calls, processes, sockets, netlink and UCI access; the Auto-Tune analysis and
  its control plane; the coordinator's event loop, its
  worker processes and its result queries; the Apply transactions; the MQTT
  publisher. Where modelled code calls such code, the outcome is an argument of the definition.
\<close>

end
